(* ===== verification/Rust_Prelude.thy ===== *)
theory Rust_Prelude
  imports Main "HOL-Library.Multiset" "HOL-Library.List_Lexorder"
    "HOL-Library.Product_Lexorder" "HOL-Library.Option_ord" "HOL-Library.Word"
    "HOL-Library.Code_Target_Nat"
begin

text \<open>
  Shared vocabulary of the development: Rust's \<open>Result\<close> as a sum type with its
  \<open>?\<close> operator, Rust strings as lists of Unicode scalar values with the operations of
  \<open>str\<close> the sources call, stable sorting by a key, checked integer conversions, and
  the generic lemmas on them that the component theories use.
  Strings: \<open>str\<close> is a list of scalar values, so \<open>chars().count()\<close> is the
  list's length, \<open>len()\<close> is \<open>str_len\<close> (the length of the UTF-8 encoding), and the byte
  order of \<open>str\<close> is the lexicographic order of the list (UTF-8 keeps code-point order).
\<close>

named_theorems result_simps \<open>equations of the result combinators\<close>
named_theorems str_defs \<open>definitions of the string operations\<close>

subsection \<open>Result\<close>

type_synonym ('e, 'a) result = "'e + 'a"

text \<open>The \<open>?\<close> operator: an error leaves the function at once.\<close>

definition rbind :: "'e + 'a \<Rightarrow> ('a \<Rightarrow> 'e + 'b) \<Rightarrow> 'e + 'b" where
  "rbind m k = (case m of Inl e \<Rightarrow> Inl e | Inr x \<Rightarrow> k x)"

text \<open>An early \<open>return Err(e)\<close> guarded by a condition.\<close>

definition ensure :: "bool \<Rightarrow> 'e \<Rightarrow> 'e + unit" where
  "ensure b e = (if b then Inr () else Inl e)"

text \<open>\<open>Option::ok_or\<close> and \<open>Result::map_err\<close>.\<close>

definition ok_or :: "'a option \<Rightarrow> 'e \<Rightarrow> 'e + 'a" where
  "ok_or x e = (case x of None \<Rightarrow> Inl e | Some y \<Rightarrow> Inr y)"

definition map_err :: "('e \<Rightarrow> 'f) \<Rightarrow> 'e + 'a \<Rightarrow> 'f + 'a" where
  "map_err f m = (case m of Inl e \<Rightarrow> Inl (f e) | Inr x \<Rightarrow> Inr x)"

text \<open>\<open>iter().map(f).collect::<Result<Vec<_>, _>>()\<close>: stops at the first error.\<close>

fun traverse :: "('a \<Rightarrow> 'e + 'b) \<Rightarrow> 'a list \<Rightarrow> 'e + 'b list" where
  "traverse f [] = Inr []"
| "traverse f (x # xs) = rbind (f x) (\<lambda>y. rbind (traverse f xs) (\<lambda>ys. Inr (y # ys)))"

lemma rbind_simps [simp, result_simps]:
  "rbind (Inl e) k = Inl e"
  "rbind (Inr x) k = k x"
  by (simp_all add: rbind_def)

lemma rbind_Inr_iff [simp]: "rbind m k = Inr y \<longleftrightarrow> (\<exists>x. m = Inr x \<and> k x = Inr y)"
  by (cases m) auto

lemma rbind_InrE:
  assumes "rbind m k = Inr y"
  obtains x where "m = Inr x" "k x = Inr y"
  using assms by auto

lemma rbind_Inl_iff: "rbind m k = Inl e \<longleftrightarrow> m = Inl e \<or> (\<exists>x. m = Inr x \<and> k x = Inl e)"
  by (cases m) auto

lemma rbind_cong [fundef_cong]:
  "m = m' \<Longrightarrow> (\<And>x. m' = Inr x \<Longrightarrow> k x = k' x) \<Longrightarrow> rbind m k = rbind m' k'"
  by (cases m') auto

lemma ensure_simps [simp, result_simps]:
  "ensure True e = Inr ()"
  "ensure False e = Inl e"
  by (simp_all add: ensure_def)

lemma ensure_Inr_iff [simp]: "ensure b e = Inr u \<longleftrightarrow> b"
  by (auto simp: ensure_def)

lemma ensure_Inl_iff [simp]: "ensure b e = Inl e' \<longleftrightarrow> \<not> b \<and> e = e'"
  by (auto simp: ensure_def)

lemma ok_or_simps [simp, result_simps]:
  "ok_or None e = Inl e"
  "ok_or (Some x) e = Inr x"
  by (simp_all add: ok_or_def)

lemma ok_or_Inr_iff [simp]: "ok_or m e = Inr x \<longleftrightarrow> m = Some x"
  by (cases m) auto

lemma ok_or_Inl_iff [simp]: "ok_or m e = Inl e' \<longleftrightarrow> m = None \<and> e = e'"
  by (cases m) auto

lemma map_err_simps [simp, result_simps]:
  "map_err f (Inl e) = Inl (f e)"
  "map_err f (Inr x) = Inr x"
  by (simp_all add: map_err_def)

lemma map_err_Inr_iff [simp]: "map_err f m = Inr x \<longleftrightarrow> m = Inr x"
  by (cases m) auto

lemma traverse_Inr_iff: "traverse f xs = Inr ys \<longleftrightarrow> list_all2 (\<lambda>x y. f x = Inr y) xs ys"
  by (induction xs arbitrary: ys) (auto simp: list_all2_Cons1)

lemma traverse_map: "traverse f (map g xs) = traverse (f \<circ> g) xs"
  by (induction xs) simp_all

lemma traverse_all_Inr: "(\<And>x. x \<in> set xs \<Longrightarrow> f x = Inr (g x)) \<Longrightarrow> traverse f xs = Inr (map g xs)"
  by (induction xs) simp_all

lemma traverse_cong [fundef_cong]:
  "xs = ys \<Longrightarrow> (\<And>x. x \<in> set ys \<Longrightarrow> f x = g x) \<Longrightarrow> traverse f xs = traverse g ys"
proof (induction ys arbitrary: xs)
  case (Cons y ys)
  have "traverse f ys = traverse g ys"
    using Cons.IH [of ys] Cons.prems(2) by simp
  with Cons.prems show ?case by simp
qed simp

subsection \<open>Identifiers\<close>

text \<open>
  A \<open>uuid::Uuid\<close> is its 128-bit value; the nil UUID is zero and the order is the order of the
  value. The textual forms belong to the \<open>uuid\<close> crate and are parameters where they are used.
\<close>

type_synonym uuid = "128 word"

text \<open>The modulus as a numeral, so that an evaluation does not compute the power each time.\<close>

lemma take_bit_uuid_code [code]:
  "take_bit n (k::int) =
     (if n = 128
      then (if 0 \<le> k \<and> k < 340282366920938463463374607431768211456 then k
            else k mod 340282366920938463463374607431768211456)
      else k mod 2 ^ n)"
  by (auto simp: take_bit_eq_mod)

definition is_nil :: "uuid \<Rightarrow> bool" where
  "is_nil u \<longleftrightarrow> u = 0"

subsection \<open>Characters\<close>

type_synonym rchar = nat
type_synonym str = "rchar list"

text \<open>A string literal of the source (ASCII) as scalar values.\<close>

definition lit :: "string \<Rightarrow> str" where
  "lit s = map of_char s"

definition chr :: "char \<Rightarrow> rchar" where
  "chr c = of_char c"

text \<open>\<open>char::is_control\<close>: general category Cc.\<close>

definition is_control :: "rchar \<Rightarrow> bool" where
  "is_control c \<longleftrightarrow> c \<le> 31 \<or> (127 \<le> c \<and> c \<le> 159)"

text \<open>\<open>char::is_whitespace\<close>: the Unicode property White\_Space.\<close>

definition is_whitespace :: "rchar \<Rightarrow> bool" where
  "is_whitespace c \<longleftrightarrow>
     (9 \<le> c \<and> c \<le> 13) \<or> c = 32 \<or> c = 133 \<or> c = 160 \<or> c = 5760 \<or> (8192 \<le> c \<and> c \<le> 8202)
     \<or> c = 8232 \<or> c = 8233 \<or> c = 8239 \<or> c = 8287 \<or> c = 12288"

definition is_ascii_uppercase :: "rchar \<Rightarrow> bool" where
  "is_ascii_uppercase c \<longleftrightarrow> 65 \<le> c \<and> c \<le> 90"

definition is_ascii_lowercase :: "rchar \<Rightarrow> bool" where
  "is_ascii_lowercase c \<longleftrightarrow> 97 \<le> c \<and> c \<le> 122"

definition is_ascii_digit :: "rchar \<Rightarrow> bool" where
  "is_ascii_digit c \<longleftrightarrow> 48 \<le> c \<and> c \<le> 57"

definition is_ascii_alphanumeric :: "rchar \<Rightarrow> bool" where
  "is_ascii_alphanumeric c \<longleftrightarrow> is_ascii_uppercase c \<or> is_ascii_lowercase c \<or> is_ascii_digit c"

definition is_ascii_hexdigit :: "rchar \<Rightarrow> bool" where
  "is_ascii_hexdigit c \<longleftrightarrow> is_ascii_digit c \<or> (65 \<le> c \<and> c \<le> 70) \<or> (97 \<le> c \<and> c \<le> 102)"

definition is_lower_hex :: "rchar \<Rightarrow> bool" where
  "is_lower_hex c \<longleftrightarrow> is_ascii_digit c \<or> (97 \<le> c \<and> c \<le> 102)"

definition to_ascii_upper :: "rchar \<Rightarrow> rchar" where
  "to_ascii_upper c = (if is_ascii_lowercase c then c - 32 else c)"

definition to_ascii_lower :: "rchar \<Rightarrow> rchar" where
  "to_ascii_lower c = (if is_ascii_uppercase c then c + 32 else c)"

definition utf8_len :: "rchar \<Rightarrow> nat" where
  "utf8_len c = (if c < 128 then 1 else if c < 2048 then 2 else if c < 65536 then 3 else 4)"

lemmas ascii_defs [str_defs] =
  is_control_def is_whitespace_def is_ascii_uppercase_def is_ascii_lowercase_def
  is_ascii_digit_def is_ascii_alphanumeric_def is_ascii_hexdigit_def is_lower_hex_def
  to_ascii_upper_def to_ascii_lower_def utf8_len_def

lemma to_ascii_upper_idem [simp]: "to_ascii_upper (to_ascii_upper c) = to_ascii_upper c"
  by (auto simp: to_ascii_upper_def is_ascii_lowercase_def)

lemma to_ascii_lower_idem [simp]: "to_ascii_lower (to_ascii_lower c) = to_ascii_lower c"
  by (auto simp: to_ascii_lower_def is_ascii_uppercase_def)

lemma is_whitespace_to_ascii_upper [simp]: "is_whitespace (to_ascii_upper c) = is_whitespace c"
  by (auto simp: to_ascii_upper_def is_whitespace_def is_ascii_lowercase_def)

subsection \<open>String operations\<close>

definition str_len :: "str \<Rightarrow> nat" where
  "str_len s = sum_list (map utf8_len s)"

definition trim_start :: "str \<Rightarrow> str" where
  "trim_start s = dropWhile is_whitespace s"

definition trim_end :: "str \<Rightarrow> str" where
  "trim_end s = rev (dropWhile is_whitespace (rev s))"

definition trim :: "str \<Rightarrow> str" where
  "trim s = trim_end (trim_start s)"

definition to_ascii_uppercase :: "str \<Rightarrow> str" where
  "to_ascii_uppercase s = map to_ascii_upper s"

definition to_ascii_lowercase :: "str \<Rightarrow> str" where
  "to_ascii_lowercase s = map to_ascii_lower s"

definition starts_with :: "str \<Rightarrow> str \<Rightarrow> bool" where
  "starts_with p s \<longleftrightarrow> take (length p) s = p"

definition ends_with :: "str \<Rightarrow> str \<Rightarrow> bool" where
  "ends_with p s \<longleftrightarrow> starts_with (rev p) (rev s)"

definition strip_prefix :: "str \<Rightarrow> str \<Rightarrow> str option" where
  "strip_prefix p s = (if starts_with p s then Some (drop (length p) s) else None)"

text \<open>\<open>str::contains\<close> with a string pattern.\<close>

fun contains_str :: "str \<Rightarrow> str \<Rightarrow> bool" where
  "contains_str p [] \<longleftrightarrow> p = []"
| "contains_str p (c # cs) \<longleftrightarrow> starts_with p (c # cs) \<or> contains_str p cs"

text \<open>\<open>str::split\<close> on one character: always at least one piece.\<close>

fun split_on :: "rchar \<Rightarrow> str \<Rightarrow> str list" where
  "split_on d [] = [[]]"
| "split_on d (c # cs) =
     (if c = d then [] # split_on d cs
      else (case split_on d cs of [] \<Rightarrow> [[c]] | w # ws \<Rightarrow> (c # w) # ws))"

definition split_once :: "rchar \<Rightarrow> str \<Rightarrow> (str \<times> str) option" where
  "split_once d s =
     (if d \<in> set s then Some (takeWhile (\<lambda>c. c \<noteq> d) s, tl (dropWhile (\<lambda>c. c \<noteq> d) s)) else None)"

definition rsplit_once :: "rchar \<Rightarrow> str \<Rightarrow> (str \<times> str) option" where
  "rsplit_once d s =
     (case split_once d (rev s) of None \<Rightarrow> None | Some (a, b) \<Rightarrow> Some (rev b, rev a))"

text \<open>\<open>[str]::join\<close>.\<close>

fun join_with :: "str \<Rightarrow> str list \<Rightarrow> str" where
  "join_with sep [] = []"
| "join_with sep [w] = w"
| "join_with sep (w # v # ws) = w @ sep @ join_with sep (v # ws)"

text \<open>Decimal rendering of an unsigned integer (\<open>to_string\<close>, \<open>{}\<close>).\<close>

fun show_nat :: "nat \<Rightarrow> str" where
  "show_nat n = (if n < 10 then [48 + n] else show_nat (n div 10) @ [48 + n mod 10])"

declare show_nat.simps [simp del]

text \<open>
  The same recursion guarded by a pattern, so that evaluating a term in which the number is not
  known yet stops.
\<close>

fun show_nat_if :: "bool \<Rightarrow> nat \<Rightarrow> str" where
  "show_nat_if True n = [48 + n]"
| "show_nat_if False n = show_nat (n div 10) @ [48 + n mod 10]"

lemma show_nat_code [code]: "show_nat n = show_nat_if (n < 10) n"
  by (subst show_nat.simps) simp

lemmas str_op_defs [str_defs] =
  str_len_def trim_start_def trim_end_def trim_def to_ascii_uppercase_def
  to_ascii_lowercase_def starts_with_def ends_with_def strip_prefix_def split_once_def
  rsplit_once_def

text \<open>Reading decimal digits back; rendering is injective.\<close>

definition digits_value :: "str \<Rightarrow> nat" where
  "digits_value s = foldl (\<lambda>a d. 10 * a + (d - 48)) 0 s"

lemma digits_value_show_nat [simp]: "digits_value (show_nat n) = n"
proof (induction n rule: show_nat.induct)
  case (1 n)
  then show ?case by (subst show_nat.simps) (auto simp: digits_value_def)
qed

lemma show_nat_inj [simp]: "show_nat m = show_nat n \<longleftrightarrow> m = n"
  by (metis digits_value_show_nat)

lemma trim_start_idem [simp]: "trim_start (trim_start s) = trim_start s"
  by (simp add: trim_start_def)

lemma trim_end_idem [simp]: "trim_end (trim_end s) = trim_end s"
  by (simp add: trim_end_def)

lemma trim_start_eq_self: "trim_start s = s \<longleftrightarrow> s = [] \<or> \<not> is_whitespace (hd s)"
proof (cases s)
  case (Cons c cs)
  have "length (dropWhile is_whitespace cs) < length s"
    using Cons by (simp add: le_imp_less_Suc length_dropWhile_le)
  then have "dropWhile is_whitespace cs \<noteq> s" by auto
  with Cons show ?thesis by (auto simp: trim_start_def)
qed (simp add: trim_start_def)

lemma trim_end_prefix: "\<exists>t. s = trim_end s @ t"
proof -
  have "s = rev (dropWhile is_whitespace (rev s)) @ rev (takeWhile is_whitespace (rev s))"
    by (metis rev_append rev_rev_ident takeWhile_dropWhile_id)
  then show ?thesis by (auto simp: trim_end_def)
qed

lemma trim_start_trim [simp]: "trim_start (trim s) = trim s"
proof -
  obtain t where t: "trim_start s = trim s @ t"
    using trim_end_prefix [of "trim_start s"] by (auto simp: trim_def)
  have "trim_start s = [] \<or> \<not> is_whitespace (hd (trim_start s))"
    using trim_start_eq_self [of "trim_start s"] by simp
  with t have "trim s = [] \<or> \<not> is_whitespace (hd (trim s))"
    by (cases "trim s") auto
  then show ?thesis by (simp add: trim_start_eq_self)
qed

lemma trim_idem [simp]: "trim (trim s) = trim s"
proof -
  have "trim (trim s) = trim_end (trim s)" by (simp add: trim_def [of "trim s"])
  also have "\<dots> = trim s" by (simp add: trim_def)
  finally show ?thesis .
qed

lemma set_trim: "set (trim s) \<subseteq> set s"
  by (auto simp: trim_def trim_end_def trim_start_def dest!: set_dropWhileD)

lemma length_trim: "length (trim s) \<le> length s"
  by (simp add: trim_def trim_end_def trim_start_def)
    (metis le_trans length_dropWhile_le length_rev)

lemma trim_map:
  assumes "\<And>c. is_whitespace (f c) = is_whitespace c"
  shows "trim (map f s) = map f (trim s)"
  using assms by (simp add: trim_def trim_end_def trim_start_def dropWhile_map rev_map comp_def)

lemma trim_to_ascii_uppercase: "trim (to_ascii_uppercase s) = to_ascii_uppercase (trim s)"
  by (simp add: to_ascii_uppercase_def trim_map)

lemma to_ascii_uppercase_idem [simp]:
  "to_ascii_uppercase (to_ascii_uppercase s) = to_ascii_uppercase s"
  by (simp add: to_ascii_uppercase_def)

lemma to_ascii_uppercase_Nil_iff [simp]: "to_ascii_uppercase s = [] \<longleftrightarrow> s = []"
  by (simp add: to_ascii_uppercase_def)

lemma str_len_simps [simp]:
  "str_len [] = 0"
  "str_len (c # cs) = utf8_len c + str_len cs"
  "str_len (xs @ ys) = str_len xs + str_len ys"
  by (simp_all add: str_len_def)

lemma length_le_str_len: "length s \<le> str_len s"
proof (induction s)
  case (Cons c s)
  have "1 \<le> utf8_len c" by (simp add: utf8_len_def)
  with Cons show ?case by simp
qed simp

lemma str_len_ascii: "(\<And>c. c \<in> set s \<Longrightarrow> c < 128) \<Longrightarrow> str_len s = length s"
  by (induction s) (simp_all add: utf8_len_def)

subsubsection \<open>UTF-8\<close>

definition utf8_char :: "rchar \<Rightarrow> nat list" where
  "utf8_char c =
     (if c < 128 then [c]
      else if c < 2048 then [192 + c div 64, 128 + c mod 64]
      else if c < 65536 then [224 + c div 4096, 128 + c div 64 mod 64, 128 + c mod 64]
      else [240 + c div 262144, 128 + c div 4096 mod 64, 128 + c div 64 mod 64, 128 + c mod 64])"

definition as_bytes :: "str \<Rightarrow> nat list" where
  "as_bytes s = concat (map utf8_char s)"

lemma length_utf8_char [simp]: "length (utf8_char c) = utf8_len c"
  by (simp add: utf8_char_def utf8_len_def)

lemma as_bytes_simps [simp]:
  "as_bytes [] = []"
  "as_bytes (c # s) = utf8_char c @ as_bytes s"
  by (simp_all add: as_bytes_def)

lemma length_as_bytes [simp]: "length (as_bytes s) = str_len s"
  by (induction s) simp_all

lemma base64_digits:
  fixes c d :: nat
  shows "c div 64 = d div 64 \<Longrightarrow> c mod 64 = d mod 64 \<Longrightarrow> c = d"
  by (metis div_mult_mod_eq)

lemma utf8_char_eq: "utf8_char c @ xs = utf8_char d @ ys \<Longrightarrow> c = d \<and> xs = ys"
proof -
  assume eq: "utf8_char c @ xs = utf8_char d @ ys"
  have div2: "x div 4096 = x div 64 div 64" "x div 262144 = x div 64 div 64 div 64" for x :: nat
    by (simp_all add: div_mult2_eq [symmetric])
  have "c = d"
    using eq unfolding utf8_char_def
    by (auto split: if_splits simp: div2 intro!: base64_digits)
  with eq show ?thesis by simp
qed

lemma as_bytes_inj [simp]: "as_bytes s = as_bytes t \<longleftrightarrow> s = t"
proof
  assume "as_bytes s = as_bytes t"
  then show "s = t"
  proof (induction s arbitrary: t)
    case Nil
    then show ?case by (cases t) (auto simp: utf8_char_def split: if_splits)
  next
    case (Cons c s)
    show ?case
    proof (cases t)
      case Nil
      with Cons.prems show ?thesis by (simp add: utf8_char_def split: if_splits)
    next
      case (Cons d t')
      with Cons.prems have "c = d \<and> as_bytes s = as_bytes t'" by (intro utf8_char_eq) simp
      with Cons Cons.IH show ?thesis by simp
    qed
  qed
qed simp

lemma as_bytes_ascii: "(\<And>c. c \<in> set s \<Longrightarrow> c < 128) \<Longrightarrow> as_bytes s = s"
  by (induction s) (simp_all add: utf8_char_def)

subsubsection \<open>Splitting and joining\<close>

lemma split_on_not_Nil [simp]: "split_on d s \<noteq> []"
  by (cases s) (auto split: list.splits)

lemma split_on_Cons_other:
  "c \<noteq> d \<Longrightarrow> split_on d (c # s) = (c # hd (split_on d s)) # tl (split_on d s)"
  by (cases "split_on d s") simp_all

lemma split_on_no_sep: "d \<notin> set s \<Longrightarrow> split_on d s = [s]"
  by (induction s) auto

lemma split_on_pieces: "w \<in> set (split_on d s) \<Longrightarrow> d \<notin> set w \<and> set w \<subseteq> set s"
proof (induction s arbitrary: w)
  case Nil
  then show ?case by simp
next
  case (Cons c s)
  show ?case
  proof (cases "c = d")
    case True
    with Cons show ?thesis by auto
  next
    case False
    have "hd (split_on d s) \<in> set (split_on d s)" by simp
    then have "d \<notin> set (hd (split_on d s)) \<and> set (hd (split_on d s)) \<subseteq> set s"
      by (rule Cons.IH)
    moreover have "w \<in> set (split_on d s)" if "w \<in> set (tl (split_on d s))"
      using that by (cases "split_on d s") simp_all
    moreover have "w = c # hd (split_on d s) \<or> w \<in> set (tl (split_on d s))"
      using Cons.prems False by (simp add: split_on_Cons_other del: split_on.simps)
    ultimately show ?thesis using Cons.IH False by fastforce
  qed
qed

lemma split_on_append_sep:
  "d \<notin> set w \<Longrightarrow> split_on d (w @ d # s) = w # split_on d s"
  by (induction w) auto

lemma split_on_join:
  "ws \<noteq> [] \<Longrightarrow> (\<And>w. w \<in> set ws \<Longrightarrow> d \<notin> set w) \<Longrightarrow> split_on d (join_with [d] ws) = ws"
proof (induction ws rule: induct_list012)
  case (3 w v ws)
  then have "split_on d (join_with [d] (v # ws)) = v # ws" by simp
  with 3 show ?case by (simp add: split_on_append_sep)
qed (auto simp: split_on_no_sep)

lemma split_once_Some_iff: "split_once d s = Some (a, b) \<longleftrightarrow> s = a @ d # b \<and> d \<notin> set a"
proof
  assume h: "split_once d s = Some (a, b)"
  then have d: "d \<in> set s"
    and ab: "a = takeWhile (\<lambda>c. c \<noteq> d) s" "b = tl (dropWhile (\<lambda>c. c \<noteq> d) s)"
    by (auto simp: split_once_def split: if_splits)
  from d have "dropWhile (\<lambda>c. c \<noteq> d) s \<noteq> []" by (auto simp: dropWhile_eq_Nil_conv)
  moreover from this have "hd (dropWhile (\<lambda>c. c \<noteq> d) s) = d"
    using hd_dropWhile by blast
  ultimately have "dropWhile (\<lambda>c. c \<noteq> d) s = d # b" using ab(2) by (metis list.collapse)
  then show "s = a @ d # b \<and> d \<notin> set a"
    using ab(1) by (metis (mono_tags, lifting) set_takeWhileD takeWhile_dropWhile_id)
next
  assume "s = a @ d # b \<and> d \<notin> set a"
  then show "split_once d s = Some (a, b)"
    by (auto simp: split_once_def takeWhile_append dropWhile_append)
qed

lemma rsplit_once_Some_iff: "rsplit_once d s = Some (a, b) \<longleftrightarrow> s = a @ d # b \<and> d \<notin> set b"
proof -
  have "rsplit_once d s = Some (a, b) \<longleftrightarrow> split_once d (rev s) = Some (rev b, rev a)"
    by (auto simp: rsplit_once_def split: option.splits)
  also have "\<dots> \<longleftrightarrow> rev s = rev b @ d # rev a \<and> d \<notin> set b"
    by (simp add: split_once_Some_iff)
  also have "rev s = rev b @ d # rev a \<longleftrightarrow> s = a @ d # b"
    by (metis append.assoc append_Cons append_Nil rev.simps(2) rev_append rev_rev_ident)
  finally show ?thesis .
qed

lemma strip_prefix_Some_iff [simp]: "strip_prefix p s = Some t \<longleftrightarrow> s = p @ t"
  by (auto simp: strip_prefix_def starts_with_def) (metis append_take_drop_id)

text \<open>What the tests on patterns mean.\<close>

lemma length_pos: "1 \<le> length xs \<longleftrightarrow> xs \<noteq> []" "Suc 0 \<le> length xs \<longleftrightarrow> xs \<noteq> []"
  by (cases xs; simp)+

lemma starts_with_iff: "starts_with p s \<longleftrightarrow> (\<exists>r. s = p @ r)"
  unfolding starts_with_def by (metis append_eq_conv_conj append_take_drop_id)

lemma ends_with_iff: "ends_with p s \<longleftrightarrow> (\<exists>x. s = x @ p)"
  unfolding ends_with_def starts_with_iff by (metis rev_append rev_rev_ident)

lemma contains_str_iff: "contains_str p s \<longleftrightarrow> (\<exists>x y. s = x @ p @ y)"
proof (induction s)
  case (Cons c s)
  have "(\<exists>x y. c # s = x @ p @ y) \<longleftrightarrow> (\<exists>y. c # s = p @ y) \<or> (\<exists>x y. s = x @ p @ y)"
    by (metis append_Cons append_Nil list.exhaust list.inject)
  then show ?case using Cons by (simp add: starts_with_iff)
qed simp

lemma starts_with_char: "starts_with [c] s \<longleftrightarrow> s \<noteq> [] \<and> hd s = c"
  by (cases s) (auto simp: starts_with_iff)

lemma ends_with_char: "ends_with [c] s \<longleftrightarrow> s \<noteq> [] \<and> last s = c"
  unfolding ends_with_iff by (metis append_butlast_last_id last_snoc snoc_eq_iff_butlast)

subsection \<open>Sorting and removing repeats\<close>

text \<open>
  \<open>sort_by\<close> with a comparator that compares a key is Isabelle's stable \<open>sort_key\<close>;
  \<open>sort\<close> followed by \<open>dedup\<close> is \<open>sort_dedup\<close>; the loop over \<open>windows(2)\<close> that
  looks for two equal neighbours is \<open>adjacent_dup\<close>.
\<close>

definition sort_dedup :: "'a::linorder list \<Rightarrow> 'a list" where
  "sort_dedup xs = remdups_adj (sort xs)"

fun adjacent_dup :: "('a \<Rightarrow> 'k) \<Rightarrow> 'a list \<Rightarrow> 'a option" where
  "adjacent_dup f (x # y # zs) = (if f x = f y then Some x else adjacent_dup f (y # zs))"
| "adjacent_dup f _ = None"

lemma sort_key_sorted_id: "sorted (map f xs) \<Longrightarrow> sort_key f xs = xs"
  by (induction xs) (auto intro!: insort_is_Cons)

lemma sort_key_idem [simp]: "sort_key f (sort_key f xs) = sort_key f xs"
  by (simp add: sort_key_sorted_id)

lemma sort_key_Nil_iff [simp]: "sort_key f xs = [] \<longleftrightarrow> xs = []"
  by (metis length_0_conv length_sort)

lemma distinct_adj_sorted_imp_distinct:
  fixes xs :: "'a::linorder list"
  shows "distinct_adj xs \<Longrightarrow> sorted xs \<Longrightarrow> distinct xs"
proof (induction xs rule: induct_list012)
  case (3 x y zs)
  then have "x < y" by auto
  with 3 show ?case by force
qed simp_all

lemma sort_dedup_eq: "sort_dedup xs = sorted_list_of_set (set xs)"
proof -
  have "sorted (remdups_adj (sort xs))"
    by (rule sorted_remdups_adj) (rule sorted_sort)
  moreover from this have "distinct (remdups_adj (sort xs))"
    by (metis distinct_adj_remdups_adj distinct_adj_sorted_imp_distinct)
  ultimately show ?thesis
    unfolding sort_dedup_def by (metis remdups_adj_set set_sort sorted_list_of_set.idem_if_sorted_distinct)
qed

lemma sort_dedup_cong: "set xs = set ys \<Longrightarrow> sort_dedup xs = sort_dedup ys"
  by (simp add: sort_dedup_eq)

lemma sort_dedup_idem [simp]: "sort_dedup (sort_dedup xs) = sort_dedup xs"
  by (simp add: sort_dedup_eq)

lemma set_sort_dedup [simp]: "set (sort_dedup xs) = set xs"
  by (simp add: sort_dedup_eq)

lemma adjacent_dup_Some: "adjacent_dup f xs = Some x \<Longrightarrow> \<not> distinct (map f xs) \<and> x \<in> set xs"
  by (induction f xs rule: adjacent_dup.induct) (auto split: if_splits)

lemma adjacent_dup_None_iff:
  "sorted (map f xs) \<Longrightarrow> adjacent_dup f xs = None \<longleftrightarrow> distinct (map f xs)"
proof (induction f xs rule: adjacent_dup.induct)
  case (1 f x y zs)
  show ?case
  proof (cases "f x = f y")
    case False
    have "f x \<le> f y" "\<forall>z \<in> set zs. f y \<le> f z" using "1.prems" by auto
    with False have "f x \<notin> f ` set zs" by force
    with False "1" show ?thesis by auto
  qed simp
qed simp_all

lemma insort_key_map: "insort_key f (g x) (map g xs) = map g (insort_key (f \<circ> g) x xs)"
  by (induction xs) simp_all

lemma sort_key_map: "sort_key f (map g xs) = map g (sort_key (f \<circ> g) xs)"
  by (induction xs) (simp_all add: insort_key_map comp_def)

lemma map_sort_key: "map f (sort_key f xs) = sort (map f xs)"
proof -
  have "sort_key (\<lambda>x. x) (map f xs) = map f (sort_key ((\<lambda>x. x) \<circ> f) xs)"
    by (rule sort_key_map)
  then show ?thesis by (simp add: comp_def)
qed

lemma map_option_adjacent_dup: "map_option f (adjacent_dup f xs) = adjacent_dup id (map f xs)"
  by (induction f xs rule: adjacent_dup.induct) simp_all

subsection \<open>Windows of a sorted list\<close>

text \<open>\<open>windows(2)\<close>.\<close>

fun windows2 :: "'a list \<Rightarrow> ('a \<times> 'a) list" where
  "windows2 (x # y # zs) = (x, y) # windows2 (y # zs)"
| "windows2 _ = []"

text \<open>The windows of a sorted list of boundaries: adjacent, and no boundary strictly inside.\<close>

lemma windows2_start:
  fixes b :: int
  shows "sorted_wrt (<) (b # bs) \<Longrightarrow> (s, e) \<in> set (windows2 (b # bs)) \<Longrightarrow> b \<le> s \<and> s < e"
proof (induction bs arbitrary: b)
  case (Cons c bs)
  from Cons.prems(2) consider "s = b" "e = c" | "(s, e) \<in> set (windows2 (c # bs))" by auto
  then show ?case
  proof cases
    case 2
    have "c \<le> s \<and> s < e" using Cons.IH [of c] Cons.prems(1) 2 by simp
    then show ?thesis using Cons.prems(1) by auto
  qed (use Cons.prems(1) in auto)
qed simp

lemma windows2_gap:
  fixes b :: int
  shows "sorted_wrt (<) bs \<Longrightarrow> (s, e) \<in> set (windows2 bs) \<Longrightarrow> b \<in> set bs \<Longrightarrow> b \<le> s \<or> e \<le> b"
proof (induction bs rule: windows2.induct)
  case (1 x y zs)
  from 1(3) consider "s = x" "e = y" | "(s, e) \<in> set (windows2 (y # zs))" by auto
  then show ?case
  proof cases
    case 2
    have "y \<le> s" using windows2_start [OF _ 2] 1(2) by auto
    then show ?thesis using 1 2 by auto
  qed (use 1 in auto)
qed simp_all

lemma windows2_cover:
  fixes b :: int
  shows "sorted_wrt (<) bs \<Longrightarrow> b \<in> set bs \<Longrightarrow> c \<in> set bs \<Longrightarrow> b \<le> x \<Longrightarrow> x < c
    \<Longrightarrow> \<exists>(s, e) \<in> set (windows2 bs). s \<le> x \<and> x < e"
proof (induction bs arbitrary: b rule: windows2.induct)
  case (1 y z zs)
  show ?case
  proof (cases "x < z")
    case True
    have "y \<le> b" using 1(2,3) by auto
    then show ?thesis using True 1(5) by auto
  next
    case False
    then have "c \<in> set (z # zs)" using 1(2,4,6) by auto
    then have "\<exists>(s, e) \<in> set (windows2 (z # zs)). s \<le> x \<and> x < e"
      using 1(1) [of z] 1(2,6) False by auto
    then show ?thesis by auto
  qed
qed auto

text \<open>The spans of a list in order are disjoint, so their lengths add up to the size of their union.\<close>

lemma sum_spans:
  fixes st fin :: "'a \<Rightarrow> int"
  assumes "sorted_wrt (\<lambda>x y. fin x \<le> st y) xs" and "\<forall>x \<in> set xs. st x < fin x"
  shows "sum_list (map (\<lambda>x. fin x - st x) xs) = int (card (\<Union>x \<in> set xs. {st x ..< fin x}))"
  using assms
proof (induction xs)
  case (Cons x xs)
  have "{st x ..< fin x} \<inter> (\<Union>y \<in> set xs. {st y ..< fin y}) = {}" using Cons.prems by fastforce
  then have "card (\<Union>y \<in> set (x # xs). {st y ..< fin y}) = card {st x ..< fin x} + card (\<Union>y \<in> set xs. {st y ..< fin y})"
    by (simp add: card_Un_disjoint)
  then show ?case using Cons by simp
qed simp

subsection \<open>Checked integer conversions\<close>

text \<open>
  Unsigned values are \<open>nat\<close> and signed 64-bit values \<open>int\<close>; every conversion or
  addition of the source that can fail at its width is one of these, and yields \<open>None\<close>
  where the source's \<open>try_from\<close> or \<open>checked_add\<close> does.
\<close>

definition i64_max :: int where
  "i64_max = 9223372036854775807"

definition u64_max :: nat where
  "u64_max = 18446744073709551615"

definition u32_max :: nat where
  "u32_max = 4294967295"

definition i64_try_from :: "nat \<Rightarrow> int option" where
  "i64_try_from n = (if int n \<le> i64_max then Some (int n) else None)"

definition u64_try_from :: "int \<Rightarrow> nat option" where
  "u64_try_from i = (if 0 \<le> i \<and> nat i \<le> u64_max then Some (nat i) else None)"

definition u32_try_from :: "int \<Rightarrow> nat option" where
  "u32_try_from i = (if 0 \<le> i \<and> nat i \<le> u32_max then Some (nat i) else None)"

definition u64_checked_add :: "nat \<Rightarrow> nat \<Rightarrow> nat option" where
  "u64_checked_add a b = (if a + b \<le> u64_max then Some (a + b) else None)"

text \<open>\<open>i64::saturating_sub\<close>.\<close>

definition i64_saturating_sub :: "int \<Rightarrow> int \<Rightarrow> int" where
  "i64_saturating_sub a b = max (- i64_max - 1) (min i64_max (a - b))"

lemma i64_try_from_Some_iff [simp]: "i64_try_from n = Some i \<longleftrightarrow> i = int n \<and> int n \<le> i64_max"
  by (auto simp: i64_try_from_def)

lemma u64_try_from_Some_iff [simp]:
  "u64_try_from i = Some n \<longleftrightarrow> 0 \<le> i \<and> n = nat i \<and> nat i \<le> u64_max"
  by (auto simp: u64_try_from_def)

lemma u32_try_from_Some_iff [simp]:
  "u32_try_from i = Some n \<longleftrightarrow> 0 \<le> i \<and> n = nat i \<and> nat i \<le> u32_max"
  by (auto simp: u32_try_from_def)

lemma u64_checked_add_Some_iff [simp]:
  "u64_checked_add a b = Some c \<longleftrightarrow> c = a + b \<and> a + b \<le> u64_max"
  by (auto simp: u64_checked_add_def)

lemma u64_try_from_i64 [simp]: "int n \<le> i64_max \<Longrightarrow> u64_try_from (int n) = Some n"
  by (simp add: i64_max_def u64_max_def)

lemma traverse_total:
  "\<forall>x \<in> set xs. \<exists>y. f x = Inr y \<and> Q x y \<Longrightarrow> \<exists>ys. traverse f xs = Inr ys \<and> list_all2 Q xs ys"
  by (induction xs) fastforce+

lemma list_all2_map_eq: "list_all2 (\<lambda>x y. f y = g x) xs ys \<Longrightarrow> map f ys = map g xs"
  by (induction rule: list_all2_induct) simp_all

subsection \<open>Sorted maps\<close>

text \<open>
  A \<open>BTreeMap\<close> is the list of its entries by key; \<open>entry(k).or_default().push(v)\<close>,
  \<open>insert(k, v)\<close> of a key that is absent, and \<open>entry(k).or_default()\<close> updated by a function.
\<close>

fun entry_push :: "'k::linorder \<Rightarrow> 'v \<Rightarrow> ('k \<times> 'v list) list \<Rightarrow> ('k \<times> 'v list) list" where
  "entry_push k v [] = [(k, [v])]"
| "entry_push k v ((k', vs) # m) =
     (if k < k' then (k, [v]) # (k', vs) # m
      else if k = k' then (k', vs @ [v]) # m
      else (k', vs) # entry_push k v m)"

fun entry_insert :: "'k::linorder \<Rightarrow> 'v \<Rightarrow> ('k \<times> 'v) list \<Rightarrow> ('k \<times> 'v) list" where
  "entry_insert k v [] = [(k, v)]"
| "entry_insert k v ((k', v') # m) = (if k < k' then (k, v) # (k', v') # m else (k', v') # entry_insert k v m)"

fun entry_update :: "'k::linorder \<Rightarrow> 'v \<Rightarrow> ('v \<Rightarrow> 'v) \<Rightarrow> ('k \<times> 'v) list \<Rightarrow> ('k \<times> 'v) list" where
  "entry_update k d f [] = [(k, f d)]"
| "entry_update k d f ((k', v) # m) =
     (if k < k' then (k, f d) # (k', v) # m
      else if k = k' then (k', f v) # m
      else (k', v) # entry_update k d f m)"

lemma map_of_entry_insert:
  "k \<notin> dom (map_of m) \<Longrightarrow> map_of (entry_insert k v m) = (map_of m)(k \<mapsto> v)"
  by (induction k v m rule: entry_insert.induct) (auto simp: fun_eq_iff)

lemma set_entry_insert: "set (entry_insert k v m) = insert (k, v) (set m)"
  by (induction k v m rule: entry_insert.induct) auto

lemma map_of_entry_push:
  "sorted_wrt (<) (map fst m) \<Longrightarrow>
     map_of (entry_push k v m) = (map_of m)(k \<mapsto> (case map_of m k of None \<Rightarrow> [v] | Some vs \<Rightarrow> vs @ [v]))"
proof (induction k v m rule: entry_push.induct)
  case (2 k v k' vs m)
  have "map_of m k = None" if "k < k'"
    using 2(2) that by (auto simp: map_of_eq_None_iff)
  with 2 show ?case by (auto simp: fun_eq_iff)
qed auto

lemma entry_push_sorted:
  "sorted_wrt (<) (map fst m) \<Longrightarrow> sorted_wrt (<) (map fst (entry_push k v m)) \<and> fst ` set (entry_push k v m) = insert k (fst ` set m)"
  by (induction k v m rule: entry_push.induct) auto

lemma entry_insert_sorted:
  "sorted_wrt (<) (map fst m) \<Longrightarrow> k \<notin> fst ` set m \<Longrightarrow> sorted_wrt (<) (map fst (entry_insert k v m))"
  by (induction k v m rule: entry_insert.induct) (auto simp: set_entry_insert)

lemma entry_update_sorted:
  "sorted_wrt (<) (map fst m) \<Longrightarrow> sorted_wrt (<) (map fst (entry_update k d f m)) \<and> fst ` set (entry_update k d f m) = insert k (fst ` set m)"
  by (induction k d f m rule: entry_update.induct) auto

end
