(* ===== verification/Slug.thy ===== *)
theory Slug
  imports Rust_Prelude
begin

text \<open>
  The function \<open>slug\<close>, which \<open>crates/wts-core/src/lib.rs\<close> and
  \<open>crates/wts-store/src/sqlite.rs\<close> both define with the same body: it makes a path and host
  name component out of any text. The lemmas say which characters can appear in its result.
\<close>

definition slug_char :: "rchar \<Rightarrow> rchar" where
  "slug_char c = (if is_ascii_alphanumeric c then to_ascii_lower c else chr CHR ''-'')"

definition slug :: "str \<Rightarrow> str" where
  "slug value =
     join_with (lit ''-'') (filter (\<lambda>part. part \<noteq> []) (split_on (chr CHR ''-'') (map slug_char value)))"

text \<open>The characters of a slug: lower-case ASCII letters, digits and the separator.\<close>

definition is_slug_char :: "rchar \<Rightarrow> bool" where
  "is_slug_char c \<longleftrightarrow> is_ascii_lowercase c \<or> is_ascii_digit c \<or> c = chr CHR ''-''"

lemma dash [simp]: "chr CHR ''-'' = 45" "lit ''-'' = [45]"
  by (simp_all add: chr_def lit_def)

lemma is_slug_char_slug_char: "is_slug_char (slug_char c)"
  by (auto simp: is_slug_char_def slug_char_def ascii_defs)

lemma slug_char_id: "is_slug_char c \<Longrightarrow> slug_char c = c"
  by (auto simp: is_slug_char_def slug_char_def ascii_defs)

lemma set_join_with: "set (join_with sep ws) \<subseteq> set sep \<union> \<Union> (set ` set ws)"
  by (induction sep ws rule: join_with.induct) auto

lemma hd_join_with: "ws \<noteq> [] \<Longrightarrow> hd ws \<noteq> [] \<Longrightarrow> hd (join_with sep ws) = hd (hd ws)"
  by (cases "(sep, ws)" rule: join_with.cases) simp_all

lemma join_with_not_Nil: "ws \<noteq> [] \<Longrightarrow> \<forall>w \<in> set ws. w \<noteq> [] \<Longrightarrow> join_with sep ws \<noteq> []"
  by (cases "(sep, ws)" rule: join_with.cases) simp_all

lemma last_join_with:
  "ws \<noteq> [] \<Longrightarrow> \<forall>w \<in> set ws. w \<noteq> [] \<Longrightarrow> last (join_with sep ws) = last (last ws)"
proof (induction sep ws rule: join_with.induct)
  case (3 sep w v ws)
  then show ?case using join_with_not_Nil [of "v # ws" sep] by simp
qed simp_all

text \<open>The non-empty pieces between separators, which determine the slug.\<close>

definition slug_parts :: "str \<Rightarrow> str list" where
  "slug_parts value = filter (\<lambda>part. part \<noteq> []) (split_on 45 (map slug_char value))"

lemma slug_eq_join: "slug value = join_with [45] (slug_parts value)"
  by (simp add: slug_def slug_parts_def)

lemma slug_parts_piece:
  assumes "w \<in> set (slug_parts value)"
  shows "w \<noteq> []" and "45 \<notin> set w" and "\<forall>c \<in> set w. is_slug_char c"
proof -
  have w: "w \<in> set (split_on 45 (map slug_char value))" and "w \<noteq> []"
    using assms by (simp_all add: slug_parts_def)
  then show "w \<noteq> []" by simp
  show "45 \<notin> set w" and "\<forall>c \<in> set w. is_slug_char c"
    using split_on_pieces [OF w] is_slug_char_slug_char by auto
qed

lemma slug_Nil_iff: "slug value = [] \<longleftrightarrow> slug_parts value = []"
  using join_with_not_Nil [of "slug_parts value" "[45]"] slug_parts_piece(1)
  by (auto simp: slug_eq_join)

lemma slug_chars: "c \<in> set (slug value) \<Longrightarrow> is_slug_char c"
  using set_join_with [of "[45]" "slug_parts value"] slug_parts_piece(3)
  by (fastforce simp: slug_eq_join is_slug_char_def)

lemma slug_ascii: "c \<in> set (slug value) \<Longrightarrow> c < 128"
  by (drule slug_chars) (auto simp: is_slug_char_def ascii_defs)

lemma slug_len: "str_len (slug value) = length (slug value)"
  by (rule str_len_ascii) (rule slug_ascii)

lemma slug_parts_slug: "slug_parts (slug value) = slug_parts value"
proof (cases "slug_parts value = []")
  case True
  then show ?thesis by (simp add: slug_eq_join) (simp add: slug_parts_def)
next
  case False
  have "map slug_char (slug value) = slug value"
    using slug_chars slug_char_id by (simp add: map_idI)
  moreover have "split_on 45 (slug value) = slug_parts value"
    unfolding slug_eq_join using False slug_parts_piece(2) by (rule split_on_join)
  ultimately show ?thesis
    using slug_parts_piece(1) by (simp add: slug_parts_def [of "slug value"] filter_id_conv)
qed

lemma slug_idem: "slug (slug value) = slug value"
  by (simp add: slug_eq_join slug_parts_slug [unfolded slug_eq_join])

lemma slug_ends:
  assumes "slug value \<noteq> []"
  shows "hd (slug value) \<noteq> 45" and "last (slug value) \<noteq> 45"
proof -
  have parts: "slug_parts value \<noteq> []" using assms by (simp add: slug_Nil_iff)
  have ne: "\<forall>w \<in> set (slug_parts value). w \<noteq> []" using slug_parts_piece(1) by blast
  have "hd (slug value) = hd (hd (slug_parts value))"
    unfolding slug_eq_join using parts ne by (intro hd_join_with) auto
  moreover have "hd (slug_parts value) \<in> set (slug_parts value)" using parts by simp
  ultimately show "hd (slug value) \<noteq> 45"
    using slug_parts_piece(2) ne by (metis list.set_sel(1))
  have "last (slug value) = last (last (slug_parts value))"
    unfolding slug_eq_join using parts ne by (rule last_join_with)
  moreover have "last (slug_parts value) \<in> set (slug_parts value)" using parts by simp
  ultimately show "last (slug value) \<noteq> 45"
    using slug_parts_piece(2) ne by (metis last_in_set)
qed

end
