(* ===== verification/Boundary.thy ===== *)
theory Boundary
  imports Slug "HOL-Library.Word"
begin

text \<open>
  The workspace boundary protocol of \<open>crates/wts-core/src/lib.rs\<close>: \<open>BoundaryCompiler::compile\<close>
  turns a draft into a boundary with leased ports, capabilities and a digest; \<open>verify\<close> checks
  an action against it; \<open>revise\<close> links a new boundary to its parent. SHA-256 (the \<open>sha2\<close>
  crate, followed by \<open>hex::encode\<close>) is the parameter \<open>sha\<close>, a function from the hashed bytes
  to the hexadecimal text; nothing is assumed of it. Ports are \<open>u16\<close> values as naturals up to
  65535; the revision is a 32-bit word, whose increment wraps as the release build's does.
\<close>

subsection \<open>Data\<close>

record RepositoryPin =
  pin_name :: str
  pin_base_ref :: str
  base_commit :: str
  relevance_basis_points :: nat
  evidence :: "str list"

record ServiceSpec =
  spec_id :: str
  spec_repository :: str
  default_port :: nat
  depends_on :: "str list"

record RuntimeLease =
  service_id :: str
  loopback_port :: nat
  hostname :: str
  namespace :: str

datatype Effect = Read | Write | Execute | Network

record Capability =
  effect :: Effect
  resource :: str

record WorkspaceBoundary =
  wb_issue_key :: str
  revision :: "32 word"
  parent_digest :: "str option"
  wb_base_graph_digest :: str
  overlay_digest :: str
  wb_repositories :: "RepositoryPin list"
  runtime_leases :: "RuntimeLease list"
  capabilities :: "Capability list"
  digest :: str

record BoundaryDraft =
  draft_issue_key :: str
  base_graph_digest :: str
  draft_repositories :: "RepositoryPin list"
  draft_services :: "ServiceSpec list"

record ActionEnvelope =
  boundary_digest :: str
  action_effect :: Effect
  action_resource :: str

record GraphObservation =
  source_repository :: str
  target_repository :: str
  edge :: str

record ScopeDrift =
  observation :: GraphObservation
  reason :: str

datatype BoundaryError =
    MissingIssue
  | EmptyScope
  | BoundaryDuplicateRepository str
  | ServiceOutsideScope str str
  | PortSpaceExhausted str
  | StaleBoundary
  | CapabilityDenied

subsection \<open>Digests\<close>

definition effect_key :: "Effect \<Rightarrow> str" where
  "effect_key e =
     (case e of Read \<Rightarrow> lit ''read'' | Write \<Rightarrow> lit ''write''
      | Execute \<Rightarrow> lit ''execute'' | Network \<Rightarrow> lit ''network'')"

text \<open>\<open>usize::to_be_bytes\<close> on a 64-bit target.\<close>

definition to_be_bytes :: "nat \<Rightarrow> nat list" where
  "to_be_bytes n = map (\<lambda>i. n div 256 ^ (7 - i) mod 256) [0..<8]"

text \<open>The bytes that \<open>digest_parts\<close> feeds to the hasher, and the digest.\<close>

definition hashed_bytes :: "str list \<Rightarrow> nat list" where
  "hashed_bytes parts = concat (map (\<lambda>part. to_be_bytes (str_len part) @ as_bytes part) parts)"

definition digest_parts :: "(nat list \<Rightarrow> str) \<Rightarrow> str list \<Rightarrow> str" where
  "digest_parts sha parts = sha (hashed_bytes parts)"

text \<open>\<open>BTreeMap::insert\<close> on the ordered entries of the map.\<close>

fun btree_insert :: "'k::linorder \<Rightarrow> 'v \<Rightarrow> ('k \<times> 'v) list \<Rightarrow> ('k \<times> 'v) list" where
  "btree_insert k v [] = [(k, v)]"
| "btree_insert k v ((k', v') # m) =
     (if k < k' then (k, v) # (k', v') # m
      else if k = k' then (k, v) # m
      else (k', v') # btree_insert k v m)"

definition pad4 :: "nat \<Rightarrow> str" where
  "pad4 n = replicate (4 - length (show_nat n)) 48 @ show_nat n"

definition digest_fields :: "WorkspaceBoundary \<Rightarrow> (str \<times> str) list" where
  "digest_fields b =
     (let fields = btree_insert (lit ''issue'') (wb_issue_key b) [];
          fields = btree_insert (lit ''revision'') (show_nat (unat (revision b))) fields;
          fields = btree_insert (lit ''parent'')
                     (case parent_digest b of None \<Rightarrow> [] | Some d \<Rightarrow> d) fields;
          fields = btree_insert (lit ''base_graph'') (wb_base_graph_digest b) fields;
          fields = btree_insert (lit ''overlay'') (overlay_digest b) fields;
          fields = fold (\<lambda>r. btree_insert (lit ''repo:'' @ pin_name r)
                     (pin_base_ref r @ lit ''|'' @ base_commit r @ lit ''|''
                      @ show_nat (relevance_basis_points r) @ lit ''|''
                      @ join_with (lit '','') (evidence r)))
                     (wb_repositories b) fields;
          fields = fold (\<lambda>l. btree_insert (lit ''lease:'' @ service_id l)
                     (show_nat (loopback_port l) @ lit ''|'' @ hostname l @ lit ''|'' @ namespace l))
                     (runtime_leases b) fields
      in fold (\<lambda>(i, c). btree_insert (lit ''capability:'' @ pad4 i)
                     (effect_key (effect c) @ lit ''|'' @ resource c))
           (enumerate 0 (capabilities b)) fields)"

definition compute_digest :: "(nat list \<Rightarrow> str) \<Rightarrow> WorkspaceBoundary \<Rightarrow> str" where
  "compute_digest sha b = digest_parts sha (concat (map (\<lambda>(k, v). [k, v]) (digest_fields b)))"

subsection \<open>The compiler\<close>

definition canonical_pin :: "RepositoryPin \<Rightarrow> RepositoryPin" where
  "canonical_pin r = r\<lparr>evidence := sort_dedup (evidence r)\<rparr>"

text \<open>The loop over the sorted services that sorts dependencies and checks the scope.\<close>

fun check_services :: "str set \<Rightarrow> ServiceSpec list \<Rightarrow> BoundaryError + ServiceSpec list" where
  "check_services names [] = Inr []"
| "check_services names (s # ss) =
     (if spec_repository s \<notin> names then Inl (ServiceOutsideScope (spec_id s) (spec_repository s))
      else rbind (check_services names ss) (\<lambda>ss'.
           Inr (s\<lparr>depends_on := sort_dedup (depends_on s)\<rparr> # ss')))"

text \<open>\<open>(default_port..=u16::MAX).find(|candidate| !reserved.contains(candidate))\<close>.\<close>

function find_port :: "nat set \<Rightarrow> nat \<Rightarrow> nat option" where
  "find_port reserved p =
     (if p > 65535 then None
      else if p \<notin> reserved then Some p else find_port reserved (Suc p))"
  by pat_completeness auto
termination
  by (relation "measure (\<lambda>(reserved, p). 65536 - p)") auto

declare find_port.simps [simp del]

text \<open>The loop over the services that leases one loopback port to each.\<close>

fun lease_ports :: "str \<Rightarrow> nat set \<Rightarrow> ServiceSpec list \<Rightarrow> BoundaryError + RuntimeLease list" where
  "lease_ports ns reserved [] = Inr []"
| "lease_ports ns reserved (s # ss) =
     rbind (ok_or (find_port reserved (default_port s)) (PortSpaceExhausted (spec_id s))) (\<lambda>port.
     rbind (lease_ports ns (insert port reserved) ss) (\<lambda>leases.
     Inr (\<lparr>service_id = spec_id s, loopback_port = port,
           hostname = slug (spec_id s) @ lit ''.'' @ ns @ lit ''.wts'', namespace = ns\<rparr> # leases)))"

definition workspace_resource :: "str \<Rightarrow> str" where
  "workspace_resource key = lit ''workspace:'' @ key @ lit ''/**''"

definition lease_capabilities :: "RuntimeLease \<Rightarrow> Capability list" where
  "lease_capabilities l =
     [\<lparr>effect = Execute, resource = lit ''process:'' @ service_id l\<rparr>,
      \<lparr>effect = Network, resource = lit ''loopback:'' @ show_nat (loopback_port l)\<rparr>]"

definition compile ::
    "(nat list \<Rightarrow> str) \<Rightarrow> BoundaryDraft \<Rightarrow> nat set \<Rightarrow> BoundaryError + WorkspaceBoundary" where
  "compile sha draft occupied_ports =
     rbind (ensure (trim (draft_issue_key draft) \<noteq> []) MissingIssue) (\<lambda>_.
     rbind (ensure (draft_repositories draft \<noteq> []) EmptyScope) (\<lambda>_.
     let key = to_ascii_uppercase (trim (draft_issue_key draft));
         repos = map canonical_pin (sort_key pin_name (draft_repositories draft))
     in
     rbind (case adjacent_dup pin_name repos of
              Some r \<Rightarrow> Inl (BoundaryDuplicateRepository (pin_name r))
            | None \<Rightarrow> Inr ()) (\<lambda>_.
     let names = pin_name ` set repos in
     rbind (check_services names (sort_key spec_id (draft_services draft))) (\<lambda>svcs.
     let ns = slug key in
     rbind (lease_ports ns occupied_ports svcs) (\<lambda>leases.
     let overlay = digest_parts sha
           (key # base_graph_digest draft
            # concat (map (\<lambda>r. [pin_name r, base_commit r, pin_base_ref r]) repos));
         caps = sort_key (\<lambda>c. (effect_key (effect c), resource c))
           ([\<lparr>effect = Read, resource = workspace_resource key\<rparr>,
             \<lparr>effect = Write, resource = workspace_resource key\<rparr>]
            @ concat (map lease_capabilities leases));
         b = \<lparr>wb_issue_key = key, revision = 1, parent_digest = None,
              wb_base_graph_digest = base_graph_digest draft, overlay_digest = overlay,
              wb_repositories = repos, runtime_leases = leases, capabilities = caps,
              digest = []\<rparr>
     in Inr (b\<lparr>digest := compute_digest sha b\<rparr>))))))"

subsection \<open>Using a boundary\<close>

definition verify :: "WorkspaceBoundary \<Rightarrow> ActionEnvelope \<Rightarrow> BoundaryError + unit" where
  "verify b action =
     (if boundary_digest action \<noteq> digest b then Inl StaleBoundary
      else if (\<exists>c \<in> set (capabilities b).
                 effect c = action_effect action \<and> resource c = action_resource action)
      then Inr () else Inl CapabilityDenied)"

definition detect_scope_drift :: "WorkspaceBoundary \<Rightarrow> GraphObservation \<Rightarrow> ScopeDrift option" where
  "detect_scope_drift b obs =
     (let approved = pin_name ` set (wb_repositories b) in
      if source_repository obs \<in> approved \<and> target_repository obs \<notin> approved
      then Some \<lparr>observation = obs, reason =
             source_repository obs @ lit '' introduced an observed '' @ edge obs
             @ lit '' edge to excluded repository '' @ target_repository obs\<rparr>
      else None)"

definition revise ::
    "(nat list \<Rightarrow> str) \<Rightarrow> WorkspaceBoundary \<Rightarrow> BoundaryDraft \<Rightarrow> nat set
     \<Rightarrow> BoundaryError + WorkspaceBoundary" where
  "revise sha b draft occupied_ports =
     rbind (compile sha draft occupied_ports) (\<lambda>revised.
     let revised = revised\<lparr>revision := revision b + 1, parent_digest := Some (digest b)\<rparr>
     in Inr (revised\<lparr>digest := compute_digest sha revised\<rparr>))"

subsection \<open>Leases\<close>

lemma find_port_Some_iff:
  "find_port R p = Some q \<longleftrightarrow> p \<le> q \<and> q < 65536 \<and> q \<notin> R \<and> (\<forall>c. p \<le> c \<and> c < q \<longrightarrow> c \<in> R)"
proof (induction R p rule: find_port.induct)
  case (1 R p)
  consider (out) "p > 65535" | (free) "p \<le> 65535" "p \<notin> R" | (taken) "p \<le> 65535" "p \<in> R"
    by linarith
  then show ?case
  proof cases
    case out
    then show ?thesis by (simp add: find_port.simps [of R p])
  next
    case free
    then show ?thesis
      by (auto simp: find_port.simps [of R p])
  next
    case taken
    with "1.IH" have "find_port R p = Some q \<longleftrightarrow> Suc p \<le> q \<and> q < 65536 \<and> q \<notin> R
        \<and> (\<forall>c. Suc p \<le> c \<and> c < q \<longrightarrow> c \<in> R)"
      by (simp add: find_port.simps [of R p])
    with taken show ?thesis by (metis Suc_leD Suc_leI le_eq_less_or_eq)
  qed
qed

lemma find_port_None_iff: "find_port R p = None \<longleftrightarrow> {p..<65536} \<subseteq> R"
proof (induction R p rule: find_port.induct)
  case (1 R p)
  show ?case
  proof (cases "p \<le> 65535")
    case True
    then have "{p..<65536} = insert p {Suc p..<65536}" by auto
    with 1 True show ?thesis by (auto simp: find_port.simps [of R p])
  qed (auto simp: find_port.simps [of R p])
qed

text \<open>What one lease promises to its service, given the ports taken before it.\<close>

definition lease_for :: "nat set \<Rightarrow> str \<Rightarrow> ServiceSpec \<Rightarrow> RuntimeLease \<Rightarrow> bool" where
  "lease_for taken ns s l \<longleftrightarrow>
     service_id l = spec_id s \<and> default_port s \<le> loopback_port l \<and> loopback_port l \<le> 65535
     \<and> loopback_port l \<notin> taken
     \<and> (\<forall>c. default_port s \<le> c \<and> c < loopback_port l \<longrightarrow> c \<in> taken)
     \<and> hostname l = slug (spec_id s) @ lit ''.'' @ ns @ lit ''.wts'' \<and> namespace l = ns"

fun leases_for :: "nat set \<Rightarrow> str \<Rightarrow> ServiceSpec list \<Rightarrow> RuntimeLease list \<Rightarrow> bool" where
  "leases_for taken ns [] [] \<longleftrightarrow> True"
| "leases_for taken ns (s # ss) (l # ls) \<longleftrightarrow>
     lease_for taken ns s l \<and> leases_for (insert (loopback_port l) taken) ns ss ls"
| "leases_for taken ns _ _ \<longleftrightarrow> False"

lemma lease_ports_Inr_iff: "lease_ports ns R ss = Inr ls \<longleftrightarrow> leases_for R ns ss ls"
proof (induction ss arbitrary: R ls)
  case Nil
  show ?case by (cases ls) auto
next
  case (Cons s ss)
  show ?case
  proof (cases ls)
    case (Cons l ls')
    then show ?thesis
      by (cases l) (auto simp: Cons.IH lease_for_def find_port_Some_iff less_Suc_eq_le)
  qed auto
qed

lemma leases_for_ports:
  "leases_for R ns ss ls \<Longrightarrow>
     distinct (map loopback_port ls) \<and> loopback_port ` set ls \<inter> R = {}
     \<and> map service_id ls = map spec_id ss \<and> (\<forall>l \<in> set ls. loopback_port l \<le> 65535)
     \<and> list_all2 (\<lambda>s l. default_port s \<le> loopback_port l) ss ls"
proof (induction R ns ss ls rule: leases_for.induct)
  case (2 taken ns s ss l ls)
  then show ?case by (auto simp: lease_for_def)
qed auto

subsection \<open>Order independence\<close>

lemma canonical_pin_simps [simp]:
  "pin_name (canonical_pin r) = pin_name r"
  "pin_name \<circ> canonical_pin = pin_name"
  by (simp_all add: canonical_pin_def fun_eq_iff)

lemma check_services_Inr_iff:
  "check_services names ss = Inr ss' \<longleftrightarrow>
     (\<forall>s \<in> set ss. spec_repository s \<in> names)
     \<and> ss' = map (\<lambda>s. s\<lparr>depends_on := sort_dedup (depends_on s)\<rparr>) ss"
  by (induction ss arbitrary: ss') auto

text \<open>
  Pins and services with the same content: evidence and dependencies are listed in any order
  and with any repetition. A draft is equivalent to another when both lists are, element by
  element, after a reordering.
\<close>

definition equivalent_pin :: "RepositoryPin \<Rightarrow> RepositoryPin \<Rightarrow> bool" where
  "equivalent_pin r r' \<longleftrightarrow>
     pin_name r' = pin_name r \<and> pin_base_ref r' = pin_base_ref r \<and> base_commit r' = base_commit r
     \<and> relevance_basis_points r' = relevance_basis_points r \<and> set (evidence r') = set (evidence r)"

definition equivalent_service :: "ServiceSpec \<Rightarrow> ServiceSpec \<Rightarrow> bool" where
  "equivalent_service s s' \<longleftrightarrow>
     spec_id s' = spec_id s \<and> spec_repository s' = spec_repository s
     \<and> default_port s' = default_port s \<and> set (depends_on s') = set (depends_on s)"

definition reordered :: "('a \<Rightarrow> 'a \<Rightarrow> bool) \<Rightarrow> 'a list \<Rightarrow> 'a list \<Rightarrow> bool" where
  "reordered eq xs ys \<longleftrightarrow> (\<exists>zs. list_all2 eq xs zs \<and> mset ys = mset zs)"

definition equivalent_draft :: "BoundaryDraft \<Rightarrow> BoundaryDraft \<Rightarrow> bool" where
  "equivalent_draft d d' \<longleftrightarrow>
     draft_issue_key d' = draft_issue_key d \<and> base_graph_digest d' = base_graph_digest d
     \<and> reordered equivalent_pin (draft_repositories d) (draft_repositories d')
     \<and> reordered equivalent_service (draft_services d) (draft_services d')"

lemma reordered_map:
  assumes "reordered eq xs ys" and "\<And>x y. eq x y \<Longrightarrow> g y = g x"
  shows "mset (map g ys) = mset (map g xs)"
proof -
  obtain zs where zs: "list_all2 eq xs zs" "mset ys = mset zs"
    using assms(1) by (auto simp: reordered_def)
  from zs(1) have "map g zs = map g xs"
    by (induction rule: list_all2_induct) (use assms(2) in auto)
  with zs(2) show ?thesis by (metis mset_map)
qed

lemma sort_key_reordered:
  assumes sim: "reordered eq xs ys" and g: "\<And>x y. eq x y \<Longrightarrow> g y = g x"
    and f: "f \<circ> g = f" and dist: "distinct (map f xs)"
  shows "map g (sort_key f ys) = map g (sort_key f xs)"
proof -
  have perm: "mset (map g ys) = mset (map g xs)" using reordered_map [OF sim] g by blast
  have "map f (map g xs) = map f xs" using f by (metis map_map)
  then have "inj_on f (set (map g xs))" using dist by (metis distinct_map)
  then have "sort_key f (map g xs) = sort_key f (map g ys)"
    using perm by (intro sort_key_eq_sort_key) simp_all
  then show ?thesis by (simp add: sort_key_map f)
qed

lemma canonical_pin_equivalent: "equivalent_pin r r' \<Longrightarrow> canonical_pin r' = canonical_pin r"
  by (cases r, cases r') (auto simp: equivalent_pin_def canonical_pin_def intro: sort_dedup_cong)

lemma sorted_deps_equivalent:
  "equivalent_service s s' \<Longrightarrow>
     s'\<lparr>depends_on := sort_dedup (depends_on s')\<rparr> = s\<lparr>depends_on := sort_dedup (depends_on s)\<rparr>"
  by (cases s, cases s') (auto simp: equivalent_service_def intro: sort_dedup_cong)

lemma check_services_sorted:
  "check_services names (map (\<lambda>s. s\<lparr>depends_on := sort_dedup (depends_on s)\<rparr>) ss) = check_services names ss"
  by (induction ss) simp_all

lemma compile_scan:
  assumes "reordered equivalent_pin rs rs'"
  shows "map_option pin_name (adjacent_dup pin_name (map canonical_pin (sort_key pin_name rs')))
       = map_option pin_name (adjacent_dup pin_name (map canonical_pin (sort_key pin_name rs)))"
proof -
  have "mset (map pin_name rs') = mset (map pin_name rs)"
    using assms by (rule reordered_map) (simp add: equivalent_pin_def)
  then have "sort (map pin_name rs') = sort (map pin_name rs)"
    by (metis mset_sort properties_for_sort sorted_sort)
  then show ?thesis by (simp add: map_option_adjacent_dup map_sort_key)
qed

lemma reordered_Nil_iff: "reordered eq xs ys \<Longrightarrow> xs = [] \<longleftrightarrow> ys = []"
  by (auto simp: reordered_def)

lemma compile_equivalent:
  assumes sim: "equivalent_draft d d'" and ids: "distinct (map spec_id (draft_services d))"
  shows "compile sha d' occ = compile sha d occ"
proof -
  let ?repos = "\<lambda>d. map canonical_pin (sort_key pin_name (draft_repositories d))"
  have pins: "reordered equivalent_pin (draft_repositories d) (draft_repositories d')"
    and svcs: "reordered equivalent_service (draft_services d) (draft_services d')"
    and key: "draft_issue_key d' = draft_issue_key d" "base_graph_digest d' = base_graph_digest d"
    using sim by (simp_all add: equivalent_draft_def)
  have dup: "map_option pin_name (adjacent_dup pin_name (?repos d'))
      = map_option pin_name (adjacent_dup pin_name (?repos d))"
    using pins by (rule compile_scan)
  have services: "check_services names (sort_key spec_id (draft_services d'))
      = check_services names (sort_key spec_id (draft_services d))" for names
  proof -
    let ?g = "\<lambda>s. s\<lparr>depends_on := sort_dedup (depends_on s)\<rparr>"
    have "map ?g (sort_key spec_id (draft_services d')) = map ?g (sort_key spec_id (draft_services d))"
    proof (rule sort_key_reordered [OF svcs])
      show "?g y = ?g x" if "equivalent_service x y" for x y
        using that by (rule sorted_deps_equivalent)
      show "spec_id \<circ> ?g = spec_id" by (rule ext) simp
    qed (rule ids)
    then have "check_services names (map ?g (sort_key spec_id (draft_services d')))
        = check_services names (map ?g (sort_key spec_id (draft_services d)))"
      by (rule arg_cong)
    then show ?thesis unfolding check_services_sorted .
  qed
  show ?thesis
  proof (cases "adjacent_dup pin_name (?repos d)")
    case (Some r)
    with dup obtain r' where "adjacent_dup pin_name (?repos d') = Some r'" "pin_name r' = pin_name r"
      by auto
    with Some key reordered_Nil_iff [OF pins] show ?thesis by (simp add: compile_def Let_def)
  next
    case None
    have "sorted (map pin_name (?repos d))" by simp
    from adjacent_dup_None_iff [OF this] None have "distinct (map pin_name (?repos d))" by simp
    then have "distinct (map pin_name (draft_repositories d))" by (simp add: map_sort_key)
    from this have repos: "?repos d' = ?repos d"
      by (intro sort_key_reordered [OF pins] canonical_pin_equivalent) (assumption | simp)+
    show ?thesis using reordered_Nil_iff [OF pins] by (simp add: compile_def key repos services)
  qed
qed

subsection \<open>The hashed bytes\<close>

lemma digits_256_eq:
  fixes m n :: nat
  assumes "\<And>j. j < k \<Longrightarrow> n div 256 ^ j mod 256 = m div 256 ^ j mod 256"
  shows "n mod 256 ^ k = m mod 256 ^ k"
  using assms
proof (induction k)
  case (Suc k)
  have step: "x mod 256 ^ Suc k = 256 ^ k * (x div 256 ^ k mod 256) + x mod 256 ^ k" for x :: nat
    by (metis mod_mult2_eq power_Suc2)
  from Suc show ?case by (simp only: step)
qed simp

lemma to_be_bytes_inj:
  assumes "to_be_bytes m = to_be_bytes n" and "m < 2 ^ 64" and "n < 2 ^ 64"
  shows "m = n"
proof -
  have eq: "\<forall>i \<in> set [0..<8]. m div 256 ^ (7 - i) mod 256 = n div 256 ^ (7 - i) mod 256"
    using assms(1) unfolding to_be_bytes_def map_eq_conv .
  have "m div 256 ^ j mod 256 = n div 256 ^ j mod 256" if "j < 8" for j
    using eq [rule_format, of "7 - j"] that by simp
  then have "m mod 256 ^ 8 = n mod 256 ^ 8" by (rule digits_256_eq)
  with assms(2,3) show ?thesis by simp
qed

lemma length_to_be_bytes [simp]: "length (to_be_bytes n) = 8"
  by (simp add: to_be_bytes_def)

text \<open>Every part is shorter than the 64-bit length prefix can express.\<close>

definition parts_fit :: "str list \<Rightarrow> bool" where
  "parts_fit ps \<longleftrightarrow> (\<forall>p \<in> set ps. str_len p < 2 ^ 64)"

lemma hashed_bytes_simps [simp]:
  "hashed_bytes [] = []"
  "hashed_bytes (p # ps) = to_be_bytes (str_len p) @ as_bytes p @ hashed_bytes ps"
  by (simp_all add: hashed_bytes_def)

lemma hashed_bytes_eq:
  "hashed_bytes ps = hashed_bytes qs \<Longrightarrow> parts_fit ps \<Longrightarrow> parts_fit qs \<Longrightarrow> ps = qs"
proof (induction ps arbitrary: qs)
  case Nil
  then show ?case by (cases qs) (auto dest: arg_cong [where f = length])
next
  case (Cons p ps)
  show ?case
  proof (cases qs)
    case Nil
    with Cons.prems show ?thesis by (auto dest: arg_cong [where f = length])
  next
    case (Cons q qs')
    have eq: "to_be_bytes (str_len p) @ as_bytes p @ hashed_bytes ps
        = to_be_bytes (str_len q) @ as_bytes q @ hashed_bytes qs'"
      using Cons.prems(1) Cons by simp
    then have "to_be_bytes (str_len p) = to_be_bytes (str_len q)"
      and rest: "as_bytes p @ hashed_bytes ps = as_bytes q @ hashed_bytes qs'"
      by (simp_all add: append_eq_append_conv)
    then have "str_len p = str_len q"
      using Cons.prems(2,3) Cons by (intro to_be_bytes_inj) (simp_all add: parts_fit_def)
    with rest have "as_bytes p = as_bytes q" and "hashed_bytes ps = hashed_bytes qs'"
      by (simp_all add: append_eq_append_conv)
    with Cons Cons.IH Cons.prems(2,3) show ?thesis by (simp add: parts_fit_def)
  qed
qed

text \<open>The parts a boundary's digest hashes: keys and values of \<open>fields\<close>, in key order.\<close>

definition digest_input :: "WorkspaceBoundary \<Rightarrow> str list" where
  "digest_input b = concat (map (\<lambda>(k, v). [k, v]) (digest_fields b))"

lemma compute_digest_eq: "compute_digest sha b = sha (hashed_bytes (digest_input b))"
  by (simp add: compute_digest_def digest_parts_def digest_input_def)

lemma concat_pairs_inj:
  "concat (map (\<lambda>(k, v). [k, v]) xs) = concat (map (\<lambda>(k, v). [k, v]) ys) \<Longrightarrow> xs = ys"
proof (induction xs arbitrary: ys)
  case Nil
  then show ?case by (cases ys) auto
next
  case (Cons x xs)
  then show ?case by (cases x; cases ys) auto
qed

lemma map_of_btree_insert: "map_of (btree_insert k v m) = (map_of m)(k \<mapsto> v)"
  by (induction k v m rule: btree_insert.induct) (auto simp: fun_eq_iff)

lemma map_of_fold_btree_insert:
  "\<forall>x \<in> set xs. key x \<noteq> k \<Longrightarrow>
   map_of (fold (\<lambda>x. btree_insert (key x) (val x)) xs m) k = map_of m k"
  by (induction xs arbitrary: m) (auto simp: map_of_btree_insert)

lemma fold_case_prod_btree:
  "fold (\<lambda>(i, c). btree_insert (key i c) (val i c)) xs m
   = fold (\<lambda>x. btree_insert (key (fst x) (snd x)) (val (fst x) (snd x))) xs m"
  by (induction xs arbitrary: m) auto

lemma digest_fields_revision:
  "map_of (digest_fields b) (lit ''revision'') = Some (show_nat (unat (revision b)))"
  unfolding digest_fields_def Let_def fold_case_prod_btree
  by (simp add: map_of_fold_btree_insert map_of_btree_insert lit_def)

lemma digest_input_revision:
  assumes "hashed_bytes (digest_input b) = hashed_bytes (digest_input c)"
    and "parts_fit (digest_input b)" and "parts_fit (digest_input c)"
  shows "revision b = revision c"
proof -
  have "digest_input b = digest_input c" using assms by (rule hashed_bytes_eq)
  then have "digest_fields b = digest_fields c" unfolding digest_input_def by (rule concat_pairs_inj)
  then have "show_nat (unat (revision b)) = show_nat (unat (revision c))"
    using digest_fields_revision [of b] digest_fields_revision [of c] by simp
  then show ?thesis by (simp add: word_unat_eq_iff)
qed

subsection \<open>What compiling establishes\<close>

definition canonical_issue_key :: "BoundaryDraft \<Rightarrow> str" where
  "canonical_issue_key d = to_ascii_uppercase (trim (draft_issue_key d))"

definition scope_names :: "BoundaryDraft \<Rightarrow> str set" where
  "scope_names d = pin_name ` set (draft_repositories d)"

text \<open>The boundary that \<open>compile\<close> builds once the leases are found.\<close>

definition finish_boundary ::
    "(nat list \<Rightarrow> str) \<Rightarrow> BoundaryDraft \<Rightarrow> RuntimeLease list \<Rightarrow> WorkspaceBoundary" where
  "finish_boundary sha d leases =
     (let key = canonical_issue_key d;
          repos = map canonical_pin (sort_key pin_name (draft_repositories d));
          b = \<lparr>wb_issue_key = key, revision = 1, parent_digest = None,
              wb_base_graph_digest = base_graph_digest d,
              overlay_digest = digest_parts sha
                (key # base_graph_digest d
                 # concat (map (\<lambda>r. [pin_name r, base_commit r, pin_base_ref r]) repos)),
              wb_repositories = repos, runtime_leases = leases,
              capabilities = sort_key (\<lambda>c. (effect_key (effect c), resource c))
                ([\<lparr>effect = Read, resource = workspace_resource key\<rparr>,
                  \<lparr>effect = Write, resource = workspace_resource key\<rparr>]
                 @ concat (map lease_capabilities leases)),
              digest = []\<rparr>
      in b\<lparr>digest := compute_digest sha b\<rparr>)"

lemma compute_digest_ignores_digest [simp]:
  "compute_digest sha (b\<lparr>digest := x\<rparr>) = compute_digest sha b"
  by (simp add: compute_digest_def digest_fields_def Let_def)

lemma compile_Inr:
  assumes "compile sha d occ = Inr b"
  shows "trim (draft_issue_key d) \<noteq> []" and "draft_repositories d \<noteq> []"
    and "wb_issue_key b = canonical_issue_key d"
    and "revision b = 1" and "parent_digest b = None"
    and "wb_repositories b = map canonical_pin (sort_key pin_name (draft_repositories d))"
    and "distinct (map pin_name (draft_repositories d))"
    and "\<forall>s \<in> set (draft_services d). spec_repository s \<in> scope_names d"
    and "leases_for occ (slug (canonical_issue_key d))
           (map (\<lambda>s. s\<lparr>depends_on := sort_dedup (depends_on s)\<rparr>) (sort_key spec_id (draft_services d)))
           (runtime_leases b)"
    and "capabilities b = sort_key (\<lambda>c. (effect_key (effect c), resource c))
           ([\<lparr>effect = Read, resource = workspace_resource (canonical_issue_key d)\<rparr>,
             \<lparr>effect = Write, resource = workspace_resource (canonical_issue_key d)\<rparr>]
            @ concat (map lease_capabilities (runtime_leases b)))"
    and "digest b = compute_digest sha b"
proof -
  have dup: "adjacent_dup pin_name (map canonical_pin (sort_key pin_name (draft_repositories d))) = None"
    using assms by (auto simp: compile_def Let_def split: option.splits)
  then show "distinct (map pin_name (draft_repositories d))"
    by (subst (asm) adjacent_dup_None_iff) (simp_all add: map_sort_key)
  have names: "pin_name ` set (map canonical_pin (sort_key pin_name (draft_repositories d))) = scope_names d"
    by (auto simp: scope_names_def image_image)
  obtain leases where ne: "trim (draft_issue_key d) \<noteq> []" "draft_repositories d \<noteq> []"
    and svcs: "\<forall>s \<in> set (draft_services d). spec_repository s \<in> scope_names d"
    and leases: "leases_for occ (slug (canonical_issue_key d))
       (map (\<lambda>s. s\<lparr>depends_on := sort_dedup (depends_on s)\<rparr>) (sort_key spec_id (draft_services d))) leases"
    and b: "b = finish_boundary sha d leases"
    using assms unfolding compile_def Let_def dup names rbind_Inr_iff ensure_Inr_iff option.case
      check_services_Inr_iff lease_ports_Inr_iff finish_boundary_def canonical_issue_key_def
    by auto
  show "trim (draft_issue_key d) \<noteq> []" "draft_repositories d \<noteq> []"
    "\<forall>s \<in> set (draft_services d). spec_repository s \<in> scope_names d"
    by (fact ne svcs)+
  have ls: "runtime_leases b = leases" by (simp add: b finish_boundary_def Let_def)
  show "leases_for occ (slug (canonical_issue_key d))
       (map (\<lambda>s. s\<lparr>depends_on := sort_dedup (depends_on s)\<rparr>) (sort_key spec_id (draft_services d)))
       (runtime_leases b)"
    using leases ls by simp
  show "wb_issue_key b = canonical_issue_key d" "revision b = 1" "parent_digest b = None"
    "wb_repositories b = map canonical_pin (sort_key pin_name (draft_repositories d))"
    by (simp_all add: b finish_boundary_def Let_def)
  show "digest b = compute_digest sha b"
    unfolding b finish_boundary_def Let_def compute_digest_ignores_digest by simp
  show "capabilities b = sort_key (\<lambda>c. (effect_key (effect c), resource c))
       ([\<lparr>effect = Read, resource = workspace_resource (canonical_issue_key d)\<rparr>,
         \<lparr>effect = Write, resource = workspace_resource (canonical_issue_key d)\<rparr>]
        @ concat (map lease_capabilities (runtime_leases b)))"
    unfolding ls by (simp add: b finish_boundary_def Let_def)
qed

lemma set_lease_capabilities:
  "set (concat (map lease_capabilities ls)) =
     (\<lambda>l. \<lparr>effect = Execute, resource = lit ''process:'' @ service_id l\<rparr>) ` set ls
     \<union> (\<lambda>l. \<lparr>effect = Network, resource = lit ''loopback:'' @ show_nat (loopback_port l)\<rparr>) ` set ls"
  by (induction ls) (auto simp: lease_capabilities_def)

lemma verify_Inr_iff:
  "verify b a = Inr u \<longleftrightarrow> boundary_digest a = digest b
     \<and> \<lparr>effect = action_effect a, resource = action_resource a\<rparr> \<in> set (capabilities b)"
proof -
  have "(\<exists>c \<in> set cs. effect c = e \<and> resource c = r) \<longleftrightarrow> \<lparr>effect = e, resource = r\<rparr> \<in> set cs"
    for cs :: "Capability list" and e r
    by (metis (full_types) Capability.ext_inject Capability.surjective old.unit.exhaust)
  then show ?thesis by (auto simp: verify_def)
qed

lemma leases_service_ids:
  "leases_for R ns ss ls \<Longrightarrow> service_id ` set ls = spec_id ` set ss"
  using leases_for_ports [of R ns ss ls] by (metis list.set_map)

subsection \<open>Properties\<close>

definition sample_pin :: "string \<Rightarrow> string \<Rightarrow> RepositoryPin" where
  "sample_pin n c = \<lparr>pin_name = lit n, pin_base_ref = lit ''main'', base_commit = lit c,
     relevance_basis_points = 9000, evidence = [lit ''ticket'', lit ''graph-path'']\<rparr>"

definition sample_draft :: BoundaryDraft where
  "sample_draft =
     \<lparr>draft_issue_key = lit ''task-42'', base_graph_digest = lit ''graph-base-42'',
      draft_repositories = [sample_pin ''orders-api'' ''aaa'', sample_pin ''ledger-events'' ''bbb''],
      draft_services =
        [\<lparr>spec_id = lit ''orders-api'', spec_repository = lit ''orders-api'',
          default_port = 9000, depends_on = []\<rparr>,
         \<lparr>spec_id = lit ''ledger-events'', spec_repository = lit ''ledger-events'',
          default_port = 9100, depends_on = [lit ''orders-api'']\<rparr>]\<rparr>"

definition reversed_draft :: BoundaryDraft where
  "reversed_draft = sample_draft\<lparr>
     draft_repositories := rev (draft_repositories sample_draft),
     draft_services := rev (draft_services sample_draft)\<rparr>"

definition sample_boundary :: WorkspaceBoundary where
  "sample_boundary =
     (case compile (\<lambda>bytes. bytes) sample_draft {9000, 9001, 9100} of
        Inr b \<Rightarrow> b | Inl _ \<Rightarrow> finish_boundary (\<lambda>bytes. bytes) sample_draft [])"

lemma compile_sample: "compile (\<lambda>bytes. bytes) sample_draft {9000, 9001, 9100} = Inr sample_boundary"
proof -
  have "\<not> isl (compile (\<lambda>bytes. bytes) sample_draft {9000, 9001, 9100})" by code_simp
  then show ?thesis
    unfolding sample_boundary_def
    by (cases "compile (\<lambda>bytes. bytes) sample_draft {9000, 9001, 9100}") simp_all
qed

text \<open>
  C4: compiling is deterministic up to presentation: for a draft whose services have distinct
  identifiers, any draft that lists the same repositories, services, evidence and dependencies
  in another order (or repeats evidence or dependencies) compiles to the very same result, the
  same boundary with the same digest or the same error, for every hash function.
\<close>

theorem compile_order_independent:
  assumes "equivalent_draft d d'" and "distinct (map spec_id (draft_services d))"
  shows "compile sha d' occupied_ports = compile sha d occupied_ports"
  using assms by (rule compile_equivalent)

theorem compile_order_independent_witness:
  "compile (\<lambda>bytes. bytes) reversed_draft {9000, 9001, 9100} = Inr sample_boundary"
proof -
  have "reordered equivalent_pin (draft_repositories sample_draft) (draft_repositories reversed_draft)"
    unfolding reordered_def
    by (rule exI [of _ "draft_repositories sample_draft"])
      (simp add: reversed_draft_def list_all2_same equivalent_pin_def)
  moreover have "reordered equivalent_service (draft_services sample_draft) (draft_services reversed_draft)"
    unfolding reordered_def
    by (rule exI [of _ "draft_services sample_draft"])
      (simp add: reversed_draft_def list_all2_same equivalent_service_def)
  ultimately have "equivalent_draft sample_draft reversed_draft"
    by (simp add: equivalent_draft_def reversed_draft_def)
  moreover have "distinct (map spec_id (draft_services sample_draft))"
    by (simp add: sample_draft_def lit_def)
  ultimately have "compile (\<lambda>bytes. bytes) reversed_draft {9000, 9001, 9100}
      = compile (\<lambda>bytes. bytes) sample_draft {9000, 9001, 9100}"
    by (rule compile_order_independent)
  then show ?thesis by (simp add: compile_sample)
qed



text \<open>
  C6: least authority: an action is permitted by a compiled boundary exactly when it carries
  the boundary's own digest and asks to read or write the workspace of the canonical issue key,
  to execute one of the draft's services, or to reach a port leased to one of them. Nothing else
  is ever granted.
\<close>

theorem verify_grants_exactly:
  assumes "compile sha d occupied_ports = Inr b"
  shows "verify b a = Inr () \<longleftrightarrow>
    boundary_digest a = digest b \<and>
    (case action_effect a of
       Read \<Rightarrow> action_resource a = workspace_resource (canonical_issue_key d)
     | Write \<Rightarrow> action_resource a = workspace_resource (canonical_issue_key d)
     | Execute \<Rightarrow> action_resource a \<in> (\<lambda>s. lit ''process:'' @ spec_id s) ` set (draft_services d)
     | Network \<Rightarrow> action_resource a \<in> (\<lambda>l. lit ''loopback:'' @ show_nat (loopback_port l)) ` set (runtime_leases b))"
proof -
  have "service_id ` set (runtime_leases b) = spec_id ` set (draft_services d)"
    using leases_service_ids [OF compile_Inr(9) [OF assms]] by (simp add: image_image)
  then have procs: "(\<lambda>l. lit ''process:'' @ service_id l) ` set (runtime_leases b)
      = (\<lambda>s. lit ''process:'' @ spec_id s) ` set (draft_services d)"
    by (metis (no_types, lifting) image_cong image_image)
  have caps: "set (capabilities b) =
      {\<lparr>effect = Read, resource = workspace_resource (canonical_issue_key d)\<rparr>,
       \<lparr>effect = Write, resource = workspace_resource (canonical_issue_key d)\<rparr>}
      \<union> set (concat (map lease_capabilities (runtime_leases b)))"
    unfolding compile_Inr(10) [OF assms] set_sort set_append by simp
  show ?thesis
    unfolding verify_Inr_iff caps set_lease_capabilities procs [symmetric]
    by (cases "action_effect a") auto
qed

theorem verify_grants_exactly_witness:
  "verify sample_boundary \<lparr>boundary_digest = digest sample_boundary, action_effect = Execute,
     action_resource = lit ''process:orders-api''\<rparr> = Inr ()
   \<and> verify sample_boundary \<lparr>boundary_digest = digest sample_boundary, action_effect = Execute,
     action_resource = lit ''process:risk-engine''\<rparr> \<noteq> Inr ()"
  unfolding verify_grants_exactly [OF compile_sample]
  by (simp add: sample_draft_def lit_def)

text \<open>
  A revision is the compiled draft with the revision number advanced by one (modulo
  \<open>2 ^ 32\<close>), linked to the digest of the boundary it revises, and the bytes it hashes for its own
  digest differ from the bytes its parent's digest hashes, provided every hashed field is shorter
  than the 64-bit length prefix can count. So an old digest stays valid for a revision only
  through a SHA-256 collision.
\<close>

theorem revise_fresh_input:
  assumes "revise sha b d occupied_ports = Inr b'"
    and "parts_fit (digest_input b)" and "parts_fit (digest_input b')"
  shows "revision b' = revision b + 1 \<and> parent_digest b' = Some (digest b)
    \<and> digest b' = sha (hashed_bytes (digest_input b'))
    \<and> hashed_bytes (digest_input b') \<noteq> hashed_bytes (digest_input b)"
proof -
  obtain c where b': "b' = (c\<lparr>revision := revision b + 1, parent_digest := Some (digest b)\<rparr>)
      \<lparr>digest := compute_digest sha (c\<lparr>revision := revision b + 1, parent_digest := Some (digest b)\<rparr>)\<rparr>"
    using assms(1) by (auto simp: revise_def Let_def)
  then have rev: "revision b' = revision b + 1" and par: "parent_digest b' = Some (digest b)"
    by simp_all
  have "digest b' = compute_digest sha b'"
    unfolding b' compute_digest_ignores_digest by simp
  then have dig: "digest b' = sha (hashed_bytes (digest_input b'))"
    by (simp add: compute_digest_eq)
  have "revision b + 1 \<noteq> revision b" by simp
  then have "hashed_bytes (digest_input b') \<noteq> hashed_bytes (digest_input b)"
    using digest_input_revision [OF _ assms(3,2)] rev by metis
  with rev par dig show ?thesis by simp
qed

definition flat_hash :: "nat list \<Rightarrow> str" where
  "flat_hash bytes = lit ''d''"

definition flat_boundary :: WorkspaceBoundary where
  "flat_boundary = finish_boundary flat_hash sample_draft []"

definition flat_revision :: WorkspaceBoundary where
  "flat_revision =
     (case revise flat_hash flat_boundary sample_draft {} of Inr b \<Rightarrow> b | Inl _ \<Rightarrow> flat_boundary)"

theorem revise_fresh_input_witness:
  "revision flat_revision = 2 \<and> parent_digest flat_revision = Some (digest flat_boundary)"
proof -
  have "\<not> isl (revise flat_hash flat_boundary sample_draft {})" by code_simp
  then have ok: "revise flat_hash flat_boundary sample_draft {} = Inr flat_revision"
    unfolding flat_revision_def
    by (cases "revise flat_hash flat_boundary sample_draft {}") simp_all
  have "parts_fit (digest_input flat_boundary)" and "parts_fit (digest_input flat_revision)"
    by code_simp+
  from revise_fresh_input [OF ok this]
  have "revision flat_revision = revision flat_boundary + 1"
    and "parent_digest flat_revision = Some (digest flat_boundary)"
    by simp_all
  moreover have "revision flat_boundary = 1"
    by (simp add: flat_boundary_def finish_boundary_def Let_def)
  ultimately show ?thesis by simp
qed

text \<open>
  C7: the hashed bytes determine the list of hashed parts (the length prefix frames each part),
  so two boundaries, overlays or field maps hash the same input only when all their parts agree.
\<close>

theorem hashed_bytes_injective:
  assumes "parts_fit ps" and "parts_fit qs"
  shows "hashed_bytes ps = hashed_bytes qs \<longleftrightarrow> ps = qs"
  using hashed_bytes_eq [OF _ assms] by blast

theorem hashed_bytes_injective_witness:
  "hashed_bytes [lit ''ab'', lit ''c''] \<noteq> hashed_bytes [lit ''a'', lit ''bc'']"
proof -
  have "hashed_bytes [lit ''ab'', lit ''c''] = hashed_bytes [lit ''a'', lit ''bc''] \<longleftrightarrow>
      [lit ''ab'', lit ''c''] = [lit ''a'', lit ''bc'']"
    by (rule hashed_bytes_injective) (simp_all add: parts_fit_def lit_def utf8_len_def)
  then show ?thesis by (simp add: lit_def)
qed

definition twin_draft :: BoundaryDraft where
  "twin_draft = sample_draft\<lparr>draft_services :=
     [\<lparr>spec_id = lit ''api'', spec_repository = lit ''orders-api'', default_port = 9000, depends_on = []\<rparr>,
      \<lparr>spec_id = lit ''api'', spec_repository = lit ''orders-api'', default_port = 9500, depends_on = []\<rparr>]\<rparr>"

definition lease_port_list :: "BoundaryError + WorkspaceBoundary \<Rightarrow> nat list" where
  "lease_port_list r = (case r of Inl _ \<Rightarrow> [] | Inr b \<Rightarrow> map loopback_port (runtime_leases b))"

text \<open>
  The distinctness hypothesis of order independence cannot be dropped: \<open>compile\<close> accepts
  two services with the same identifier, and listing them in the other order changes the leased
  ports, although the documentation of \<open>compile\<close> promises the same digest whatever the order
  of the services.
\<close>

theorem compile_duplicate_services_order_dependent:
  "\<exists>d d'. equivalent_draft d d' \<and>
     (\<forall>sha. lease_port_list (compile sha d {}) = [9000, 9500]
          \<and> lease_port_list (compile sha d' {}) = [9500, 9000])"
proof (intro exI conjI allI)
  let ?d = twin_draft and ?d' = "twin_draft\<lparr>draft_services := rev (draft_services twin_draft)\<rparr>"
  have "reordered equivalent_pin (draft_repositories ?d) (draft_repositories ?d')"
    unfolding reordered_def
    by (rule exI [of _ "draft_repositories ?d"]) (simp add: list_all2_same equivalent_pin_def)
  moreover have "reordered equivalent_service (draft_services ?d) (draft_services ?d')"
    unfolding reordered_def
    by (rule exI [of _ "draft_services ?d"]) (simp add: list_all2_same equivalent_service_def)
  ultimately show "equivalent_draft ?d ?d'" by (simp add: equivalent_draft_def)
  show "lease_port_list (compile sha ?d {}) = [9000, 9500]" for sha by code_simp
  show "lease_port_list (compile sha ?d' {}) = [9500, 9000]" for sha by code_simp
qed

end
