(* ===== verification/Compatibility.thy ===== *)
theory Compatibility
  imports Rust_Prelude
begin

text \<open>
  The commit-vector solver of \<open>crates/wts-core/src/compatibility.rs\<close>. The recursive \<open>search\<close>
  with its mutable \<open>chosen\<close> stack and \<open>best\<close> result is a fold over the candidates of each
  repository; the lemmas relate it to the set of all compatible vectors and show that it
  finds the best one, or that there is none. Scores are \<open>u64\<close> sums of \<open>u32\<close> values, naturals
  here: with fewer than \<open>2 ^ 32\<close> repositories the sum cannot overflow.
\<close>

subsection \<open>Data\<close>

record CommitCandidate =
  cand_repository :: str
  cand_base_ref :: str
  commit :: str
  evidence_score :: nat
  cand_evidence :: "str list"

record CompatiblePair =
  left_repository :: str
  left_commit :: str
  right_repository :: str
  right_commit :: str
  pair_evidence :: "str list"

record CompatibilityProblem =
  required_repositories :: "str list"
  candidates :: "CommitCandidate list"
  compatible_pairs :: "CompatiblePair list"

record CompatibilityVector =
  commits :: "CommitCandidate list"
  vector_score :: nat

datatype CompatibilityError =
    EmptyProblem
  | CompatDuplicateRepository str
  | MissingCandidates str
  | CandidateOutsideClosure str str
  | NoCompatibleVector

record CompatibilityConstraints =
  constrained_repository_pairs :: "(str \<times> str) set"
  allowed_commit_pairs :: "(str \<times> str \<times> str \<times> str) set"

subsection \<open>Constraints\<close>

definition canonical_pair :: "CompatiblePair \<Rightarrow> str \<times> str \<times> str \<times> str" where
  "canonical_pair p =
     (if left_repository p \<le> right_repository p
      then (left_repository p, left_commit p, right_repository p, right_commit p)
      else (right_repository p, right_commit p, left_repository p, left_commit p))"

definition canonical_candidate_pair ::
    "CommitCandidate \<Rightarrow> CommitCandidate \<Rightarrow> str \<times> str \<times> str \<times> str" where
  "canonical_candidate_pair l r =
     (if cand_repository l \<le> cand_repository r
      then (cand_repository l, commit l, cand_repository r, commit r)
      else (cand_repository r, commit r, cand_repository l, commit l))"

fun add_pairs :: "CompatiblePair list \<Rightarrow> CompatibilityConstraints \<Rightarrow> CompatibilityConstraints" where
  "add_pairs [] cs = cs"
| "add_pairs (p # ps) cs =
     (case canonical_pair p of (lr, lc, rr, rc) \<Rightarrow>
        add_pairs ps
          (cs\<lparr>constrained_repository_pairs := insert (lr, rr) (constrained_repository_pairs cs),
              allowed_commit_pairs := insert (lr, lc, rr, rc) (allowed_commit_pairs cs)\<rparr>))"

definition constraints_new :: "CompatiblePair list \<Rightarrow> CompatibilityConstraints" where
  "constraints_new ps =
     add_pairs ps \<lparr>constrained_repository_pairs = {}, allowed_commit_pairs = {}\<rparr>"

definition allows :: "CompatibilityConstraints \<Rightarrow> CommitCandidate \<Rightarrow> CommitCandidate \<Rightarrow> bool" where
  "allows cs l r =
     (case canonical_candidate_pair l r of (lr, lc, rr, rc) \<Rightarrow>
        if (lr, rr) \<notin> constrained_repository_pairs cs then True
        else (lr, lc, rr, rc) \<in> allowed_commit_pairs cs)"

subsection \<open>Search\<close>

definition canonical_commits :: "CompatibilityVector \<Rightarrow> (str \<times> str) list" where
  "canonical_commits v = map (\<lambda>c. (cand_repository c, commit c)) (commits v)"

definition is_better :: "CompatibilityVector \<Rightarrow> CompatibilityVector option \<Rightarrow> bool" where
  "is_better v current =
     (case current of
        None \<Rightarrow> True
      | Some w \<Rightarrow> vector_score v > vector_score w
          \<or> (vector_score v = vector_score w \<and> canonical_commits v < canonical_commits w))"

primrec search ::
    "(str \<rightharpoonup> CommitCandidate list) \<Rightarrow> CompatibilityConstraints \<Rightarrow> str list
     \<Rightarrow> CommitCandidate list \<Rightarrow> nat \<Rightarrow> CompatibilityVector option \<Rightarrow> CompatibilityVector option" where
  "search cands cs [] chosen score best =
     (let v = \<lparr>commits = chosen, vector_score = score\<rparr> in
      if is_better v best then Some v else best)"
| "search cands cs (r # rs) chosen score best =
     (case cands r of
        None \<Rightarrow> best
      | Some options \<Rightarrow>
          fold (\<lambda>c best. if (\<forall>e \<in> set chosen. allows cs e c)
                  then search cands cs rs (chosen @ [c]) (score + evidence_score c) best
                  else best) options best)"

subsection \<open>The solver\<close>

definition canonical_candidate :: "CommitCandidate \<Rightarrow> CommitCandidate" where
  "canonical_candidate c = c\<lparr>cand_evidence := sort_dedup (cand_evidence c)\<rparr>"

text \<open>The loop that distributes the candidates over \<open>candidates_by_repository\<close>.\<close>

fun group_candidates ::
    "str set \<Rightarrow> (str \<rightharpoonup> CommitCandidate list) \<Rightarrow> CommitCandidate list
     \<Rightarrow> CompatibilityError + (str \<rightharpoonup> CommitCandidate list)" where
  "group_candidates required m [] = Inr m"
| "group_candidates required m (c # cs) =
     (if cand_repository c \<notin> required
      then Inl (CandidateOutsideClosure (cand_repository c) (commit c))
      else group_candidates required
             (m(cand_repository c \<mapsto>
                 (case m (cand_repository c) of None \<Rightarrow> [] | Some xs \<Rightarrow> xs) @ [canonical_candidate c])) cs)"

text \<open>\<open>Vec::dedup_by\<close> on a key: of each run of equal keys the first element stays.\<close>

fun dedup_key :: "('a \<Rightarrow> 'k) \<Rightarrow> 'a list \<Rightarrow> 'a list" where
  "dedup_key f (x # y # zs) =
     (if f x = f y then dedup_key f (x # zs) else x # dedup_key f (y # zs))"
| "dedup_key f xs = xs"

definition candidate_order :: "CommitCandidate \<Rightarrow> int \<times> str \<times> str" where
  "candidate_order c = (- int (evidence_score c), commit c, cand_base_ref c)"

text \<open>The loop over the required repositories that sorts and dedups their candidates.\<close>

fun sort_candidates ::
    "(str \<rightharpoonup> CommitCandidate list) \<Rightarrow> str list
     \<Rightarrow> CompatibilityError + (str \<rightharpoonup> CommitCandidate list)" where
  "sort_candidates m [] = Inr m"
| "sort_candidates m (r # rs) =
     (case m r of
        None \<Rightarrow> Inl (MissingCandidates r)
      | Some xs \<Rightarrow> sort_candidates (m(r \<mapsto> dedup_key commit (sort_key candidate_order xs))) rs)"

definition solve_compatibility_vector ::
    "CompatibilityProblem \<Rightarrow> CompatibilityError + CompatibilityVector" where
  "solve_compatibility_vector p =
     rbind (ensure (required_repositories p \<noteq> []) EmptyProblem) (\<lambda>_.
     let repos = sort (required_repositories p) in
     rbind (case adjacent_dup (\<lambda>r. r) repos of
              Some r \<Rightarrow> Inl (CompatDuplicateRepository r)
            | None \<Rightarrow> Inr ()) (\<lambda>_.
     rbind (group_candidates (set repos) Map.empty (candidates p)) (\<lambda>grouped.
     rbind (sort_candidates grouped repos) (\<lambda>cands.
     ok_or (search cands (constraints_new (compatible_pairs p)) repos [] 0 None)
       NoCompatibleVector))))"

subsection \<open>The search against the set of compatible vectors\<close>

text \<open>All vectors that extend \<open>chosen\<close> over the remaining repositories, in search order.\<close>

fun extensions ::
    "(str \<rightharpoonup> CommitCandidate list) \<Rightarrow> CompatibilityConstraints \<Rightarrow> str list
     \<Rightarrow> CommitCandidate list \<Rightarrow> CommitCandidate list list" where
  "extensions cands cs [] chosen = [chosen]"
| "extensions cands cs (r # rs) chosen =
     (case cands r of
        None \<Rightarrow> []
      | Some options \<Rightarrow>
          concat (map (\<lambda>c. if (\<forall>e \<in> set chosen. allows cs e c)
                    then extensions cands cs rs (chosen @ [c]) else []) options))"

definition total_score :: "CommitCandidate list \<Rightarrow> nat" where
  "total_score xs = sum_list (map evidence_score xs)"

definition as_vector :: "CommitCandidate list \<Rightarrow> CompatibilityVector" where
  "as_vector xs = \<lparr>commits = xs, vector_score = total_score xs\<rparr>"

definition keep_better :: "CommitCandidate list \<Rightarrow> CompatibilityVector option \<Rightarrow> CompatibilityVector option" where
  "keep_better xs best = (if is_better (as_vector xs) best then Some (as_vector xs) else best)"

lemma fold_concat_map: "fold f (concat (map g xs)) a = fold (\<lambda>x. fold f (g x)) xs a"
  by (induction xs arbitrary: a) simp_all

lemma search_eq_fold:
  "search cands cs rs chosen (total_score chosen) best
   = fold keep_better (extensions cands cs rs chosen) best"
proof (induction rs arbitrary: chosen best)
  case Nil
  then show ?case by (simp add: keep_better_def as_vector_def Let_def)
next
  case (Cons r rs)
  have "search cands cs rs (chosen @ [c]) (total_score chosen + evidence_score c) b
      = fold keep_better (extensions cands cs rs (chosen @ [c])) b" for c b
    using Cons.IH [of "chosen @ [c]" b] by (simp add: total_score_def)
  then show ?case
    by (auto simp: fold_concat_map split: option.split intro!: fold_cong)
qed

text \<open>The preference that \<open>is_better\<close> decides: higher score first, then the smaller commit list.\<close>

definition rank_key :: "CommitCandidate list \<Rightarrow> int \<times> (str \<times> str) list" where
  "rank_key xs = (- int (total_score xs), canonical_commits (as_vector xs))"

lemma keep_better_Some:
  "keep_better xs (Some (as_vector ys)) = Some (as_vector (if rank_key xs < rank_key ys then xs else ys))"
  by (auto simp: keep_better_def is_better_def rank_key_def as_vector_def)

lemma fold_keep_better_Some:
  "\<exists>ys \<in> set (y # xs). fold keep_better xs (Some (as_vector y)) = Some (as_vector ys)
     \<and> (\<forall>x \<in> set (y # xs). rank_key ys \<le> rank_key x)"
proof (induction xs arbitrary: y)
  case (Cons x xs)
  let ?z = "if rank_key x < rank_key y then x else y"
  obtain ys where ys: "ys \<in> set (?z # xs)"
      "fold keep_better xs (Some (as_vector ?z)) = Some (as_vector ys)"
      "\<forall>w \<in> set (?z # xs). rank_key ys \<le> rank_key w"
    using Cons.IH by blast
  have "rank_key ?z \<le> rank_key x" "rank_key ?z \<le> rank_key y" by auto
  with ys(3) have "rank_key ys \<le> rank_key x" "rank_key ys \<le> rank_key y"
    by (meson list.set_intros(1) order_trans)+
  with ys show ?case by (intro bexI [of _ ys]) (auto simp: keep_better_Some split: if_splits)
qed simp

lemma fold_keep_better_None:
  "case fold keep_better xs None of
     None \<Rightarrow> xs = []
   | Some v \<Rightarrow> \<exists>ys \<in> set xs. v = as_vector ys \<and> (\<forall>x \<in> set xs. rank_key ys \<le> rank_key x)"
proof (cases xs)
  case (Cons y ys)
  have "keep_better y None = Some (as_vector y)" by (simp add: keep_better_def is_better_def)
  with fold_keep_better_Some [where y = y and xs = ys] Cons show ?thesis by auto
qed simp

lemma extensions_iff:
  "ys \<in> set (extensions cands cs rs chosen) \<longleftrightarrow>
     (\<exists>xs. ys = chosen @ xs
        \<and> list_all2 (\<lambda>r x. \<exists>options. cands r = Some options \<and> x \<in> set options) rs xs
        \<and> (\<forall>e \<in> set chosen. \<forall>x \<in> set xs. allows cs e x)
        \<and> sorted_wrt (allows cs) xs)"
proof (induction rs arbitrary: chosen)
  case Nil
  then show ?case by simp
next
  case (Cons r rs)
  show ?case
  proof (cases "cands r")
    case None
    then show ?thesis by (simp add: list_all2_Cons1)
  next
    case (Some options)
    let ?from = "\<lambda>r x. \<exists>options. cands r = Some options \<and> x \<in> set options"
    have ext: "ys \<in> set (extensions cands cs rs (chosen @ [c])) \<longleftrightarrow>
        (\<exists>xs. ys = chosen @ c # xs \<and> list_all2 ?from rs xs
          \<and> (\<forall>e \<in> set chosen. \<forall>x \<in> set xs. allows cs e x) \<and> (\<forall>x \<in> set xs. allows cs c x)
          \<and> sorted_wrt (allows cs) xs)" for c
      unfolding Cons.IH by auto
    have "ys \<in> set (extensions cands cs (r # rs) chosen) \<longleftrightarrow>
        (\<exists>c. c \<in> set options \<and> (\<forall>e \<in> set chosen. allows cs e c)
           \<and> ys \<in> set (extensions cands cs rs (chosen @ [c])))"
      using Some by auto
    also have "\<dots> \<longleftrightarrow> (\<exists>c xs. c \<in> set options \<and> ys = chosen @ c # xs \<and> list_all2 ?from rs xs
        \<and> (\<forall>e \<in> set chosen. \<forall>x \<in> set (c # xs). allows cs e x) \<and> sorted_wrt (allows cs) (c # xs))"
      unfolding ext list.set ball_simps sorted_wrt.simps by blast
    also have "\<dots> \<longleftrightarrow> (\<exists>zs. ys = chosen @ zs \<and> list_all2 ?from (r # rs) zs
        \<and> (\<forall>e \<in> set chosen. \<forall>x \<in> set zs. allows cs e x) \<and> sorted_wrt (allows cs) zs)"
      unfolding list_all2_Cons1 using Some by (auto simp del: sorted_wrt.simps)
    finally show ?thesis .
  qed
qed

subsection \<open>The solver against the problem statement\<close>

lemma add_pairs_simps:
  "constrained_repository_pairs (add_pairs ps cs) =
     (\<lambda>p. case canonical_pair p of (lr, lc, rr, rc) \<Rightarrow> (lr, rr)) ` set ps \<union> constrained_repository_pairs cs"
  "allowed_commit_pairs (add_pairs ps cs) = canonical_pair ` set ps \<union> allowed_commit_pairs cs"
  by (induction ps arbitrary: cs) (auto split: prod.splits)

text \<open>A declared pair concerns two candidates, in either order, or lists exactly their commits.\<close>

definition concerns :: "CompatiblePair \<Rightarrow> CommitCandidate \<Rightarrow> CommitCandidate \<Rightarrow> bool" where
  "concerns p l r \<longleftrightarrow>
     (left_repository p = cand_repository l \<and> right_repository p = cand_repository r)
     \<or> (left_repository p = cand_repository r \<and> right_repository p = cand_repository l)"

definition lists_commits :: "CompatiblePair \<Rightarrow> CommitCandidate \<Rightarrow> CommitCandidate \<Rightarrow> bool" where
  "lists_commits p l r \<longleftrightarrow>
     (left_repository p = cand_repository l \<and> left_commit p = commit l
      \<and> right_repository p = cand_repository r \<and> right_commit p = commit r)
     \<or> (left_repository p = cand_repository r \<and> left_commit p = commit r
      \<and> right_repository p = cand_repository l \<and> right_commit p = commit l)"

text \<open>
  The documented meaning of the declared pairs: once any pair is declared for two repositories
  their relationship is closed, and only the listed commit pairs are compatible.
\<close>

definition compatible :: "CompatiblePair list \<Rightarrow> CommitCandidate \<Rightarrow> CommitCandidate \<Rightarrow> bool" where
  "compatible ps l r \<longleftrightarrow>
     ((\<exists>p \<in> set ps. concerns p l r) \<longrightarrow> (\<exists>p \<in> set ps. lists_commits p l r))"

lemma allows_iff:
  assumes "cand_repository l \<noteq> cand_repository r"
  shows "allows (constraints_new ps) l r \<longleftrightarrow> compatible ps l r"
proof -
  obtain lr lc rr rc where can: "canonical_candidate_pair l r = (lr, lc, rr, rc)"
    by (cases "canonical_candidate_pair l r")
  have conc: "(case canonical_pair p of (a, b, c, d) \<Rightarrow> (a, c)) = (lr, rr) \<longleftrightarrow> concerns p l r" for p
    using can assms by (auto simp: canonical_candidate_pair_def canonical_pair_def concerns_def
        split: if_splits)
  have lists: "canonical_pair p = (lr, lc, rr, rc) \<longleftrightarrow> lists_commits p l r" for p
    using can assms by (auto simp: canonical_candidate_pair_def canonical_pair_def lists_commits_def
        split: if_splits)
  have "(lr, rr) \<in> constrained_repository_pairs (constraints_new ps) \<longleftrightarrow> (\<exists>p \<in> set ps. concerns p l r)"
    unfolding constraints_new_def add_pairs_simps by (simp add: image_iff conc [symmetric]) metis
  moreover have "(lr, lc, rr, rc) \<in> allowed_commit_pairs (constraints_new ps)
      \<longleftrightarrow> (\<exists>p \<in> set ps. lists_commits p l r)"
    unfolding constraints_new_def add_pairs_simps by (simp add: image_iff lists [symmetric]) metis
  ultimately show ?thesis by (simp add: allows_def can compatible_def)
qed

text \<open>A vector that solves the problem: one known candidate per repository, all compatible.\<close>

definition compatible_vector :: "CompatibilityProblem \<Rightarrow> CommitCandidate list \<Rightarrow> bool" where
  "compatible_vector p xs \<longleftrightarrow>
     map cand_repository xs = sort (required_repositories p)
     \<and> set xs \<subseteq> canonical_candidate ` set (candidates p)
     \<and> sorted_wrt (compatible (compatible_pairs p)) xs"

definition candidates_of :: "CompatibilityProblem \<Rightarrow> str \<Rightarrow> CommitCandidate list" where
  "candidates_of p r = map canonical_candidate (filter (\<lambda>c. cand_repository c = r) (candidates p))"

definition well_posed :: "CompatibilityProblem \<Rightarrow> bool" where
  "well_posed p \<longleftrightarrow>
     required_repositories p \<noteq> [] \<and> distinct (required_repositories p)
     \<and> (\<forall>c \<in> set (candidates p). cand_repository c \<in> set (required_repositories p))
     \<and> (\<forall>r \<in> set (required_repositories p). candidates_of p r \<noteq> [])"

definition ordered_options :: "CompatibilityProblem \<Rightarrow> str \<Rightarrow> CommitCandidate list" where
  "ordered_options p r = dedup_key commit (sort_key candidate_order (candidates_of p r))"

lemma group_candidates_Inr_iff:
  "group_candidates R m cs = Inr g \<longleftrightarrow>
     (\<forall>c \<in> set cs. cand_repository c \<in> R)
     \<and> g = (\<lambda>r. let ys = map canonical_candidate (filter (\<lambda>c. cand_repository c = r) cs) in
            if ys = [] then m r else Some ((case m r of None \<Rightarrow> [] | Some xs \<Rightarrow> xs) @ ys))"
proof (induction cs arbitrary: m)
  case Nil
  then show ?case by auto
next
  case (Cons c cs)
  then show ?case by (auto simp: fun_eq_iff Let_def)
qed

lemma sort_candidates_Inr_iff:
  "distinct rs \<Longrightarrow> sort_candidates m rs = Inr s \<longleftrightarrow>
     (\<forall>r \<in> set rs. m r \<noteq> None)
     \<and> s = (\<lambda>r. if r \<in> set rs
            then map_option (\<lambda>xs. dedup_key commit (sort_key candidate_order xs)) (m r) else m r)"
proof (induction rs arbitrary: m)
  case Nil
  then show ?case by auto
next
  case (Cons r rs)
  then show ?case by (auto simp: fun_eq_iff split: option.splits)
qed

lemma sort_candidates_Inl: "sort_candidates m rs = Inl e \<Longrightarrow> \<exists>r. e = MissingCandidates r"
  by (induction rs arbitrary: m) (auto split: option.splits)

lemma group_candidates_Inl: "group_candidates R m cs = Inl e \<Longrightarrow> \<exists>r c. e = CandidateOutsideClosure r c"
  by (induction cs arbitrary: m) (auto split: if_splits)

lemma solve_eq:
  "solve_compatibility_vector p = Inr v \<longleftrightarrow>
     well_posed p \<and> search (\<lambda>r. if r \<in> set (required_repositories p) then Some (ordered_options p r) else None)
       (constraints_new (compatible_pairs p)) (sort (required_repositories p)) [] 0 None = Some v"
  "solve_compatibility_vector p = Inl NoCompatibleVector \<longleftrightarrow>
     well_posed p \<and> search (\<lambda>r. if r \<in> set (required_repositories p) then Some (ordered_options p r) else None)
       (constraints_new (compatible_pairs p)) (sort (required_repositories p)) [] 0 None = None"
proof -
  let ?rs = "sort (required_repositories p)" and ?R = "set (required_repositories p)"
  let ?cands = "\<lambda>r. if r \<in> ?R then Some (ordered_options p r) else None"
  let ?g = "\<lambda>r. if candidates_of p r = [] then None else Some (candidates_of p r)"
  have dup: "adjacent_dup (\<lambda>r. r) ?rs = None \<longleftrightarrow> distinct (required_repositories p)"
    by (subst adjacent_dup_None_iff) simp_all
  have dup': "(case adjacent_dup (\<lambda>r. r) ?rs of
        Some r \<Rightarrow> Inl (CompatDuplicateRepository r) | None \<Rightarrow> Inr ()) = Inr u \<longleftrightarrow>
      distinct (required_repositories p)" for u
    using dup by (auto split: option.splits)
  have grp: "group_candidates ?R Map.empty (candidates p) = Inr g \<longleftrightarrow>
      (\<forall>c \<in> set (candidates p). cand_repository c \<in> ?R) \<and> g = ?g" for g
    unfolding group_candidates_Inr_iff by (simp add: candidates_of_def Let_def cong: if_cong)
  have srt: "sort_candidates ?g ?rs = Inr s \<longleftrightarrow>
      (\<forall>r \<in> ?R. candidates_of p r \<noteq> []) \<and> s = ?cands"
    if "distinct (required_repositories p)" "\<forall>c \<in> set (candidates p). cand_repository c \<in> ?R" for s
  proof -
    have "candidates_of p r = []" if "r \<notin> ?R" for r
      using that \<open>\<forall>c \<in> set (candidates p). cand_repository c \<in> ?R\<close>
      by (auto simp: candidates_of_def filter_empty_conv)
    with that(1) show ?thesis
      by (subst sort_candidates_Inr_iff) (auto simp: fun_eq_iff Let_def ordered_options_def)
  qed
  show "solve_compatibility_vector p = Inr v \<longleftrightarrow> well_posed p \<and>
      search ?cands (constraints_new (compatible_pairs p)) ?rs [] 0 None = Some v"
    unfolding solve_compatibility_vector_def Let_def rbind_Inr_iff ensure_Inr_iff dup' set_sort grp
      ok_or_Inr_iff well_posed_def
    by (auto simp: srt)
  show "solve_compatibility_vector p = Inl NoCompatibleVector \<longleftrightarrow> well_posed p \<and>
      search ?cands (constraints_new (compatible_pairs p)) ?rs [] 0 None = None"
    unfolding solve_compatibility_vector_def Let_def rbind_Inl_iff ensure_Inl_iff set_sort
      ensure_Inr_iff dup' grp ok_or_Inl_iff well_posed_def
    by (auto simp: srt split: option.splits dest: group_candidates_Inl sort_candidates_Inl)
qed

lemma set_dedup_key: "set (dedup_key f xs) \<subseteq> set xs"
  by (induction f xs rule: dedup_key.induct) auto

lemma dedup_key_dominates:
  assumes "sorted (map candidate_order xs)" and "c \<in> set xs"
  shows "\<exists>d \<in> set (dedup_key commit xs). commit d = commit c \<and> evidence_score c \<le> evidence_score d"
  using assms
proof (induction "commit :: CommitCandidate \<Rightarrow> str" xs arbitrary: c rule: dedup_key.induct)
  case (1 x y zs)
  show ?case
  proof (cases "commit x = commit y")
    case True
    have srt: "sorted (map candidate_order (x # zs))" using "1.prems"(1) by simp
    show ?thesis
    proof (cases "c = y")
      case True
      have "evidence_score y \<le> evidence_score x"
        using "1.prems"(1) by (auto simp: candidate_order_def)
      with "1.hyps"(1) [OF \<open>commit x = commit y\<close> srt, of x] \<open>commit x = commit y\<close> \<open>c = y\<close>
      show ?thesis by fastforce
    next
      case False
      with "1.hyps"(1) [OF \<open>commit x = commit y\<close> srt, of c] "1.prems"(2) \<open>commit x = commit y\<close>
      show ?thesis by auto
    qed
  next
    case False
    with 1 show ?thesis by (cases "c = x") auto
  qed
qed auto

lemma ordered_options_repository:
  "x \<in> set (ordered_options p r) \<Longrightarrow>
     cand_repository x = r \<and> x \<in> canonical_candidate ` set (candidates p)"
  using set_dedup_key [of commit "sort_key candidate_order (candidates_of p r)"]
  by (auto simp: ordered_options_def candidates_of_def canonical_candidate_def)

lemma ordered_options_dominates:
  assumes "x \<in> canonical_candidate ` set (candidates p)"
  shows "\<exists>d \<in> set (ordered_options p (cand_repository x)).
           commit d = commit x \<and> evidence_score x \<le> evidence_score d"
proof -
  have "x \<in> set (sort_key candidate_order (candidates_of p (cand_repository x)))"
    using assms by (auto simp: candidates_of_def canonical_candidate_def)
  then show ?thesis unfolding ordered_options_def by (intro dedup_key_dominates) simp_all
qed

lemma sorted_wrt_allows:
  assumes "distinct (map cand_repository xs)"
  shows "sorted_wrt (allows (constraints_new ps)) xs \<longleftrightarrow> sorted_wrt (compatible ps) xs"
  using assms
proof (induction xs)
  case (Cons a xs)
  have "allows (constraints_new ps) a x \<longleftrightarrow> compatible ps a x" if "x \<in> set xs" for x
    using that Cons.prems by (intro allows_iff) (auto simp: image_iff)
  with Cons show ?case by simp
qed simp

lemma list_all2_ordered_options_known:
  "list_all2 (\<lambda>r x. x \<in> set (ordered_options p r)) rs xs \<Longrightarrow>
     set xs \<subseteq> canonical_candidate ` set (candidates p)"
proof (induction rule: list_all2_induct)
  case (Cons r rs x xs)
  then show ?case using ordered_options_repository [of x p r] by simp
qed simp

text \<open>The vectors the search enumerates for a problem.\<close>

definition enumerated :: "CompatibilityProblem \<Rightarrow> CommitCandidate list list" where
  "enumerated p = extensions
     (\<lambda>r. if r \<in> set (required_repositories p) then Some (ordered_options p r) else None)
     (constraints_new (compatible_pairs p)) (sort (required_repositories p)) []"

lemma list_all2_guarded_options:
  "set rs \<subseteq> R \<Longrightarrow>
     list_all2 (\<lambda>r x. \<exists>ys. (if r \<in> R then Some (f r) else None) = Some ys \<and> x \<in> set ys) rs xs
     \<longleftrightarrow> list_all2 (\<lambda>r x. x \<in> set (f r)) rs xs"
  by (induction rs arbitrary: xs) (auto simp: list_all2_Cons1)

lemma map_repository_list_all2:
  "list_all2 (\<lambda>r x. x \<in> set (ordered_options p r)) rs xs \<Longrightarrow> map cand_repository xs = rs"
  by (induction rule: list_all2_induct) (auto dest: ordered_options_repository)

lemma enumerated_iff:
  assumes "distinct (required_repositories p)"
  shows "xs \<in> set (enumerated p) \<longleftrightarrow>
     list_all2 (\<lambda>r x. x \<in> set (ordered_options p r)) (sort (required_repositories p)) xs
     \<and> sorted_wrt (compatible (compatible_pairs p)) xs"
proof -
  let ?rs = "sort (required_repositories p)"
  have all2: "list_all2 (\<lambda>r x. \<exists>options. (if r \<in> set (required_repositories p)
        then Some (ordered_options p r) else None) = Some options \<and> x \<in> set options) ?rs zs
      \<longleftrightarrow> list_all2 (\<lambda>r x. x \<in> set (ordered_options p r)) ?rs zs" for zs
    by (rule list_all2_guarded_options) simp
  have "sorted_wrt (allows (constraints_new (compatible_pairs p))) xs
      \<longleftrightarrow> sorted_wrt (compatible (compatible_pairs p)) xs"
    if "list_all2 (\<lambda>r x. x \<in> set (ordered_options p r)) ?rs xs"
    using map_repository_list_all2 [OF that] assms by (intro sorted_wrt_allows) simp
  then show ?thesis unfolding enumerated_def extensions_iff all2 by auto
qed

lemma enumerated_compatible:
  assumes "distinct (required_repositories p)" and "xs \<in> set (enumerated p)"
  shows "compatible_vector p xs"
proof -
  have all2: "list_all2 (\<lambda>r x. x \<in> set (ordered_options p r)) (sort (required_repositories p)) xs"
    using assms enumerated_iff by blast
  moreover have "sorted_wrt (compatible (compatible_pairs p)) xs"
    using assms enumerated_iff by blast
  ultimately show ?thesis
    unfolding compatible_vector_def
    using map_repository_list_all2 list_all2_ordered_options_known by blast
qed

text \<open>
  Every compatible vector is matched by an enumerated one with the same commits and at least the
  same score, although duplicates of a commit were removed.
\<close>

lemma enumerated_dominates:
  assumes dist: "distinct (required_repositories p)" and ys: "compatible_vector p ys"
  shows "\<exists>zs \<in> set (enumerated p). rank_key zs \<le> rank_key ys"
proof -
  let ?dom = "\<lambda>y d. d \<in> set (ordered_options p (cand_repository y)) \<and> commit d = commit y
    \<and> evidence_score y \<le> evidence_score d"
  have known: "\<forall>y \<in> set ys. y \<in> canonical_candidate ` set (candidates p)"
    using ys by (auto simp: compatible_vector_def)
  then have "\<forall>y \<in> set ys. \<exists>d. ?dom y d" using ordered_options_dominates by blast
  then obtain f where f: "\<forall>y \<in> set ys. ?dom y (f y)" by metis
  let ?zs = "map f ys"
  have repo: "cand_repository (f y) = cand_repository y" if "y \<in> set ys" for y
    using f that ordered_options_repository by blast
  have "list_all2 (\<lambda>r x. x \<in> set (ordered_options p r)) (map cand_repository ys) ?zs"
    using f by (simp add: list_all2_conv_all_nth)
  moreover have "compatible (compatible_pairs p) (f x) (f y) = compatible (compatible_pairs p) x y"
    if "x \<in> set ys" "y \<in> set ys" for x y
    using that f repo by (simp add: compatible_def concerns_def lists_commits_def)
  then have "sorted_wrt (compatible (compatible_pairs p)) ?zs"
    using ys by (simp add: compatible_vector_def sorted_wrt_map) (metis (mono_tags, lifting)
        sorted_wrt_mono_rel)
  ultimately have "?zs \<in> set (enumerated p)"
    using ys enumerated_iff [OF dist] by (simp add: compatible_vector_def)
  moreover have "total_score ys \<le> total_score ?zs"
    unfolding total_score_def using f by (induction ys) (auto intro: add_mono)
  moreover have "canonical_commits (as_vector ?zs) = canonical_commits (as_vector ys)"
    using f repo by (simp add: canonical_commits_def as_vector_def)
  ultimately show ?thesis
    by (intro bexI [of _ ?zs]) (auto simp: rank_key_def)
qed

lemma solve_cases:
  "solve_compatibility_vector p = Inr v \<longleftrightarrow> well_posed p \<and> fold keep_better (enumerated p) None = Some v"
  "solve_compatibility_vector p = Inl NoCompatibleVector \<longleftrightarrow> well_posed p \<and> enumerated p = []"
proof -
  have "search (\<lambda>r. if r \<in> set (required_repositories p) then Some (ordered_options p r) else None)
       (constraints_new (compatible_pairs p)) (sort (required_repositories p)) [] 0 None
     = fold keep_better (enumerated p) None"
    using search_eq_fold [where chosen = "[]"] by (simp add: total_score_def enumerated_def)
  moreover have "fold keep_better (enumerated p) None = None \<longleftrightarrow> enumerated p = []"
    using fold_keep_better_None [of "enumerated p"] by (auto split: option.splits)
  ultimately show
    "solve_compatibility_vector p = Inr v \<longleftrightarrow> well_posed p \<and> fold keep_better (enumerated p) None = Some v"
    "solve_compatibility_vector p = Inl NoCompatibleVector \<longleftrightarrow> well_posed p \<and> enumerated p = []"
    by (simp_all add: solve_eq)
qed

subsection \<open>Properties\<close>

definition sample_candidate :: "string \<Rightarrow> string \<Rightarrow> nat \<Rightarrow> CommitCandidate" where
  "sample_candidate r c n = \<lparr>cand_repository = lit r, cand_base_ref = lit ''main'', commit = lit c,
     evidence_score = n, cand_evidence = [lit ''ci'']\<rparr>"

definition sample_problem :: CompatibilityProblem where
  "sample_problem =
     \<lparr>required_repositories = [lit ''orders-api'', lit ''billing-sdk''],
      candidates =
        [sample_candidate ''orders-api'' ''orders-new'' 100,
         sample_candidate ''orders-api'' ''orders-stable'' 90,
         sample_candidate ''billing-sdk'' ''billing-new'' 100,
         sample_candidate ''billing-sdk'' ''billing-stable'' 90],
      compatible_pairs =
        [\<lparr>left_repository = lit ''orders-api'', left_commit = lit ''orders-new'',
          right_repository = lit ''billing-sdk'', right_commit = lit ''billing-stable'',
          pair_evidence = []\<rparr>]\<rparr>"

definition sample_solution :: CompatibilityVector where
  "sample_solution =
     \<lparr>commits = [sample_candidate ''billing-sdk'' ''billing-stable'' 90,
                sample_candidate ''orders-api'' ''orders-new'' 100], vector_score = 190\<rparr>"

lemma solve_sample: "solve_compatibility_vector sample_problem = Inr sample_solution"
  by code_simp

text \<open>
  C8: the solver is sound and optimal. The vector it returns has one candidate of the problem
  per required repository, in repository order, every two of them compatible with the declared
  pairs, and its score is their sum; and no compatible vector over the problem's candidates
  beats it: each has a lower score, or the same score and a commit list that is not smaller.
\<close>

theorem solve_optimal:
  assumes "solve_compatibility_vector p = Inr v"
  shows "compatible_vector p (commits v) \<and> vector_score v = total_score (commits v)
    \<and> (\<forall>ys. compatible_vector p ys \<longrightarrow>
         total_score ys < vector_score v
         \<or> (total_score ys = vector_score v
            \<and> canonical_commits v \<le> map (\<lambda>c. (cand_repository c, commit c)) ys))"
proof -
  have wp: "well_posed p" and best: "fold keep_better (enumerated p) None = Some v"
    using assms by (simp_all add: solve_cases)
  have dist: "distinct (required_repositories p)" using wp by (simp add: well_posed_def)
  obtain xs where xs: "xs \<in> set (enumerated p)" and v: "v = as_vector xs"
    and least: "\<forall>x \<in> set (enumerated p). rank_key xs \<le> rank_key x"
    using fold_keep_better_None [of "enumerated p"] best by auto
  have "rank_key xs \<le> rank_key ys" if "compatible_vector p ys" for ys
    using enumerated_dominates [OF dist that] least by (meson order_trans)
  then have "\<forall>ys. compatible_vector p ys \<longrightarrow>
      total_score ys < vector_score v
      \<or> (total_score ys = vector_score v
         \<and> canonical_commits v \<le> map (\<lambda>c. (cand_repository c, commit c)) ys)"
    using v by (fastforce simp: rank_key_def as_vector_def canonical_commits_def)
  with enumerated_compatible [OF dist xs] v show ?thesis by (simp add: as_vector_def)
qed

theorem solve_optimal_witness:
  "compatible_vector sample_problem (commits sample_solution)
   \<and> \<not> compatible_vector sample_problem
       [sample_candidate ''billing-sdk'' ''billing-new'' 100, sample_candidate ''orders-api'' ''orders-new'' 100]"
proof -
  note best = solve_optimal [OF solve_sample]
  have "total_score [sample_candidate ''billing-sdk'' ''billing-new'' 100,
      sample_candidate ''orders-api'' ''orders-new'' 100] = 200"
    by (simp add: total_score_def sample_candidate_def)
  with best show ?thesis by (fastforce simp: sample_solution_def)
qed

text \<open>
  C9: the solver reports \<open>NoCompatibleVector\<close> only when it is right to: exactly for a well-posed
  problem (repositories named once, every candidate inside the closure, a candidate for each
  repository) that has no compatible vector at all.
\<close>

theorem solve_complete:
  "solve_compatibility_vector p = Inl NoCompatibleVector \<longleftrightarrow>
     well_posed p \<and> \<not> (\<exists>ys. compatible_vector p ys)"
proof (cases "well_posed p")
  case True
  then have dist: "distinct (required_repositories p)" by (simp add: well_posed_def)
  have "enumerated p = [] \<longleftrightarrow> \<not> (\<exists>ys. compatible_vector p ys)"
    using enumerated_dominates [OF dist] enumerated_compatible [OF dist]
    by (cases "enumerated p") fastforce+
  with True show ?thesis by (simp add: solve_cases)
qed (simp add: solve_cases)

end
