(* ===== verification/Contracts.thy ===== *)
theory Contracts
  imports Rust_Prelude
begin

text \<open>
  The interfaces between components, as locales: what a caller of a normaliser, of a storage
  codec or of a table relies on. Each component theory interprets them on its own
  definitions, and the callers' lemmas come from those interpretations.
\<close>

text \<open>\<open>Option::map(f).transpose()\<close>.\<close>

definition map_transpose :: "('a \<Rightarrow> 'e + 'b) \<Rightarrow> 'a option \<Rightarrow> 'e + 'b option" where
  "map_transpose f x = (case x of None \<Rightarrow> Inr None | Some y \<Rightarrow> rbind (f y) (\<lambda>z. Inr (Some z)))"

lemma map_transpose_Inr_iff [simp]:
  "map_transpose f x = Inr y \<longleftrightarrow>
     (case x of None \<Rightarrow> y = None | Some a \<Rightarrow> \<exists>b. f a = Inr b \<and> y = Some b)"
  by (cases x) (auto simp: map_transpose_def)

subsection \<open>Normalisers\<close>

text \<open>
  A normaliser validates untrusted input and returns its canonical form. Its callers store
  the canonical form and later check a stored value by normalising it again, which only works
  when a canonical form is its own normal form.
\<close>

locale canonicaliser =
  fixes norm :: "'a \<Rightarrow> 'e + 'a"
  assumes stable: "norm x = Inr y \<Longrightarrow> norm y = Inr y"
begin

lemma canonical_iff: "norm x = Inr x \<longleftrightarrow> (\<exists>y. norm y = Inr x)"
  using stable by blast

lemma twice: "rbind (norm x) norm = norm x"
  using stable by (cases "norm x") auto

lemma map_transpose_stable:
  assumes "map_transpose norm x = Inr y"
  shows "map_transpose norm y = Inr y"
  using assms stable by (auto split: option.splits)

end

text \<open>
  A normaliser that ignores presentation: inputs related by \<open>sim\<close> (the same content listed in
  another order) have the same canonical form, so what a caller computes from the canonical
  form is the same too.
\<close>

locale presentation_blind = canonicaliser +
  fixes sim :: "'a \<Rightarrow> 'a \<Rightarrow> bool"
  assumes blind: "sim x x' \<Longrightarrow> norm x = Inr y \<Longrightarrow> norm x' = Inr y"
begin

lemma client_same: "sim x x' \<Longrightarrow> norm x = Inr y \<Longrightarrow> rbind (norm x') k = rbind (norm x) k"
  using blind by simp

end

subsection \<open>Storage codecs\<close>

text \<open>An enumeration kept as text in a column: reading back what was written gives the value.\<close>

locale storage_codec =
  fixes to_storage :: "'a \<Rightarrow> str" and from_storage :: "str \<Rightarrow> 'e + 'a"
  assumes decode_encode: "from_storage (to_storage x) = Inr x"
begin

lemma encode_eq_iff: "to_storage x = to_storage y \<longleftrightarrow> x = y"
proof
  assume "to_storage x = to_storage y"
  then have "from_storage (to_storage x) = from_storage (to_storage y)" by simp
  then show "x = y" by (simp add: decode_encode)
qed simp

lemma traverse_decode: "traverse from_storage (map to_storage xs) = Inr xs"
  by (induction xs) (simp_all add: decode_encode)

end

subsection \<open>Invariants of a step function\<close>

text \<open>A run of a partial step function over a list of events; \<open>None\<close> when an event is not enabled.\<close>

fun run_steps :: "('e \<Rightarrow> 's \<Rightarrow> 's option) \<Rightarrow> 'e list \<Rightarrow> 's \<Rightarrow> 's option" where
  "run_steps step [] s = Some s"
| "run_steps step (e # es) s = (case step e s of None \<Rightarrow> None | Some s' \<Rightarrow> run_steps step es s')"

lemma run_steps_append:
  "run_steps step (es @ fs) s = (case run_steps step es s of None \<Rightarrow> None | Some s' \<Rightarrow> run_steps step fs s')"
  by (induction es arbitrary: s) (auto split: option.splits)

text \<open>What every step keeps holds after every run.\<close>

locale step_invariant =
  fixes step :: "'e \<Rightarrow> 's \<Rightarrow> 's option" and inv :: "'s \<Rightarrow> bool"
  assumes kept: "inv s \<Longrightarrow> step e s = Some s' \<Longrightarrow> inv s'"
begin

lemma run: "inv s \<Longrightarrow> run_steps step es s = Some s' \<Longrightarrow> inv s'"
  by (induction es arbitrary: s) (auto split: option.splits intro: kept)

end

end
