(* ===== verification/Workspace_Contract.thy ===== *)
theory Workspace_Contract
  imports Contracts
begin

text \<open>
  The workspace creation contract of \<open>crates/wts-core/src/workspace.rs\<close>: the request types,
  the validation errors, and \<open>CreateWorkspaceRequest::normalize\<close> with its helpers.
  \<open>str::to_lowercase\<close> depends on the Unicode tables of the standard library and is the
  parameter \<open>lc\<close> of the definitions that call it; nothing is assumed of it.
  The lemmas show that each loop of the normaliser accepts exactly what a declarative
  predicate describes, that normalising is idempotent, and that the canonical result does not
  depend on the order in which the client lists repositories, services or ports.
\<close>

subsection \<open>Data\<close>

datatype WorkspaceIntent =
    Jira (issue_key: str)
  | OpenProject (work_package_id: nat) (display_id: str)
  | RepositorySet (set_label: str)

datatype WorkspaceProvider = Codex | OpenCode | Hermes | VsCode | Copilot

datatype WorkspacePhase = Draft

datatype WorkspaceWorkflowState = Ready | Active | Review | Parked

record TransitionWorkspaceWorkflowRequest =
  tw_state :: WorkspaceWorkflowState
  tw_expected_revision :: nat

record PlaceWorkspaceOnBoardRequest =
  pw_state :: WorkspaceWorkflowState
  pw_expected_revision :: nat
  before_workspace_id :: "uuid option"
  after_workspace_id :: "uuid option"

record FollowWorkspaceAgentRequest =
  fw_expected_revision :: nat

datatype WorkspaceMaterializationState = Unknown | NotMaterialized | Materialized | NeedsAttention

record WorkspaceRepositoryRequest =
  repository_id :: "str option"
  label :: str
  base_ref :: str

datatype RuntimePortPolicy = Prefer | Fixed

record RuntimePortSelection =
  port_id :: str
  preferred_port :: nat
  policy :: RuntimePortPolicy

record RuntimeServiceSelection =
  candidate_id :: str
  ports :: "RuntimePortSelection list"

record RuntimePlanSelection =
  analysis_digest :: str
  services :: "RuntimeServiceSelection list"

datatype WorkspacePlanningFolder = Plans | PlansAndKanban

datatype WorkspacePlanningFormat = Notes | Kanban

record WorkspacePlanningSelection =
  folder :: WorkspacePlanningFolder
  format :: WorkspacePlanningFormat

record CreateWorkspaceRequest =
  intent :: WorkspaceIntent
  title :: str
  preferred_provider :: WorkspaceProvider
  repositories :: "WorkspaceRepositoryRequest list"
  runtime :: "RuntimePlanSelection option"
  planning :: "WorkspacePlanningSelection option"

record RenameWorkspaceRequest =
  rename_title :: str

datatype WorkspaceValidationError =
    MissingTitle
  | TitleTooLong
  | InvalidTitle
  | InvalidIssueKey
  | InvalidOpenProjectWorkPackage
  | MissingRepositorySetLabel
  | RepositorySetLabelTooLong
  | InvalidRepositorySetLabel
  | EmptyRepositories
  | TooManyRepositories
  | MissingRepositoryLabel nat
  | RepositoryLabelTooLong nat
  | InvalidRepositoryLabel nat
  | InvalidRepositoryId str
  | InvalidBaseRef str
  | DuplicateRepository str
  | DuplicateRepositoryId str
  | InvalidRuntimeAnalysisDigest
  | EmptyRuntimeServices
  | TooManyRuntimeServices
  | InvalidRuntimeCandidateId nat
  | DuplicateRuntimeCandidateId str
  | TooManyRuntimePorts str
  | InvalidRuntimePortId str nat
  | DuplicateRuntimePortId str str
  | InvalidRuntimePort str str

definition MAX_WORKSPACE_TITLE_CHARS :: nat where "MAX_WORKSPACE_TITLE_CHARS = 240"
definition MAX_REPOSITORIES_PER_WORKSPACE :: nat where "MAX_REPOSITORIES_PER_WORKSPACE = 32"
definition MAX_REPOSITORY_LABEL_CHARS :: nat where "MAX_REPOSITORY_LABEL_CHARS = 128"
definition MAX_BASE_REF_CHARS :: nat where "MAX_BASE_REF_CHARS = 255"
definition MAX_REPOSITORY_SET_LABEL_CHARS :: nat where "MAX_REPOSITORY_SET_LABEL_CHARS = 120"
definition MAX_OPENPROJECT_DISPLAY_ID_CHARS :: nat where "MAX_OPENPROJECT_DISPLAY_ID_CHARS = 80"
definition MAX_RUNTIME_SERVICES :: nat where "MAX_RUNTIME_SERVICES = 32"
definition MAX_RUNTIME_PORTS_PER_SERVICE :: nat where "MAX_RUNTIME_PORTS_PER_SERVICE = 8"
definition MAX_RUNTIME_IDENTIFIER_CHARS :: nat where "MAX_RUNTIME_IDENTIFIER_CHARS = 160"

lemmas contract_limits =
  MAX_WORKSPACE_TITLE_CHARS_def MAX_REPOSITORIES_PER_WORKSPACE_def
  MAX_REPOSITORY_LABEL_CHARS_def MAX_BASE_REF_CHARS_def MAX_REPOSITORY_SET_LABEL_CHARS_def
  MAX_OPENPROJECT_DISPLAY_ID_CHARS_def MAX_RUNTIME_SERVICES_def
  MAX_RUNTIME_PORTS_PER_SERVICE_def MAX_RUNTIME_IDENTIFIER_CHARS_def

subsection \<open>Character-level checks\<close>

definition invalid_repository_set_label :: "str \<Rightarrow> bool" where
  "invalid_repository_set_label value \<longleftrightarrow>
     (\<exists>c \<in> set value. is_control c \<or> c = chr CHR 0x5C)
     \<or> (\<exists>segment \<in> set (split_on (chr CHR ''/'') value).
          trim segment = [] \<or> trim segment = lit ''.'' \<or> trim segment = lit ''..'')"

definition valid_issue_key :: "str \<Rightarrow> bool" where
  "valid_issue_key key =
     (case split_once (chr CHR ''-'') key of
        None \<Rightarrow> False
      | Some (project, number) \<Rightarrow>
          \<not> (str_len project < 2
             \<or> str_len project > 16
             \<or> \<not> (case project of [] \<Rightarrow> False | c # _ \<Rightarrow> is_ascii_uppercase c)
             \<or> \<not> (\<forall>c \<in> set project. is_ascii_uppercase c \<or> is_ascii_digit c))
          \<and> 1 \<le> str_len number \<and> str_len number \<le> 10
          \<and> \<not> starts_with (lit ''0'') number
          \<and> (\<forall>c \<in> set number. is_ascii_digit c))"

definition has_control_or_path_separator :: "str \<Rightarrow> bool" where
  "has_control_or_path_separator value \<longleftrightarrow>
     (\<exists>c \<in> set value. is_control c \<or> c = chr CHR ''/'' \<or> c = chr CHR 0x5C)"

definition valid_repository_id :: "str \<Rightarrow> bool" where
  "valid_repository_id value =
     (case strip_prefix (lit ''repo_'') value of
        None \<Rightarrow> False
      | Some digest \<Rightarrow> str_len digest = 64 \<and> (\<forall>c \<in> set digest. is_lower_hex c))"

definition valid_analysis_digest :: "str \<Rightarrow> bool" where
  "valid_analysis_digest value =
     (case strip_prefix (lit ''sha256:'') value of
        None \<Rightarrow> False
      | Some digest \<Rightarrow> str_len digest = 64 \<and> (\<forall>c \<in> set digest. is_lower_hex c))"

definition valid_runtime_identifier :: "str \<Rightarrow> bool" where
  "valid_runtime_identifier value \<longleftrightarrow>
     value \<noteq> [] \<and> str_len value \<le> MAX_RUNTIME_IDENTIFIER_CHARS
     \<and> (\<forall>c \<in> set value. is_ascii_alphanumeric c \<or> c \<in> set (lit ''._:-''))"

definition valid_base_ref :: "str \<Rightarrow> bool" where
  "valid_base_ref r \<longleftrightarrow>
     \<not> (r = []
        \<or> length r > MAX_BASE_REF_CHARS
        \<or> starts_with (lit ''-'') r
        \<or> starts_with (lit ''/'') r
        \<or> ends_with (lit ''/'') r
        \<or> ends_with (lit ''.'') r
        \<or> ends_with (lit ''.lock'') r
        \<or> contains_str (lit ''..'') r
        \<or> contains_str (lit [CHR ''@'', CHR 0x7B]) r
        \<or> contains_str (lit ''//'') r)
     \<and> \<not> (\<exists>c \<in> set r. is_control c \<or> is_whitespace c
            \<or> c \<in> set (lit ''~^:?*['') \<or> c = chr CHR 0x5C)"

subsection \<open>Normalisation\<close>

definition normalize_workspace_title :: "str \<Rightarrow> WorkspaceValidationError + str" where
  "normalize_workspace_title raw =
     (let t = trim raw in
      if t = [] then Inl MissingTitle
      else if length t > MAX_WORKSPACE_TITLE_CHARS then Inl TitleTooLong
      else if (\<exists>c \<in> set t. is_control c) then Inl InvalidTitle
      else Inr t)"

fun normalize_intent :: "WorkspaceIntent \<Rightarrow> WorkspaceValidationError + WorkspaceIntent" where
  "normalize_intent (Jira key) =
     (let key = to_ascii_uppercase (trim key) in
      if \<not> valid_issue_key key then Inl InvalidIssueKey else Inr (Jira key))"
| "normalize_intent (OpenProject wp display) =
     (let display = trim display in
      if wp = 0 \<or> display = [] \<or> length display > MAX_OPENPROJECT_DISPLAY_ID_CHARS
         \<or> has_control_or_path_separator display
      then Inl InvalidOpenProjectWorkPackage
      else Inr (OpenProject wp display))"
| "normalize_intent (RepositorySet lab) =
     (let lab = trim lab in
      if lab = [] then Inl MissingRepositorySetLabel
      else if length lab > MAX_REPOSITORY_SET_LABEL_CHARS then Inl RepositorySetLabelTooLong
      else if invalid_repository_set_label lab then Inl InvalidRepositorySetLabel
      else Inr (RepositorySet lab))"

text \<open>
  The inner loop of \<open>normalize_runtime\<close> over the ports of one service; \<open>seen\<close> is the set
  \<open>port_ids\<close> and \<open>i\<close> the index of \<open>enumerate\<close>.
\<close>

fun check_ports ::
    "str \<Rightarrow> nat \<Rightarrow> str set \<Rightarrow> RuntimePortSelection list \<Rightarrow> WorkspaceValidationError + unit" where
  "check_ports cand i seen [] = Inr ()"
| "check_ports cand i seen (p # ps) =
     (if \<not> valid_runtime_identifier (port_id p) then Inl (InvalidRuntimePortId cand i)
      else if port_id p \<in> seen then Inl (DuplicateRuntimePortId cand (port_id p))
      else if preferred_port p < 1024 then Inl (InvalidRuntimePort cand (port_id p))
      else check_ports cand (Suc i) (insert (port_id p) seen) ps)"

definition sort_ports :: "RuntimeServiceSelection \<Rightarrow> RuntimeServiceSelection" where
  "sort_ports s = s\<lparr>ports := sort_key port_id (ports s)\<rparr>"

text \<open>The outer loop over the services; \<open>seen\<close> is the set \<open>candidate_ids\<close>.\<close>

fun normalize_services ::
    "nat \<Rightarrow> str set \<Rightarrow> RuntimeServiceSelection list
     \<Rightarrow> WorkspaceValidationError + RuntimeServiceSelection list" where
  "normalize_services i seen [] = Inr []"
| "normalize_services i seen (s # ss) =
     (if \<not> valid_runtime_identifier (candidate_id s) then Inl (InvalidRuntimeCandidateId i)
      else if candidate_id s \<in> seen then Inl (DuplicateRuntimeCandidateId (candidate_id s))
      else if length (ports s) > MAX_RUNTIME_PORTS_PER_SERVICE
           then Inl (TooManyRuntimePorts (candidate_id s))
      else rbind (check_ports (candidate_id s) 0 {} (ports s)) (\<lambda>_.
           rbind (normalize_services (Suc i) (insert (candidate_id s) seen) ss) (\<lambda>ss'.
           Inr (sort_ports s # ss'))))"

definition normalize_runtime ::
    "RuntimePlanSelection \<Rightarrow> WorkspaceValidationError + RuntimePlanSelection" where
  "normalize_runtime rt =
     (if \<not> valid_analysis_digest (analysis_digest rt) then Inl InvalidRuntimeAnalysisDigest
      else if services rt = [] then Inl EmptyRuntimeServices
      else if length (services rt) > MAX_RUNTIME_SERVICES then Inl TooManyRuntimeServices
      else rbind (normalize_services 0 {} (services rt)) (\<lambda>ss.
           Inr (rt\<lparr>services := sort_key candidate_id ss\<rparr>)))"

text \<open>
  The loop of \<open>normalize\<close> over the repositories: \<open>labels\<close> is the \<open>BTreeMap\<close> from the
  lower-cased label to whether its last repository was pinned, \<open>ids\<close> the set
  \<open>repository_ids\<close>.
\<close>

fun normalize_repositories ::
    "(str \<Rightarrow> str) \<Rightarrow> nat \<Rightarrow> (str \<rightharpoonup> bool) \<Rightarrow> str set \<Rightarrow> WorkspaceRepositoryRequest list
     \<Rightarrow> WorkspaceValidationError + WorkspaceRepositoryRequest list" where
  "normalize_repositories lc i labels ids [] = Inr []"
| "normalize_repositories lc i labels ids (r # rs) =
     (let lab = trim (label r); base = trim (base_ref r); pinned = repository_id r \<noteq> None in
      rbind (ensure (lab \<noteq> []) (MissingRepositoryLabel i)) (\<lambda>_.
      rbind (ensure (length lab \<le> MAX_REPOSITORY_LABEL_CHARS) (RepositoryLabelTooLong i)) (\<lambda>_.
      rbind (ensure (\<not> has_control_or_path_separator lab) (InvalidRepositoryLabel i)) (\<lambda>_.
      rbind (case repository_id r of
               None \<Rightarrow> Inr ids
             | Some rid \<Rightarrow>
                 rbind (ensure (valid_repository_id rid) (InvalidRepositoryId lab)) (\<lambda>_.
                 rbind (ensure (rid \<notin> ids) (DuplicateRepositoryId lab)) (\<lambda>_.
                 Inr (insert rid ids)))) (\<lambda>ids'.
      rbind (ensure (valid_base_ref base) (InvalidBaseRef lab)) (\<lambda>_.
      rbind (ensure (case labels (lc lab) of
                       None \<Rightarrow> True
                     | Some previous_pinned \<Rightarrow> previous_pinned \<and> pinned)
               (DuplicateRepository lab)) (\<lambda>_.
      rbind (normalize_repositories lc (Suc i) (labels(lc lab \<mapsto> pinned)) ids' rs) (\<lambda>rs'.
      Inr (r\<lparr>label := lab, base_ref := base\<rparr> # rs')))))))))"

definition repository_sort_key ::
    "(str \<Rightarrow> str) \<Rightarrow> WorkspaceRepositoryRequest \<Rightarrow> str \<times> str option \<times> str" where
  "repository_sort_key lc r = (lc (label r), repository_id r, base_ref r)"

definition normalize ::
    "(str \<Rightarrow> str) \<Rightarrow> CreateWorkspaceRequest \<Rightarrow> WorkspaceValidationError + CreateWorkspaceRequest"
where
  "normalize lc req =
     rbind (normalize_workspace_title (title req)) (\<lambda>t.
     rbind (normalize_intent (intent req)) (\<lambda>it.
     rbind (map_transpose normalize_runtime (runtime req)) (\<lambda>rt.
     rbind (ensure (repositories req \<noteq> []) EmptyRepositories) (\<lambda>_.
     rbind (ensure (length (repositories req) \<le> MAX_REPOSITORIES_PER_WORKSPACE)
              TooManyRepositories) (\<lambda>_.
     rbind (normalize_repositories lc 0 Map.empty {} (repositories req)) (\<lambda>rs.
     Inr (req\<lparr>title := t, intent := it, runtime := rt,
              repositories := sort_key (repository_sort_key lc) rs\<rparr>)))))))"

definition normalize_rename ::
    "RenameWorkspaceRequest \<Rightarrow> WorkspaceValidationError + RenameWorkspaceRequest" where
  "normalize_rename req =
     rbind (normalize_workspace_title (rename_title req)) (\<lambda>t. Inr (req\<lparr>rename_title := t\<rparr>))"

subsection \<open>What each loop accepts\<close>

definition port_ok :: "RuntimePortSelection \<Rightarrow> bool" where
  "port_ok p \<longleftrightarrow> valid_runtime_identifier (port_id p) \<and> 1024 \<le> preferred_port p"

definition service_ok :: "RuntimeServiceSelection \<Rightarrow> bool" where
  "service_ok s \<longleftrightarrow>
     valid_runtime_identifier (candidate_id s) \<and> length (ports s) \<le> MAX_RUNTIME_PORTS_PER_SERVICE
     \<and> (\<forall>p \<in> set (ports s). port_ok p) \<and> distinct (map port_id (ports s))"

definition trimmed_repository :: "WorkspaceRepositoryRequest \<Rightarrow> WorkspaceRepositoryRequest" where
  "trimmed_repository r = r\<lparr>label := trim (label r), base_ref := trim (base_ref r)\<rparr>"

definition repository_ok :: "WorkspaceRepositoryRequest \<Rightarrow> bool" where
  "repository_ok r \<longleftrightarrow>
     trim (label r) \<noteq> [] \<and> length (trim (label r)) \<le> MAX_REPOSITORY_LABEL_CHARS
     \<and> \<not> has_control_or_path_separator (trim (label r))
     \<and> (\<forall>rid. repository_id r = Some rid \<longrightarrow> valid_repository_id rid)
     \<and> valid_base_ref (trim (base_ref r))"

text \<open>The label under which the normaliser looks for a duplicate.\<close>

definition canonical_label :: "(str \<Rightarrow> str) \<Rightarrow> WorkspaceRepositoryRequest \<Rightarrow> str" where
  "canonical_label lc r = lc (trim (label r))"

text \<open>
  The declarative contract of the repository loop: every repository is well formed, pinned
  identifiers are distinct, and a repository without an identifier shares its label with no
  other repository.
\<close>

definition repositories_ok :: "(str \<Rightarrow> str) \<Rightarrow> WorkspaceRepositoryRequest list \<Rightarrow> bool" where
  "repositories_ok lc rs \<longleftrightarrow>
     (\<forall>r \<in> set rs. repository_ok r)
     \<and> distinct (List.map_filter repository_id rs)
     \<and> (\<forall>r \<in> set rs. repository_id r = None \<longrightarrow>
          length (filter (\<lambda>q. canonical_label lc q = canonical_label lc r) rs) = 1)"

lemma check_ports_Inr_iff:
  "check_ports cand i seen ps = Inr u \<longleftrightarrow>
     (\<forall>p \<in> set ps. port_ok p) \<and> distinct (map port_id ps) \<and> port_id ` set ps \<inter> seen = {}"
  by (induction ps arbitrary: i seen) (auto simp: port_ok_def)

lemma normalize_services_Inr_iff:
  "normalize_services i seen ss = Inr ss' \<longleftrightarrow>
     ss' = map sort_ports ss \<and> (\<forall>s \<in> set ss. service_ok s) \<and> distinct (map candidate_id ss)
     \<and> candidate_id ` set ss \<inter> seen = {}"
  by (induction ss arbitrary: i seen ss') (auto simp: service_ok_def check_ports_Inr_iff not_less)

lemma sort_ports_simps [simp]:
  "candidate_id (sort_ports s) = candidate_id s"
  "ports (sort_ports s) = sort_key port_id (ports s)"
  "sort_ports (sort_ports s) = sort_ports s"
  by (simp_all add: sort_ports_def)

lemma candidate_id_comp_sort_ports [simp]: "candidate_id \<circ> sort_ports = candidate_id"
  by (simp add: fun_eq_iff)

lemma distinct_map_sort_key [simp]: "distinct (map f (sort_key g xs)) = distinct (map f xs)"
proof -
  have "mset (map f (sort_key g xs)) = mset (map f xs)" by simp
  then show ?thesis by (metis mset_eq_imp_distinct_iff)
qed

lemma service_ok_sort_ports [simp]: "service_ok (sort_ports s) = service_ok s"
  by (simp add: service_ok_def)

lemma normalize_runtime_Inr_iff:
  "normalize_runtime rt = Inr rt' \<longleftrightarrow>
     valid_analysis_digest (analysis_digest rt) \<and> services rt \<noteq> []
     \<and> length (services rt) \<le> MAX_RUNTIME_SERVICES
     \<and> (\<forall>s \<in> set (services rt). service_ok s) \<and> distinct (map candidate_id (services rt))
     \<and> rt' = rt\<lparr>services := sort_key candidate_id (map sort_ports (services rt))\<rparr>"
  by (auto simp: normalize_runtime_def normalize_services_Inr_iff not_less)

lemma repository_id_cases_rbind:
  "(case x of None \<Rightarrow> Inr ids
     | Some rid \<Rightarrow> rbind (ensure (v rid) e) (\<lambda>_. rbind (ensure (rid \<notin> ids) e') (\<lambda>_. Inr (insert rid ids))))
   = Inr ids' \<longleftrightarrow>
   (\<forall>rid. x = Some rid \<longrightarrow> v rid \<and> rid \<notin> ids) \<and> ids' = set_option x \<union> ids"
  by (cases x) auto

lemma filter_length_one_Cons:
  "(\<forall>r \<in> set (x # xs). P r \<longrightarrow> length (filter (\<lambda>q. f q = f r) (x # xs)) = 1) \<longleftrightarrow>
   (\<forall>r \<in> set xs. P r \<longrightarrow> length (filter (\<lambda>q. f q = f r) xs) = 1)
   \<and> (\<forall>r \<in> set xs. f r = f x \<longrightarrow> \<not> P r \<and> \<not> P x)"
proof -
  have x: "length (filter (\<lambda>q. f q = f x) (x # xs)) = 1 \<longleftrightarrow> (\<forall>r \<in> set xs. f r \<noteq> f x)"
    by (auto simp: filter_empty_conv)
  have xs: "length (filter (\<lambda>q. f q = f r) (x # xs)) = 1 \<longleftrightarrow>
      f r \<noteq> f x \<and> length (filter (\<lambda>q. f q = f r) xs) = 1" if "r \<in> set xs" for r
  proof -
    have "filter (\<lambda>q. f q = f r) xs \<noteq> []" using that by (auto simp: filter_empty_conv)
    then show ?thesis by simp
  qed
  show ?thesis unfolding list.set ball_simps x using xs by blast
qed

lemma normalize_repositories_Inr_iff:
  "normalize_repositories lc i labels ids rs = Inr rs' \<longleftrightarrow>
     rs' = map trimmed_repository rs \<and> repositories_ok lc rs
     \<and> set (List.map_filter repository_id rs) \<inter> ids = {}
     \<and> (\<forall>r \<in> set rs. \<forall>prev. labels (canonical_label lc r) = Some prev \<longrightarrow>
          prev \<and> repository_id r \<noteq> None)"
proof (induction rs arbitrary: i labels ids rs')
  case Nil
  then show ?case by (auto simp: repositories_ok_def map_filter_simps)
next
  case (Cons r rs)
  let ?key = "canonical_label lc" and ?pinned = "\<lambda>q. repository_id q \<noteq> None"
  let ?ids = "set_option (repository_id r) \<union> ids"
  let ?labels = "labels(?key r \<mapsto> ?pinned r)"
  have step: "normalize_repositories lc i labels ids (r # rs) = Inr rs' \<longleftrightarrow>
      repository_ok r \<and> (\<forall>rid. repository_id r = Some rid \<longrightarrow> rid \<notin> ids)
      \<and> (\<forall>prev. labels (?key r) = Some prev \<longrightarrow> prev \<and> ?pinned r)
      \<and> (\<exists>qs. normalize_repositories lc (Suc i) ?labels ?ids rs = Inr qs
            \<and> rs' = trimmed_repository r # qs)"
    unfolding normalize_repositories.simps Let_def rbind_Inr_iff repository_id_cases_rbind
      ensure_Inr_iff canonical_label_def repository_ok_def trimmed_repository_def
    by (auto split: option.split)
  have upd: "(\<forall>prev. ?labels (?key q) = Some prev \<longrightarrow> prev \<and> ?pinned q) \<longleftrightarrow>
      (\<forall>prev. labels (?key q) = Some prev \<longrightarrow> prev \<and> ?pinned q)
      \<and> (?key q = ?key r \<longrightarrow> ?pinned q \<and> ?pinned r)"
    if "\<forall>prev. labels (?key r) = Some prev \<longrightarrow> prev \<and> ?pinned r" for q
    using that by (cases "?key q = ?key r") auto
  have lab: "(\<forall>prev. labels (?key r) = Some prev \<longrightarrow> prev \<and> ?pinned r)
      \<and> (\<forall>q \<in> set rs. \<forall>prev. ?labels (?key q) = Some prev \<longrightarrow> prev \<and> ?pinned q) \<longleftrightarrow>
      (\<forall>q \<in> set (r # rs). \<forall>prev. labels (?key q) = Some prev \<longrightarrow> prev \<and> ?pinned q)
      \<and> (\<forall>q \<in> set rs. ?key q = ?key r \<longrightarrow> ?pinned q \<and> ?pinned r)"
    unfolding list.set ball_simps using upd by blast
  have uniq: "(\<forall>q \<in> set (r # rs). repository_id q = None \<longrightarrow>
        length (filter (\<lambda>p. ?key p = ?key q) (r # rs)) = 1) \<longleftrightarrow>
      (\<forall>q \<in> set rs. repository_id q = None \<longrightarrow>
        length (filter (\<lambda>p. ?key p = ?key q) rs) = 1)
      \<and> (\<forall>q \<in> set rs. ?key q = ?key r \<longrightarrow> ?pinned q \<and> ?pinned r)"
    by (rule filter_length_one_Cons)
  have ids: "(\<forall>rid. repository_id r = Some rid \<longrightarrow> rid \<notin> ids)
      \<and> distinct (List.map_filter repository_id rs)
      \<and> set (List.map_filter repository_id rs) \<inter> ?ids = {} \<longleftrightarrow>
      distinct (List.map_filter repository_id (r # rs))
      \<and> set (List.map_filter repository_id (r # rs)) \<inter> ids = {}"
    by (cases "repository_id r") (auto simp: map_filter_simps)
  have all: "(\<forall>q \<in> set (r # rs). repository_ok q) \<longleftrightarrow>
      repository_ok r \<and> (\<forall>q \<in> set rs. repository_ok q)"
    by simp
  have map: "map trimmed_repository (r # rs) = trimmed_repository r # map trimmed_repository rs"
    by simp
  show ?case
    unfolding step Cons.IH repositories_ok_def uniq all map using lab ids by blast
qed

lemma repositories_ok_perm:
  assumes "mset rs = mset qs"
  shows "repositories_ok lc rs = repositories_ok lc qs"
proof -
  have sets: "set rs = set qs" using assms by (metis set_mset_mset)
  have "mset (List.map_filter repository_id rs) = mset (List.map_filter repository_id qs)"
    using assms by (simp add: map_filter_def mset_filter)
  then have ids: "distinct (List.map_filter repository_id rs) = distinct (List.map_filter repository_id qs)"
    by (rule mset_eq_imp_distinct_iff)
  have len: "length (filter P rs) = length (filter P qs)" for P
    using assms by (metis mset_filter size_mset)
  show ?thesis by (simp add: repositories_ok_def sets ids len)
qed

lemma trimmed_repository_simps [simp]:
  "repository_id (trimmed_repository r) = repository_id r"
  "label (trimmed_repository r) = trim (label r)"
  "base_ref (trimmed_repository r) = trim (base_ref r)"
  "trimmed_repository (trimmed_repository r) = trimmed_repository r"
  "canonical_label lc (trimmed_repository r) = canonical_label lc r"
  "repository_ok (trimmed_repository r) = repository_ok r"
  by (simp_all add: trimmed_repository_def canonical_label_def repository_ok_def)

lemma repositories_ok_trimmed [simp]:
  "repositories_ok lc (map trimmed_repository rs) = repositories_ok lc rs"
proof -
  have "List.map_filter repository_id (map trimmed_repository rs) = List.map_filter repository_id rs"
    by (induction rs) (auto simp: map_filter_simps split: option.splits)
  then show ?thesis by (simp add: repositories_ok_def filter_map comp_def)
qed

lemma normalize_Inr_iff:
  "normalize lc req = Inr req' \<longleftrightarrow>
     (\<exists>t it rt. normalize_workspace_title (title req) = Inr t
       \<and> normalize_intent (intent req) = Inr it
       \<and> map_transpose normalize_runtime (runtime req) = Inr rt
       \<and> repositories req \<noteq> [] \<and> length (repositories req) \<le> MAX_REPOSITORIES_PER_WORKSPACE
       \<and> repositories_ok lc (repositories req)
       \<and> req' = req\<lparr>title := t, intent := it, runtime := rt, repositories :=
            sort_key (repository_sort_key lc) (map trimmed_repository (repositories req))\<rparr>)"
  by (auto simp: normalize_def normalize_repositories_Inr_iff)

text \<open>Two accepted repositories never have the same sort key, so sorting forgets their order.\<close>

lemma repository_sort_key_inj:
  assumes ok: "repositories_ok lc rs"
  shows "inj_on (repository_sort_key lc) (trimmed_repository ` set rs)"
proof (rule inj_onI, clarify)
  fix q r
  assume q: "q \<in> set rs" and r: "r \<in> set rs"
    and eq: "repository_sort_key lc (trimmed_repository q) = repository_sort_key lc (trimmed_repository r)"
  then have key: "canonical_label lc q = canonical_label lc r"
    and rid: "repository_id q = repository_id r"
    by (simp_all add: repository_sort_key_def canonical_label_def)
  have "q = r"
  proof (cases "repository_id r")
    case None
    then obtain p where p: "filter (\<lambda>p. canonical_label lc p = canonical_label lc r) rs = [p]"
      using ok r by (auto simp: repositories_ok_def length_Suc_conv numeral_eq_Suc)
    have "q \<in> set (filter (\<lambda>p. canonical_label lc p = canonical_label lc r) rs)"
      and "r \<in> set (filter (\<lambda>p. canonical_label lc p = canonical_label lc r) rs)"
      using q r key by simp_all
    then show ?thesis unfolding p by simp
  next
    case (Some rid)
    have "distinct (List.map_filter repository_id rs)" using ok by (simp add: repositories_ok_def)
    then show ?thesis using q r Some rid \<open>repository_id q = repository_id r\<close>
    proof (induction rs)
      case (Cons s rs)
      have mem: "x \<in> set (List.map_filter repository_id rs)" if "t \<in> set rs" "repository_id t = Some x" for t x
        using that by (force simp: map_filter_def)
      with Cons show ?case by (auto simp: map_filter_simps split: option.splits)
    qed simp
  qed
  then show "trimmed_repository q = trimmed_repository r" by simp
qed


subsection \<open>The normalisers as canonicalisers\<close>

lemma map_sort_ports_sorted [simp]:
  "map sort_ports (sort_key candidate_id (map sort_ports ss)) = sort_key candidate_id (map sort_ports ss)"
  by (rule map_idI) auto

lemma map_trimmed_sorted [simp]:
  "map trimmed_repository (sort_key f (map trimmed_repository rs)) = sort_key f (map trimmed_repository rs)"
  by (rule map_idI) auto

interpretation title_norm: canonicaliser normalize_workspace_title
  by unfold_locales (auto simp: normalize_workspace_title_def Let_def split: if_splits)

interpretation intent_norm: canonicaliser normalize_intent
proof unfold_locales
  fix x y assume "normalize_intent x = Inr y"
  then show "normalize_intent y = Inr y"
    by (cases x) (auto simp: Let_def trim_to_ascii_uppercase split: if_splits)
qed

interpretation runtime_norm: canonicaliser normalize_runtime
  by unfold_locales (auto simp: normalize_runtime_Inr_iff)

interpretation rename_norm: canonicaliser normalize_rename
  by unfold_locales (auto simp: normalize_rename_def title_norm.stable)

text \<open>
  Two requests with the same content, the repositories, services and ports listed in any order.
\<close>

definition reordered_service :: "RuntimeServiceSelection \<Rightarrow> RuntimeServiceSelection \<Rightarrow> bool" where
  "reordered_service s s' \<longleftrightarrow>
     candidate_id s' = candidate_id s \<and> mset (ports s') = mset (ports s)"

definition reordered_runtime :: "RuntimePlanSelection \<Rightarrow> RuntimePlanSelection \<Rightarrow> bool" where
  "reordered_runtime rt rt' \<longleftrightarrow>
     analysis_digest rt' = analysis_digest rt
     \<and> (\<exists>ss. list_all2 reordered_service (services rt) ss \<and> mset (services rt') = mset ss)"

definition reordered_request :: "CreateWorkspaceRequest \<Rightarrow> CreateWorkspaceRequest \<Rightarrow> bool" where
  "reordered_request req req' \<longleftrightarrow>
     intent req' = intent req \<and> title req' = title req
     \<and> preferred_provider req' = preferred_provider req \<and> planning req' = planning req
     \<and> mset (repositories req') = mset (repositories req)
     \<and> rel_option reordered_runtime (runtime req) (runtime req')"

lemma sort_ports_reordered:
  assumes "reordered_service s s'" and "service_ok s"
  shows "sort_ports s' = sort_ports s" and "candidate_id s' = candidate_id s" and "service_ok s'"
proof -
  have ports: "mset (ports s') = mset (ports s)" and id: "candidate_id s' = candidate_id s"
    using assms(1) by (simp_all add: reordered_service_def)
  have dist: "distinct (map port_id (ports s))" using assms(2) by (simp add: service_ok_def)
  then have "inj_on port_id (set (ports s))" by (simp add: distinct_map)
  with ports have "sort_key port_id (ports s') = sort_key port_id (ports s)"
    by (metis sort_key_eq_sort_key)
  with id show "sort_ports s' = sort_ports s" by (simp add: sort_ports_def)
  show "candidate_id s' = candidate_id s" by (rule id)
  show "service_ok s'"
    using assms(2) \<open>sort_ports s' = sort_ports s\<close> by (metis service_ok_sort_ports)
qed

lemma normalize_runtime_reordered:
  assumes sim: "reordered_runtime rt rt'" and ok: "normalize_runtime rt = Inr y"
  shows "normalize_runtime rt' = Inr y"
proof -
  obtain ss where ss: "list_all2 reordered_service (services rt) ss"
    and perm: "mset (services rt') = mset ss" and dig: "analysis_digest rt' = analysis_digest rt"
    using sim by (auto simp: reordered_runtime_def)
  have oks: "\<forall>s \<in> set (services rt). service_ok s"
    and dist: "distinct (map candidate_id (services rt))"
    using ok by (simp_all add: normalize_runtime_Inr_iff)
  from ss oks have same: "map sort_ports ss = map sort_ports (services rt)
      \<and> map candidate_id ss = map candidate_id (services rt) \<and> (\<forall>s \<in> set ss. service_ok s)"
    by (induction rule: list_all2_induct) (auto dest: sort_ports_reordered)
  have sets: "set (services rt') = set ss" using perm by (metis set_mset_mset)
  have len: "length (services rt') = length (services rt)"
    using perm ss by (metis list_all2_lengthD size_mset)
  have "distinct (map candidate_id (services rt'))"
    using perm same dist by (metis mset_eq_imp_distinct_iff mset_map)
  moreover have "inj_on candidate_id (set (map sort_ports (services rt')))"
    using calculation by (auto simp: distinct_map inj_on_def)
  then have "sort_key candidate_id (map sort_ports (services rt'))
      = sort_key candidate_id (map sort_ports (services rt))"
    using perm same by (metis mset_map sort_key_eq_sort_key)
  moreover have "rt'\<lparr>services := xs\<rparr> = rt\<lparr>services := xs\<rparr>" for xs
    using dig by (cases rt, cases rt') simp
  moreover have "services rt' \<noteq> [] \<longleftrightarrow> services rt \<noteq> []" using len by fastforce
  moreover have "\<forall>s \<in> set (services rt'). service_ok s" using sets same by simp
  ultimately show ?thesis
    using ok len dig unfolding normalize_runtime_Inr_iff by simp
qed

interpretation request_norm: presentation_blind "normalize lc" reordered_request
  for lc
proof unfold_locales
  fix x y assume "normalize lc x = Inr y"
  then obtain t it rt where parts: "normalize_workspace_title (title x) = Inr t"
      "normalize_intent (intent x) = Inr it" "map_transpose normalize_runtime (runtime x) = Inr rt"
      "repositories x \<noteq> []" "length (repositories x) \<le> MAX_REPOSITORIES_PER_WORKSPACE"
      "repositories_ok lc (repositories x)"
    and y: "y = x\<lparr>title := t, intent := it, runtime := rt, repositories :=
            sort_key (repository_sort_key lc) (map trimmed_repository (repositories x))\<rparr>"
    unfolding normalize_Inr_iff by blast
  have "repositories_ok lc (repositories y)"
    using parts(6) y repositories_ok_perm [of "repositories y" "map trimmed_repository (repositories x)"]
    by simp
  moreover have "map_transpose normalize_runtime rt = Inr rt"
    using parts(3) by (rule runtime_norm.map_transpose_stable)
  ultimately show "normalize lc y = Inr y"
    using parts y title_norm.stable [OF parts(1)] intent_norm.stable [OF parts(2)]
    unfolding normalize_Inr_iff by (intro exI [of _ t] exI [of _ it] exI [of _ rt]) simp
next
  fix x x' y assume sim: "reordered_request x x'" and ok: "normalize lc x = Inr y"
  have perm: "mset (repositories x') = mset (repositories x)"
    using sim by (simp add: reordered_request_def)
  have len: "length (repositories x') = length (repositories x)"
    using perm by (metis size_mset)
  have rs: "repositories_ok lc (repositories x)" using ok by (auto simp: normalize_Inr_iff)
  then have rs': "repositories_ok lc (repositories x')"
    using repositories_ok_perm [OF perm] by simp
  have "sort_key (repository_sort_key lc) (map trimmed_repository (repositories x'))
      = sort_key (repository_sort_key lc) (map trimmed_repository (repositories x))"
    using repository_sort_key_inj [OF rs'] perm by (intro sort_key_eq_sort_key) auto
  moreover have "map_transpose normalize_runtime (runtime x') = Inr r"
    if "map_transpose normalize_runtime (runtime x) = Inr r" for r
    using that sim normalize_runtime_reordered
    by (auto simp: reordered_request_def option_rel_Some1 split: option.splits)
  moreover have "repositories x' \<noteq> [] \<longleftrightarrow> repositories x \<noteq> []" using len by fastforce
  moreover have "x'\<lparr>title := t, intent := i, runtime := r, repositories := rs\<rparr>
      = x\<lparr>title := t, intent := i, runtime := r, repositories := rs\<rparr>" for t i r rs
    using sim by (cases x, cases x') (simp add: reordered_request_def)
  moreover have "title x' = title x" "intent x' = intent x"
    using sim by (simp_all add: reordered_request_def)
  ultimately show "normalize lc x' = Inr y"
    using ok len rs' unfolding normalize_Inr_iff by metis
qed

subsection \<open>The contract in plain terms\<close>

text \<open>
  What a client may send, with the limits as numbers and the forms of identifiers, digests and Git
  references spelled out; none of the checks of the normaliser is used.
\<close>

definition plain_text :: "nat \<Rightarrow> str \<Rightarrow> bool" where
  "plain_text n t \<longleftrightarrow> 1 \<le> length t \<and> length t \<le> n \<and> (\<forall>c \<in> set t. \<not> is_control c)"

definition issue_key_form :: "str \<Rightarrow> bool" where
  "issue_key_form key \<longleftrightarrow>
     (\<exists>project number. key = project @ lit ''-'' @ number
       \<and> 2 \<le> length project \<and> length project \<le> 16 \<and> is_ascii_uppercase (hd project)
       \<and> (\<forall>c \<in> set project. is_ascii_uppercase c \<or> is_ascii_digit c)
       \<and> 1 \<le> length number \<and> length number \<le> 10 \<and> hd number \<noteq> chr CHR ''0'' \<and> (\<forall>c \<in> set number. is_ascii_digit c))"

definition intent_form :: "WorkspaceIntent \<Rightarrow> bool" where
  "intent_form i \<longleftrightarrow>
     (case i of
        Jira key \<Rightarrow> issue_key_form (to_ascii_uppercase (trim key))
      | OpenProject wp shown \<Rightarrow>
          wp \<noteq> 0 \<and> plain_text 80 (trim shown) \<and> set (lit ''/'' @ [chr CHR 0x5C]) \<inter> set (trim shown) = {}
      | RepositorySet name \<Rightarrow>
          plain_text 120 (trim name) \<and> chr CHR 0x5C \<notin> set (trim name)
          \<and> (\<forall>segment \<in> set (split_on (chr CHR ''/'') (trim name)). trim segment \<notin> {[], lit ''.'', lit ''..''}))"

definition canonical_intent :: "WorkspaceIntent \<Rightarrow> WorkspaceIntent" where
  "canonical_intent i =
     (case i of
        Jira key \<Rightarrow> Jira (to_ascii_uppercase (trim key))
      | OpenProject wp shown \<Rightarrow> OpenProject wp (trim shown)
      | RepositorySet name \<Rightarrow> RepositorySet (trim name))"

definition hex_digest :: "str \<Rightarrow> str \<Rightarrow> bool" where
  "hex_digest prefix v \<longleftrightarrow> (\<exists>d. v = prefix @ d \<and> length d = 64 \<and> (\<forall>c \<in> set d. is_lower_hex c))"

definition runtime_name :: "str \<Rightarrow> bool" where
  "runtime_name v \<longleftrightarrow> 1 \<le> length v \<and> length v \<le> 160
     \<and> (\<forall>c \<in> set v. is_ascii_alphanumeric c \<or> c \<in> set (lit ''._:-''))"

definition runtime_form :: "RuntimePlanSelection \<Rightarrow> bool" where
  "runtime_form rt \<longleftrightarrow>
     hex_digest (lit ''sha256:'') (analysis_digest rt)
     \<and> 1 \<le> length (services rt) \<and> length (services rt) \<le> 32 \<and> distinct (map candidate_id (services rt))
     \<and> (\<forall>s \<in> set (services rt). runtime_name (candidate_id s) \<and> length (ports s) \<le> 8 \<and> distinct (map port_id (ports s))
         \<and> (\<forall>p \<in> set (ports s). runtime_name (port_id p) \<and> 1024 \<le> preferred_port p))"

definition canonical_runtime :: "RuntimePlanSelection \<Rightarrow> RuntimePlanSelection" where
  "canonical_runtime rt = rt\<lparr>services := sort_key candidate_id
     (map (\<lambda>s. s\<lparr>ports := sort_key port_id (ports s)\<rparr>) (services rt))\<rparr>"

definition git_ref_form :: "str \<Rightarrow> bool" where
  "git_ref_form r \<longleftrightarrow>
     1 \<le> length r \<and> length r \<le> 255 \<and> hd r \<notin> set (lit ''-/'') \<and> last r \<notin> set (lit ''/.'')
     \<and> (\<nexists>x. r = x @ lit ''.lock'')
     \<and> (\<forall>p \<in> {lit ''..'', lit [CHR ''@'', CHR 0x7B], lit ''//''}. \<nexists>x y. r = x @ p @ y)
     \<and> (\<forall>c \<in> set r. \<not> is_control c \<and> \<not> is_whitespace c \<and> c \<notin> set (lit ''~^:?*['' @ [chr CHR 0x5C]))"

definition repositories_form :: "(str \<Rightarrow> str) \<Rightarrow> WorkspaceRepositoryRequest list \<Rightarrow> bool" where
  "repositories_form lc rs \<longleftrightarrow>
     1 \<le> length rs \<and> length rs \<le> 32
     \<and> (\<forall>r \<in> set rs. plain_text 128 (trim (label r)) \<and> set (lit ''/'' @ [chr CHR 0x5C]) \<inter> set (trim (label r)) = {}
          \<and> git_ref_form (trim (base_ref r)) \<and> (\<forall>rid \<in> set_option (repository_id r). hex_digest (lit ''repo_'') rid))
     \<and> distinct (List.map_filter repository_id rs)
     \<and> (\<forall>r \<in> set rs. repository_id r = None \<longrightarrow> length (filter (\<lambda>q. lc (trim (label q)) = lc (trim (label r))) rs) = 1)"

definition canonical_repositories :: "(str \<Rightarrow> str) \<Rightarrow> WorkspaceRepositoryRequest list \<Rightarrow> WorkspaceRepositoryRequest list" where
  "canonical_repositories lc rs =
     sort_key (\<lambda>r. (lc (label r), repository_id r, base_ref r)) (map (\<lambda>r. r\<lparr>label := trim (label r), base_ref := trim (base_ref r)\<rparr>) rs)"

lemma title_form_iff: "normalize_workspace_title raw = Inr t \<longleftrightarrow> plain_text 240 (trim raw) \<and> t = trim raw"
  by (auto simp: normalize_workspace_title_def Let_def plain_text_def length_pos contract_limits not_less)

lemma length_ascii: "\<forall>c \<in> set s. is_ascii_uppercase c \<or> is_ascii_digit c \<or> is_ascii_lowercase c \<or> c < 128 \<Longrightarrow> str_len s = length s"
  by (rule str_len_ascii) (auto simp: is_ascii_uppercase_def is_ascii_digit_def is_ascii_lowercase_def)

lemma valid_issue_key_form: "valid_issue_key key \<longleftrightarrow> issue_key_form key"
proof
  have dash: "chr CHR ''-'' \<notin> set p" if "\<forall>c \<in> set p. is_ascii_uppercase c \<or> is_ascii_digit c" for p
    using that by (force simp: chr_def is_ascii_uppercase_def is_ascii_digit_def)
  have len: "str_len p = length p" if "\<forall>c \<in> set p. is_ascii_uppercase c \<or> is_ascii_digit c" for p
    using that by (intro length_ascii) blast
  have zero: "starts_with (lit ''0'') p \<longleftrightarrow> p \<noteq> [] \<and> hd p = chr CHR ''0''" for p
    using starts_with_char [of "chr CHR ''0''" p] by (simp add: lit_def chr_def)
  {
    assume "valid_issue_key key"
    then obtain p n where k: "split_once (chr CHR ''-'') key = Some (p, n)"
      and ok: "2 \<le> str_len p" "str_len p \<le> 16" "case p of [] \<Rightarrow> False | c # _ \<Rightarrow> is_ascii_uppercase c"
        "\<forall>c \<in> set p. is_ascii_uppercase c \<or> is_ascii_digit c" "1 \<le> str_len n" "str_len n \<le> 10"
        "\<not> starts_with (lit ''0'') n" "\<forall>c \<in> set n. is_ascii_digit c"
      by (auto simp: valid_issue_key_def split: option.splits)
    from k have key: "key = p @ lit ''-'' @ n" by (simp add: split_once_Some_iff lit_def chr_def)
    have "n \<noteq> []" using ok(5) len [of n] ok(8) by auto
    then have "hd n \<noteq> chr CHR ''0''" using ok(7) zero by simp
    moreover have "is_ascii_uppercase (hd p)" using ok(3) by (cases p) simp_all
    ultimately show "issue_key_form key"
      unfolding issue_key_form_def using key ok len [of p] len [of n] by (intro exI [of _ p] exI [of _ n]) simp
  }
  {
    assume "issue_key_form key"
    then obtain p n where key: "key = p @ lit ''-'' @ n" and ok: "2 \<le> length p" "length p \<le> 16" "is_ascii_uppercase (hd p)"
        "\<forall>c \<in> set p. is_ascii_uppercase c \<or> is_ascii_digit c" "1 \<le> length n" "length n \<le> 10"
        "hd n \<noteq> chr CHR ''0''" "\<forall>c \<in> set n. is_ascii_digit c"
      by (auto simp: issue_key_form_def)
    have "split_once (chr CHR ''-'') key = Some (p, n)" using dash [OF ok(4)] key by (simp add: split_once_Some_iff lit_def chr_def)
    moreover have "p \<noteq> []" using ok(1) by auto
    ultimately show "valid_issue_key key"
      using ok len [of p] len [of n] zero [of n] by (auto simp: valid_issue_key_def split: list.split)
  }
qed

lemma no_separator: "\<not> has_control_or_path_separator v \<longleftrightarrow>
    (\<forall>c \<in> set v. \<not> is_control c) \<and> set (lit ''/'' @ [chr CHR 0x5C]) \<inter> set v = {}"
  by (auto simp: has_control_or_path_separator_def lit_def chr_def)

lemma normalize_intent_form: "normalize_intent i = Inr j \<longleftrightarrow> intent_form i \<and> j = canonical_intent i"
proof (cases i)
  case (OpenProject wp shown)
  then show ?thesis using no_separator [of "trim shown"]
    by (auto simp: Let_def intent_form_def canonical_intent_def plain_text_def length_pos contract_limits not_less)
qed (auto simp: Let_def intent_form_def canonical_intent_def valid_issue_key_form plain_text_def length_pos contract_limits not_less
  invalid_repository_set_label_def)

lemma hex_digest_form:
  "(case strip_prefix prefix v of None \<Rightarrow> False | Some d \<Rightarrow> str_len d = 64 \<and> (\<forall>c \<in> set d. is_lower_hex c)) \<longleftrightarrow> hex_digest prefix v"
proof -
  have len: "str_len d = length d" if "\<forall>c \<in> set d. is_lower_hex c" for d
    by (rule str_len_ascii) (use that in \<open>auto simp: is_lower_hex_def is_ascii_digit_def\<close>)
  show ?thesis
  proof (cases "strip_prefix prefix v")
    case None
    then have "\<nexists>d. v = prefix @ d" by (metis option.distinct(1) strip_prefix_Some_iff)
    with None show ?thesis by (simp add: hex_digest_def)
  next
    case (Some d)
    then have "v = prefix @ d" by simp
    moreover have "str_len d = 64 \<and> (\<forall>c \<in> set d. is_lower_hex c) \<longleftrightarrow> length d = 64 \<and> (\<forall>c \<in> set d. is_lower_hex c)"
      using len [of d] by auto
    ultimately show ?thesis unfolding Some option.case by (simp add: hex_digest_def)
  qed
qed

lemma runtime_name_form: "valid_runtime_identifier v \<longleftrightarrow> runtime_name v"
proof -
  have "str_len v = length v" if "\<forall>c \<in> set v. is_ascii_alphanumeric c \<or> c \<in> set (lit ''._:-'')"
    by (rule str_len_ascii)
      (use that in \<open>force simp: is_ascii_alphanumeric_def is_ascii_lowercase_def is_ascii_uppercase_def is_ascii_digit_def lit_def chr_def\<close>)
  then show ?thesis by (auto simp: valid_runtime_identifier_def runtime_name_def length_pos contract_limits)
qed

lemma normalize_runtime_form: "normalize_runtime rt = Inr rt' \<longleftrightarrow> runtime_form rt \<and> rt' = canonical_runtime rt"
  unfolding normalize_runtime_Inr_iff runtime_form_def canonical_runtime_def service_ok_def port_ok_def runtime_name_form
    valid_analysis_digest_def hex_digest_form sort_ports_def contract_limits length_pos
  by (simp only: conj_ac)

lemma git_ref_form_iff: "valid_base_ref r \<longleftrightarrow> git_ref_form r"
proof (cases "r = []")
  case False
  have "starts_with (lit ''-'') r \<or> starts_with (lit ''/'') r \<longleftrightarrow> hd r \<in> set (lit ''-/'')"
    "ends_with (lit ''/'') r \<or> ends_with (lit ''.'') r \<longleftrightarrow> last r \<in> set (lit ''/.'')"
    using False by (auto simp: lit_def starts_with_char ends_with_char)
  then show ?thesis using False
    unfolding valid_base_ref_def git_ref_form_def length_pos contract_limits ends_with_iff [of "lit ''.lock''"] contains_str_iff not_less [symmetric]
    by auto
qed (simp add: valid_base_ref_def git_ref_form_def)

lemma repositories_form_iff: "rs \<noteq> [] \<and> length rs \<le> MAX_REPOSITORIES_PER_WORKSPACE \<and> repositories_ok lc rs \<longleftrightarrow> repositories_form lc rs"
  unfolding repositories_form_def repositories_ok_def repository_ok_def canonical_label_def plain_text_def
    valid_repository_id_def hex_digest_form git_ref_form_iff no_separator length_pos contract_limits
  by (auto simp: elem_set)

subsection \<open>Properties\<close>

definition sample_request :: CreateWorkspaceRequest where
  "sample_request =
     \<lparr>intent = Jira (lit '' task-42 ''), title = lit '' Orders retry race '',
      preferred_provider = Codex,
      repositories =
        [\<lparr>repository_id = None, label = lit '' orders-api '', base_ref = lit ''release/2026.07''\<rparr>,
         \<lparr>repository_id = None, label = lit ''billing-sdk'', base_ref = lit ''main''\<rparr>],
      runtime = None, planning = None\<rparr>"

definition sample_canonical :: CreateWorkspaceRequest where
  "sample_canonical =
     \<lparr>intent = Jira (lit ''TASK-42''), title = lit ''Orders retry race'',
      preferred_provider = Codex,
      repositories =
        [\<lparr>repository_id = None, label = lit ''billing-sdk'', base_ref = lit ''main''\<rparr>,
         \<lparr>repository_id = None, label = lit ''orders-api'', base_ref = lit ''release/2026.07''\<rparr>],
      runtime = None, planning = None\<rparr>"

lemma normalize_sample: "normalize to_ascii_lowercase sample_request = Inr sample_canonical"
  by code_simp

text \<open>
  C1: normalising is idempotent: the canonical request that \<open>CreateWorkspaceRequest::normalize\<close>
  returns is accepted unchanged when it is normalised again, whatever \<open>to_lowercase\<close> does.
  The store relies on it: \<open>validate_record\<close> normalises stored data and compares.
\<close>

theorem normalize_idempotent:
  assumes "normalize lc req = Inr req'"
  shows "normalize lc req' = Inr req'"
  using assms by (rule request_norm.stable)

theorem normalize_idempotent_witness:
  "normalize to_ascii_lowercase sample_canonical = Inr sample_canonical"
  by (rule normalize_idempotent) (rule normalize_sample)

text \<open>
  C2: the canonical request does not depend on presentation: any reordering of the
  repositories, of the runtime services and of the ports of a service is accepted as well and
  has the same canonical form (the doc comment of \<open>normalize\<close> promises this so that request
  hashing is stable across reorderings).
\<close>

theorem normalize_order_insensitive:
  assumes "reordered_request req req'" and "normalize lc req = Inr canonical"
  shows "normalize lc req' = Inr canonical"
  using assms by (rule request_norm.blind)

theorem normalize_order_insensitive_witness:
  "normalize to_ascii_lowercase (sample_request\<lparr>repositories := rev (repositories sample_request)\<rparr>)
     = Inr sample_canonical"
proof (rule normalize_order_insensitive)
  show "reordered_request sample_request
      (sample_request\<lparr>repositories := rev (repositories sample_request)\<rparr>)"
    by (simp add: reordered_request_def option.rel_refl sample_request_def)
qed (rule normalize_sample)

text \<open>
  C3: the normaliser accepts a request exactly when it has the declared form: a title of 1 to 240
  characters without control characters; a Jira key, an OpenProject identifier or the label of a
  repository set of the form \<open>intent_form\<close>; a runtime plan, if any, with a digest, 1 to 32 services and at
  most 8 unprivileged ports each, all of distinct names; and 1 to 32 repositories with plain labels,
  Git references and distinct identifiers, of which an unpinned one shares its lower-cased label with no other.
  The result is the request with its texts trimmed, the Jira key in upper case, and the services,
  ports and repositories sorted.
\<close>

theorem normalize_accepts_exactly:
  "normalize lc req = Inr req' \<longleftrightarrow>
     plain_text 240 (trim (title req)) \<and> intent_form (intent req)
     \<and> pred_option runtime_form (runtime req) \<and> repositories_form lc (repositories req)
     \<and> req' = req\<lparr>title := trim (title req), intent := canonical_intent (intent req),
          runtime := map_option canonical_runtime (runtime req), repositories := canonical_repositories lc (repositories req)\<rparr>"
proof -
  have "map_transpose normalize_runtime r = Inr r' \<longleftrightarrow> pred_option runtime_form r \<and> r' = map_option canonical_runtime r" for r r'
    by (cases r) (auto simp: map_transpose_def normalize_runtime_form)
  moreover have "canonical_repositories lc rs = sort_key (repository_sort_key lc) (map trimmed_repository rs)" for rs
    by (simp add: canonical_repositories_def repository_sort_key_def [abs_def] trimmed_repository_def [abs_def])
  ultimately show ?thesis
    unfolding normalize_Inr_iff title_form_iff normalize_intent_form repositories_form_iff [symmetric] by auto
qed

text \<open>
  An accepted runtime plan has a lowercase SHA-256 digest, 1 to 32 services with distinct
  identifiers in ascending order, and each service at most 8 ports with distinct identifiers in
  ascending order, none of them privileged.
\<close>

theorem normalize_runtime_bounds:
  assumes "normalize_runtime rt = Inr rt'"
  shows "valid_analysis_digest (analysis_digest rt')
    \<and> 1 \<le> length (services rt') \<and> length (services rt') \<le> 32
    \<and> sorted (map candidate_id (services rt')) \<and> distinct (map candidate_id (services rt'))
    \<and> (\<forall>s \<in> set (services rt'). length (ports s) \<le> 8 \<and> sorted (map port_id (ports s))
         \<and> distinct (map port_id (ports s)) \<and> (\<forall>p \<in> set (ports s). 1024 \<le> preferred_port p))"
proof -
  have "1 \<le> length (services rt)"
    using assms by (cases "services rt") (auto simp: normalize_runtime_Inr_iff)
  moreover have "distinct (map candidate_id (services rt))"
    using assms by (simp add: normalize_runtime_Inr_iff)
  ultimately show ?thesis
    using assms by (auto simp: normalize_runtime_Inr_iff service_ok_def port_ok_def contract_limits)
qed

definition sample_runtime :: RuntimePlanSelection where
  "sample_runtime =
     \<lparr>analysis_digest = lit ''sha256:'' @ replicate 64 97,
      services = [\<lparr>candidate_id = lit ''service:web'', ports =
        [\<lparr>port_id = lit ''metrics'', preferred_port = 9090, policy = Prefer\<rparr>,
         \<lparr>port_id = lit ''http'', preferred_port = 8080, policy = Fixed\<rparr>]\<rparr>]\<rparr>"

theorem normalize_runtime_bounds_witness:
  "length (services (case normalize_runtime sample_runtime of Inr rt \<Rightarrow> rt | Inl _ \<Rightarrow> sample_runtime)) \<le> 32"
proof -
  obtain rt where rt: "normalize_runtime sample_runtime = Inr rt"
  proof (cases "normalize_runtime sample_runtime")
    case (Inl e)
    moreover have "isl (normalize_runtime sample_runtime) = False" by code_simp
    ultimately show ?thesis by simp
  qed
  show ?thesis using normalize_runtime_bounds [OF rt] rt by simp
qed

end
