(* ===== verification/Store_Model.thy ===== *)
theory Store_Model
  imports Workspace_Contract Slug
begin

text \<open>
  The data of \<open>crates/wts-store\<close>: the types of \<open>model.rs\<close>, the errors, constants and event
  payloads of \<open>sqlite.rs\<close>, the tables the migrations create with the constraints SQLite
  enforces on them, and the environment the store runs in.

  A table is the list of its rows in insertion order; TEXT columns are \<open>str\<close>, INTEGER columns
  are \<open>int\<close>, a nullable column is an option. An INSERT that violates a constraint is the error
  \<open>Database\<close>, as is an UPDATE. Columns that the schema fixes to one value (\<open>target_kind\<close>) and
  the AUTOINCREMENT \<open>sequence\<close> (the position in the list) are left out.

  Code outside the repository is a field of the record \<open>Env\<close>: the UUID text forms, the derived
  JSON codecs, SHA-256, Unicode lower-casing and error messages. What an operation
  draws from outside while it runs (the clock, new UUIDs) is a value of the record \<open>Ambient\<close>.
\<close>

subsection \<open>Types of model.rs\<close>

definition WORKSPACE_RECORD_SCHEMA_VERSION :: nat where "WORKSPACE_RECORD_SCHEMA_VERSION = 1"
definition WORKSPACE_RECORD_VERSION :: nat where "WORKSPACE_RECORD_VERSION = 1"
definition MAX_WORK_ITEM_ISSUE_KEY_BYTES :: nat where "MAX_WORK_ITEM_ISSUE_KEY_BYTES = 64"
definition MAX_WORK_ITEM_SUMMARY_BYTES :: nat where "MAX_WORK_ITEM_SUMMARY_BYTES = 512"
definition MAX_WORK_ITEM_STATUS_BYTES :: nat where "MAX_WORK_ITEM_STATUS_BYTES = 128"
definition MAX_WORK_ITEM_CONTENT_BYTES :: nat where "MAX_WORK_ITEM_CONTENT_BYTES = 64 * 1024"
definition MAX_WORK_ITEM_BROWSER_URL_BYTES :: nat where "MAX_WORK_ITEM_BROWSER_URL_BYTES = 2 * 1024"
definition MAX_REVIEW_COMMENT_BYTES :: nat where "MAX_REVIEW_COMMENT_BYTES = 16 * 1024"
definition MAX_REVIEW_THREADS_PER_WORKSPACE :: nat where "MAX_REVIEW_THREADS_PER_WORKSPACE = 2000"
definition MAX_RECORD_JSON_BYTES :: nat where "MAX_RECORD_JSON_BYTES = 256 * 1024"
definition MAX_TOMBSTONE_RESULT_JSON_BYTES :: nat where "MAX_TOMBSTONE_RESULT_JSON_BYTES = 64 * 1024"

lemmas store_limits =
  WORKSPACE_RECORD_SCHEMA_VERSION_def WORKSPACE_RECORD_VERSION_def
  MAX_WORK_ITEM_ISSUE_KEY_BYTES_def MAX_WORK_ITEM_SUMMARY_BYTES_def MAX_WORK_ITEM_STATUS_BYTES_def
  MAX_WORK_ITEM_CONTENT_BYTES_def MAX_WORK_ITEM_BROWSER_URL_BYTES_def MAX_REVIEW_COMMENT_BYTES_def
  MAX_REVIEW_THREADS_PER_WORKSPACE_def MAX_RECORD_JSON_BYTES_def MAX_TOMBSTONE_RESULT_JSON_BYTES_def

record WorkspaceRepositoryPlan =
  rp_request_id :: uuid
  rp_repository_id :: "str option"
  rp_label :: str
  rp_base_ref :: str
  rp_worktree_leaf :: str

record WorkspaceRecord =
  wr_schema_version :: nat
  wr_workspace_id :: uuid
  wr_record_version :: nat
  wr_intent :: WorkspaceIntent
  wr_title :: str
  wr_display_name :: "str option"
  wr_preferred_provider :: WorkspaceProvider
  wr_phase :: WorkspacePhase
  wr_repositories :: "WorkspaceRepositoryPlan list"
  wr_runtime :: "RuntimePlanSelection option"
  wr_planning :: "WorkspacePlanningSelection option"
  wr_workspace_root_id :: str
  wr_workspace_leaf :: str
  wr_created_at_unix_ms :: int
  wr_updated_at_unix_ms :: int

datatype WorkspaceBoardPlacementMode = Automatic | Pinned

record WorkspaceBoardPlacementSummary =
  placement_mode :: WorkspaceBoardPlacementMode
  placement_rank :: nat

record WorkspaceWorkflowSummary =
  wf_state :: WorkspaceWorkflowState
  wf_revision :: nat
  wf_updated_at_unix_ms :: int
  wf_placement :: WorkspaceBoardPlacementSummary

datatype StoredWorkItemProvider = JiraProvider

datatype StoredWorkItemRole = Primary | Related | CreatedFromWorkspace

record StoredWorkItemSnapshot =
  sn_issue_key :: str
  sn_summary :: "str option"
  sn_status :: "str option"
  sn_content :: str
  sn_browser_url :: "str option"
  sn_fetched_at_unix_ms :: int

record StoredWorkspaceWorkItemLink =
  sl_link_id :: uuid
  sl_workspace_id :: uuid
  sl_provider :: StoredWorkItemProvider
  sl_role :: StoredWorkItemRole
  sl_snapshot :: StoredWorkItemSnapshot
  sl_revision :: nat
  sl_created_at_unix_ms :: int
  sl_updated_at_unix_ms :: int

record ConfirmStoredWorkItemLinkResult =
  cl_link :: StoredWorkspaceWorkItemLink
  cl_replayed :: bool

record StoredWorkItemUnlinkResult =
  ul_workspace_id :: uuid
  ul_link_id :: uuid
  ul_removed_revision :: nat

datatype StoredReviewAuthor = User | Agent

datatype StoredReviewThreadState = Open | Resolved

datatype StoredReviewTarget =
    PlanningDocument (document_id: str) (document_sha256: str) (document_line: "nat option")
  | VerificationCheck (plan_revision: nat) (completed_at_unix_ms: int) (check_id: str)
  | CodeChange (code_repository_id: str) (base_commit_oid: str) (head_commit_oid: str)
      (patch_sha256: str) (file_path: str) (side: str) (code_line: nat)

record StoredReviewComment =
  rc_comment_id :: uuid
  rc_author :: StoredReviewAuthor
  rc_body :: str
  rc_created_at_unix_ms :: int

record StoredReviewThread =
  st_thread_id :: uuid
  st_workspace_id :: uuid
  st_target :: StoredReviewTarget
  st_state :: StoredReviewThreadState
  st_revision :: nat
  st_comments :: "StoredReviewComment list"
  st_created_at_unix_ms :: int
  st_updated_at_unix_ms :: int
  st_resolved_at_unix_ms :: "int option"

record ObservedWorkItem =
  ow_issue_key :: str
  ow_source_files :: "str list"
  ow_observed_at_unix_ms :: int

record WorkspaceLifecycleSummary =
  ls_materialization_state :: WorkspaceMaterializationState
  ls_worktree_count :: nat
  ls_observed_at_unix_ms :: "int option"

definition lifecycle_unknown :: WorkspaceLifecycleSummary where
  "lifecycle_unknown =
     \<lparr>ls_materialization_state = Unknown, ls_worktree_count = 0, ls_observed_at_unix_ms = None\<rparr>"

text \<open>A view has the fields of its record and those the store computes on every read.\<close>

record WorkspaceView = WorkspaceRecord +
  wv_observed_work_items :: "ObservedWorkItem list"
  wv_workspace_display_path :: str
  wv_lifecycle :: WorkspaceLifecycleSummary
  wv_workflow :: WorkspaceWorkflowSummary

record WorkspaceList =
  wl_workspace_root_id :: str
  wl_workspace_root_display_path :: str
  wl_workspaces :: "WorkspaceView list"

record CreateWorkspaceResult =
  cw_workspace :: WorkspaceView
  cw_replayed :: bool

record WorkspaceTombstone =
  wt_workspace_id :: uuid
  wt_idempotency_key :: uuid
  wt_effect_digest :: str
  wt_result_json :: str
  wt_removed_at_unix_ms :: int

record TombstoneWorkspaceResult =
  tr_tombstone :: WorkspaceTombstone
  tr_replayed :: bool

subsection \<open>Errors and events of sqlite.rs\<close>

datatype WorkspaceStoreError =
    DataDirectoryMustBeAbsolute
  | WorkspaceRootMustBeAbsolute
  | InvalidWorkspaceRoot
  | NonUtf8WorkspaceRoot
  | InvalidWorkspaceRootId
  | InvalidIdempotencyKey
  | IdempotencyConflict uuid
  | TombstoneIdempotencyConflict uuid
  | WorkspaceAlreadyTombstoned uuid
  | WorkspaceNotFound uuid
  | WorkspaceWorkflowConflict nat nat
  | InvalidWorkspaceBoardPlacement
  | InvalidReviewThread
  | ReviewCommentTooLarge
  | ReviewThreadNotFound uuid
  | ReviewThreadConflict nat nat
  | InvalidWorkItemLink
  | StaleWorkItemLinkPreview
  | WorkItemLinkIdempotencyConflict uuid
  | WorkItemLinkAlreadyExists
  | PrimaryWorkItemLinkAlreadyExists
  | WorkItemLinkNotFound uuid
  | WorkItemLinkConflict nat nat
  | InvalidEffectDigest
  | UnsupportedSchemaVersion int
  | CorruptRecord str
  | UnknownWorkspaceRoot str
  | InvalidSystemClock
  | Validation WorkspaceValidationError
  | Io
  | Database
  | Serialization

definition CREATE_EVENT_TYPE :: str where "CREATE_EVENT_TYPE = lit ''workspace.created.v1''"
definition TOMBSTONE_EVENT_TYPE :: str where "TOMBSTONE_EVENT_TYPE = lit ''workspace.removed.v1''"
definition WORKFLOW_EVENT_TYPE :: str where
  "WORKFLOW_EVENT_TYPE = lit ''workspace.workflow-transitioned.v1''"
definition BOARD_PLACED_EVENT_TYPE :: str where
  "BOARD_PLACED_EVENT_TYPE = lit ''workspace.board-placed.v1''"
definition BOARD_FOLLOW_AGENT_EVENT_TYPE :: str where
  "BOARD_FOLLOW_AGENT_EVENT_TYPE = lit ''workspace.board-follow-agent.v1''"
definition BOARD_AUTO_TRANSITIONED_EVENT_TYPE :: str where
  "BOARD_AUTO_TRANSITIONED_EVENT_TYPE = lit ''workspace.board-auto-transitioned.v1''"
definition WORK_ITEM_LINKED_EVENT_TYPE :: str where
  "WORK_ITEM_LINKED_EVENT_TYPE = lit ''workspace.work-item-linked.v1''"
definition WORK_ITEM_UNLINKED_EVENT_TYPE :: str where
  "WORK_ITEM_UNLINKED_EVENT_TYPE = lit ''workspace.work-item-unlinked.v1''"

text \<open>
  The serialisable event structs, one constructor each, with their fields in the order of the
  source (\<open>schema_version\<close>, \<open>event_id\<close>, \<open>event_type\<close> first).
\<close>

datatype StoreEvent =
    WorkspaceCreatedEvent nat uuid str uuid str WorkspaceRecord
  | WorkspaceTombstoneEvent nat uuid str uuid uuid str int
  | WorkspaceWorkflowEvent nat uuid str uuid WorkspaceWorkflowState WorkspaceWorkflowState nat int
  | WorkspaceBoardPlacementEvent nat uuid str uuid WorkspaceWorkflowState WorkspaceWorkflowState
      WorkspaceBoardPlacementMode WorkspaceBoardPlacementMode nat nat nat int
  | WorkspaceWorkItemLinkedEvent nat uuid str StoredWorkspaceWorkItemLink
  | WorkspaceWorkItemUnlinkedEvent nat uuid str uuid uuid nat str int

subsection \<open>The environment\<close>

record Env =
  to_lowercase :: "str \<Rightarrow> str"
  uuid_to_string :: "uuid \<Rightarrow> str"
  uuid_parse_str :: "str \<Rightarrow> uuid option"
  record_to_json :: "WorkspaceRecord \<Rightarrow> str option"
  record_from_json :: "str \<Rightarrow> str + WorkspaceRecord"
  record_json_repository_ids :: "str \<Rightarrow> str option list option"
  link_to_json :: "StoredWorkspaceWorkItemLink \<Rightarrow> str option"
  link_from_json :: "str \<Rightarrow> str + StoredWorkspaceWorkItemLink"
  event_to_json :: "StoreEvent \<Rightarrow> str option"
  request_to_json :: "CreateWorkspaceRequest \<Rightarrow> nat list option"
  is_json_value :: "str \<Rightarrow> bool"
  sha256_hex :: "nat list \<Rightarrow> str"
  validation_message :: "WorkspaceValidationError \<Rightarrow> str"

text \<open>
  What one call draws from outside: \<open>now\<close> is the system time in milliseconds since the epoch
  (negative before it) and \<open>draw n\<close> the result of its \<open>n\<close>-th \<open>Uuid::new_v4\<close>.
\<close>

record Ambient =
  now :: int
  draw :: "nat \<Rightarrow> uuid"

definition unix_time_ms :: "Ambient \<Rightarrow> WorkspaceStoreError + int" where
  "unix_time_ms A =
     (if now A < 0 then Inl InvalidSystemClock
      else ok_or (i64_try_from (nat (now A))) InvalidSystemClock)"

lemma unix_time_ms_Inr_iff [simp]: "unix_time_ms A = Inr t \<longleftrightarrow> t = now A \<and> 0 \<le> t \<and> t \<le> i64_max"
  by (auto simp: unix_time_ms_def)

abbreviation corrupt :: "string \<Rightarrow> WorkspaceStoreError" where
  "corrupt msg \<equiv> CorruptRecord (lit msg)"

end
