(* ===== verification/Store_Schema.thy ===== *)
theory Store_Schema
  imports Store_Model
begin

text \<open>
  The tables of \<open>crates/wts-store/migrations\<close> and the statements on them. Each \<open>insert\<close>
  operation carries the NOT NULL, CHECK, UNIQUE, PRIMARY KEY and REFERENCES clauses of its
  table; \<open>update_rows\<close> and \<open>delete_rows\<close> are the UPDATE and DELETE statements with the number
  of rows they changed. \<open>SQLite\<close>'s \<open>length\<close>, \<open>substr\<close> and \<open>GLOB\<close> read a text up to its
  first NUL character.
\<close>

subsection \<open>SQLite text functions\<close>

definition sql_text :: "str \<Rightarrow> str" where
  "sql_text s = takeWhile (\<lambda>c. c \<noteq> 0) s"

definition sql_length :: "str \<Rightarrow> nat" where
  "sql_length s = length (sql_text s)"

text \<open>\<open>x NOT GLOB '*[^...]*'\<close>: every character is of the class.\<close>

definition sql_only :: "(rchar \<Rightarrow> bool) \<Rightarrow> str \<Rightarrow> bool" where
  "sql_only P s \<longleftrightarrow> (\<forall>c \<in> set (sql_text s). P c)"

definition sql_sha256 :: "str \<Rightarrow> bool" where
  "sql_sha256 s \<longleftrightarrow> sql_length s = 71 \<and> take 7 (sql_text s) = lit ''sha256:''
     \<and> (\<forall>c \<in> set (drop 7 (sql_text s)). is_lower_hex c)"

lemma sql_text_id: "0 \<notin> set s \<Longrightarrow> sql_text s = s"
  by (induction s) (auto simp: sql_text_def)

subsection \<open>Tables\<close>

record CreatedEventRow =
  ce_event_id :: str
  ce_workspace_id :: str
  ce_record_version :: int
  ce_event_type :: str
  ce_event_json :: str
  ce_idempotency_key :: str
  ce_request_digest :: str
  ce_created_at :: int

record ProjectionRow =
  pr_workspace_id :: str
  pr_record_version :: int
  pr_record_json :: str
  pr_updated_at :: int

record LifecycleRow =
  lr_workspace_id :: str
  lr_record_version :: int
  lr_state :: str
  lr_worktree_count :: int
  lr_observed_at :: int

record TombstoneRow =
  tb_event_id :: str
  tb_workspace_id :: str
  tb_event_type :: str
  tb_event_json :: str
  tb_idempotency_key :: str
  tb_effect_digest :: str
  tb_result_json :: str
  tb_removed_at :: int

record ObservationRow =
  ob_workspace_id :: str
  ob_issue_key :: str
  ob_source_file :: str
  ob_observed_at :: int

record WorkflowEventRow =
  we_event_id :: str
  we_workspace_id :: str
  we_event_type :: str
  we_from_state :: str
  we_to_state :: str
  we_revision :: int
  we_event_json :: str
  we_created_at :: int

record WorkflowRow =
  wp_workspace_id :: str
  wp_state :: str
  wp_revision :: int
  wp_updated_at :: int

record BoardEventRow =
  be_event_id :: str
  be_workspace_id :: str
  be_event_type :: str
  be_from_state :: str
  be_to_state :: str
  be_from_mode :: str
  be_to_mode :: str
  be_from_rank :: int
  be_to_rank :: int
  be_revision :: int
  be_event_json :: str
  be_created_at :: int

record PlacementRow =
  bp_workspace_id :: str
  bp_mode :: str
  bp_rank :: int
  bp_updated_at :: int

record LinkRow =
  ln_link_id :: str
  ln_workspace_id :: str
  ln_provider :: str
  ln_issue_key :: str
  ln_role :: str
  ln_summary :: "str option"
  ln_status :: "str option"
  ln_content :: str
  ln_browser_url :: "str option"
  ln_fetched_at :: int
  ln_revision :: int
  ln_created_at :: int
  ln_updated_at :: int

record ConfirmationRow =
  cf_idempotency_key :: str
  cf_workspace_id :: str
  cf_preview_digest :: str
  cf_result_json :: str
  cf_created_at :: int

record LinkEventRow =
  le_event_id :: str
  le_workspace_id :: str
  le_link_id :: str
  le_event_type :: str
  le_revision :: int
  le_event_json :: str
  le_created_at :: int

text \<open>
  The three review-thread tables share their metadata columns and differ in the columns of the
  target, which are the type parameter.
\<close>

record 't ThreadRow =
  th_thread_id :: str
  th_workspace_id :: str
  th_target :: 't
  th_state :: str
  th_revision :: int
  th_created_at :: int
  th_updated_at :: int
  th_resolved_at :: "int option"

record PlanningColumns =
  pc_document_id :: str
  pc_document_sha256 :: str
  pc_line :: "int option"

record VerificationColumns =
  vc_plan_revision :: int
  vc_completed_at :: int
  vc_check_id :: str

record CodeColumns =
  cc_repository_id :: str
  cc_base_commit_oid :: str
  cc_head_commit_oid :: str
  cc_patch_sha256 :: str
  cc_file_path :: str
  cc_side :: str
  cc_line :: int

record CommentRow =
  cm_comment_id :: str
  cm_thread_id :: str
  cm_author :: str
  cm_body :: str
  cm_created_at :: int

record Db =
  created_events :: "CreatedEventRow list"
  projection :: "ProjectionRow list"
  lifecycle_projection :: "LifecycleRow list"
  tombstone_events :: "TombstoneRow list"
  observations :: "ObservationRow list"
  workflow_events :: "WorkflowEventRow list"
  workflow_projection :: "WorkflowRow list"
  board_events :: "BoardEventRow list"
  board_placement :: "PlacementRow list"
  links :: "LinkRow list"
  link_confirmations :: "ConfirmationRow list"
  link_events :: "LinkEventRow list"
  planning_threads :: "PlanningColumns ThreadRow list"
  planning_comments :: "CommentRow list"
  verification_threads :: "VerificationColumns ThreadRow list"
  verification_comments :: "CommentRow list"
  code_threads :: "CodeColumns ThreadRow list"
  code_comments :: "CommentRow list"

definition empty_db :: Db where
  "empty_db =
     \<lparr>created_events = [], projection = [], lifecycle_projection = [], tombstone_events = [],
      observations = [], workflow_events = [], workflow_projection = [], board_events = [],
      board_placement = [], links = [], link_confirmations = [], link_events = [],
      planning_threads = [], planning_comments = [], verification_threads = [],
      verification_comments = [], code_threads = [], code_comments = []\<rparr>"

subsection \<open>Statements\<close>

definition update_rows ::
    "('r \<Rightarrow> bool) \<Rightarrow> ('r \<Rightarrow> bool) \<Rightarrow> ('r \<Rightarrow> 'r) \<Rightarrow> 'r list \<Rightarrow> WorkspaceStoreError + (nat \<times> 'r list)" where
  "update_rows check p f rows =
     rbind (ensure (\<forall>r \<in> set rows. p r \<longrightarrow> check (f r)) Database) (\<lambda>_.
     Inr (length (filter p rows), map (\<lambda>r. if p r then f r else r) rows))"

lemma update_rows_Inr_iff [simp]:
  "update_rows check p f rows = Inr y \<longleftrightarrow>
     (\<forall>r \<in> set rows. p r \<longrightarrow> check (f r))
     \<and> y = (length (filter p rows), map (\<lambda>r. if p r then f r else r) rows)"
  by (auto simp: update_rows_def)

text \<open>Foreign keys.\<close>

definition event_exists :: "Db \<Rightarrow> str \<Rightarrow> bool" where
  "event_exists db w \<longleftrightarrow> (\<exists>r \<in> set (created_events db). ce_workspace_id r = w)"

definition projected :: "Db \<Rightarrow> str \<Rightarrow> bool" where
  "projected db w \<longleftrightarrow> (\<exists>r \<in> set (projection db). pr_workspace_id r = w)"

definition tombstoned :: "Db \<Rightarrow> str \<Rightarrow> bool" where
  "tombstoned db w \<longleftrightarrow> (\<exists>r \<in> set (tombstone_events db). tb_workspace_id r = w)"

definition insert_created_event :: "CreatedEventRow \<Rightarrow> Db \<Rightarrow> WorkspaceStoreError + Db" where
  "insert_created_event r db =
     rbind (ensure (0 < ce_record_version r \<and> ce_event_type r = CREATE_EVENT_TYPE
              \<and> sql_length (ce_request_digest r) = 64 \<and> 0 \<le> ce_created_at r
              \<and> (\<forall>x \<in> set (created_events db). ce_event_id x \<noteq> ce_event_id r
                   \<and> ce_workspace_id x \<noteq> ce_workspace_id r
                   \<and> ce_idempotency_key x \<noteq> ce_idempotency_key r)) Database) (\<lambda>_.
     Inr (db\<lparr>created_events := created_events db @ [r]\<rparr>))"

definition projection_check :: "ProjectionRow \<Rightarrow> bool" where
  "projection_check r \<longleftrightarrow> 0 < pr_record_version r \<and> 0 \<le> pr_updated_at r"

definition insert_projection :: "ProjectionRow \<Rightarrow> Db \<Rightarrow> WorkspaceStoreError + Db" where
  "insert_projection r db =
     rbind (ensure (projection_check r \<and> event_exists db (pr_workspace_id r)
              \<and> (\<forall>x \<in> set (projection db). pr_workspace_id x \<noteq> pr_workspace_id r)) Database) (\<lambda>_.
     Inr (db\<lparr>projection := projection db @ [r]\<rparr>))"

definition lifecycle_check :: "LifecycleRow \<Rightarrow> bool" where
  "lifecycle_check r \<longleftrightarrow> 0 < lr_record_version r
     \<and> lr_state r \<in> set [lit ''not_materialized'', lit ''materialized'', lit ''needs_attention'']
     \<and> 0 \<le> lr_worktree_count r \<and> 0 \<le> lr_observed_at r"

definition insert_lifecycle :: "LifecycleRow \<Rightarrow> Db \<Rightarrow> WorkspaceStoreError + Db" where
  "insert_lifecycle r db =
     rbind (ensure (lifecycle_check r \<and> projected db (lr_workspace_id r)
              \<and> (\<forall>x \<in> set (lifecycle_projection db). lr_workspace_id x \<noteq> lr_workspace_id r)) Database) (\<lambda>_.
     Inr (db\<lparr>lifecycle_projection := lifecycle_projection db @ [r]\<rparr>))"

text \<open>\<open>INSERT ... ON CONFLICT(workspace_id) DO UPDATE SET\<close> every other column.\<close>

definition upsert_lifecycle :: "LifecycleRow \<Rightarrow> Db \<Rightarrow> WorkspaceStoreError + Db" where
  "upsert_lifecycle r db =
     (if \<exists>x \<in> set (lifecycle_projection db). lr_workspace_id x = lr_workspace_id r
      then rbind (update_rows lifecycle_check (\<lambda>x. lr_workspace_id x = lr_workspace_id r) (\<lambda>_. r)
                    (lifecycle_projection db)) (\<lambda>(_, rows).
           Inr (db\<lparr>lifecycle_projection := rows\<rparr>))
      else insert_lifecycle r db)"

definition insert_tombstone :: "TombstoneRow \<Rightarrow> Db \<Rightarrow> WorkspaceStoreError + Db" where
  "insert_tombstone r db =
     rbind (ensure (tb_event_type r = TOMBSTONE_EVENT_TYPE \<and> sql_length (tb_effect_digest r) = 71
              \<and> 0 \<le> tb_removed_at r \<and> event_exists db (tb_workspace_id r)
              \<and> (\<forall>x \<in> set (tombstone_events db). tb_event_id x \<noteq> tb_event_id r
                   \<and> tb_workspace_id x \<noteq> tb_workspace_id r
                   \<and> tb_idempotency_key x \<noteq> tb_idempotency_key r)) Database) (\<lambda>_.
     Inr (db\<lparr>tombstone_events := tombstone_events db @ [r]\<rparr>))"

definition insert_observation :: "ObservationRow \<Rightarrow> Db \<Rightarrow> WorkspaceStoreError + Db" where
  "insert_observation r db =
     rbind (ensure (0 \<le> ob_observed_at r \<and> event_exists db (ob_workspace_id r)
              \<and> (\<forall>x \<in> set (observations db).
                   (ob_workspace_id x, ob_issue_key x, ob_source_file x)
                   \<noteq> (ob_workspace_id r, ob_issue_key r, ob_source_file r))) Database) (\<lambda>_.
     Inr (db\<lparr>observations := observations db @ [r]\<rparr>))"

abbreviation workflow_state_names :: "str list" where
  "workflow_state_names \<equiv> [lit ''ready'', lit ''active'', lit ''review'', lit ''parked'']"

abbreviation placement_mode_names :: "str list" where
  "placement_mode_names \<equiv> [lit ''automatic'', lit ''pinned'']"

definition insert_workflow_event :: "WorkflowEventRow \<Rightarrow> Db \<Rightarrow> WorkspaceStoreError + Db" where
  "insert_workflow_event r db =
     rbind (ensure (we_event_type r = WORKFLOW_EVENT_TYPE
              \<and> we_from_state r \<in> set workflow_state_names \<and> we_to_state r \<in> set workflow_state_names
              \<and> 1 < we_revision r \<and> 0 \<le> we_created_at r \<and> event_exists db (we_workspace_id r)
              \<and> (\<forall>x \<in> set (workflow_events db). we_event_id x \<noteq> we_event_id r
                   \<and> (we_workspace_id x, we_revision x) \<noteq> (we_workspace_id r, we_revision r))) Database) (\<lambda>_.
     Inr (db\<lparr>workflow_events := workflow_events db @ [r]\<rparr>))"

definition workflow_check :: "WorkflowRow \<Rightarrow> bool" where
  "workflow_check r \<longleftrightarrow> wp_state r \<in> set workflow_state_names \<and> 0 < wp_revision r \<and> 0 \<le> wp_updated_at r"

definition insert_workflow :: "WorkflowRow \<Rightarrow> Db \<Rightarrow> WorkspaceStoreError + Db" where
  "insert_workflow r db =
     rbind (ensure (workflow_check r \<and> projected db (wp_workspace_id r)
              \<and> (\<forall>x \<in> set (workflow_projection db). wp_workspace_id x \<noteq> wp_workspace_id r)) Database) (\<lambda>_.
     Inr (db\<lparr>workflow_projection := workflow_projection db @ [r]\<rparr>))"

definition insert_board_event :: "BoardEventRow \<Rightarrow> Db \<Rightarrow> WorkspaceStoreError + Db" where
  "insert_board_event r db =
     rbind (ensure (be_event_type r \<in> set [BOARD_PLACED_EVENT_TYPE, BOARD_FOLLOW_AGENT_EVENT_TYPE,
                        BOARD_AUTO_TRANSITIONED_EVENT_TYPE]
              \<and> be_from_state r \<in> set workflow_state_names \<and> be_to_state r \<in> set workflow_state_names
              \<and> be_from_mode r \<in> set placement_mode_names \<and> be_to_mode r \<in> set placement_mode_names
              \<and> 0 \<le> be_from_rank r \<and> 0 \<le> be_to_rank r
              \<and> 1 < be_revision r \<and> 0 \<le> be_created_at r \<and> event_exists db (be_workspace_id r)
              \<and> (\<forall>x \<in> set (board_events db). be_event_id x \<noteq> be_event_id r
                   \<and> (be_workspace_id x, be_revision x) \<noteq> (be_workspace_id r, be_revision r))) Database) (\<lambda>_.
     Inr (db\<lparr>board_events := board_events db @ [r]\<rparr>))"

definition placement_check :: "PlacementRow \<Rightarrow> bool" where
  "placement_check r \<longleftrightarrow> bp_mode r \<in> set placement_mode_names \<and> 0 \<le> bp_rank r \<and> 0 \<le> bp_updated_at r"

text \<open>
  \<open>lane_rank\<close> is an INTEGER of a STRICT table: a sum that overflows 64 bits becomes a REAL and is
  refused.
\<close>

definition insert_placement :: "PlacementRow \<Rightarrow> Db \<Rightarrow> WorkspaceStoreError + Db" where
  "insert_placement r db =
     rbind (ensure (placement_check r \<and> bp_rank r \<le> i64_max \<and> projected db (bp_workspace_id r)
              \<and> (\<forall>x \<in> set (board_placement db). bp_workspace_id x \<noteq> bp_workspace_id r)) Database) (\<lambda>_.
     Inr (db\<lparr>board_placement := board_placement db @ [r]\<rparr>))"

definition insert_link :: "LinkRow \<Rightarrow> Db \<Rightarrow> WorkspaceStoreError + Db" where
  "insert_link r db =
     rbind (ensure (ln_provider r = lit ''jira''
              \<and> ln_role r \<in> set [lit ''primary'', lit ''related'', lit ''created_from_workspace'']
              \<and> 0 \<le> ln_fetched_at r \<and> 0 < ln_revision r \<and> 0 \<le> ln_created_at r
              \<and> ln_created_at r \<le> ln_updated_at r \<and> event_exists db (ln_workspace_id r)
              \<and> (\<forall>x \<in> set (links db). ln_link_id x \<noteq> ln_link_id r
                   \<and> (ln_workspace_id x, ln_provider x, ln_issue_key x)
                     \<noteq> (ln_workspace_id r, ln_provider r, ln_issue_key r)
                   \<and> \<not> (ln_role x = lit ''primary'' \<and> ln_role r = lit ''primary''
                        \<and> ln_workspace_id x = ln_workspace_id r))) Database) (\<lambda>_.
     Inr (db\<lparr>links := links db @ [r]\<rparr>))"

definition insert_confirmation :: "ConfirmationRow \<Rightarrow> Db \<Rightarrow> WorkspaceStoreError + Db" where
  "insert_confirmation r db =
     rbind (ensure (0 \<le> cf_created_at r \<and> event_exists db (cf_workspace_id r)
              \<and> (\<forall>x \<in> set (link_confirmations db). cf_idempotency_key x \<noteq> cf_idempotency_key r)) Database) (\<lambda>_.
     Inr (db\<lparr>link_confirmations := link_confirmations db @ [r]\<rparr>))"

definition insert_link_event :: "LinkEventRow \<Rightarrow> Db \<Rightarrow> WorkspaceStoreError + Db" where
  "insert_link_event r db =
     rbind (ensure (le_event_type r \<in> set [WORK_ITEM_LINKED_EVENT_TYPE, WORK_ITEM_UNLINKED_EVENT_TYPE]
              \<and> 0 < le_revision r \<and> 0 \<le> le_created_at r \<and> event_exists db (le_workspace_id r)
              \<and> (\<forall>x \<in> set (link_events db). le_event_id x \<noteq> le_event_id r)) Database) (\<lambda>_.
     Inr (db\<lparr>link_events := link_events db @ [r]\<rparr>))"

text \<open>The CHECK clauses on the metadata columns of the three review-thread tables.\<close>

definition thread_check :: "'t ThreadRow \<Rightarrow> bool" where
  "thread_check r \<longleftrightarrow> th_state r \<in> set [lit ''open'', lit ''resolved''] \<and> 0 < th_revision r
     \<and> 0 \<le> th_created_at r \<and> th_created_at r \<le> th_updated_at r
     \<and> (case th_resolved_at r of None \<Rightarrow> True | Some t \<Rightarrow> th_created_at r \<le> t)
     \<and> (th_state r = lit ''open'' \<and> th_resolved_at r = None
        \<or> th_state r = lit ''resolved'' \<and> th_resolved_at r \<noteq> None)"

definition planning_check :: "PlanningColumns \<Rightarrow> bool" where
  "planning_check t \<longleftrightarrow>
     pc_document_id t \<in> set [lit ''readme'', lit ''plan'', lit ''findings'', lit ''kanban'', lit ''programBacklog'']
     \<and> sql_sha256 (pc_document_sha256 t)
     \<and> (case pc_line t of None \<Rightarrow> True | Some l \<Rightarrow> 1 \<le> l \<and> l \<le> 1000000)"

definition verification_check :: "VerificationColumns \<Rightarrow> bool" where
  "verification_check t \<longleftrightarrow> 0 < vc_plan_revision t \<and> 0 \<le> vc_completed_at t
     \<and> 1 \<le> sql_length (vc_check_id t) \<and> sql_length (vc_check_id t) \<le> 128
     \<and> sql_only (\<lambda>c. is_ascii_alphanumeric c \<or> c \<in> set (lit ''._-'')) (vc_check_id t)"

definition code_check :: "CodeColumns \<Rightarrow> bool" where
  "code_check t \<longleftrightarrow>
     1 \<le> sql_length (cc_repository_id t) \<and> sql_length (cc_repository_id t) \<le> 512
     \<and> sql_length (cc_base_commit_oid t) \<in> {40, 64} \<and> sql_only is_ascii_hexdigit (cc_base_commit_oid t)
     \<and> sql_length (cc_head_commit_oid t) \<in> {40, 64} \<and> sql_only is_ascii_hexdigit (cc_head_commit_oid t)
     \<and> sql_sha256 (cc_patch_sha256 t)
     \<and> 1 \<le> sql_length (cc_file_path t) \<and> sql_length (cc_file_path t) \<le> 4096
     \<and> cc_side t \<in> set [lit ''additions'', lit ''deletions''] \<and> 1 \<le> cc_line t \<and> cc_line t \<le> 1000000"

definition insert_thread ::
    "('t \<Rightarrow> bool) \<Rightarrow> Db \<Rightarrow> 't ThreadRow \<Rightarrow> 't ThreadRow list \<Rightarrow> WorkspaceStoreError + 't ThreadRow list" where
  "insert_thread check db r rows =
     rbind (ensure (thread_check r \<and> check (th_target r) \<and> event_exists db (th_workspace_id r)
              \<and> (\<forall>x \<in> set rows. th_thread_id x \<noteq> th_thread_id r)) Database) (\<lambda>_.
     Inr (rows @ [r]))"

definition insert_comment ::
    "'t ThreadRow list \<Rightarrow> CommentRow \<Rightarrow> CommentRow list \<Rightarrow> WorkspaceStoreError + CommentRow list" where
  "insert_comment threads r rows =
     rbind (ensure (cm_author r \<in> set [lit ''user'', lit ''agent''] \<and> 0 < sql_length (cm_body r)
              \<and> 0 \<le> cm_created_at r \<and> (\<exists>t \<in> set threads. th_thread_id t = cm_thread_id r)
              \<and> (\<forall>x \<in> set rows. cm_comment_id x \<noteq> cm_comment_id r)) Database) (\<lambda>_.
     Inr (rows @ [r]))"

subsection \<open>Transactions\<close>

text \<open>
  An operation opens an immediate transaction, so it reads and writes the database alone. When
  its body fails the transaction is dropped and rolls back; otherwise it commits, and \<open>after\<close>
  (reads on the same connection) produces the answer.
\<close>

definition commit_then ::
    "Db \<Rightarrow> WorkspaceStoreError + ('a \<times> Db) \<Rightarrow> ('a \<Rightarrow> Db \<Rightarrow> WorkspaceStoreError + 'b)
     \<Rightarrow> (WorkspaceStoreError + 'b) \<times> Db" where
  "commit_then db body after =
     (case body of Inl e \<Rightarrow> (Inl e, db) | Inr (x, db') \<Rightarrow> (after x db', db'))"

definition transact ::
    "Db \<Rightarrow> WorkspaceStoreError + ('a \<times> Db) \<Rightarrow> (WorkspaceStoreError + 'a) \<times> Db" where
  "transact db body = commit_then db body (\<lambda>x _. Inr x)"

lemma transact_simps [simp]:
  "transact db (Inl e) = (Inl e, db)"
  "transact db (Inr (x, db')) = (Inr x, db')"
  by (simp_all add: transact_def commit_then_def)

lemma transact_Inr_iff: "transact db body = (Inr x, db') \<longleftrightarrow> body = Inr (x, db')"
  by (cases body) (auto simp: transact_def commit_then_def)

lemma transact_Inl_iff: "transact db body = (Inl e, db') \<longleftrightarrow> body = Inl e \<and> db' = db"
  by (cases body) (auto simp: transact_def commit_then_def)

lemma commit_then_iff:
  "commit_then db body after = (res, db') \<longleftrightarrow>
     (\<exists>e. body = Inl e \<and> res = Inl e \<and> db' = db)
     \<or> (\<exists>x. body = Inr (x, db') \<and> res = after x db')"
  by (cases body) (auto simp: commit_then_def)

lemma commit_then_Inr_iff:
  "commit_then db body after = (Inr y, db') \<longleftrightarrow> (\<exists>x. body = Inr (x, db') \<and> after x db' = Inr y)"
  by (cases body) (auto simp: commit_then_def)

end
