(* ===== verification/Store_Records.thy ===== *)
theory Store_Records
  imports Store_Schema
begin

text \<open>
  Workspace records in \<open>crates/wts-store/src/sqlite.rs\<close>: leaf names, \<open>validate_record\<close>, the
  lifecycle summary, and \<open>load_projection\<close>, which reads a record back and refuses one that its
  row, its own identity or the creation contract does not confirm.
\<close>

subsection \<open>Roots and leaf names\<close>

text \<open>
  A path is a list of Unicode scalar values in which a byte that is not valid UTF-8 stands as a
  number of \<open>0x110000\<close> and more, so \<open>Path::to_str\<close> succeeds when there is none. Paths are Unix
  paths.
\<close>

type_synonym os_path = "nat list"

definition path_to_str :: "os_path \<Rightarrow> str option" where
  "path_to_str p = (if \<forall>c \<in> set p. c < 0x110000 then Some p else None)"

definition path_is_absolute :: "os_path \<Rightarrow> bool" where
  "path_is_absolute p = starts_with (lit ''/'') p"

definition path_has_parent_dir :: "os_path \<Rightarrow> bool" where
  "path_has_parent_dir p \<longleftrightarrow> lit ''..'' \<in> set (split_on (chr CHR ''/'') p)"

definition path_join :: "os_path \<Rightarrow> os_path \<Rightarrow> os_path" where
  "path_join p q =
     (if path_is_absolute q then q
      else if p = [] \<or> ends_with (lit ''/'') p then p @ q else p @ lit ''/'' @ q)"

definition valid_root_id :: "str \<Rightarrow> bool" where
  "valid_root_id value \<longleftrightarrow>
     value \<noteq> [] \<and> str_len value \<le> 64
     \<and> (\<forall>c \<in> set value. is_ascii_alphanumeric c \<or> c \<in> set (lit ''-_.''))"

record WorkspaceRoot =
  root_id :: str
  root_path :: os_path
  root_display_path :: str

definition workspace_root_new :: "str \<Rightarrow> os_path \<Rightarrow> WorkspaceStoreError + WorkspaceRoot" where
  "workspace_root_new rid p =
     rbind (ensure (valid_root_id rid) InvalidWorkspaceRootId) (\<lambda>_.
     rbind (ensure (path_is_absolute p) WorkspaceRootMustBeAbsolute) (\<lambda>_.
     rbind (ensure (\<not> path_has_parent_dir p) InvalidWorkspaceRoot) (\<lambda>_.
     rbind (ok_or (path_to_str p) NonUtf8WorkspaceRoot) (\<lambda>display.
     Inr \<lparr>root_id = rid, root_path = p, root_display_path = display\<rparr>))))"

text \<open>\<open>slug.get(..n)\<close> for a slug, which is ASCII: its first \<open>n\<close> characters.\<close>

definition workspace_leaf_from_name :: "Env \<Rightarrow> str \<Rightarrow> uuid \<Rightarrow> str" where
  "workspace_leaf_from_name E source w =
     (let bounded_slug = take (min (length (slug source)) 200) (slug source) in
      (if bounded_slug = [] then lit ''workspace'' else bounded_slug) @ lit ''-'' @ uuid_to_string E w)"

definition workspace_leaf :: "Env \<Rightarrow> WorkspaceIntent \<Rightarrow> uuid \<Rightarrow> str" where
  "workspace_leaf E it w =
     workspace_leaf_from_name E
       (case it of
          Jira key \<Rightarrow> key
        | OpenProject _ display \<Rightarrow> display
        | RepositorySet lab \<Rightarrow> lab) w"

definition renamed_workspace_leaf :: "Env \<Rightarrow> str \<Rightarrow> uuid \<Rightarrow> WorkspaceValidationError + str" where
  "renamed_workspace_leaf E t w =
     rbind (normalize_rename \<lparr>rename_title = t\<rparr>) (\<lambda>req.
     Inr (workspace_leaf_from_name E (rename_title req) w))"

definition repository_leaf :: "Env \<Rightarrow> str \<Rightarrow> uuid \<Rightarrow> str" where
  "repository_leaf E lab request_id =
     (let s = slug lab in
      (if s = [] then lit ''repository'' else s) @ lit ''-'' @ uuid_to_string E request_id)"

definition parse_idempotency_key :: "Env \<Rightarrow> str \<Rightarrow> WorkspaceStoreError + uuid" where
  "parse_idempotency_key E value =
     rbind (ok_or (uuid_parse_str E (trim value)) InvalidIdempotencyKey) (\<lambda>id.
     rbind (ensure (\<not> is_nil id) InvalidIdempotencyKey) (\<lambda>_. Inr id))"

subsection \<open>Validation of records and lifecycles\<close>

text \<open>The creation request a record carries, and the plans its normal form gives.\<close>

definition plan_request :: "WorkspaceRepositoryPlan \<Rightarrow> WorkspaceRepositoryRequest" where
  "plan_request p = \<lparr>repository_id = rp_repository_id p, label = rp_label p, base_ref = rp_base_ref p\<rparr>"

definition record_request :: "WorkspaceRecord \<Rightarrow> CreateWorkspaceRequest" where
  "record_request r =
     \<lparr>intent = wr_intent r, title = wr_title r, preferred_provider = wr_preferred_provider r,
      repositories = map plan_request (wr_repositories r), runtime = wr_runtime r,
      planning = wr_planning r\<rparr>"

definition replan :: "WorkspaceRepositoryRequest \<times> WorkspaceRepositoryPlan \<Rightarrow> WorkspaceRepositoryPlan" where
  "replan = (\<lambda>(q, p).
     \<lparr>rp_request_id = rp_request_id p, rp_repository_id = repository_id q, rp_label = label q,
      rp_base_ref = base_ref q, rp_worktree_leaf = rp_worktree_leaf p\<rparr>)"

definition validate_record :: "Env \<Rightarrow> WorkspaceRecord \<Rightarrow> WorkspaceStoreError + unit" where
  "validate_record E r =
     rbind (ensure (wr_schema_version r = WORKSPACE_RECORD_SCHEMA_VERSION)
       (CorruptRecord (lit ''unsupported workspace record schema '' @ show_nat (wr_schema_version r)))) (\<lambda>_.
     rbind (ensure (wr_record_version r = WORKSPACE_RECORD_VERSION)
       (CorruptRecord (lit ''unsupported workspace record version '' @ show_nat (wr_record_version r)))) (\<lambda>_.
     rbind (ensure (\<not> is_nil (wr_workspace_id r)) (corrupt ''workspace identifier is nil'')) (\<lambda>_.
     rbind (ensure (valid_root_id (wr_workspace_root_id r))
       (corrupt ''workspace root identifier is invalid'')) (\<lambda>_.
     rbind (ensure (wr_workspace_leaf r =
         (case wr_display_name r of
            None \<Rightarrow> workspace_leaf E (wr_intent r) (wr_workspace_id r)
          | Some name \<Rightarrow> workspace_leaf_from_name E name (wr_workspace_id r)))
       (corrupt ''workspace leaf does not match its trusted identity'')) (\<lambda>_.
     rbind (ensure (\<not> (wr_created_at_unix_ms r < 0 \<or> wr_updated_at_unix_ms r < wr_created_at_unix_ms r))
       (corrupt ''workspace timestamps are invalid'')) (\<lambda>_.
     rbind (ensure (wr_phase r = Draft) (corrupt ''workspace phase is unsupported'')) (\<lambda>_.
     rbind (case wr_display_name r of
              None \<Rightarrow> Inr ()
            | Some name \<Rightarrow>
                rbind (map_err (\<lambda>e. CorruptRecord (lit ''workspace display name failed validation: ''
                                  @ validation_message E e))
                        (normalize_rename \<lparr>rename_title = name\<rparr>)) (\<lambda>n.
                ensure (rename_title n = name) (corrupt ''workspace display name is not canonical''))) (\<lambda>_.
     rbind (ensure (\<forall>p \<in> set (wr_repositories r). \<not> (is_nil (rp_request_id p)
         \<or> rp_worktree_leaf p \<noteq> repository_leaf E (rp_label p) (rp_request_id p)))
       (corrupt ''repository plan has an invalid trusted identity'')) (\<lambda>_.
     rbind (map_err (\<lambda>e. CorruptRecord (lit ''workspace domain data failed validation: ''
                       @ validation_message E e))
             (normalize (to_lowercase E) (record_request r))) (\<lambda>n.
     ensure (\<not> (intent n \<noteq> wr_intent r \<or> title n \<noteq> wr_title r
         \<or> preferred_provider n \<noteq> wr_preferred_provider r \<or> runtime n \<noteq> wr_runtime r
         \<or> planning n \<noteq> wr_planning r
         \<or> map replan (zip (repositories n) (wr_repositories r)) \<noteq> wr_repositories r))
       (corrupt ''workspace domain data is not canonical'')))))))))))"

definition validate_lifecycle_timestamp ::
    "WorkspaceRecord \<Rightarrow> WorkspaceLifecycleSummary \<Rightarrow> WorkspaceStoreError + unit" where
  "validate_lifecycle_timestamp r l =
     ensure (\<not> (case ls_observed_at_unix_ms l of
                  None \<Rightarrow> True | Some observed \<Rightarrow> observed < wr_created_at_unix_ms r))
       (corrupt ''workspace lifecycle observation time is invalid'')"

definition validate_lifecycle ::
    "WorkspaceRecord \<Rightarrow> WorkspaceLifecycleSummary \<Rightarrow> WorkspaceStoreError + unit" where
  "validate_lifecycle r l =
     (case ls_materialization_state l of
        Unknown \<Rightarrow>
          ensure (\<not> (ls_worktree_count l \<noteq> 0 \<or> ls_observed_at_unix_ms l \<noteq> None))
            (corrupt ''unknown workspace lifecycle contains an observation'')
      | Materialized \<Rightarrow>
          rbind (ensure (ls_worktree_count l = length (wr_repositories r))
            (corrupt ''materialized workspace lifecycle has the wrong worktree count'')) (\<lambda>_.
          validate_lifecycle_timestamp r l)
      | _ \<Rightarrow>
          rbind (ensure (ls_worktree_count l = 0)
            (corrupt ''non-materialized workspace lifecycle has worktrees'')) (\<lambda>_.
          validate_lifecycle_timestamp r l))"

definition lifecycle_state_storage :: "WorkspaceMaterializationState \<Rightarrow> str" where
  "lifecycle_state_storage s =
     (case s of
        Unknown \<Rightarrow> lit ''unknown''
      | NotMaterialized \<Rightarrow> lit ''not_materialized''
      | Materialized \<Rightarrow> lit ''materialized''
      | NeedsAttention \<Rightarrow> lit ''needs_attention'')"

text \<open>The \<open>match\<close> inside \<open>decode_lifecycle\<close>: \<open>unknown\<close> is never stored.\<close>

definition lifecycle_state_from_storage :: "str \<Rightarrow> WorkspaceStoreError + WorkspaceMaterializationState" where
  "lifecycle_state_from_storage s =
     (if s = lit ''not_materialized'' then Inr NotMaterialized
      else if s = lit ''materialized'' then Inr Materialized
      else if s = lit ''needs_attention'' then Inr NeedsAttention
      else Inl (corrupt ''workspace lifecycle state is invalid''))"

subsection \<open>Reading a projection\<close>

record RawProjection =
  raw_workspace_id :: str
  raw_record_version :: int
  raw_record_json :: str
  raw_updated_at :: int
  raw_json_bytes :: int
  raw_lifecycle_record_version :: "int option"
  raw_materialization_state :: "str option"
  raw_worktree_count :: "int option"
  raw_observed_at :: "int option"

record DecodedProjection =
  dp_record :: WorkspaceRecord
  dp_lifecycle :: WorkspaceLifecycleSummary

definition decode_lifecycle ::
    "WorkspaceRecord \<Rightarrow> RawProjection \<Rightarrow> WorkspaceStoreError + WorkspaceLifecycleSummary" where
  "decode_lifecycle r raw =
     (let fields_present = [raw_lifecycle_record_version raw \<noteq> None, raw_materialization_state raw \<noteq> None,
            raw_worktree_count raw \<noteq> None, raw_observed_at raw \<noteq> None] in
      if \<forall>present \<in> set fields_present. \<not> present then Inr lifecycle_unknown
      else
        rbind (ensure (\<forall>present \<in> set fields_present. present)
          (corrupt ''workspace lifecycle projection is incomplete'')) (\<lambda>_.
        rbind (ensure (raw_lifecycle_record_version raw = i64_try_from (wr_record_version r))
          (corrupt ''workspace lifecycle record version is stale'')) (\<lambda>_.
        rbind (case raw_materialization_state raw of
                 None \<Rightarrow> Inl (corrupt ''workspace lifecycle state is invalid'')
               | Some s \<Rightarrow> lifecycle_state_from_storage s) (\<lambda>state.
        rbind (ok_or (u32_try_from (case raw_worktree_count raw of None \<Rightarrow> 0 | Some n \<Rightarrow> n))
          (corrupt ''workspace lifecycle worktree count is invalid'')) (\<lambda>count.
        let l = \<lparr>ls_materialization_state = state, ls_worktree_count = count,
                 ls_observed_at_unix_ms = raw_observed_at raw\<rparr> in
        rbind (validate_lifecycle r l) (\<lambda>_. Inr l))))))"

definition decode_projection :: "Env \<Rightarrow> RawProjection \<Rightarrow> WorkspaceStoreError + DecodedProjection" where
  "decode_projection E raw =
     rbind (ensure (\<not> (raw_json_bytes raw < 0 \<or> nat (raw_json_bytes raw) > MAX_RECORD_JSON_BYTES))
       (corrupt ''workspace JSON exceeds the store limit'')) (\<lambda>_.
     rbind (map_err CorruptRecord (record_from_json E (raw_record_json raw))) (\<lambda>r.
     rbind (ensure (\<not> (uuid_to_string E (wr_workspace_id r) \<noteq> raw_workspace_id raw
         \<or> i64_try_from (wr_record_version r) \<noteq> Some (raw_record_version raw)
         \<or> wr_updated_at_unix_ms r \<noteq> raw_updated_at raw))
       (corrupt ''projection metadata does not match its workspace JSON'')) (\<lambda>_.
     rbind (validate_record E r) (\<lambda>_.
     rbind (decode_lifecycle r raw) (\<lambda>l.
     Inr \<lparr>dp_record = r, dp_lifecycle = l\<rparr>)))))"

text \<open>The LEFT JOIN of a projection row with its lifecycle row.\<close>

definition raw_projection :: "Db \<Rightarrow> ProjectionRow \<Rightarrow> RawProjection" where
  "raw_projection db p =
     (let l = find (\<lambda>x. lr_workspace_id x = pr_workspace_id p) (lifecycle_projection db) in
      \<lparr>raw_workspace_id = pr_workspace_id p, raw_record_version = pr_record_version p,
       raw_record_json = pr_record_json p, raw_updated_at = pr_updated_at p,
       raw_json_bytes = int (sql_length (pr_record_json p)),
       raw_lifecycle_record_version = map_option lr_record_version l,
       raw_materialization_state = map_option lr_state l,
       raw_worktree_count = map_option lr_worktree_count l,
       raw_observed_at = map_option lr_observed_at l\<rparr>)"

definition load_projection :: "Env \<Rightarrow> Db \<Rightarrow> str \<Rightarrow> WorkspaceStoreError + DecodedProjection option" where
  "load_projection E db w =
     map_transpose (\<lambda>p. decode_projection E (raw_projection db p))
       (find (\<lambda>p. pr_workspace_id p = w \<and> \<not> tombstoned db (pr_workspace_id p)) (projection db))"

subsection \<open>What the environment promises\<close>

definition uuid_text_ok :: "Env \<Rightarrow> bool" where
  "uuid_text_ok E \<longleftrightarrow> (\<forall>u. uuid_parse_str E (uuid_to_string E u) = Some u
     \<and> uuid_to_string E u \<noteq> [] \<and> (\<forall>c \<in> set (uuid_to_string E u). c < 128))"

definition record_codec_ok :: "Env \<Rightarrow> bool" where
  "record_codec_ok E \<longleftrightarrow>
     (\<forall>r j. record_to_json E r = Some j \<longrightarrow> record_from_json E j = Inr r)"

lemma uuid_to_string_eq_iff: "uuid_text_ok E \<Longrightarrow> uuid_to_string E u = uuid_to_string E v \<longleftrightarrow> u = v"
  unfolding uuid_text_ok_def by (metis option.inject)

lemma uuid_parse_to_string: "uuid_text_ok E \<Longrightarrow> uuid_parse_str E (uuid_to_string E u) = Some u"
  by (simp add: uuid_text_ok_def)

subsection \<open>Records\<close>

text \<open>What a valid record satisfies, as one condition.\<close>

definition record_ok :: "Env \<Rightarrow> WorkspaceRecord \<Rightarrow> bool" where
  "record_ok E r \<longleftrightarrow>
     wr_schema_version r = 1 \<and> wr_record_version r = 1 \<and> \<not> is_nil (wr_workspace_id r)
     \<and> valid_root_id (wr_workspace_root_id r)
     \<and> wr_workspace_leaf r =
         (case wr_display_name r of
            None \<Rightarrow> workspace_leaf E (wr_intent r) (wr_workspace_id r)
          | Some name \<Rightarrow> workspace_leaf_from_name E name (wr_workspace_id r))
     \<and> 0 \<le> wr_created_at_unix_ms r \<and> wr_created_at_unix_ms r \<le> wr_updated_at_unix_ms r
     \<and> (\<forall>name. wr_display_name r = Some name \<longrightarrow> normalize_workspace_title name = Inr name)
     \<and> (\<forall>p \<in> set (wr_repositories r). \<not> is_nil (rp_request_id p)
          \<and> rp_worktree_leaf p = repository_leaf E (rp_label p) (rp_request_id p))
     \<and> normalize (to_lowercase E) (record_request r) = Inr (record_request r)"

lemma replan_plan_request [simp]: "replan (plan_request p, p) = p"
  by (simp add: replan_def plan_request_def)

lemma map_replan_eq_iff:
  "length qs = length ps \<Longrightarrow> map replan (zip qs ps) = ps \<longleftrightarrow> qs = map plan_request ps"
proof (induction qs ps rule: list_induct2)
  case (Cons q qs p ps)
  have "replan (q, p) = p \<longleftrightarrow> q = plan_request p"
    by (cases q; cases p) (auto simp: replan_def plan_request_def)
  with Cons show ?case by simp
qed simp

lemma normalize_keeps:
  assumes "normalize lc req = Inr req'"
  shows "length (repositories req') = length (repositories req)"
    and "preferred_provider req' = preferred_provider req" and "planning req' = planning req"
  using assms by (auto simp: normalize_def normalize_repositories_Inr_iff)

lemma normalize_rename_self_iff:
  "normalize_rename \<lparr>rename_title = t\<rparr> = Inr n \<and> rename_title n = t \<longleftrightarrow>
     n = \<lparr>rename_title = t\<rparr> \<and> normalize_workspace_title t = Inr t"
  by (auto simp: normalize_rename_def)

lemma record_request_eq_iff:
  "n = record_request r \<longleftrightarrow>
     intent n = wr_intent r \<and> title n = wr_title r \<and> preferred_provider n = wr_preferred_provider r
     \<and> runtime n = wr_runtime r \<and> planning n = wr_planning r
     \<and> repositories n = map plan_request (wr_repositories r)"
  by (cases n) (auto simp: record_request_def)

lemma normalize_record_request_iff:
  "(\<exists>n. normalize lc (record_request r) = Inr n
      \<and> intent n = wr_intent r \<and> title n = wr_title r \<and> preferred_provider n = wr_preferred_provider r
      \<and> runtime n = wr_runtime r \<and> planning n = wr_planning r
      \<and> map replan (zip (repositories n) (wr_repositories r)) = wr_repositories r)
   \<longleftrightarrow> normalize lc (record_request r) = Inr (record_request r)"
proof -
  have "map replan (zip (repositories n) (wr_repositories r)) = wr_repositories r
      \<longleftrightarrow> repositories n = map plan_request (wr_repositories r)"
    if "normalize lc (record_request r) = Inr n" for n
    using normalize_keeps(1) [OF that] by (intro map_replan_eq_iff) (simp add: record_request_def)
  then show ?thesis using record_request_eq_iff by metis
qed

theorem validate_record_iff: "validate_record E r = Inr () \<longleftrightarrow> record_ok E r"
proof -
  have name: "(case wr_display_name r of
        None \<Rightarrow> Inr ()
      | Some name \<Rightarrow> rbind (map_err f (normalize_rename \<lparr>rename_title = name\<rparr>)) (\<lambda>n.
          ensure (rename_title n = name) e)) = Inr ()
      \<longleftrightarrow> (\<forall>name. wr_display_name r = Some name \<longrightarrow> normalize_workspace_title name = Inr name)"
    for f :: "WorkspaceValidationError \<Rightarrow> WorkspaceStoreError" and e
    using normalize_rename_self_iff by (fastforce split: option.splits)
  have phase: "wr_phase r = Draft" by (cases "wr_phase r")
  show ?thesis
    unfolding validate_record_def rbind_Inr_iff ensure_Inr_iff map_err_Inr_iff record_ok_def
      normalize_record_request_iff [symmetric] store_limits
    using phase by (auto simp: name)
qed


subsubsection \<open>Leaf names\<close>

lemma workspace_leaf_from_name_chars:
  assumes "uuid_text_ok E"
  shows "\<forall>c \<in> set (workspace_leaf_from_name E s w). c < 128"
proof -
  have "c < 128" if "c \<in> set (lit ''workspace'')" for c
    using that by (auto simp: lit_def)
  moreover have "c < 128" if "c \<in> set (take n (slug s))" for c n
    using that slug_ascii in_set_takeD by fast
  ultimately show ?thesis
    using assms by (auto simp: workspace_leaf_from_name_def Let_def uuid_text_ok_def)
qed

lemma workspace_leaf_chars:
  "uuid_text_ok E \<Longrightarrow> \<forall>c \<in> set (workspace_leaf E it w). c < 128"
  by (simp add: workspace_leaf_def workspace_leaf_from_name_chars)

lemma record_ok_leaf_chars:
  "uuid_text_ok E \<Longrightarrow> record_ok E r \<Longrightarrow> \<forall>c \<in> set (wr_workspace_leaf r). c < 128"
  using workspace_leaf_from_name_chars workspace_leaf_chars
  by (fastforce simp: record_ok_def split: option.splits)

end
