(* ===== verification/Store_Board.thy ===== *)
theory Store_Board
  imports Store_Records
begin

text \<open>
  The workflow board of \<open>crates/wts-store/src/sqlite.rs\<close>: reading a workspace's workflow state,
  reading and renumbering a lane, and the three operations that move a workspace or change how
  it is placed. Every accepted change raises the workflow revision by one and appends an event.
\<close>

subsection \<open>Codecs\<close>

definition workflow_state_storage :: "WorkspaceWorkflowState \<Rightarrow> str" where
  "workflow_state_storage s =
     (case s of
        Ready \<Rightarrow> lit ''ready'' | Active \<Rightarrow> lit ''active'' | Review \<Rightarrow> lit ''review''
      | Parked \<Rightarrow> lit ''parked'')"

definition workflow_state_from_storage :: "str \<Rightarrow> WorkspaceStoreError + WorkspaceWorkflowState" where
  "workflow_state_from_storage s =
     (if s = lit ''ready'' then Inr Ready
      else if s = lit ''active'' then Inr Active
      else if s = lit ''review'' then Inr Review
      else if s = lit ''parked'' then Inr Parked
      else Inl (corrupt ''workspace workflow state is invalid''))"

definition board_placement_mode_storage :: "WorkspaceBoardPlacementMode \<Rightarrow> str" where
  "board_placement_mode_storage m = (case m of Automatic \<Rightarrow> lit ''automatic'' | Pinned \<Rightarrow> lit ''pinned'')"

definition board_placement_mode_from_storage :: "str \<Rightarrow> WorkspaceStoreError + WorkspaceBoardPlacementMode" where
  "board_placement_mode_from_storage s =
     (if s = lit ''automatic'' then Inr Automatic
      else if s = lit ''pinned'' then Inr Pinned
      else Inl (corrupt ''workspace board placement mode is invalid''))"

subsection \<open>Reading the board\<close>

definition load_workflow :: "Env \<Rightarrow> Db \<Rightarrow> uuid \<Rightarrow> WorkspaceStoreError + WorkspaceWorkflowSummary" where
  "load_workflow E db w =
     (let raw = (case (find (\<lambda>r. wp_workspace_id r = uuid_to_string E w) (workflow_projection db),
                       find (\<lambda>r. bp_workspace_id r = uuid_to_string E w) (board_placement db)) of
                   (Some wrow, Some prow) \<Rightarrow> Some (wrow, prow)
                 | _ \<Rightarrow> None) in
      rbind (ok_or raw (corrupt ''workspace workflow projection is missing'')) (\<lambda>(wrow, prow).
      rbind (ok_or (u64_try_from (wp_revision wrow)) (corrupt ''workspace workflow revision is invalid'')) (\<lambda>revision.
      rbind (ok_or (u64_try_from (bp_rank prow)) (corrupt ''workspace board rank is invalid'')) (\<lambda>rank.
      rbind (ensure (\<not> (revision = 0 \<or> wp_updated_at wrow < 0))
        (corrupt ''workspace workflow projection is invalid'')) (\<lambda>_.
      rbind (workflow_state_from_storage (wp_state wrow)) (\<lambda>state.
      rbind (board_placement_mode_from_storage (bp_mode prow)) (\<lambda>mode.
      Inr \<lparr>wf_state = state, wf_revision = revision, wf_updated_at_unix_ms = wp_updated_at wrow,
           wf_placement = \<lparr>placement_mode = mode, placement_rank = rank\<rparr>\<rparr>)))))))"

text \<open>The join of the two board tables, and the rows of a lane in board order.\<close>

definition board_rows :: "Db \<Rightarrow> (WorkflowRow \<times> PlacementRow) list" where
  "board_rows db =
     [(wrow, prow). wrow \<leftarrow> workflow_projection db, prow \<leftarrow> board_placement db, bp_workspace_id prow = wp_workspace_id wrow]"

definition lane_rows :: "Db \<Rightarrow> str \<Rightarrow> str \<Rightarrow> (WorkflowRow \<times> PlacementRow) list" where
  "lane_rows db state excluded =
     sort_key (\<lambda>(wrow, prow). (bp_rank prow, wp_workspace_id wrow))
       (filter (\<lambda>(wrow, prow). wp_state wrow = state \<and> wp_workspace_id wrow \<noteq> excluded
                  \<and> \<not> tombstoned db (wp_workspace_id wrow)) (board_rows db))"

definition load_lane_workspace_ids ::
    "Env \<Rightarrow> Db \<Rightarrow> WorkspaceWorkflowState \<Rightarrow> uuid option \<Rightarrow> WorkspaceStoreError + uuid list" where
  "load_lane_workspace_ids E db state excluded =
     traverse (\<lambda>(wrow, prow). ok_or (uuid_parse_str E (wp_workspace_id wrow))
         (corrupt ''workspace board placement contains an invalid workspace identifier''))
       (lane_rows db (workflow_state_storage state)
          (case excluded of None \<Rightarrow> [] | Some w \<Rightarrow> uuid_to_string E w))"

subsection \<open>Writing the board\<close>

fun apply_lane_order_from ::
    "Env \<Rightarrow> nat \<Rightarrow> uuid list \<Rightarrow> int \<Rightarrow> Db \<Rightarrow> WorkspaceStoreError + Db" where
  "apply_lane_order_from E i [] t db = Inr db"
| "apply_lane_order_from E i (w # ws) t db =
     rbind (ok_or (i64_try_from i) (corrupt ''workspace board rank overflowed'')) (\<lambda>rank.
     rbind (update_rows placement_check (\<lambda>r. bp_workspace_id r = uuid_to_string E w)
              (\<lambda>r. r\<lparr>bp_rank := rank, bp_updated_at := t\<rparr>) (board_placement db)) (\<lambda>(changed, rows).
     rbind (ensure (changed = 1) (corrupt ''workspace board placement projection is missing'')) (\<lambda>_.
     apply_lane_order_from E (Suc i) ws t (db\<lparr>board_placement := rows\<rparr>))))"

definition apply_lane_order :: "Env \<Rightarrow> uuid list \<Rightarrow> int \<Rightarrow> Db \<Rightarrow> WorkspaceStoreError + Db" where
  "apply_lane_order E ws t db = apply_lane_order_from E 0 ws t db"

text \<open>
  \<open>persist_workflow_change\<close> in its three steps: the workflow event (only when the state
  changes), the board event, and the two projection rows. It draws one UUID for each event.
\<close>

definition append_workflow_event ::
    "Env \<Rightarrow> uuid \<Rightarrow> uuid \<Rightarrow> WorkspaceWorkflowSummary \<Rightarrow> WorkspaceWorkflowState \<Rightarrow> nat \<Rightarrow> int \<Rightarrow> int \<Rightarrow> Db
     \<Rightarrow> WorkspaceStoreError + Db" where
  "append_workflow_event E event_id w current target_state revision revision_i64 t db =
     rbind (ok_or (event_to_json E (WorkspaceWorkflowEvent 1 event_id WORKFLOW_EVENT_TYPE w
              (wf_state current) target_state revision t)) Serialization) (\<lambda>json.
     insert_workflow_event
       \<lparr>we_event_id = uuid_to_string E event_id, we_workspace_id = uuid_to_string E w,
        we_event_type = WORKFLOW_EVENT_TYPE,
        we_from_state = workflow_state_storage (wf_state current),
        we_to_state = workflow_state_storage target_state,
        we_revision = revision_i64, we_event_json = json, we_created_at = t\<rparr> db)"

definition append_board_event ::
    "Env \<Rightarrow> uuid \<Rightarrow> uuid \<Rightarrow> str \<Rightarrow> WorkspaceWorkflowSummary \<Rightarrow> WorkspaceWorkflowState
     \<Rightarrow> WorkspaceBoardPlacementMode \<Rightarrow> nat \<Rightarrow> int \<Rightarrow> nat \<Rightarrow> int \<Rightarrow> int \<Rightarrow> Db \<Rightarrow> WorkspaceStoreError + Db" where
  "append_board_event E event_id w event_type current target_state target_mode target_rank
       target_rank_i64 revision revision_i64 t db =
     (let current_mode = placement_mode (wf_placement current);
          current_rank = placement_rank (wf_placement current) in
      rbind (ok_or (event_to_json E (WorkspaceBoardPlacementEvent 1 event_id event_type w
               (wf_state current) target_state current_mode target_mode current_rank target_rank
               revision t)) Serialization) (\<lambda>json.
      rbind (ok_or (i64_try_from current_rank)
        (corrupt ''workspace board rank exceeds SQLite range'')) (\<lambda>current_rank_i64.
      insert_board_event
        \<lparr>be_event_id = uuid_to_string E event_id, be_workspace_id = uuid_to_string E w,
         be_event_type = event_type,
         be_from_state = workflow_state_storage (wf_state current),
         be_to_state = workflow_state_storage target_state,
         be_from_mode = board_placement_mode_storage current_mode,
         be_to_mode = board_placement_mode_storage target_mode,
         be_from_rank = current_rank_i64, be_to_rank = target_rank_i64,
         be_revision = revision_i64, be_event_json = json, be_created_at = t\<rparr> db)))"

definition update_board_rows ::
    "str \<Rightarrow> int \<Rightarrow> str \<Rightarrow> int \<Rightarrow> str \<Rightarrow> int \<Rightarrow> int \<Rightarrow> Db \<Rightarrow> WorkspaceStoreError + Db" where
  "update_board_rows w expected state revision mode rank t db =
     rbind (update_rows workflow_check (\<lambda>r. wp_workspace_id r = w \<and> wp_revision r = expected)
              (\<lambda>r. r\<lparr>wp_state := state, wp_revision := revision, wp_updated_at := t\<rparr>)
              (workflow_projection db)) (\<lambda>(changed, workflow_rows).
     rbind (ensure (changed = 1)
       (corrupt ''workspace workflow projection changed during its transaction'')) (\<lambda>_.
     rbind (update_rows placement_check (\<lambda>r. bp_workspace_id r = w)
              (\<lambda>r. r\<lparr>bp_mode := mode, bp_rank := rank, bp_updated_at := t\<rparr>)
              (board_placement db)) (\<lambda>(changed, placement_rows).
     rbind (ensure (changed = 1) (corrupt ''workspace board placement projection is missing'')) (\<lambda>_.
     Inr (db\<lparr>workflow_projection := workflow_rows, board_placement := placement_rows\<rparr>)))))"

definition persist_workflow_change ::
    "Env \<Rightarrow> Ambient \<Rightarrow> uuid \<Rightarrow> WorkspaceWorkflowSummary \<Rightarrow> WorkspaceWorkflowState
     \<Rightarrow> WorkspaceBoardPlacementMode \<Rightarrow> nat \<Rightarrow> str \<Rightarrow> int \<Rightarrow> Db
     \<Rightarrow> WorkspaceStoreError + (WorkspaceWorkflowSummary \<times> Db)" where
  "persist_workflow_change E A w current target_state target_mode target_rank board_event_type t db =
     rbind (ok_or (u64_checked_add (wf_revision current) 1)
       (corrupt ''workspace workflow revision overflowed'')) (\<lambda>revision.
     rbind (ok_or (i64_try_from revision)
       (corrupt ''workspace workflow revision exceeds SQLite integer range'')) (\<lambda>revision_i64.
     rbind (ok_or (i64_try_from target_rank)
       (corrupt ''workspace board rank exceeds SQLite range'')) (\<lambda>target_rank_i64.
     rbind (if wf_state current \<noteq> target_state
            then append_workflow_event E (draw A 0) w current target_state revision revision_i64 t db
            else Inr db) (\<lambda>db.
     rbind (append_board_event E (draw A (if wf_state current \<noteq> target_state then 1 else 0)) w
              board_event_type current target_state target_mode target_rank target_rank_i64
              revision revision_i64 t db) (\<lambda>db.
     rbind (ok_or (i64_try_from (wf_revision current))
       (corrupt ''workspace workflow revision exceeds SQLite integer range'')) (\<lambda>expected_i64.
     rbind (update_board_rows (uuid_to_string E w) expected_i64
              (workflow_state_storage target_state) revision_i64
              (board_placement_mode_storage target_mode) target_rank_i64 t db) (\<lambda>db.
     Inr (\<lparr>wf_state = target_state, wf_revision = revision, wf_updated_at_unix_ms = t,
           wf_placement = \<lparr>placement_mode = target_mode, placement_rank = target_rank\<rparr>\<rparr>, db))))))))"

subsection \<open>Operations\<close>

text \<open>The check with which every board operation starts.\<close>

definition begin_board_change ::
    "Env \<Rightarrow> uuid \<Rightarrow> nat \<Rightarrow> Db \<Rightarrow> WorkspaceStoreError + WorkspaceWorkflowSummary" where
  "begin_board_change E w expected db =
     rbind (load_projection E db (uuid_to_string E w)) (\<lambda>found.
     rbind (ensure (found \<noteq> None) (WorkspaceNotFound w)) (\<lambda>_.
     rbind (load_workflow E db w) (\<lambda>current.
     rbind (ensure (expected = wf_revision current)
       (WorkspaceWorkflowConflict expected (wf_revision current))) (\<lambda>_.
     Inr current))))"

definition transition_workflow ::
    "Env \<Rightarrow> Ambient \<Rightarrow> uuid \<Rightarrow> TransitionWorkspaceWorkflowRequest \<Rightarrow> Db
     \<Rightarrow> (WorkspaceStoreError + WorkspaceWorkflowSummary) \<times> Db" where
  "transition_workflow E A w req db = transact db (
     rbind (begin_board_change E w (tw_expected_revision req) db) (\<lambda>current.
     if placement_mode (wf_placement current) = Pinned \<or> tw_state req = wf_state current
     then Inr (current, db)
     else
       rbind (unix_time_ms A) (\<lambda>t.
       rbind (if wf_state current \<noteq> tw_state req
              then rbind (load_lane_workspace_ids E db (wf_state current) (Some w)) (\<lambda>source.
                   apply_lane_order E source t db)
              else Inr db) (\<lambda>db1.
       rbind (load_lane_workspace_ids E db1 (tw_state req) (Some w)) (\<lambda>others.
       let target = others @ [w] in
       rbind (apply_lane_order E target t db1) (\<lambda>db2.
       persist_workflow_change E A w current (tw_state req) Automatic (length target - 1)
         BOARD_AUTO_TRANSITIONED_EVENT_TYPE t db2))))))"

text \<open>\<open>Iterator::position\<close> and \<open>Vec::insert\<close>.\<close>

fun position :: "('a \<Rightarrow> bool) \<Rightarrow> 'a list \<Rightarrow> nat option" where
  "position p [] = None"
| "position p (x # xs) = (if p x then Some 0 else map_option Suc (position p xs))"

definition vec_insert :: "nat \<Rightarrow> 'a \<Rightarrow> 'a list \<Rightarrow> 'a list" where
  "vec_insert i x xs = take i xs @ x # drop i xs"

definition place_workspace_on_board ::
    "Env \<Rightarrow> Ambient \<Rightarrow> uuid \<Rightarrow> PlaceWorkspaceOnBoardRequest \<Rightarrow> Db
     \<Rightarrow> (WorkspaceStoreError + WorkspaceWorkflowSummary) \<times> Db" where
  "place_workspace_on_board E A w req db =
     (let anchor = (case before_workspace_id req of Some b \<Rightarrow> Some b | None \<Rightarrow> after_workspace_id req) in
      transact db (
        rbind (ensure (\<not> (before_workspace_id req \<noteq> None \<and> after_workspace_id req \<noteq> None))
          InvalidWorkspaceBoardPlacement) (\<lambda>_.
        rbind (ensure (\<not> (case anchor of None \<Rightarrow> False | Some a \<Rightarrow> is_nil a \<or> a = w))
          InvalidWorkspaceBoardPlacement) (\<lambda>_.
        rbind (begin_board_change E w (pw_expected_revision req) db) (\<lambda>current.
        rbind (load_lane_workspace_ids E db (pw_state req) (Some w)) (\<lambda>others.
        rbind (case anchor of
                 Some a \<Rightarrow>
                   rbind (ok_or (position (\<lambda>c. c = a) others) InvalidWorkspaceBoardPlacement) (\<lambda>index.
                   Inr (if after_workspace_id req \<noteq> None then index + 1 else index))
               | None \<Rightarrow> Inr (length others)) (\<lambda>insertion_index.
        let target = vec_insert insertion_index w others in
        rbind (unix_time_ms A) (\<lambda>t.
        rbind (if wf_state current \<noteq> pw_state req
               then rbind (load_lane_workspace_ids E db (wf_state current) (Some w)) (\<lambda>source.
                    apply_lane_order E source t db)
               else Inr db) (\<lambda>db1.
        rbind (apply_lane_order E target t db1) (\<lambda>db2.
        persist_workflow_change E A w current (pw_state req) Pinned insertion_index
          BOARD_PLACED_EVENT_TYPE t db2))))))))))"

definition follow_workspace_agent ::
    "Env \<Rightarrow> Ambient \<Rightarrow> uuid \<Rightarrow> FollowWorkspaceAgentRequest \<Rightarrow> Db
     \<Rightarrow> (WorkspaceStoreError + WorkspaceWorkflowSummary) \<times> Db" where
  "follow_workspace_agent E A w req db = transact db (
     rbind (begin_board_change E w (fw_expected_revision req) db) (\<lambda>current.
     if placement_mode (wf_placement current) = Automatic
     then Inr (current, db)
     else
       rbind (unix_time_ms A) (\<lambda>t.
       persist_workflow_change E A w current (wf_state current) Automatic
         (placement_rank (wf_placement current)) BOARD_FOLLOW_AGENT_EVENT_TYPE t db)))"

subsection \<open>The codecs of the two enumerated columns\<close>

interpretation workflow_codec: storage_codec workflow_state_storage workflow_state_from_storage
proof unfold_locales
  fix s show "workflow_state_from_storage (workflow_state_storage s) = Inr s"
    by (cases s) (simp_all add: workflow_state_storage_def workflow_state_from_storage_def lit_def)
qed

interpretation mode_codec: storage_codec board_placement_mode_storage board_placement_mode_from_storage
proof unfold_locales
  fix m show "board_placement_mode_from_storage (board_placement_mode_storage m) = Inr m"
    by (cases m) (simp_all add: board_placement_mode_storage_def board_placement_mode_from_storage_def lit_def)
qed

lemma workflow_state_names_iff: "s \<in> set workflow_state_names \<longleftrightarrow> (\<exists>x. s = workflow_state_storage x)"
proof -
  have "(\<exists>x. s = workflow_state_storage x) \<longleftrightarrow>
      s = workflow_state_storage Ready \<or> s = workflow_state_storage Active
      \<or> s = workflow_state_storage Review \<or> s = workflow_state_storage Parked"
    by (metis WorkspaceWorkflowState.exhaust)
  then show ?thesis by (simp add: workflow_state_storage_def)
qed

lemma placement_mode_names_iff: "s \<in> set placement_mode_names \<longleftrightarrow> (\<exists>x. s = board_placement_mode_storage x)"
proof -
  have "(\<exists>x. s = board_placement_mode_storage x) \<longleftrightarrow>
      s = board_placement_mode_storage Automatic \<or> s = board_placement_mode_storage Pinned"
    by (metis WorkspaceBoardPlacementMode.exhaust)
  then show ?thesis by (simp add: board_placement_mode_storage_def)
qed

end
