(* ===== verification/Store_Links.thy ===== *)
theory Store_Links
  imports Store_Records
begin

text \<open>
  Work-item links of \<open>crates/wts-store/src/sqlite.rs\<close>: validation of snapshots and links, the
  primary link that a Jira intent creates, and confirming, replaying, listing and removing a
  link.
\<close>

subsection \<open>Validation\<close>

definition valid_jira_issue_key :: "str \<Rightarrow> bool" where
  "valid_jira_issue_key value =
     (case rsplit_once (chr CHR ''-'') value of
        None \<Rightarrow> False
      | Some (project, number) \<Rightarrow>
          project \<noteq> [] \<and> str_len project \<le> 32 \<and> number \<noteq> [] \<and> str_len number \<le> 16
          \<and> (\<forall>c \<in> set project. is_ascii_uppercase c \<or> is_ascii_digit c \<or> c = chr CHR ''_'')
          \<and> (\<forall>c \<in> set number. is_ascii_digit c))"

definition valid_bounded_optional_text :: "str option \<Rightarrow> nat \<Rightarrow> bool" where
  "valid_bounded_optional_text value max_bytes =
     (case value of
        None \<Rightarrow> True
      | Some v \<Rightarrow> v \<noteq> [] \<and> v = trim v \<and> str_len v \<le> max_bytes \<and> 0 \<notin> set v
          \<and> \<not> (\<exists>c \<in> set v. is_control c))"

definition valid_work_item_browser_url :: "str option \<Rightarrow> bool" where
  "valid_work_item_browser_url value =
     (case value of
        None \<Rightarrow> True
      | Some v \<Rightarrow>
          (case strip_prefix (lit ''https://'') v of
             None \<Rightarrow> False
           | Some authority_and_path \<Rightarrow>
               let authority = hd (split_on (chr CHR ''/'') authority_and_path) in
               authority \<noteq> [] \<and> chr CHR ''.'' \<in> set authority
               \<and> str_len v \<le> MAX_WORK_ITEM_BROWSER_URL_BYTES
               \<and> \<not> (\<exists>c \<in> set v. is_control c \<or> is_whitespace c)
               \<and> chr CHR ''@'' \<notin> set authority
               \<and> \<not> (\<exists>c \<in> set v. c = chr CHR ''?'' \<or> c = chr CHR ''#'')))"

definition validate_sha256_digest :: "str \<Rightarrow> unit + unit" where
  "validate_sha256_digest value =
     (case strip_prefix (lit ''sha256:'') value of
        None \<Rightarrow> Inl ()
      | Some hex \<Rightarrow> ensure (\<not> (str_len hex \<noteq> 64 \<or> \<not> (\<forall>c \<in> set hex. is_lower_hex c))) ())"

definition validate_work_item_snapshot :: "StoredWorkItemSnapshot \<Rightarrow> WorkspaceStoreError + unit" where
  "validate_work_item_snapshot s =
     ensure (\<not> (\<not> valid_jira_issue_key (sn_issue_key s)
         \<or> str_len (sn_issue_key s) > MAX_WORK_ITEM_ISSUE_KEY_BYTES
         \<or> sn_fetched_at_unix_ms s < 0
         \<or> str_len (sn_content s) > MAX_WORK_ITEM_CONTENT_BYTES
         \<or> 0 \<in> set (sn_content s)
         \<or> (\<exists>c \<in> set (sn_content s). is_control c \<and> c \<notin> {10, 13, 9})
         \<or> \<not> valid_bounded_optional_text (sn_summary s) MAX_WORK_ITEM_SUMMARY_BYTES
         \<or> \<not> valid_bounded_optional_text (sn_status s) MAX_WORK_ITEM_STATUS_BYTES
         \<or> \<not> valid_work_item_browser_url (sn_browser_url s)))
       InvalidWorkItemLink"

definition validate_work_item_link :: "StoredWorkspaceWorkItemLink \<Rightarrow> WorkspaceStoreError + unit" where
  "validate_work_item_link l =
     rbind (validate_work_item_snapshot (sl_snapshot l)) (\<lambda>_.
     ensure (\<not> (is_nil (sl_link_id l) \<or> is_nil (sl_workspace_id l) \<or> sl_revision l = 0
         \<or> sl_created_at_unix_ms l < 0 \<or> sl_updated_at_unix_ms l < sl_created_at_unix_ms l))
       InvalidWorkItemLink)"

definition work_item_provider_storage :: "StoredWorkItemProvider \<Rightarrow> str" where
  "work_item_provider_storage p = (case p of JiraProvider \<Rightarrow> lit ''jira'')"

definition work_item_provider_from_storage :: "str \<Rightarrow> WorkspaceStoreError + StoredWorkItemProvider" where
  "work_item_provider_from_storage s =
     (if s = lit ''jira'' then Inr JiraProvider
      else Inl (corrupt ''workspace work-item provider is invalid''))"

definition work_item_role_storage :: "StoredWorkItemRole \<Rightarrow> str" where
  "work_item_role_storage r =
     (case r of
        Primary \<Rightarrow> lit ''primary'' | Related \<Rightarrow> lit ''related''
      | CreatedFromWorkspace \<Rightarrow> lit ''created_from_workspace'')"

definition work_item_role_from_storage :: "str \<Rightarrow> WorkspaceStoreError + StoredWorkItemRole" where
  "work_item_role_from_storage s =
     (if s = lit ''primary'' then Inr Primary
      else if s = lit ''related'' then Inr Related
      else if s = lit ''created_from_workspace'' then Inr CreatedFromWorkspace
      else Inl (corrupt ''workspace work-item role is invalid''))"

subsection \<open>Reading links\<close>

text \<open>The SQL \<open>CASE role\<close> expression that orders the links of a workspace.\<close>

definition role_order :: "str \<Rightarrow> int" where
  "role_order r =
     (if r = lit ''primary'' then 0 else if r = lit ''created_from_workspace'' then 1 else 2)"

definition decode_link :: "Env \<Rightarrow> uuid \<Rightarrow> LinkRow \<Rightarrow> WorkspaceStoreError + StoredWorkspaceWorkItemLink" where
  "decode_link E w r =
     rbind (ok_or (uuid_parse_str E (ln_link_id r))
       (corrupt ''workspace work-item link identifier is invalid'')) (\<lambda>link_id.
     rbind (work_item_provider_from_storage (ln_provider r)) (\<lambda>provider.
     rbind (work_item_role_from_storage (ln_role r)) (\<lambda>role.
     rbind (ok_or (u64_try_from (ln_revision r))
       (corrupt ''workspace work-item link revision is invalid'')) (\<lambda>revision.
     let link = \<lparr>sl_link_id = link_id, sl_workspace_id = w, sl_provider = provider, sl_role = role,
           sl_snapshot = \<lparr>sn_issue_key = ln_issue_key r, sn_summary = ln_summary r,
              sn_status = ln_status r, sn_content = ln_content r, sn_browser_url = ln_browser_url r,
              sn_fetched_at_unix_ms = ln_fetched_at r\<rparr>,
           sl_revision = revision, sl_created_at_unix_ms = ln_created_at r,
           sl_updated_at_unix_ms = ln_updated_at r\<rparr> in
     rbind (map_err (\<lambda>_. corrupt ''workspace work-item link projection is invalid'')
              (validate_work_item_link link)) (\<lambda>_.
     Inr link)))))"

definition load_work_item_links ::
    "Env \<Rightarrow> Db \<Rightarrow> uuid \<Rightarrow> WorkspaceStoreError + StoredWorkspaceWorkItemLink list" where
  "load_work_item_links E db w =
     traverse (decode_link E w)
       (sort_key (\<lambda>r. (role_order (ln_role r), ln_created_at r, ln_link_id r))
          (filter (\<lambda>r. ln_workspace_id r = uuid_to_string E w) (links db)))"

definition load_work_item_link ::
    "Env \<Rightarrow> Db \<Rightarrow> uuid \<Rightarrow> uuid \<Rightarrow> WorkspaceStoreError + StoredWorkspaceWorkItemLink option" where
  "load_work_item_link E db w link_id =
     rbind (load_work_item_links E db w) (\<lambda>ls. Inr (find (\<lambda>l. sl_link_id l = link_id) ls))"

definition load_work_item_link_by_issue ::
    "Env \<Rightarrow> Db \<Rightarrow> uuid \<Rightarrow> StoredWorkItemProvider \<Rightarrow> str
     \<Rightarrow> WorkspaceStoreError + StoredWorkspaceWorkItemLink option" where
  "load_work_item_link_by_issue E db w provider key =
     rbind (load_work_item_links E db w) (\<lambda>ls.
     Inr (find (\<lambda>l. sl_provider l = provider \<and> sn_issue_key (sl_snapshot l) = key) ls))"

subsection \<open>Writing links\<close>

text \<open>The row and the event of a new link, shared by both inserts of the source.\<close>

definition link_row :: "Env \<Rightarrow> StoredWorkspaceWorkItemLink \<Rightarrow> LinkRow" where
  "link_row E l =
     \<lparr>ln_link_id = uuid_to_string E (sl_link_id l), ln_workspace_id = uuid_to_string E (sl_workspace_id l),
      ln_provider = work_item_provider_storage (sl_provider l),
      ln_issue_key = sn_issue_key (sl_snapshot l), ln_role = work_item_role_storage (sl_role l),
      ln_summary = sn_summary (sl_snapshot l), ln_status = sn_status (sl_snapshot l),
      ln_content = sn_content (sl_snapshot l), ln_browser_url = sn_browser_url (sl_snapshot l),
      ln_fetched_at = sn_fetched_at_unix_ms (sl_snapshot l), ln_revision = 1,
      ln_created_at = sl_created_at_unix_ms l, ln_updated_at = sl_created_at_unix_ms l\<rparr>"

definition insert_linked_event ::
    "Env \<Rightarrow> uuid \<Rightarrow> StoredWorkspaceWorkItemLink \<Rightarrow> Db \<Rightarrow> WorkspaceStoreError + Db" where
  "insert_linked_event E event_id l db =
     rbind (ok_or (event_to_json E (WorkspaceWorkItemLinkedEvent 1 event_id WORK_ITEM_LINKED_EVENT_TYPE l))
       Serialization) (\<lambda>json.
     insert_link_event
       \<lparr>le_event_id = uuid_to_string E event_id, le_workspace_id = uuid_to_string E (sl_workspace_id l),
        le_link_id = uuid_to_string E (sl_link_id l), le_event_type = WORK_ITEM_LINKED_EVENT_TYPE,
        le_revision = 1, le_event_json = json, le_created_at = sl_created_at_unix_ms l\<rparr> db)"

text \<open>\<open>link_id\<close> and \<open>event_id\<close> are the two UUIDs the function draws.\<close>

definition persist_jira_intent_work_item_link ::
    "Env \<Rightarrow> uuid \<Rightarrow> uuid \<Rightarrow> WorkspaceRecord \<Rightarrow> Db \<Rightarrow> WorkspaceStoreError + Db" where
  "persist_jira_intent_work_item_link E link_id event_id rec db =
     (case wr_intent rec of
        Jira key \<Rightarrow>
          let link = \<lparr>sl_link_id = link_id, sl_workspace_id = wr_workspace_id rec,
                sl_provider = JiraProvider, sl_role = Primary,
                sl_snapshot = \<lparr>sn_issue_key = key, sn_summary = None, sn_status = None,
                  sn_content = [], sn_browser_url = None, sn_fetched_at_unix_ms = 0\<rparr>,
                sl_revision = 1, sl_created_at_unix_ms = wr_created_at_unix_ms rec,
                sl_updated_at_unix_ms = wr_created_at_unix_ms rec\<rparr> in
          rbind (validate_work_item_link link) (\<lambda>_.
          rbind (insert_link (link_row E link) db) (\<lambda>db.
          insert_linked_event E event_id link db))
      | _ \<Rightarrow> Inr db)"

text \<open>
  The lookup of an earlier confirmation under the same idempotency key, which
  \<open>confirm_work_item_link\<close> and \<open>confirmed_work_item_link_replay\<close> share.
\<close>

definition find_confirmation ::
    "Env \<Rightarrow> uuid \<Rightarrow> uuid \<Rightarrow> str \<Rightarrow> Db \<Rightarrow> WorkspaceStoreError + StoredWorkspaceWorkItemLink option" where
  "find_confirmation E w key digest db =
     (case find (\<lambda>r. cf_idempotency_key r = uuid_to_string E key) (link_confirmations db) of
        None \<Rightarrow> Inr None
      | Some r \<Rightarrow>
          rbind (ensure (\<not> (cf_workspace_id r \<noteq> uuid_to_string E w \<or> cf_preview_digest r \<noteq> digest))
            (WorkItemLinkIdempotencyConflict key)) (\<lambda>_.
          rbind (map_err CorruptRecord (link_from_json E (cf_result_json r))) (\<lambda>link.
          rbind (validate_work_item_link link) (\<lambda>_.
          Inr (Some link)))))"

definition confirm_work_item_link ::
    "Env \<Rightarrow> Ambient \<Rightarrow> uuid \<Rightarrow> str \<Rightarrow> str \<Rightarrow> StoredWorkItemProvider \<Rightarrow> StoredWorkItemRole
     \<Rightarrow> StoredWorkItemSnapshot \<Rightarrow> Db \<Rightarrow> (WorkspaceStoreError + ConfirmStoredWorkItemLinkResult) \<times> Db" where
  "confirm_work_item_link E A w raw_key digest provider role snapshot db = transact db (
     rbind (parse_idempotency_key E raw_key) (\<lambda>key.
     rbind (map_err (\<lambda>_. StaleWorkItemLinkPreview) (validate_sha256_digest digest)) (\<lambda>_.
     rbind (validate_work_item_snapshot snapshot) (\<lambda>_.
     rbind (load_projection E db (uuid_to_string E w)) (\<lambda>found.
     rbind (ensure (found \<noteq> None) (WorkspaceNotFound w)) (\<lambda>_.
     rbind (find_confirmation E w key digest db) (\<lambda>earlier.
     case earlier of
       Some link \<Rightarrow> Inr (\<lparr>cl_link = link, cl_replayed = True\<rparr>, db)
     | None \<Rightarrow>
         rbind (load_work_item_link_by_issue E db w provider (sn_issue_key snapshot)) (\<lambda>same.
         rbind (ensure (same = None) WorkItemLinkAlreadyExists) (\<lambda>_.
         rbind (ensure (\<not> (role = Primary \<and> (\<exists>r \<in> set (links db).
                    ln_workspace_id r = uuid_to_string E w \<and> ln_role r = lit ''primary'')))
           PrimaryWorkItemLinkAlreadyExists) (\<lambda>_.
         rbind (unix_time_ms A) (\<lambda>t.
         let link = \<lparr>sl_link_id = draw A 0, sl_workspace_id = w, sl_provider = provider,
               sl_role = role, sl_snapshot = snapshot, sl_revision = 1,
               sl_created_at_unix_ms = t, sl_updated_at_unix_ms = t\<rparr> in
         rbind (validate_work_item_link link) (\<lambda>_.
         rbind (insert_link (link_row E link) db) (\<lambda>db.
         rbind (insert_linked_event E (draw A 1) link db) (\<lambda>db.
         rbind (ok_or (link_to_json E link) Serialization) (\<lambda>json.
         rbind (insert_confirmation
                  \<lparr>cf_idempotency_key = uuid_to_string E key, cf_workspace_id = uuid_to_string E w,
                   cf_preview_digest = digest, cf_result_json = json, cf_created_at = t\<rparr> db) (\<lambda>db.
         Inr (\<lparr>cl_link = link, cl_replayed = False\<rparr>, db)))))))))))))))))"

definition confirmed_work_item_link_replay ::
    "Env \<Rightarrow> uuid \<Rightarrow> str \<Rightarrow> str \<Rightarrow> Db \<Rightarrow> WorkspaceStoreError + ConfirmStoredWorkItemLinkResult option" where
  "confirmed_work_item_link_replay E w raw_key digest db =
     rbind (parse_idempotency_key E raw_key) (\<lambda>key.
     rbind (map_err (\<lambda>_. StaleWorkItemLinkPreview) (validate_sha256_digest digest)) (\<lambda>_.
     rbind (find_confirmation E w key digest db) (\<lambda>earlier.
     Inr (map_option (\<lambda>link. \<lparr>cl_link = link, cl_replayed = True\<rparr>) earlier))))"

definition list_work_item_links ::
    "Env \<Rightarrow> uuid \<Rightarrow> Db \<Rightarrow> WorkspaceStoreError + StoredWorkspaceWorkItemLink list" where
  "list_work_item_links E w db =
     rbind (load_projection E db (uuid_to_string E w)) (\<lambda>found.
     rbind (ensure (found \<noteq> None) (WorkspaceNotFound w)) (\<lambda>_.
     load_work_item_links E db w))"

definition unlink_work_item_link ::
    "Env \<Rightarrow> Ambient \<Rightarrow> uuid \<Rightarrow> uuid \<Rightarrow> nat \<Rightarrow> Db
     \<Rightarrow> (WorkspaceStoreError + StoredWorkItemUnlinkResult) \<times> Db" where
  "unlink_work_item_link E A w link_id expected db = transact db (
     rbind (ensure (expected \<noteq> 0) InvalidWorkItemLink) (\<lambda>_.
     rbind (load_projection E db (uuid_to_string E w)) (\<lambda>found.
     rbind (ensure (found \<noteq> None) (WorkspaceNotFound w)) (\<lambda>_.
     rbind (load_work_item_link E db w link_id) (\<lambda>maybe.
     rbind (ok_or maybe (WorkItemLinkNotFound link_id)) (\<lambda>link.
     rbind (ensure (sl_revision link = expected)
       (WorkItemLinkConflict expected (sl_revision link))) (\<lambda>_.
     rbind (ok_or (i64_try_from expected) InvalidWorkItemLink) (\<lambda>expected_i64.
     let gone = (\<lambda>r. ln_workspace_id r = uuid_to_string E w \<and> ln_link_id r = uuid_to_string E link_id
                   \<and> ln_revision r = expected_i64) in
     rbind (ensure (length (filter gone (links db)) = 1)
       (WorkItemLinkConflict expected (sl_revision link))) (\<lambda>_.
     let db = db\<lparr>links := filter (\<lambda>r. \<not> gone r) (links db)\<rparr> in
     rbind (unix_time_ms A) (\<lambda>t.
     rbind (ok_or (event_to_json E (WorkspaceWorkItemUnlinkedEvent 1 (draw A 0)
              WORK_ITEM_UNLINKED_EVENT_TYPE w link_id (sl_revision link)
              (sn_issue_key (sl_snapshot link)) t)) Serialization) (\<lambda>json.
     rbind (ok_or (i64_try_from (sl_revision link)) InvalidWorkItemLink) (\<lambda>revision_i64.
     rbind (insert_link_event
              \<lparr>le_event_id = uuid_to_string E (draw A 0), le_workspace_id = uuid_to_string E w,
               le_link_id = uuid_to_string E link_id, le_event_type = WORK_ITEM_UNLINKED_EVENT_TYPE,
               le_revision = revision_i64, le_event_json = json, le_created_at = t\<rparr> db) (\<lambda>db.
     Inr (\<lparr>ul_workspace_id = w, ul_link_id = link_id, ul_removed_revision = sl_revision link\<rparr>, db))))))))))))))"

end
