(* ===== verification/Store_Observations.thy ===== *)
theory Store_Observations
  imports Store_Records
begin

text \<open>
  Work items observed in planning files: validation, replacing the observations of a workspace,
  reading them back grouped by issue, and the query for the repositories of an issue
  (\<open>crates/wts-store/src/sqlite.rs\<close>).
\<close>

subsection \<open>Validation\<close>

definition ALLOWED_FILES :: "str list" where
  "ALLOWED_FILES = [lit ''README.md'', lit ''PLAN.md'', lit ''FINDINGS.md'', lit ''KANBAN.md'',
     lit ''PROGRAM-BACKLOG.md'']"

definition valid_observed_key :: "str \<Rightarrow> bool" where
  "valid_observed_key key =
     (case split_once (chr CHR ''-'') key of
        None \<Rightarrow> False
      | Some (project, number) \<Rightarrow>
          str_len project \<ge> 2 \<and> str_len project \<le> 16
          \<and> (case project of [] \<Rightarrow> False | c # _ \<Rightarrow> is_ascii_uppercase c)
          \<and> (\<forall>c \<in> set project. is_ascii_uppercase c \<or> is_ascii_digit c)
          \<and> 1 \<le> str_len number \<and> str_len number \<le> 10
          \<and> \<not> starts_with (lit ''0'') number
          \<and> (\<forall>c \<in> set number. is_ascii_digit c))"

definition validate_observed_work_items :: "ObservedWorkItem list \<Rightarrow> WorkspaceStoreError + unit" where
  "validate_observed_work_items items =
     rbind (ensure (length items \<le> 64)
       (corrupt ''work-item observation count exceeds the store limit'')) (\<lambda>_.
     ensure (\<forall>i \<in> set items. \<not> (\<not> valid_observed_key (ow_issue_key i)
         \<or> ow_observed_at_unix_ms i < 0 \<or> ow_source_files i = []
         \<or> length (ow_source_files i) > length ALLOWED_FILES
         \<or> (\<exists>f \<in> set (ow_source_files i). f \<notin> set ALLOWED_FILES)))
       (corrupt ''work-item observation is invalid''))"

subsection \<open>Reading\<close>

text \<open>The SQL \<open>CASE source_file\<close> expression; NULL sorts before every number.\<close>

definition source_file_order :: "str \<Rightarrow> int option" where
  "source_file_order f = map_option int (map_of (zip ALLOWED_FILES [0..<5]) f)"

definition push_observation :: "ObservedWorkItem list \<Rightarrow> ObservationRow \<Rightarrow> ObservedWorkItem list" where
  "push_observation acc r =
     (if acc \<noteq> [] \<and> ow_issue_key (last acc) = ob_issue_key r
      then butlast acc @ [(last acc)\<lparr>ow_source_files := ow_source_files (last acc) @ [ob_source_file r],
             ow_observed_at_unix_ms := max (ow_observed_at_unix_ms (last acc)) (ob_observed_at r)\<rparr>]
      else acc @ [\<lparr>ow_issue_key = ob_issue_key r, ow_source_files = [ob_source_file r],
             ow_observed_at_unix_ms = ob_observed_at r\<rparr>])"

definition load_observed_work_items :: "Env \<Rightarrow> Db \<Rightarrow> uuid \<Rightarrow> WorkspaceStoreError + ObservedWorkItem list" where
  "load_observed_work_items E db w =
     Inr (foldl push_observation []
       (sort_key (\<lambda>r. (ob_issue_key r, source_file_order (ob_source_file r)))
          (filter (\<lambda>r. ob_workspace_id r = uuid_to_string E w) (observations db))))"

subsection \<open>Operations\<close>

fun insert_observations :: "ObservationRow list \<Rightarrow> Db \<Rightarrow> WorkspaceStoreError + Db" where
  "insert_observations [] db = Inr db"
| "insert_observations (r # rs) db = rbind (insert_observation r db) (insert_observations rs)"

text \<open>The two nested loops over the observations and their source files.\<close>

definition observation_rows :: "Env \<Rightarrow> uuid \<Rightarrow> ObservedWorkItem list \<Rightarrow> ObservationRow list" where
  "observation_rows E w items =
     [\<lparr>ob_workspace_id = uuid_to_string E w, ob_issue_key = ow_issue_key i, ob_source_file = f,
       ob_observed_at = ow_observed_at_unix_ms i\<rparr>. i \<leftarrow> items, f \<leftarrow> ow_source_files i]"

definition replace_observed_work_items ::
    "Env \<Rightarrow> uuid \<Rightarrow> ObservedWorkItem list \<Rightarrow> Db
     \<Rightarrow> (WorkspaceStoreError + ObservedWorkItem list) \<times> Db" where
  "replace_observed_work_items E w items db = commit_then db (
     rbind (validate_observed_work_items items) (\<lambda>_.
     rbind (load_projection E db (uuid_to_string E w)) (\<lambda>found.
     rbind (ensure (found \<noteq> None) (WorkspaceNotFound w)) (\<lambda>_.
     rbind (insert_observations (observation_rows E w items)
              (db\<lparr>observations := filter (\<lambda>r. ob_workspace_id r \<noteq> uuid_to_string E w) (observations db)\<rparr>)) (\<lambda>db.
     Inr ((), db))))))
     (\<lambda>_ db. load_observed_work_items E db w)"

text \<open>
  \<open>json_each\<close> and \<open>json_extract\<close> on a stored record are SQLite's; \<open>record_json_repository_ids\<close>
  gives the \<open>repositoryId\<close> of every repository of the document, and fails on malformed JSON.
\<close>

definition repositories_observed_for_issue :: "Env \<Rightarrow> str \<Rightarrow> Db \<Rightarrow> WorkspaceStoreError + str list" where
  "repositories_observed_for_issue E key db =
     rbind (traverse (\<lambda>(obs, p). ok_or (record_json_repository_ids E (pr_record_json p)) Database)
       [(obs, p). obs \<leftarrow> observations db, p \<leftarrow> projection db, pr_workspace_id p = ob_workspace_id obs,
          ob_issue_key obs = key, \<not> tombstoned db (pr_workspace_id p)]) (\<lambda>ids.
     Inr (sort_dedup (List.map_filter (\<lambda>x. x) (concat ids))))"

end
