(* ===== verification/Store_Workspaces.thy ===== *)
theory Store_Workspaces
  imports Store_Board Store_Links Store_Observations
begin

text \<open>
  Workspaces as a whole in \<open>crates/wts-store/src/sqlite.rs\<close>: views, listing, creating with an
  idempotency key, renaming, adding and removing repositories, lifecycle observations and
  tombstones.
\<close>

subsection \<open>Views\<close>

definition view ::
    "Env \<Rightarrow> WorkspaceRoot \<Rightarrow> Db \<Rightarrow> WorkspaceRecord \<Rightarrow> WorkspaceLifecycleSummary
     \<Rightarrow> WorkspaceStoreError + WorkspaceView" where
  "view E root db rec l =
     rbind (ensure (wr_workspace_root_id rec = root_id root)
       (UnknownWorkspaceRoot (wr_workspace_root_id rec))) (\<lambda>_.
     rbind (validate_record E rec) (\<lambda>_.
     rbind (validate_lifecycle rec l) (\<lambda>_.
     rbind (ok_or (path_to_str (path_join (root_path root) (wr_workspace_leaf rec))) NonUtf8WorkspaceRoot) (\<lambda>display.
     rbind (load_observed_work_items E db (wr_workspace_id rec)) (\<lambda>observed.
     rbind (load_workflow E db (wr_workspace_id rec)) (\<lambda>workflow.
     Inr (WorkspaceRecord.extend rec
       (WorkspaceView.fields observed display l workflow))))))))"

definition view_of ::
    "Env \<Rightarrow> WorkspaceRoot \<Rightarrow> Db \<Rightarrow> DecodedProjection \<Rightarrow> WorkspaceStoreError + WorkspaceView" where
  "view_of E root db d = view E root db (dp_record d) (dp_lifecycle d)"

text \<open>\<open>ORDER BY updated_at_unix_ms DESC, workspace_id ASC\<close>; the index has that order too.\<close>

definition list_workspaces :: "Env \<Rightarrow> WorkspaceRoot \<Rightarrow> Db \<Rightarrow> WorkspaceStoreError + WorkspaceList" where
  "list_workspaces E root db =
     rbind (traverse (\<lambda>p.
         rbind (decode_projection E (raw_projection db p)) (view_of E root db))
       (sort_key (\<lambda>p. (- pr_updated_at p, pr_workspace_id p))
          (filter (\<lambda>p. \<not> tombstoned db (pr_workspace_id p)) (projection db)))) (\<lambda>views.
     Inr \<lparr>wl_workspace_root_id = root_id root, wl_workspace_root_display_path = root_display_path root,
          wl_workspaces = views\<rparr>)"

definition get_workspace :: "Env \<Rightarrow> WorkspaceRoot \<Rightarrow> uuid \<Rightarrow> Db \<Rightarrow> WorkspaceStoreError + WorkspaceView option" where
  "get_workspace E root w db =
     rbind (load_projection E db (uuid_to_string E w)) (map_transpose (view_of E root db))"

subsection \<open>Changing the stored record\<close>

definition update_projection :: "Env \<Rightarrow> uuid \<Rightarrow> str \<Rightarrow> int \<Rightarrow> Db \<Rightarrow> WorkspaceStoreError + Db" where
  "update_projection E w json t db =
     rbind (update_rows projection_check (\<lambda>p. pr_workspace_id p = uuid_to_string E w)
              (\<lambda>p. p\<lparr>pr_record_json := json, pr_updated_at := t\<rparr>) (projection db)) (\<lambda>(_, rows).
     Inr (db\<lparr>projection := rows\<rparr>))"

definition rename_workspace ::
    "Env \<Rightarrow> WorkspaceRoot \<Rightarrow> Ambient \<Rightarrow> uuid \<Rightarrow> RenameWorkspaceRequest \<Rightarrow> Db
     \<Rightarrow> (WorkspaceStoreError + WorkspaceView) \<times> Db" where
  "rename_workspace E root A w request db = commit_then db (
     rbind (map_err Validation (normalize_rename request)) (\<lambda>req.
     rbind (load_projection E db (uuid_to_string E w)) (\<lambda>found.
     rbind (ok_or found (WorkspaceNotFound w)) (\<lambda>d.
     rbind (unix_time_ms A) (\<lambda>t.
     let rec = (dp_record d)\<lparr>wr_workspace_leaf := workspace_leaf_from_name E (rename_title req) w,
                 wr_display_name := Some (rename_title req), wr_updated_at_unix_ms := t\<rparr> in
     rbind (validate_record E rec) (\<lambda>_.
     rbind (ok_or (record_to_json E rec) Serialization) (\<lambda>json.
     rbind (ensure (str_len json \<le> MAX_RECORD_JSON_BYTES)
       (corrupt ''serialized workspace record exceeds the store limit'')) (\<lambda>_.
     rbind (update_projection E w json t db) (\<lambda>db.
     Inr (d\<lparr>dp_record := rec\<rparr>, db))))))))))
     (\<lambda>d db. view_of E root db d)"

text \<open>
  The part \<open>add_repository\<close> and \<open>remove_repository\<close> share once they have the new list of
  repositories: stamp the record, refresh the lifecycle of a materialized workspace, validate,
  serialise and write. Only adding checks the size of the document.
\<close>

definition store_repositories ::
    "Env \<Rightarrow> Ambient \<Rightarrow> bool \<Rightarrow> uuid \<Rightarrow> DecodedProjection \<Rightarrow> WorkspaceRepositoryPlan list \<Rightarrow> Db
     \<Rightarrow> WorkspaceStoreError + (DecodedProjection \<times> Db)" where
  "store_repositories E A check_size w d plans db =
     rbind (unix_time_ms A) (\<lambda>t.
     let rec = (dp_record d)\<lparr>wr_repositories := plans, wr_updated_at_unix_ms := t\<rparr>;
         materialized = (ls_materialization_state (dp_lifecycle d) = Materialized) in
     rbind (if materialized
            then rbind (ok_or (u32_try_from (int (length plans)))
                   (corrupt ''workspace repository count exceeds the lifecycle limit'')) (\<lambda>n.
                 Inr ((dp_lifecycle d)\<lparr>ls_worktree_count := n, ls_observed_at_unix_ms := Some t\<rparr>))
            else Inr (dp_lifecycle d)) (\<lambda>l.
     rbind (validate_record E rec) (\<lambda>_.
     rbind (validate_lifecycle rec l) (\<lambda>_.
     rbind (ok_or (record_to_json E rec) Serialization) (\<lambda>json.
     rbind (ensure (check_size \<longrightarrow> str_len json \<le> MAX_RECORD_JSON_BYTES)
       (corrupt ''serialized workspace record exceeds the store limit'')) (\<lambda>_.
     rbind (update_projection E w json t db) (\<lambda>db.
     rbind (if materialized
            then rbind (update_rows lifecycle_check (\<lambda>x. lr_workspace_id x = uuid_to_string E w)
                          (\<lambda>x. x\<lparr>lr_worktree_count := int (ls_worktree_count l), lr_observed_at := t\<rparr>)
                          (lifecycle_projection db)) (\<lambda>(_, rows).
                 Inr (db\<lparr>lifecycle_projection := rows\<rparr>))
            else Inr db) (\<lambda>db.
     Inr (\<lparr>dp_record = rec, dp_lifecycle = l\<rparr>, db)))))))))"

definition plan_sort_key :: "Env \<Rightarrow> WorkspaceRepositoryPlan \<Rightarrow> str \<times> str option \<times> str" where
  "plan_sort_key E p = (to_lowercase E (rp_label p), rp_repository_id p, rp_base_ref p)"

definition new_plan :: "Env \<Rightarrow> WorkspaceRepositoryRequest \<Rightarrow> uuid \<Rightarrow> WorkspaceRepositoryPlan" where
  "new_plan E q request_id =
     \<lparr>rp_request_id = request_id, rp_repository_id = repository_id q, rp_label = label q,
      rp_base_ref = base_ref q, rp_worktree_leaf = repository_leaf E (label q) request_id\<rparr>"

definition add_repository ::
    "Env \<Rightarrow> WorkspaceRoot \<Rightarrow> Ambient \<Rightarrow> uuid \<Rightarrow> WorkspaceRepositoryRequest \<Rightarrow> Db
     \<Rightarrow> (WorkspaceStoreError + WorkspaceView) \<times> Db" where
  "add_repository E root A w q db = commit_then db (
     rbind (load_projection E db (uuid_to_string E w)) (\<lambda>found.
     rbind (ok_or found (WorkspaceNotFound w)) (\<lambda>d.
     store_repositories E A True w d
       (sort_key (plan_sort_key E) (wr_repositories (dp_record d) @ [new_plan E q (draw A 0)])) db)))
     (\<lambda>d db. view_of E root db d)"

definition remove_repository ::
    "Env \<Rightarrow> WorkspaceRoot \<Rightarrow> Ambient \<Rightarrow> uuid \<Rightarrow> str \<Rightarrow> Db
     \<Rightarrow> (WorkspaceStoreError + WorkspaceView) \<times> Db" where
  "remove_repository E root A w rid db = commit_then db (
     rbind (load_projection E db (uuid_to_string E w)) (\<lambda>found.
     rbind (ok_or found (WorkspaceNotFound w)) (\<lambda>d.
     let plans = filter (\<lambda>p. rp_repository_id p \<noteq> Some rid) (wr_repositories (dp_record d)) in
     rbind (ensure (length plans \<noteq> length (wr_repositories (dp_record d))) (WorkspaceNotFound w)) (\<lambda>_.
     store_repositories E A False w d plans db))))
     (\<lambda>d db. view_of E root db d)"

subsection \<open>Creating\<close>

text \<open>Both entry points start by canonicalising the request and hashing its JSON.\<close>

definition request_identity ::
    "Env \<Rightarrow> str \<Rightarrow> CreateWorkspaceRequest \<Rightarrow> WorkspaceStoreError + (uuid \<times> CreateWorkspaceRequest \<times> str)" where
  "request_identity E raw_key request =
     rbind (parse_idempotency_key E raw_key) (\<lambda>key.
     rbind (map_err Validation (normalize (to_lowercase E) request)) (\<lambda>req.
     rbind (ok_or (request_to_json E req) Serialization) (\<lambda>json.
     Inr (key, req, sha256_hex E json))))"

text \<open>The lookup by idempotency key: nothing, a conflict, or the workspace created before.\<close>

definition find_created ::
    "Env \<Rightarrow> uuid \<Rightarrow> str \<Rightarrow> Db \<Rightarrow> WorkspaceStoreError + DecodedProjection option" where
  "find_created E key digest db =
     (case find (\<lambda>e. ce_idempotency_key e = uuid_to_string E key) (created_events db) of
        None \<Rightarrow> Inr None
      | Some e \<Rightarrow>
          rbind (ensure (ce_request_digest e = digest) (IdempotencyConflict key)) (\<lambda>_.
          rbind (load_projection E db (ce_workspace_id e)) (\<lambda>found.
          rbind (ok_or found (corrupt ''idempotency event has no materialized workspace'')) (\<lambda>d.
          Inr (Some d)))))"

definition create_replay ::
    "Env \<Rightarrow> WorkspaceRoot \<Rightarrow> str \<Rightarrow> CreateWorkspaceRequest \<Rightarrow> Db
     \<Rightarrow> WorkspaceStoreError + CreateWorkspaceResult option" where
  "create_replay E root raw_key request db =
     rbind (request_identity E raw_key request) (\<lambda>(key, req, digest).
     rbind (find_created E key digest db) (\<lambda>found.
     map_transpose (\<lambda>d.
       rbind (view_of E root db d) (\<lambda>v. Inr \<lparr>cw_workspace = v, cw_replayed = True\<rparr>)) found))"

text \<open>
  The record a creation stores. \<open>draw A 0\<close> is the workspace identifier, the next draws are the
  repositories' request identifiers, then come the event's and, for a Jira intent, the link's
  and the link event's.
\<close>

definition new_record ::
    "Env \<Rightarrow> WorkspaceRoot \<Rightarrow> Ambient \<Rightarrow> int \<Rightarrow> CreateWorkspaceRequest \<Rightarrow> WorkspaceRecord" where
  "new_record E root A t req =
     \<lparr>wr_schema_version = WORKSPACE_RECORD_SCHEMA_VERSION, wr_workspace_id = draw A 0,
      wr_record_version = WORKSPACE_RECORD_VERSION, wr_intent = intent req, wr_title = title req,
      wr_display_name = None, wr_preferred_provider = preferred_provider req, wr_phase = Draft,
      wr_repositories = map (\<lambda>(i, q). new_plan E q (draw A (Suc i))) (enumerate 0 (repositories req)),
      wr_runtime = runtime req, wr_planning = planning req, wr_workspace_root_id = root_id root,
      wr_workspace_leaf = workspace_leaf E (intent req) (draw A 0),
      wr_created_at_unix_ms = t, wr_updated_at_unix_ms = t\<rparr>"

definition new_lifecycle :: "int \<Rightarrow> WorkspaceLifecycleSummary" where
  "new_lifecycle t =
     \<lparr>ls_materialization_state = NotMaterialized, ls_worktree_count = 0,
      ls_observed_at_unix_ms = Some t\<rparr>"

text \<open>\<open>COALESCE(MAX(lane_rank) + 1, 0)\<close> over the ready lane, tombstoned workspaces included.\<close>

definition next_ready_rank :: "Db \<Rightarrow> int" where
  "next_ready_rank db =
     (case [bp_rank prow. (wrow, prow) \<leftarrow> board_rows db, wp_state wrow = lit ''ready''] of
        [] \<Rightarrow> 0
      | r # rs \<Rightarrow> fold max rs r + 1)"

definition insert_workspace ::
    "Env \<Rightarrow> Ambient \<Rightarrow> uuid \<Rightarrow> str \<Rightarrow> WorkspaceRecord \<Rightarrow> int \<Rightarrow> Db \<Rightarrow> WorkspaceStoreError + Db" where
  "insert_workspace E A key digest rec t db =
     (let next_draw = Suc (length (wr_repositories rec)); w = uuid_to_string E (wr_workspace_id rec) in
      rbind (ok_or (record_to_json E rec) Serialization) (\<lambda>record_json.
      rbind (ensure (str_len record_json \<le> MAX_RECORD_JSON_BYTES)
        (corrupt ''serialized workspace record exceeds the store limit'')) (\<lambda>_.
      rbind (ok_or (event_to_json E (WorkspaceCreatedEvent WORKSPACE_RECORD_SCHEMA_VERSION
               (draw A next_draw) CREATE_EVENT_TYPE key digest rec)) Serialization) (\<lambda>event_json.
      rbind (ok_or (i64_try_from (wr_record_version rec))
        (corrupt ''record version exceeds SQLite integer range'')) (\<lambda>version.
      rbind (insert_created_event
               \<lparr>ce_event_id = uuid_to_string E (draw A next_draw), ce_workspace_id = w,
                ce_record_version = version, ce_event_type = CREATE_EVENT_TYPE,
                ce_event_json = event_json, ce_idempotency_key = uuid_to_string E key,
                ce_request_digest = digest, ce_created_at = t\<rparr> db) (\<lambda>db.
      rbind (insert_projection \<lparr>pr_workspace_id = w, pr_record_version = version,
               pr_record_json = record_json, pr_updated_at = t\<rparr> db) (\<lambda>db.
      rbind (insert_lifecycle \<lparr>lr_workspace_id = w, lr_record_version = version,
               lr_state = lit ''not_materialized'', lr_worktree_count = 0, lr_observed_at = t\<rparr> db) (\<lambda>db.
      rbind (insert_workflow \<lparr>wp_workspace_id = w, wp_state = lit ''ready'', wp_revision = 1,
               wp_updated_at = t\<rparr> db) (\<lambda>db.
      rbind (insert_placement \<lparr>bp_workspace_id = w, bp_mode = lit ''automatic'',
               bp_rank = next_ready_rank db, bp_updated_at = t\<rparr> db) (\<lambda>db.
      persist_jira_intent_work_item_link E (draw A (next_draw + 1)) (draw A (next_draw + 2)) rec db))))))))))"

definition create_workspace ::
    "Env \<Rightarrow> WorkspaceRoot \<Rightarrow> Ambient \<Rightarrow> str \<Rightarrow> CreateWorkspaceRequest \<Rightarrow> Db
     \<Rightarrow> (WorkspaceStoreError + CreateWorkspaceResult) \<times> Db" where
  "create_workspace E root A raw_key request db = commit_then db (
     rbind (request_identity E raw_key request) (\<lambda>(key, req, digest).
     rbind (find_created E key digest db) (\<lambda>found.
     case found of
       Some d \<Rightarrow> Inr ((d, True), db)
     | None \<Rightarrow>
         rbind (unix_time_ms A) (\<lambda>t.
         let rec = new_record E root A t req; l = new_lifecycle t in
         rbind (validate_record E rec) (\<lambda>_.
         rbind (validate_lifecycle rec l) (\<lambda>_.
         rbind (insert_workspace E A key digest rec t db) (\<lambda>db.
         Inr ((\<lparr>dp_record = rec, dp_lifecycle = l\<rparr>, False), db))))))))
     (\<lambda>(d, replayed) db.
        rbind (view_of E root db d) (\<lambda>v. Inr \<lparr>cw_workspace = v, cw_replayed = replayed\<rparr>))"

subsection \<open>Lifecycle observations\<close>

definition observe_lifecycle ::
    "Env \<Rightarrow> Ambient \<Rightarrow> uuid \<Rightarrow> WorkspaceMaterializationState \<Rightarrow> nat \<Rightarrow> Db
     \<Rightarrow> (WorkspaceStoreError + WorkspaceLifecycleSummary) \<times> Db" where
  "observe_lifecycle E A w state n db = transact db (
     rbind (ensure (state \<noteq> Unknown)
       (corrupt ''an unknown lifecycle observation cannot be persisted'')) (\<lambda>_.
     rbind (load_projection E db (uuid_to_string E w)) (\<lambda>found.
     rbind (ok_or found (corrupt ''lifecycle observation refers to a missing workspace'')) (\<lambda>d.
     rbind (unix_time_ms A) (\<lambda>t.
     let l = \<lparr>ls_materialization_state = state, ls_worktree_count = n,
              ls_observed_at_unix_ms = Some t\<rparr> in
     rbind (validate_lifecycle (dp_record d) l) (\<lambda>_.
     rbind (ok_or (i64_try_from (wr_record_version (dp_record d)))
       (corrupt ''record version exceeds SQLite integer range'')) (\<lambda>version.
     rbind (upsert_lifecycle \<lparr>lr_workspace_id = uuid_to_string E w, lr_record_version = version,
              lr_state = lifecycle_state_storage state, lr_worktree_count = int n,
              lr_observed_at = t\<rparr> db) (\<lambda>db.
     Inr (l, db)))))))))"

subsection \<open>Tombstones\<close>

definition validate_effect_digest :: "str \<Rightarrow> WorkspaceStoreError + unit" where
  "validate_effect_digest value =
     (case strip_prefix (lit ''sha256:'') value of
        None \<Rightarrow> Inl InvalidEffectDigest
      | Some hex \<Rightarrow> ensure (\<not> (str_len hex \<noteq> 64 \<or> \<not> (\<forall>c \<in> set hex. is_ascii_hexdigit c)))
          InvalidEffectDigest)"

definition validate_tombstone_result_json :: "Env \<Rightarrow> str \<Rightarrow> WorkspaceStoreError + unit" where
  "validate_tombstone_result_json E value =
     rbind (ensure (\<not> (value = [] \<or> str_len value > MAX_TOMBSTONE_RESULT_JSON_BYTES))
       (corrupt ''workspace tombstone result exceeds the store limit'')) (\<lambda>_.
     ensure (is_json_value E value) Serialization)"

definition decode_tombstone_row :: "Env \<Rightarrow> TombstoneRow \<Rightarrow> WorkspaceStoreError + WorkspaceTombstone" where
  "decode_tombstone_row E r =
     rbind (ok_or (uuid_parse_str E (tb_workspace_id r)) Database) (\<lambda>w.
     rbind (ok_or (uuid_parse_str E (tb_idempotency_key r)) Database) (\<lambda>key.
     Inr \<lparr>wt_workspace_id = w, wt_idempotency_key = key, wt_effect_digest = tb_effect_digest r,
          wt_result_json = tb_result_json r, wt_removed_at_unix_ms = tb_removed_at r\<rparr>))"

definition load_tombstone_by_idempotency ::
    "Env \<Rightarrow> Db \<Rightarrow> str \<Rightarrow> WorkspaceStoreError + WorkspaceTombstone option" where
  "load_tombstone_by_idempotency E db key =
     map_transpose (decode_tombstone_row E)
       (find (\<lambda>r. tb_idempotency_key r = key) (tombstone_events db))"

definition load_tombstone_by_workspace ::
    "Env \<Rightarrow> Db \<Rightarrow> str \<Rightarrow> WorkspaceStoreError + WorkspaceTombstone option" where
  "load_tombstone_by_workspace E db w =
     map_transpose (decode_tombstone_row E)
       (find (\<lambda>r. tb_workspace_id r = w) (tombstone_events db))"

definition tombstone_workspace ::
    "Env \<Rightarrow> Ambient \<Rightarrow> uuid \<Rightarrow> str \<Rightarrow> str \<Rightarrow> str \<Rightarrow> Db
     \<Rightarrow> (WorkspaceStoreError + TombstoneWorkspaceResult) \<times> Db" where
  "tombstone_workspace E A w raw_key digest result_json db = transact db (
     rbind (parse_idempotency_key E raw_key) (\<lambda>key.
     rbind (validate_effect_digest digest) (\<lambda>_.
     rbind (validate_tombstone_result_json E result_json) (\<lambda>_.
     rbind (load_tombstone_by_idempotency E db (uuid_to_string E key)) (\<lambda>earlier.
     case earlier of
       Some existing \<Rightarrow>
         rbind (ensure (\<not> (wt_workspace_id existing \<noteq> w \<or> wt_effect_digest existing \<noteq> digest))
           (TombstoneIdempotencyConflict key)) (\<lambda>_.
         Inr (\<lparr>tr_tombstone = existing, tr_replayed = True\<rparr>, db))
     | None \<Rightarrow>
         rbind (load_tombstone_by_workspace E db (uuid_to_string E w)) (\<lambda>gone.
         rbind (ensure (gone = None) (WorkspaceAlreadyTombstoned w)) (\<lambda>_.
         rbind (load_projection E db (uuid_to_string E w)) (\<lambda>found.
         rbind (ensure (found \<noteq> None) (corrupt ''workspace tombstone refers to a missing workspace'')) (\<lambda>_.
         rbind (unix_time_ms A) (\<lambda>t.
         rbind (ok_or (event_to_json E (WorkspaceTombstoneEvent WORKSPACE_RECORD_SCHEMA_VERSION
                  (draw A 0) TOMBSTONE_EVENT_TYPE w key digest t)) Serialization) (\<lambda>event_json.
         rbind (insert_tombstone
                  \<lparr>tb_event_id = uuid_to_string E (draw A 0), tb_workspace_id = uuid_to_string E w,
                   tb_event_type = TOMBSTONE_EVENT_TYPE, tb_event_json = event_json,
                   tb_idempotency_key = uuid_to_string E key, tb_effect_digest = digest,
                   tb_result_json = result_json, tb_removed_at = t\<rparr> db) (\<lambda>db.
         Inr (\<lparr>tr_tombstone = \<lparr>wt_workspace_id = w, wt_idempotency_key = key,
                 wt_effect_digest = digest, wt_result_json = result_json,
                 wt_removed_at_unix_ms = t\<rparr>, tr_replayed = False\<rparr>, db)))))))))))))"

definition tombstone_by_idempotency :: "Env \<Rightarrow> str \<Rightarrow> Db \<Rightarrow> WorkspaceStoreError + WorkspaceTombstone option" where
  "tombstone_by_idempotency E raw_key db =
     rbind (parse_idempotency_key E raw_key) (\<lambda>key.
     load_tombstone_by_idempotency E db (uuid_to_string E key))"

subsubsection \<open>Records the store makes\<close>

lemma plan_request_new_plan [simp]: "plan_request (new_plan E q u) = q"
  by (simp add: plan_request_def new_plan_def)

lemma record_request_new_record [simp]: "record_request (new_record E root A t req) = req"
proof -
  have "map (\<lambda>(i, q). q) (enumerate 0 (repositories req)) = repositories req"
    by (simp add: case_prod_unfold)
  then have "map plan_request (wr_repositories (new_record E root A t req)) = repositories req"
    by (simp add: new_record_def comp_def case_prod_unfold)
  then show ?thesis by (simp add: record_request_def new_record_def)
qed

lemma record_ok_new_record:
  assumes "normalize (to_lowercase E) req = Inr req" and "valid_root_id (root_id root)"
    and "0 \<le> t" and "\<And>i. i \<le> length (repositories req) \<Longrightarrow> \<not> is_nil (draw A i)"
  shows "record_ok E (new_record E root A t req)"
proof -
  have plans: "\<not> is_nil (rp_request_id p) \<and> rp_worktree_leaf p = repository_leaf E (rp_label p) (rp_request_id p)"
    if p: "p \<in> set (wr_repositories (new_record E root A t req))" for p
  proof -
    obtain i q where "(i, q) \<in> set (enumerate 0 (repositories req))"
      and "p = new_plan E q (draw A (Suc i))"
      using p by (auto simp: new_record_def)
    then show ?thesis using assms(4) [of "Suc i"] by (auto simp: new_plan_def in_set_enumerate_eq)
  qed
  have "\<not> is_nil (draw A 0)" using assms(4) [of 0] by simp
  with plans assms show ?thesis
    unfolding record_ok_def record_request_new_record by (simp add: new_record_def store_limits)
qed

end
