(* ===== verification/Store_Reviews.thy ===== *)
theory Store_Reviews
  imports Store_Links
begin

text \<open>
  Review threads of \<open>crates/wts-store/src/sqlite.rs\<close>. The source keeps three tables, for
  planning documents, verification checks and code changes, with one loader each; the loaders
  have the same shape and are instances of \<open>load_thread_from\<close> and \<open>load_threads_from\<close> here,
  with the decoding of the target columns as the parameter.
\<close>

subsection \<open>Validation\<close>

text \<open>\<open>path.components().all(|c| matches!(c, Component::Normal(_)))\<close> for a relative Unix path: \<open>.\<close>
  is a component only at the start, repeated separators are ignored.\<close>

definition path_all_normal :: "os_path \<Rightarrow> bool" where
  "path_all_normal p \<longleftrightarrow> \<not> path_is_absolute p \<and> \<not> path_has_parent_dir p
     \<and> hd (split_on (chr CHR ''/'') p) \<noteq> lit ''.''"

definition valid_oid :: "str \<Rightarrow> bool" where
  "valid_oid value \<longleftrightarrow> str_len value \<in> {40, 64} \<and> (\<forall>c \<in> set value. is_ascii_hexdigit c)"

definition validate_review_target :: "StoredReviewTarget \<Rightarrow> WorkspaceStoreError + unit" where
  "validate_review_target target =
     (case target of
        PlanningDocument doc sha line \<Rightarrow>
          ensure (\<not> (doc \<notin> set [lit ''readme'', lit ''plan'', lit ''findings'', lit ''kanban'', lit ''programBacklog'']
              \<or> str_len sha \<noteq> 71 \<or> \<not> starts_with (lit ''sha256:'') sha
              \<or> \<not> (\<forall>c \<in> set (drop 7 sha). is_lower_hex c)
              \<or> (case line of None \<Rightarrow> False | Some v \<Rightarrow> v = 0 \<or> v > 1000000)))
            InvalidReviewThread
      | VerificationCheck revision completed check \<Rightarrow>
          ensure (\<not> (revision = 0 \<or> int revision > i64_max \<or> completed < 0 \<or> check = []
              \<or> str_len check > 128
              \<or> \<not> (\<forall>c \<in> set check. is_ascii_alphanumeric c \<or> c \<in> set (lit ''-_.''))))
            InvalidReviewThread
      | CodeChange repo base head patch path diff_side line \<Rightarrow>
          ensure (\<not> (repo = [] \<or> trim repo \<noteq> repo \<or> str_len repo > 512
              \<or> \<not> valid_oid base \<or> \<not> valid_oid head \<or> validate_sha256_digest patch \<noteq> Inr ()
              \<or> path = [] \<or> str_len path > 4096 \<or> 0 \<in> set path
              \<or> path_is_absolute path \<or> \<not> path_all_normal path
              \<or> diff_side \<notin> set [lit ''additions'', lit ''deletions'']
              \<or> line = 0 \<or> line > 1000000))
            InvalidReviewThread)"

definition normalize_review_body :: "str \<Rightarrow> WorkspaceStoreError + str" where
  "normalize_review_body raw =
     rbind (ensure (str_len raw \<le> MAX_REVIEW_COMMENT_BYTES) ReviewCommentTooLarge) (\<lambda>_.
     let body = trim raw in
     rbind (ensure (\<not> (body = [] \<or> 0 \<in> set body
         \<or> (\<exists>c \<in> set body. is_control c \<and> c \<notin> {10, 13, 9}))) InvalidReviewThread) (\<lambda>_.
     Inr body))"

definition review_author_storage :: "StoredReviewAuthor \<Rightarrow> str" where
  "review_author_storage a = (case a of User \<Rightarrow> lit ''user'' | Agent \<Rightarrow> lit ''agent'')"

definition review_author_from_storage :: "str \<Rightarrow> WorkspaceStoreError + StoredReviewAuthor" where
  "review_author_from_storage s =
     (if s = lit ''user'' then Inr User
      else if s = lit ''agent'' then Inr Agent
      else Inl (corrupt ''workspace review comment author is invalid''))"

definition review_state_from_storage :: "str \<Rightarrow> WorkspaceStoreError + StoredReviewThreadState" where
  "review_state_from_storage s =
     (if s = lit ''open'' then Inr Open
      else if s = lit ''resolved'' then Inr Resolved
      else Inl (corrupt ''workspace review thread state is invalid''))"

definition validate_review_thread_metadata ::
    "str \<Rightarrow> int \<Rightarrow> int \<Rightarrow> int \<Rightarrow> int option \<Rightarrow> WorkspaceStoreError + (StoredReviewThreadState \<times> nat)" where
  "validate_review_thread_metadata state revision created updated resolved =
     rbind (review_state_from_storage state) (\<lambda>state.
     rbind (ok_or (u64_try_from revision) (corrupt ''workspace review thread revision is invalid'')) (\<lambda>revision.
     rbind (ensure (\<not> (revision = 0 \<or> created < 0 \<or> updated < created
         \<or> (case resolved of None \<Rightarrow> False | Some v \<Rightarrow> v < created)
         \<or> (state = Open \<and> resolved \<noteq> None) \<or> (state = Resolved \<and> resolved = None)))
       (corrupt ''workspace review thread metadata is invalid'')) (\<lambda>_.
     Inr (state, revision))))"

subsection \<open>Loading\<close>

definition decode_comment :: "Env \<Rightarrow> CommentRow \<Rightarrow> WorkspaceStoreError + StoredReviewComment" where
  "decode_comment E r =
     rbind (ok_or (uuid_parse_str E (cm_comment_id r))
       (corrupt ''workspace review comment identifier is invalid'')) (\<lambda>comment_id.
     rbind (review_author_from_storage (cm_author r)) (\<lambda>author.
     rbind (ensure (\<not> (normalize_review_body (cm_body r) \<noteq> Inr (cm_body r) \<or> cm_created_at r < 0))
       (corrupt ''workspace review comment is invalid'')) (\<lambda>_.
     Inr \<lparr>rc_comment_id = comment_id, rc_author = author, rc_body = cm_body r,
          rc_created_at_unix_ms = cm_created_at r\<rparr>)))"

definition load_review_comments ::
    "Env \<Rightarrow> CommentRow list \<Rightarrow> uuid \<Rightarrow> WorkspaceStoreError + StoredReviewComment list" where
  "load_review_comments E comments thread_id =
     traverse (decode_comment E) (filter (\<lambda>r. cm_thread_id r = uuid_to_string E thread_id) comments)"

text \<open>
  One loader: the row of the thread in \<open>threads\<close>, its target decoded and validated by
  \<open>decode_target\<close>, its metadata, and its comments, of which there is at least one.
\<close>

definition load_thread_from ::
    "Env \<Rightarrow> ('t \<Rightarrow> WorkspaceStoreError + StoredReviewTarget) \<Rightarrow> string \<Rightarrow> 't ThreadRow list \<Rightarrow> CommentRow list
     \<Rightarrow> uuid \<Rightarrow> uuid \<Rightarrow> WorkspaceStoreError + StoredReviewThread option" where
  "load_thread_from E decode_target no_comments threads comments w thread_id =
     map_transpose (\<lambda>r.
       rbind (decode_target (th_target r)) (\<lambda>target.
       rbind (validate_review_thread_metadata (th_state r) (th_revision r) (th_created_at r)
                (th_updated_at r) (th_resolved_at r)) (\<lambda>(state, revision).
       rbind (load_review_comments E comments thread_id) (\<lambda>cs.
       rbind (ensure (cs \<noteq> []) (corrupt no_comments)) (\<lambda>_.
       Inr \<lparr>st_thread_id = thread_id, st_workspace_id = w, st_target = target, st_state = state,
            st_revision = revision, st_comments = cs, st_created_at_unix_ms = th_created_at r,
            st_updated_at_unix_ms = th_updated_at r, st_resolved_at_unix_ms = th_resolved_at r\<rparr>)))))
     (find (\<lambda>r. th_workspace_id r = uuid_to_string E w \<and> th_thread_id r = uuid_to_string E thread_id) threads)"

definition load_threads_from ::
    "Env \<Rightarrow> string \<Rightarrow> string \<Rightarrow> (uuid \<Rightarrow> uuid \<Rightarrow> WorkspaceStoreError + StoredReviewThread option)
     \<Rightarrow> 't ThreadRow list \<Rightarrow> uuid \<Rightarrow> WorkspaceStoreError + StoredReviewThread list" where
  "load_threads_from E bad_id vanished load threads w =
     traverse (\<lambda>r.
       rbind (ok_or (uuid_parse_str E (th_thread_id r)) (corrupt bad_id)) (\<lambda>thread_id.
       rbind (load w thread_id) (\<lambda>found. ok_or found (corrupt vanished))))
     (sort_key (\<lambda>r. (- th_updated_at r, th_thread_id r))
        (filter (\<lambda>r. th_workspace_id r = uuid_to_string E w) threads))"

definition decode_planning_target :: "PlanningColumns \<Rightarrow> WorkspaceStoreError + StoredReviewTarget" where
  "decode_planning_target t =
     rbind (map_transpose (\<lambda>v. ok_or (u32_try_from v) InvalidReviewThread) (pc_line t)) (\<lambda>line.
     let target = PlanningDocument (pc_document_id t) (pc_document_sha256 t) line in
     rbind (map_err (\<lambda>_. corrupt ''workspace review target is invalid'') (validate_review_target target)) (\<lambda>_.
     Inr target))"

definition decode_verification_target :: "VerificationColumns \<Rightarrow> WorkspaceStoreError + StoredReviewTarget" where
  "decode_verification_target t =
     rbind (ok_or (u64_try_from (vc_plan_revision t))
       (corrupt ''workspace verification review plan revision is invalid'')) (\<lambda>revision.
     let target = VerificationCheck revision (vc_completed_at t) (vc_check_id t) in
     rbind (map_err (\<lambda>_. corrupt ''workspace verification review target is invalid'')
              (validate_review_target target)) (\<lambda>_.
     Inr target))"

definition decode_code_target :: "CodeColumns \<Rightarrow> WorkspaceStoreError + StoredReviewTarget" where
  "decode_code_target t =
     rbind (ok_or (u32_try_from (cc_line t)) (corrupt ''workspace code review line is invalid'')) (\<lambda>line.
     let target = CodeChange (cc_repository_id t) (cc_base_commit_oid t) (cc_head_commit_oid t)
           (cc_patch_sha256 t) (cc_file_path t) (cc_side t) line in
     rbind (map_err (\<lambda>_. corrupt ''workspace code review target is invalid'')
              (validate_review_target target)) (\<lambda>_.
     Inr target))"

definition load_review_thread ::
    "Env \<Rightarrow> Db \<Rightarrow> uuid \<Rightarrow> uuid \<Rightarrow> WorkspaceStoreError + StoredReviewThread option" where
  "load_review_thread E db =
     load_thread_from E decode_planning_target ''workspace review thread has no comments''
       (planning_threads db) (planning_comments db)"

definition load_verification_review_thread ::
    "Env \<Rightarrow> Db \<Rightarrow> uuid \<Rightarrow> uuid \<Rightarrow> WorkspaceStoreError + StoredReviewThread option" where
  "load_verification_review_thread E db =
     load_thread_from E decode_verification_target
       ''workspace verification review thread has no comments''
       (verification_threads db) (verification_comments db)"

definition load_code_review_thread ::
    "Env \<Rightarrow> Db \<Rightarrow> uuid \<Rightarrow> uuid \<Rightarrow> WorkspaceStoreError + StoredReviewThread option" where
  "load_code_review_thread E db =
     load_thread_from E decode_code_target ''workspace code review thread has no comments''
       (code_threads db) (code_comments db)"

definition load_review_threads :: "Env \<Rightarrow> Db \<Rightarrow> uuid \<Rightarrow> WorkspaceStoreError + StoredReviewThread list" where
  "load_review_threads E db =
     load_threads_from E ''workspace review thread identifier is invalid''
       ''workspace review thread disappeared during a read'' (load_review_thread E db)
       (planning_threads db)"

definition load_verification_review_threads ::
    "Env \<Rightarrow> Db \<Rightarrow> uuid \<Rightarrow> WorkspaceStoreError + StoredReviewThread list" where
  "load_verification_review_threads E db =
     load_threads_from E ''workspace verification review thread identifier is invalid''
       ''workspace verification review thread disappeared during a read''
       (load_verification_review_thread E db) (verification_threads db)"

definition load_code_review_threads ::
    "Env \<Rightarrow> Db \<Rightarrow> uuid \<Rightarrow> WorkspaceStoreError + StoredReviewThread list" where
  "load_code_review_threads E db =
     load_threads_from E ''workspace code review thread identifier is invalid''
       ''workspace code review thread disappeared during a read''
       (load_code_review_thread E db) (code_threads db)"

subsection \<open>Operations\<close>

definition list_review_threads :: "Env \<Rightarrow> uuid \<Rightarrow> Db \<Rightarrow> WorkspaceStoreError + StoredReviewThread list" where
  "list_review_threads E w db =
     rbind (load_projection E db (uuid_to_string E w)) (\<lambda>found.
     rbind (ensure (found \<noteq> None) (WorkspaceNotFound w)) (\<lambda>_.
     rbind (load_review_threads E db w) (\<lambda>planning.
     rbind (load_verification_review_threads E db w) (\<lambda>verification.
     rbind (load_code_review_threads E db w) (\<lambda>code.
     Inr (sort_key (\<lambda>t. (- st_updated_at_unix_ms t, st_thread_id t))
            (planning @ verification @ code)))))))"

definition thread_count :: "Db \<Rightarrow> str \<Rightarrow> nat" where
  "thread_count db w =
     length (filter (\<lambda>r. th_workspace_id r = w) (planning_threads db))
     + length (filter (\<lambda>r. th_workspace_id r = w) (verification_threads db))
     + length (filter (\<lambda>r. th_workspace_id r = w) (code_threads db))"

text \<open>The rows of a new thread: an open thread at revision 1 and its first comment.\<close>

definition new_thread_row :: "Env \<Rightarrow> Ambient \<Rightarrow> uuid \<Rightarrow> int \<Rightarrow> 't \<Rightarrow> 't ThreadRow" where
  "new_thread_row E A w t target =
     \<lparr>th_thread_id = uuid_to_string E (draw A 0), th_workspace_id = uuid_to_string E w,
      th_target = target, th_state = lit ''open'', th_revision = 1,
      th_created_at = t, th_updated_at = t, th_resolved_at = None\<rparr>"

definition new_comment_row :: "Env \<Rightarrow> Ambient \<Rightarrow> StoredReviewAuthor \<Rightarrow> str \<Rightarrow> int \<Rightarrow> CommentRow" where
  "new_comment_row E A author body t =
     \<lparr>cm_comment_id = uuid_to_string E (draw A 1), cm_thread_id = uuid_to_string E (draw A 0),
      cm_author = review_author_storage author, cm_body = body, cm_created_at = t\<rparr>"

definition insert_review_rows ::
    "Env \<Rightarrow> Ambient \<Rightarrow> uuid \<Rightarrow> StoredReviewTarget \<Rightarrow> StoredReviewAuthor \<Rightarrow> str \<Rightarrow> int \<Rightarrow> Db
     \<Rightarrow> WorkspaceStoreError + Db" where
  "insert_review_rows E A w target author body t db =
     (let comment = new_comment_row E A author body t in
      case target of
        PlanningDocument doc sha line \<Rightarrow>
          rbind (insert_thread planning_check db (new_thread_row E A w t
              \<lparr>pc_document_id = doc, pc_document_sha256 = sha, pc_line = map_option int line\<rparr>)
            (planning_threads db)) (\<lambda>threads.
          rbind (insert_comment threads comment (planning_comments db)) (\<lambda>comments.
          Inr (db\<lparr>planning_threads := threads, planning_comments := comments\<rparr>)))
      | VerificationCheck revision completed check \<Rightarrow>
          rbind (ok_or (i64_try_from revision) InvalidReviewThread) (\<lambda>revision_i64.
          rbind (insert_thread verification_check db (new_thread_row E A w t
              \<lparr>vc_plan_revision = revision_i64, vc_completed_at = completed, vc_check_id = check\<rparr>)
            (verification_threads db)) (\<lambda>threads.
          rbind (insert_comment threads comment (verification_comments db)) (\<lambda>comments.
          Inr (db\<lparr>verification_threads := threads, verification_comments := comments\<rparr>))))
      | CodeChange repo base head patch path diff_side line \<Rightarrow>
          rbind (insert_thread code_check db (new_thread_row E A w t
              \<lparr>cc_repository_id = repo, cc_base_commit_oid = base, cc_head_commit_oid = head,
               cc_patch_sha256 = patch, cc_file_path = path, cc_side = diff_side, cc_line = int line\<rparr>)
            (code_threads db)) (\<lambda>threads.
          rbind (insert_comment threads comment (code_comments db)) (\<lambda>comments.
          Inr (db\<lparr>code_threads := threads, code_comments := comments\<rparr>))))"

definition create_review_thread ::
    "Env \<Rightarrow> Ambient \<Rightarrow> uuid \<Rightarrow> StoredReviewTarget \<Rightarrow> StoredReviewAuthor \<Rightarrow> str \<Rightarrow> Db
     \<Rightarrow> (WorkspaceStoreError + StoredReviewThread) \<times> Db" where
  "create_review_thread E A w target author raw_body db = transact db (
     rbind (validate_review_target target) (\<lambda>_.
     rbind (normalize_review_body raw_body) (\<lambda>body.
     rbind (load_projection E db (uuid_to_string E w)) (\<lambda>found.
     rbind (ensure (found \<noteq> None) (WorkspaceNotFound w)) (\<lambda>_.
     rbind (ensure (thread_count db (uuid_to_string E w) < MAX_REVIEW_THREADS_PER_WORKSPACE)
       InvalidReviewThread) (\<lambda>_.
     rbind (unix_time_ms A) (\<lambda>t.
     rbind (insert_review_rows E A w target author body t db) (\<lambda>db.
     Inr (\<lparr>st_thread_id = draw A 0, st_workspace_id = w, st_target = target, st_state = Open,
           st_revision = 1,
           st_comments = [\<lparr>rc_comment_id = draw A 1, rc_author = author, rc_body = body,
                           rc_created_at_unix_ms = t\<rparr>],
           st_created_at_unix_ms = t, st_updated_at_unix_ms = t, st_resolved_at_unix_ms = None\<rparr>,
          db)))))))))"

text \<open>The UPDATE that resolves a thread in one of the tables.\<close>

definition resolve_rows ::
    "Env \<Rightarrow> uuid \<Rightarrow> uuid \<Rightarrow> int \<Rightarrow> int \<Rightarrow> int \<Rightarrow> 't ThreadRow list
     \<Rightarrow> WorkspaceStoreError + (nat \<times> 't ThreadRow list)" where
  "resolve_rows E w thread_id revision t expected rows =
     update_rows thread_check
       (\<lambda>r. th_workspace_id r = uuid_to_string E w \<and> th_thread_id r = uuid_to_string E thread_id
          \<and> th_revision r = expected)
       (\<lambda>r. r\<lparr>th_state := lit ''resolved'', th_revision := revision, th_updated_at := t,
             th_resolved_at := Some t\<rparr>) rows"

definition resolve_review_thread ::
    "Env \<Rightarrow> Ambient \<Rightarrow> uuid \<Rightarrow> uuid \<Rightarrow> nat \<Rightarrow> Db
     \<Rightarrow> (WorkspaceStoreError + StoredReviewThread) \<times> Db" where
  "resolve_review_thread E A w thread_id expected db = transact db (
     rbind (ensure (expected \<noteq> 0) InvalidReviewThread) (\<lambda>_.
     rbind (load_projection E db (uuid_to_string E w)) (\<lambda>found.
     rbind (ensure (found \<noteq> None) (WorkspaceNotFound w)) (\<lambda>_.
     rbind (load_review_thread E db w thread_id) (\<lambda>planning.
     rbind (load_verification_review_thread E db w thread_id) (\<lambda>verification.
     rbind (load_code_review_thread E db w thread_id) (\<lambda>code.
     rbind (ensure (\<not> of_bool (planning \<noteq> None) + of_bool (verification \<noteq> None) + of_bool (code \<noteq> None) > (1::nat))
       (corrupt ''workspace review thread identifier is ambiguous'')) (\<lambda>_.
     rbind (ok_or (case planning of Some x \<Rightarrow> Some x | None \<Rightarrow>
              (case verification of Some x \<Rightarrow> Some x | None \<Rightarrow> code)) (ReviewThreadNotFound thread_id)) (\<lambda>current.
     rbind (ensure (st_revision current = expected)
       (ReviewThreadConflict expected (st_revision current))) (\<lambda>_.
     if st_state current = Resolved then Inr (current, db)
     else
       rbind (ok_or (u64_checked_add (st_revision current) 1) InvalidReviewThread) (\<lambda>revision.
       rbind (unix_time_ms A) (\<lambda>t.
       rbind (ok_or (i64_try_from revision) InvalidReviewThread) (\<lambda>revision_i64.
       rbind (ok_or (i64_try_from expected) InvalidReviewThread) (\<lambda>expected_i64.
       rbind (case st_target current of
                PlanningDocument _ _ _ \<Rightarrow>
                  rbind (resolve_rows E w thread_id revision_i64 t expected_i64 (planning_threads db)) (\<lambda>(n, rows).
                  Inr (n, db\<lparr>planning_threads := rows\<rparr>))
              | VerificationCheck _ _ _ \<Rightarrow>
                  rbind (resolve_rows E w thread_id revision_i64 t expected_i64 (verification_threads db)) (\<lambda>(n, rows).
                  Inr (n, db\<lparr>verification_threads := rows\<rparr>))
              | CodeChange _ _ _ _ _ _ _ \<Rightarrow>
                  rbind (resolve_rows E w thread_id revision_i64 t expected_i64 (code_threads db)) (\<lambda>(n, rows).
                  Inr (n, db\<lparr>code_threads := rows\<rparr>))) (\<lambda>(changed, db).
       rbind (ensure (changed = 1) (ReviewThreadConflict expected (st_revision current))) (\<lambda>_.
       Inr (current\<lparr>st_state := Resolved, st_revision := revision, st_updated_at_unix_ms := t,
                   st_resolved_at_unix_ms := Some t\<rparr>, db)))))))))))))))))"

end
