(* ===== verification/Store_Sample.thy ===== *)
theory Store_Sample
  imports Store_Records
begin

text \<open>
  A concrete environment and concrete rows for the examples of the store theories. The codecs of
  the environment know a list of records and a list of links: the document of the \<open>n\<close>-th is the
  numeral \<open>n\<close>, and anything else does not serialise. This satisfies what the store relies on
  (\<open>uuid_text_ok\<close>, \<open>record_codec_ok\<close>, \<open>link_codec_ok\<close>).
\<close>

fun index_of :: "'a \<Rightarrow> 'a list \<Rightarrow> nat option" where
  "index_of x [] = None"
| "index_of x (y # ys) = (if x = y then Some 0 else map_option Suc (index_of x ys))"

lemma index_of_nth: "index_of x xs = Some n \<Longrightarrow> n < length xs \<and> xs ! n = x"
  by (induction xs arbitrary: n) (auto split: if_splits)

definition table_encode :: "'a list \<Rightarrow> 'a \<Rightarrow> str option" where
  "table_encode xs x = map_option show_nat (index_of x xs)"

definition table_decode :: "'a list \<Rightarrow> str \<Rightarrow> str + 'a" where
  "table_decode xs s = (if digits_value s < length xs then Inr (xs ! digits_value s) else Inl (lit ''bad JSON''))"

lemma table_decode_encode: "table_encode xs x = Some s \<Longrightarrow> table_decode xs s = Inr x"
  by (auto simp: table_encode_def table_decode_def dest: index_of_nth)

text \<open>The other functions, named so that an evaluation does not unfold them before they are applied.\<close>

definition sample_uuid_text :: "uuid \<Rightarrow> str" where "sample_uuid_text u = show_nat (unat u)"

definition sample_uuid_parse :: "str \<Rightarrow> uuid option" where
  "sample_uuid_parse s = Some (of_nat (digits_value s))"

definition sample_repository_ids :: "WorkspaceRecord list \<Rightarrow> str \<Rightarrow> str option list option" where
  "sample_repository_ids rs s =
     (case table_decode rs s of
        Inl _ \<Rightarrow> None | Inr r \<Rightarrow> Some (map rp_repository_id (wr_repositories r)))"

definition sample_event_json :: "StoreEvent \<Rightarrow> str option" where "sample_event_json e = Some (lit ''{}'')"

definition sample_request_json :: "CreateWorkspaceRequest \<Rightarrow> nat list option" where
  "sample_request_json r = Some (title r)"

definition sample_digest :: "nat list \<Rightarrow> str" where "sample_digest b = take 64 (b @ replicate 64 97)"

definition sample_env :: "WorkspaceRecord list \<Rightarrow> StoredWorkspaceWorkItemLink list \<Rightarrow> Env" where
  "sample_env rs ls =
     \<lparr>to_lowercase = map to_ascii_lower,
      uuid_to_string = sample_uuid_text, uuid_parse_str = sample_uuid_parse,
      record_to_json = table_encode rs, record_from_json = table_decode rs,
      record_json_repository_ids = sample_repository_ids rs,
      link_to_json = table_encode ls, link_from_json = table_decode ls,
      event_to_json = sample_event_json, request_to_json = sample_request_json,
      is_json_value = (\<lambda>s. s \<noteq> []), sha256_hex = sample_digest, validation_message = (\<lambda>_. [])\<rparr>"

lemma show_nat_digits: "c \<in> set (show_nat n) \<Longrightarrow> 48 \<le> c \<and> c \<le> 57"
proof (induction n rule: show_nat.induct)
  case (1 n)
  then show ?case by (subst (asm) (2) show_nat.simps) (auto split: if_splits)
qed

lemma show_nat_not_Nil: "show_nat n \<noteq> []"
  by (subst show_nat.simps) simp

lemma sample_uuid_text_ok: "uuid_text_ok (sample_env rs ls)"
  using show_nat_digits show_nat_not_Nil by (fastforce simp: uuid_text_ok_def sample_env_def sample_uuid_text_def sample_uuid_parse_def)

lemma sample_record_codec_ok: "record_codec_ok (sample_env rs ls)"
  by (simp add: record_codec_ok_def sample_env_def table_decode_encode)

definition sample_record :: "uuid \<Rightarrow> string \<Rightarrow> WorkspaceRecord" where
  "sample_record w name =
     \<lparr>wr_schema_version = 1, wr_workspace_id = w, wr_record_version = 1,
      wr_intent = RepositorySet (lit name), wr_title = lit name, wr_display_name = None,
      wr_preferred_provider = Codex, wr_phase = Draft,
      wr_repositories = [\<lparr>rp_request_id = w, rp_repository_id = None, rp_label = lit ''api'',
         rp_base_ref = lit ''main'', rp_worktree_leaf = lit ''api-'' @ sample_uuid_text w\<rparr>],
      wr_runtime = None, wr_planning = None, wr_workspace_root_id = lit ''default'',
      wr_workspace_leaf = slug (lit name) @ lit ''-'' @ sample_uuid_text w,
      wr_created_at_unix_ms = 5, wr_updated_at_unix_ms = 5\<rparr>"

text \<open>The rows of a stored record in a lane at a rank, and a store with such workspaces.\<close>

definition sample_created :: "WorkspaceRecord \<Rightarrow> CreatedEventRow" where
  "sample_created r =
     \<lparr>ce_event_id = sample_uuid_text (wr_workspace_id r), ce_workspace_id = sample_uuid_text (wr_workspace_id r),
      ce_record_version = 1, ce_event_type = CREATE_EVENT_TYPE, ce_event_json = lit ''{}'',
      ce_idempotency_key = sample_uuid_text (wr_workspace_id r), ce_request_digest = [],
      ce_created_at = 5\<rparr>"

type_synonym placed = "WorkspaceRecord \<times> string \<times> int \<times> string"

fun sample_created_row :: "placed \<Rightarrow> CreatedEventRow" where
  "sample_created_row (r, st, k, m) = sample_created r"

fun sample_projection_row :: "nat \<times> placed \<Rightarrow> ProjectionRow" where
  "sample_projection_row (i, r, st, k, m) =
     \<lparr>pr_workspace_id = sample_uuid_text (wr_workspace_id r), pr_record_version = 1,
      pr_record_json = show_nat i, pr_updated_at = 5\<rparr>"

fun sample_workflow_row :: "placed \<Rightarrow> WorkflowRow" where
  "sample_workflow_row (r, st, k, m) =
     \<lparr>wp_workspace_id = sample_uuid_text (wr_workspace_id r), wp_state = lit st, wp_revision = 1,
      wp_updated_at = 5\<rparr>"

fun sample_placement_row :: "placed \<Rightarrow> PlacementRow" where
  "sample_placement_row (r, st, k, m) =
     \<lparr>bp_workspace_id = sample_uuid_text (wr_workspace_id r), bp_mode = lit m, bp_rank = k,
      bp_updated_at = 5\<rparr>"

definition sample_store :: "placed list \<Rightarrow> Db" where
  "sample_store ws = empty_db
     \<lparr>created_events := map sample_created_row ws,
      projection := map sample_projection_row (enumerate 0 ws),
      workflow_projection := map sample_workflow_row ws,
      board_placement := map sample_placement_row ws\<rparr>"

definition sample_records :: "WorkspaceRecord list" where
  "sample_records = [sample_record 1 ''one'', sample_record 2 ''two'', sample_record 3 ''three'']"

definition sample_board :: Db where
  "sample_board = sample_store
     [(sample_record 1 ''one'', ''ready'', 0, ''automatic''),
      (sample_record 2 ''two'', ''ready'', 1, ''automatic''),
      (sample_record 3 ''three'', ''active'', 0, ''automatic'')]"

definition sample_ambient :: Ambient where
  "sample_ambient = \<lparr>now = 9, draw = (\<lambda>n. of_nat (n + 100))\<rparr>"

end
