(* ===== verification/Store_Board_Lanes.thy ===== *)
theory Store_Board_Lanes
  imports Store_Board Store_Sample
begin

text \<open>
  What the board operations of \<open>Store_Board\<close> do. The two board tables are read as functions of
  the workspace, a lane is the list of its workspaces in board order, and every accepted
  operation is described by its effect on the lanes: the moved workspace is where the request
  put it, the others keep their order.
\<close>

subsection \<open>The board as two functions\<close>

definition workflow_of :: "Db \<Rightarrow> str \<Rightarrow> WorkflowRow option" where
  "workflow_of db i = find (\<lambda>r. wp_workspace_id r = i) (workflow_projection db)"

definition placement_of :: "Db \<Rightarrow> str \<Rightarrow> PlacementRow option" where
  "placement_of db i = find (\<lambda>r. bp_workspace_id r = i) (board_placement db)"

abbreviation board_ids :: "Db \<Rightarrow> str list" where
  "board_ids db \<equiv> map wp_workspace_id (workflow_projection db)"

text \<open>
  The board is consistent: one workflow row and one placement row per workspace, whose columns
  satisfy the schema and fit the integers they are read into.
\<close>

definition board_ok :: "Env \<Rightarrow> Db \<Rightarrow> bool" where
  "board_ok E db \<longleftrightarrow>
     distinct (board_ids db) \<and> distinct (map bp_workspace_id (board_placement db))
     \<and> set (map bp_workspace_id (board_placement db)) = set (board_ids db)
     \<and> (\<forall>i \<in> set (board_ids db). \<exists>u. i = uuid_to_string E u)
     \<and> (\<forall>r \<in> set (workflow_projection db). workflow_check r \<and> wp_revision r \<le> i64_max)
     \<and> (\<forall>r \<in> set (board_placement db). placement_check r \<and> bp_rank r \<le> i64_max)"

lemma find_key_Some_iff:
  "distinct (map key xs) \<Longrightarrow> find (\<lambda>r. key r = i) xs = Some r \<longleftrightarrow> r \<in> set xs \<and> key r = i"
  by (induction xs) (auto simp: image_iff)

lemma find_key_None_iff: "find (\<lambda>r. key r = i) xs = None \<longleftrightarrow> i \<notin> key ` set xs"
  by (induction xs) auto

lemma find_key_map:
  assumes "\<And>r. key (f r) = key r"
  shows "find (\<lambda>r. key r = i) (map f xs) = map_option f (find (\<lambda>r. key r = i) xs)"
  using assms by (induction xs) auto

lemma workflow_of_Some:
  "workflow_of db i = Some r \<Longrightarrow> r \<in> set (workflow_projection db) \<and> wp_workspace_id r = i"
  by (auto simp: workflow_of_def find_Some_iff)

lemma placement_of_Some:
  "placement_of db i = Some r \<Longrightarrow> r \<in> set (board_placement db) \<and> bp_workspace_id r = i"
  by (auto simp: placement_of_def find_Some_iff)

lemma board_ok_find:
  assumes "board_ok E db" and "i \<in> set (board_ids db)"
  obtains wrow prow where "workflow_of db i = Some wrow" and "placement_of db i = Some prow"
proof -
  have "workflow_of db i \<noteq> None" "placement_of db i \<noteq> None"
    using assms by (auto simp: workflow_of_def placement_of_def find_key_None_iff board_ok_def)
  then show ?thesis using that by auto
qed

lemma load_workflow_iff:
  "load_workflow E db w = Inr s \<longleftrightarrow>
     (\<exists>wrow prow. workflow_of db (uuid_to_string E w) = Some wrow
        \<and> placement_of db (uuid_to_string E w) = Some prow
        \<and> 0 < wp_revision wrow \<and> nat (wp_revision wrow) \<le> u64_max \<and> 0 \<le> wp_updated_at wrow
        \<and> 0 \<le> bp_rank prow \<and> nat (bp_rank prow) \<le> u64_max
        \<and> workflow_state_from_storage (wp_state wrow) = Inr (wf_state s)
        \<and> board_placement_mode_from_storage (bp_mode prow) = Inr (placement_mode (wf_placement s))
        \<and> wf_revision s = nat (wp_revision wrow) \<and> wf_updated_at_unix_ms s = wp_updated_at wrow
        \<and> placement_rank (wf_placement s) = nat (bp_rank prow))"
proof -
  have eq: "s = \<lparr>wf_state = a, wf_revision = b, wf_updated_at_unix_ms = c,
        wf_placement = \<lparr>placement_mode = d, placement_rank = e\<rparr>\<rparr> \<longleftrightarrow>
      wf_state s = a \<and> wf_revision s = b \<and> wf_updated_at_unix_ms s = c
      \<and> placement_mode (wf_placement s) = d \<and> placement_rank (wf_placement s) = e" for a b c d e
    by (cases s; cases "wf_placement s") auto
  show ?thesis
    unfolding load_workflow_def workflow_of_def [symmetric] placement_of_def [symmetric] Let_def
    by (auto simp: eq eq_commute [of _ s] split: option.splits)
qed

text \<open>On a consistent board every workspace can be read.\<close>

lemma load_workflow_total:
  assumes "board_ok E db" and "uuid_to_string E w \<in> set (board_ids db)"
  obtains s where "load_workflow E db w = Inr s"
proof -
  obtain wrow prow where rows: "workflow_of db (uuid_to_string E w) = Some wrow"
      "placement_of db (uuid_to_string E w) = Some prow"
    using board_ok_find assms by blast
  then have mem: "wrow \<in> set (workflow_projection db)" "prow \<in> set (board_placement db)"
    using workflow_of_Some placement_of_Some by auto
  with assms(1) have chk: "workflow_check wrow" "wp_revision wrow \<le> i64_max"
      "placement_check prow" "bp_rank prow \<le> i64_max"
    by (auto simp: board_ok_def)
  then obtain st m where "wp_state wrow = workflow_state_storage st"
      "bp_mode prow = board_placement_mode_storage m"
    unfolding workflow_check_def placement_check_def workflow_state_names_iff placement_mode_names_iff
    by blast
  with rows chk have "load_workflow E db w = Inr \<lparr>wf_state = st, wf_revision = nat (wp_revision wrow),
      wf_updated_at_unix_ms = wp_updated_at wrow,
      wf_placement = \<lparr>placement_mode = m, placement_rank = nat (bp_rank prow)\<rparr>\<rparr>"
    unfolding load_workflow_iff
    by (auto simp: workflow_check_def placement_check_def workflow_codec.decode_encode
        mode_codec.decode_encode i64_max_def u64_max_def)
  then show ?thesis by (rule that)
qed

subsection \<open>Lanes\<close>

definition state_at :: "Db \<Rightarrow> str \<Rightarrow> str" where
  "state_at db i = wp_state (the (workflow_of db i))"

definition rank_at :: "Db \<Rightarrow> str \<Rightarrow> int" where
  "rank_at db i = bp_rank (the (placement_of db i))"

text \<open>The identifiers of a lane, in board order.\<close>

definition lane_ids :: "Db \<Rightarrow> WorkspaceWorkflowState \<Rightarrow> str list" where
  "lane_ids db s =
     sort_key (\<lambda>i. (rank_at db i, i))
       (filter (\<lambda>i. state_at db i = workflow_state_storage s \<and> \<not> tombstoned db i) (board_ids db))"

lemma filter_key_one:
  "distinct (map key rows) \<Longrightarrow> find (\<lambda>r. key r = i) rows = Some r \<Longrightarrow> filter (\<lambda>r. key r = i) rows = [r]"
proof (induction rows)
  case (Cons x rows)
  have "filter (\<lambda>r. key r = i) rows = []" if "key x = i"
    using Cons.prems(1) that by (auto simp: filter_empty_conv image_iff)
  with Cons show ?case by auto
qed simp

lemma concat_if_filter: "concat (map (\<lambda>x. if P x then [f x] else []) xs) = map f (filter P xs)"
  by (induction xs) simp_all

lemma board_rows_eq:
  assumes "board_ok E db"
  shows "board_rows db = map (\<lambda>wrow. (wrow, the (placement_of db (wp_workspace_id wrow)))) (workflow_projection db)"
proof -
  have one: "filter (\<lambda>r. bp_workspace_id r = i) (board_placement db) = [the (placement_of db i)]"
    if i: "i \<in> set (board_ids db)" for i
  proof -
    obtain r where "placement_of db i = Some r"
      by (rule board_ok_find [OF assms i]) (rule that)
    with assms have "filter (\<lambda>r. bp_workspace_id r = i) (board_placement db) = [r]"
      by (intro filter_key_one) (simp_all add: placement_of_def board_ok_def)
    then show ?thesis using \<open>placement_of db i = Some r\<close> by simp
  qed
  have "[(wrow, prow). prow \<leftarrow> board_placement db, bp_workspace_id prow = wp_workspace_id wrow]
      = [(wrow, the (placement_of db (wp_workspace_id wrow)))]"
    if "wrow \<in> set (workflow_projection db)" for wrow
    using one [of "wp_workspace_id wrow"] that by (subst concat_if_filter) simp
  then have rows: "map (\<lambda>wrow. [(wrow, prow). prow \<leftarrow> board_placement db, bp_workspace_id prow = wp_workspace_id wrow])
        (workflow_projection db)
      = map (\<lambda>wrow. [(wrow, the (placement_of db (wp_workspace_id wrow)))]) (workflow_projection db)"
    by simp
  show ?thesis unfolding board_rows_def rows by (rule concat_map_singleton)
qed

lemma state_at_row:
  assumes "board_ok E db" and "wrow \<in> set (workflow_projection db)"
  shows "state_at db (wp_workspace_id wrow) = wp_state wrow"
proof -
  have "workflow_of db (wp_workspace_id wrow) = Some wrow"
    using assms by (simp add: workflow_of_def board_ok_def find_key_Some_iff)
  then show ?thesis by (simp add: state_at_def)
qed

lemma map_fst_lane_rows:
  assumes "board_ok E db"
  shows "map (wp_workspace_id \<circ> fst) (lane_rows db (workflow_state_storage s) excluded)
    = filter (\<lambda>i. i \<noteq> excluded) (lane_ids db s)"
proof -
  let ?st = "workflow_state_storage s"
  let ?h = "\<lambda>wrow. (wrow, the (placement_of db (wp_workspace_id wrow)))"
  let ?P = "\<lambda>i. state_at db i = ?st \<and> i \<noteq> excluded \<and> \<not> tombstoned db i"
  let ?k = "\<lambda>i. (rank_at db i, i)"
  let ?ws = "filter (\<lambda>wrow. ?P (wp_workspace_id wrow)) (workflow_projection db)"
  have "lane_rows db ?st excluded = sort_key (\<lambda>(wrow, prow). (bp_rank prow, wp_workspace_id wrow)) (map ?h ?ws)"
    unfolding lane_rows_def board_rows_eq [OF assms] filter_map
    by (intro arg_cong [of _ _ "sort_key _"] arg_cong [of _ _ "map _"] filter_cong)
      (auto simp: state_at_row [OF assms])
  also have "\<dots> = map ?h (sort_key (?k \<circ> wp_workspace_id) ?ws)"
    by (simp add: sort_key_map comp_def rank_at_def)
  finally have "map (wp_workspace_id \<circ> fst) (lane_rows db ?st excluded)
      = map wp_workspace_id (sort_key (?k \<circ> wp_workspace_id) ?ws)" by simp
  also have "\<dots> = sort_key ?k (filter ?P (board_ids db))"
    by (simp add: sort_key_map filter_map comp_def)
  also have "\<dots> = filter (\<lambda>i. i \<noteq> excluded) (lane_ids db s)"
    unfolding lane_ids_def filter_sort filter_filter by (metis (mono_tags, lifting))
  finally show ?thesis .
qed

text \<open>\<open>load_lane_workspace_ids\<close> succeeds on a consistent board and reads that list.\<close>

lemma traverse_parse_iff:
  assumes "uuid_text_ok E" and "\<forall>i \<in> set is. \<exists>u. i = uuid_to_string E u"
  shows "traverse (\<lambda>i. ok_or (uuid_parse_str E i) e) is = Inr us \<longleftrightarrow> is = map (uuid_to_string E) us"
  using assms(2)
proof (induction "is" arbitrary: us)
  case (Cons i "is")
  then obtain u where u: "i = uuid_to_string E u" by auto
  then have "uuid_parse_str E i = Some u" using uuid_parse_to_string [OF assms(1)] by simp
  with Cons u uuid_to_string_eq_iff [OF assms(1)] show ?case by (cases us) auto
qed auto

lemma load_lane_iff:
  assumes "uuid_text_ok E" and "board_ok E db"
  shows "load_lane_workspace_ids E db s excluded = Inr us \<longleftrightarrow>
    map (uuid_to_string E) us =
      filter (\<lambda>i. i \<noteq> (case excluded of None \<Rightarrow> [] | Some w \<Rightarrow> uuid_to_string E w)) (lane_ids db s)"
proof -
  let ?ex = "case excluded of None \<Rightarrow> [] | Some w \<Rightarrow> uuid_to_string E w"
  let ?is = "filter (\<lambda>i. i \<noteq> ?ex) (lane_ids db s)"
  have "\<forall>i \<in> set ?is. \<exists>u. i = uuid_to_string E u"
    using assms(2) by (auto simp: lane_ids_def board_ok_def)
  then have "traverse (\<lambda>i. ok_or (uuid_parse_str E i) e) ?is = Inr us \<longleftrightarrow> map (uuid_to_string E) us = ?is" for e
    by (subst traverse_parse_iff [OF assms(1)]) auto
  moreover have "load_lane_workspace_ids E db s excluded
      = traverse (\<lambda>i. ok_or (uuid_parse_str E i)
          (corrupt ''workspace board placement contains an invalid workspace identifier'')) ?is"
    unfolding load_lane_workspace_ids_def map_fst_lane_rows [OF assms(2), symmetric] traverse_map
    by (simp add: comp_def case_prod_unfold)
  ultimately show ?thesis by simp
qed

lemma load_lane_all_iff:
  assumes "uuid_text_ok E" and "board_ok E db"
  shows "load_lane_workspace_ids E db s None = Inr us \<longleftrightarrow> map (uuid_to_string E) us = lane_ids db s"
proof -
  have "[] \<notin> set (lane_ids db s)"
    using assms by (auto simp: lane_ids_def board_ok_def uuid_text_ok_def) (metis imageI)
  then have "filter (\<lambda>i. i \<noteq> []) (lane_ids db s) = lane_ids db s"
    by (auto simp: filter_id_conv)
  then show ?thesis using load_lane_iff [OF assms] by simp
qed

lemma sort_key_unique:
  assumes "distinct xs" "distinct ys" "set xs = set ys" "sorted (map (\<lambda>i. (f i, i)) ys)"
  shows "sort_key (\<lambda>i. (f i, i)) xs = ys"
  using assms by (intro sort_key_inj_key_eq) (auto simp: set_eq_iff_mset_eq_distinct inj_on_def)

lemma distinct_lane_ids: "board_ok E db \<Longrightarrow> distinct (lane_ids db s)"
  by (simp add: lane_ids_def board_ok_def)

lemma set_lane_ids:
  "i \<in> set (lane_ids db s) \<longleftrightarrow>
     i \<in> set (board_ids db) \<and> state_at db i = workflow_state_storage s \<and> \<not> tombstoned db i"
  by (auto simp: lane_ids_def)

subsection \<open>What the writes do\<close>

text \<open>The board after a change of placement rows that keeps their identifiers.\<close>

definition same_but_placement :: "Db \<Rightarrow> Db \<Rightarrow> bool" where
  "same_but_placement db db' \<longleftrightarrow>
     (\<exists>rows. db' = db\<lparr>board_placement := rows\<rparr>)
     \<and> map bp_workspace_id (board_placement db') = map bp_workspace_id (board_placement db)"

lemma same_but_placement_refl: "same_but_placement db db"
  unfolding same_but_placement_def by (intro conjI exI [of _ "board_placement db"]) simp_all

lemma same_but_placement_trans:
  "same_but_placement a b \<Longrightarrow> same_but_placement b c \<Longrightarrow> same_but_placement a c"
  by (auto simp: same_but_placement_def)

lemma placement_of_update:
  assumes "\<And>r. bp_workspace_id (f r) = bp_workspace_id r"
  shows "placement_of (db\<lparr>board_placement :=
      map (\<lambda>r. if bp_workspace_id r = i then f r else r) (board_placement db)\<rparr>) x
    = (if x = i then map_option f (placement_of db x) else placement_of db x)"
proof -
  have "find (\<lambda>r. bp_workspace_id r = x) (map (\<lambda>r. if bp_workspace_id r = i then f r else r) rows)
      = map_option (\<lambda>r. if bp_workspace_id r = i then f r else r) (find (\<lambda>r. bp_workspace_id r = x) rows)"
    for rows by (rule find_key_map) (simp add: assms)
  note eq = this
  show ?thesis
  proof (cases "placement_of db x")
    case None
    then show ?thesis using eq by (auto simp: placement_of_def)
  next
    case (Some r)
    then have "bp_workspace_id r = x" using placement_of_Some by blast
    with Some eq show ?thesis by (auto simp: placement_of_def)
  qed
qed

lemma workflow_of_update:
  assumes "\<And>r. wp_workspace_id (f r) = wp_workspace_id r"
  shows "workflow_of (db\<lparr>workflow_projection :=
      map (\<lambda>r. if wp_workspace_id r = i \<and> P r then f r else r) (workflow_projection db)\<rparr>) x
    = map_option (\<lambda>r. if x = i \<and> P r then f r else r) (workflow_of db x)"
proof -
  have "find (\<lambda>r. wp_workspace_id r = x) (map (\<lambda>r. if wp_workspace_id r = i \<and> P r then f r else r) rows)
      = map_option (\<lambda>r. if wp_workspace_id r = i \<and> P r then f r else r) (find (\<lambda>r. wp_workspace_id r = x) rows)"
    for rows by (rule find_key_map) (simp add: assms)
  note eq = this
  show ?thesis
  proof (cases "workflow_of db x")
    case None
    then show ?thesis using eq by (auto simp: workflow_of_def)
  next
    case (Some r)
    then have "wp_workspace_id r = x" using workflow_of_Some by blast
    with Some eq show ?thesis by (auto simp: workflow_of_def)
  qed
qed

definition moved_row :: "int \<Rightarrow> int \<Rightarrow> PlacementRow \<Rightarrow> PlacementRow" where
  "moved_row rank t r = r\<lparr>bp_rank := rank, bp_updated_at := t\<rparr>"

lemma bp_workspace_id_moved_row [simp]:
  "bp_workspace_id (moved_row rank t r) = bp_workspace_id r" "bp_rank (moved_row rank t r) = rank"
  "bp_mode (moved_row rank t r) = bp_mode r"
  by (simp_all add: moved_row_def)

lemma apply_lane_order_from_Inr:
  assumes "apply_lane_order_from E i ws t db = Inr db'" and "distinct (map (uuid_to_string E) ws)"
  shows "same_but_placement db db'"
    and "\<forall>k < length ws. placement_of db' (uuid_to_string E (ws ! k))
           = map_option (moved_row (int (i + k)) t) (placement_of db (uuid_to_string E (ws ! k)))"
    and "\<forall>x. x \<notin> uuid_to_string E ` set ws \<longrightarrow> placement_of db' x = placement_of db x"
proof -
  have "same_but_placement db db'
    \<and> (\<forall>k < length ws. placement_of db' (uuid_to_string E (ws ! k))
           = map_option (moved_row (int (i + k)) t) (placement_of db (uuid_to_string E (ws ! k))))
    \<and> (\<forall>x. x \<notin> uuid_to_string E ` set ws \<longrightarrow> placement_of db' x = placement_of db x)"
    using assms
  proof (induction E i ws t db rule: apply_lane_order_from.induct)
    case (2 E i w ws t db)
    let ?S = "uuid_to_string E"
    let ?rows = "map (\<lambda>r. if bp_workspace_id r = ?S w then r\<lparr>bp_rank := int i, bp_updated_at := t\<rparr> else r) (board_placement db)"
    let ?db1 = "db\<lparr>board_placement := ?rows\<rparr>"
    have rest: "apply_lane_order_from E (Suc i) ws t ?db1 = Inr db'"
      and one: "length (filter (\<lambda>r. bp_workspace_id r = ?S w) (board_placement db)) = 1"
      and ok: "\<forall>r \<in> set (board_placement db). bp_workspace_id r = ?S w \<longrightarrow>
                 placement_check (r\<lparr>bp_rank := int i, bp_updated_at := t\<rparr>)"
      and i: "i64_try_from i = Some (int i)"
      using "2.prems"(1) by auto
    have upd: "update_rows placement_check (\<lambda>r. bp_workspace_id r = ?S w)
        (\<lambda>r. r\<lparr>bp_rank := int i, bp_updated_at := t\<rparr>) (board_placement db) = Inr (1, ?rows)"
      using ok one by simp
    have IH: "same_but_placement ?db1 db'
        \<and> (\<forall>k < length ws. placement_of db' (?S (ws ! k))
             = map_option (moved_row (int (Suc i + k)) t) (placement_of ?db1 (?S (ws ! k))))
        \<and> (\<forall>x. x \<notin> ?S ` set ws \<longrightarrow> placement_of db' x = placement_of ?db1 x)"
      using "2.prems"(2) rest i upd by (intro "2.IH" [of "int i" "(1, ?rows)" 1 ?rows]) simp_all
    have "same_but_placement db ?db1"
      unfolding same_but_placement_def by (intro conjI exI [of _ ?rows]) (simp_all add: comp_def)
    moreover have at: "placement_of ?db1 x
        = (if x = ?S w then map_option (moved_row (int i) t) (placement_of db x) else placement_of db x)" for x
      unfolding moved_row_def by (rule placement_of_update) simp
    moreover have "?S w \<notin> ?S ` set ws" using "2.prems"(2) by simp
    ultimately have first: "placement_of db' (?S w) = map_option (moved_row (int i) t) (placement_of db (?S w))"
      using IH by simp
    have ne: "?S (ws ! k) \<noteq> ?S w" if "k < length ws" for k
      using \<open>?S w \<notin> ?S ` set ws\<close> that by (metis imageI nth_mem)
    have "placement_of db' (?S ((w # ws) ! k)) = map_option (moved_row (int (i + k)) t) (placement_of db (?S ((w # ws) ! k)))"
      if "k < length (w # ws)" for k
    proof (cases k)
      case (Suc l)
      with that have l: "l < length ws" by simp
      with IH ne [OF l] at [of "?S (ws ! l)"] Suc show ?thesis by simp
    qed (use first in simp)
    moreover have "placement_of db' x = placement_of db x" if "x \<notin> ?S ` set (w # ws)" for x
      using that IH at [of x] by simp
    moreover have "same_but_placement db db'"
      using IH \<open>same_but_placement db ?db1\<close> same_but_placement_trans by blast
    ultimately show ?case by blast
  qed (simp add: same_but_placement_refl)
  then show "same_but_placement db db'"
    "\<forall>k < length ws. placement_of db' (uuid_to_string E (ws ! k))
           = map_option (moved_row (int (i + k)) t) (placement_of db (uuid_to_string E (ws ! k)))"
    "\<forall>x. x \<notin> uuid_to_string E ` set ws \<longrightarrow> placement_of db' x = placement_of db x"
    by blast+
qed


text \<open>The two events a change appends and the rows it leaves.\<close>

definition board_event ::
    "Env \<Rightarrow> uuid \<Rightarrow> uuid \<Rightarrow> str \<Rightarrow> WorkspaceWorkflowSummary \<Rightarrow> WorkspaceWorkflowSummary \<Rightarrow> str \<Rightarrow> BoardEventRow" where
  "board_event E u w ty old new json =
     \<lparr>be_event_id = uuid_to_string E u, be_workspace_id = uuid_to_string E w, be_event_type = ty,
      be_from_state = workflow_state_storage (wf_state old),
      be_to_state = workflow_state_storage (wf_state new),
      be_from_mode = board_placement_mode_storage (placement_mode (wf_placement old)),
      be_to_mode = board_placement_mode_storage (placement_mode (wf_placement new)),
      be_from_rank = int (placement_rank (wf_placement old)),
      be_to_rank = int (placement_rank (wf_placement new)),
      be_revision = int (wf_revision new), be_event_json = json,
      be_created_at = wf_updated_at_unix_ms new\<rparr>"

lemma insert_board_event_Inr_iff:
  "insert_board_event r db = Inr db' \<longleftrightarrow>
     insert_board_event r db \<noteq> Inl Database \<and> db' = db\<lparr>board_events := board_events db @ [r]\<rparr>"
  by (auto simp: insert_board_event_def ensure_def)

lemma insert_workflow_event_Inr_iff:
  "insert_workflow_event r db = Inr db' \<longleftrightarrow>
     insert_workflow_event r db \<noteq> Inl Database \<and> db' = db\<lparr>workflow_events := workflow_events db @ [r]\<rparr>"
  by (auto simp: insert_workflow_event_def ensure_def)

lemma update_board_rows_Inr_iff:
  "update_board_rows w expected st revision m rank t db = Inr db' \<longleftrightarrow>
     (\<forall>r \<in> set (workflow_projection db). wp_workspace_id r = w \<and> wp_revision r = expected \<longrightarrow>
        workflow_check (r\<lparr>wp_state := st, wp_revision := revision, wp_updated_at := t\<rparr>))
     \<and> length (filter (\<lambda>r. wp_workspace_id r = w \<and> wp_revision r = expected) (workflow_projection db)) = 1
     \<and> (\<forall>r \<in> set (board_placement db). bp_workspace_id r = w \<longrightarrow>
        placement_check (r\<lparr>bp_mode := m, bp_rank := rank, bp_updated_at := t\<rparr>))
     \<and> length (filter (\<lambda>r. bp_workspace_id r = w) (board_placement db)) = 1
     \<and> db' = db\<lparr>workflow_projection := map (\<lambda>r. if wp_workspace_id r = w \<and> wp_revision r = expected
              then r\<lparr>wp_state := st, wp_revision := revision, wp_updated_at := t\<rparr> else r) (workflow_projection db),
           board_placement := map (\<lambda>r. if bp_workspace_id r = w
              then r\<lparr>bp_mode := m, bp_rank := rank, bp_updated_at := t\<rparr> else r) (board_placement db)\<rparr>"
  by (auto simp: update_board_rows_def)

text \<open>The columns of the two rows of a workspace after a change.\<close>

definition changed_workflow :: "WorkspaceWorkflowSummary \<Rightarrow> WorkflowRow \<Rightarrow> WorkflowRow" where
  "changed_workflow s r = r\<lparr>wp_state := workflow_state_storage (wf_state s),
     wp_revision := int (wf_revision s), wp_updated_at := wf_updated_at_unix_ms s\<rparr>"

definition changed_placement :: "WorkspaceWorkflowSummary \<Rightarrow> PlacementRow \<Rightarrow> PlacementRow" where
  "changed_placement s r = r\<lparr>bp_mode := board_placement_mode_storage (placement_mode (wf_placement s)),
     bp_rank := int (placement_rank (wf_placement s)), bp_updated_at := wf_updated_at_unix_ms s\<rparr>"

definition changed_summary ::
    "WorkspaceWorkflowSummary \<Rightarrow> WorkspaceWorkflowState \<Rightarrow> WorkspaceBoardPlacementMode \<Rightarrow> nat \<Rightarrow> int
     \<Rightarrow> WorkspaceWorkflowSummary" where
  "changed_summary current st m rank t =
     \<lparr>wf_state = st, wf_revision = wf_revision current + 1, wf_updated_at_unix_ms = t,
      wf_placement = \<lparr>placement_mode = m, placement_rank = rank\<rparr>\<rparr>"

lemma persist_workflow_change_Inr:
  assumes "persist_workflow_change E A w current st m rank ty t db = Inr (summary, db')"
  shows "summary = changed_summary current st m rank t"
    and "int (wf_revision current + 1) \<le> i64_max" and "int rank \<le> i64_max"
    and "\<exists>u json wes db1. db1 = db\<lparr>workflow_events := workflow_events db @ wes,
           board_events := board_events db @ [board_event E u w ty current summary json]\<rparr>
         \<and> (wes = [] \<longleftrightarrow> st = wf_state current)
         \<and> insert_board_event (board_event E u w ty current summary json)
              (db\<lparr>workflow_events := workflow_events db @ wes\<rparr>) = Inr db1
         \<and> update_board_rows (uuid_to_string E w) (int (wf_revision current))
             (workflow_state_storage st) (int (wf_revision current + 1))
             (board_placement_mode_storage m) (int rank) t db1 = Inr db'"
proof -
  obtain db1 db2 where a: "if wf_state current \<noteq> st
        then append_workflow_event E (draw A 0) w current st (wf_revision current + 1) (int (wf_revision current + 1)) t db = Inr db1
        else db1 = db"
    and b: "append_board_event E (draw A (if wf_state current \<noteq> st then 1 else 0)) w ty current st m rank (int rank)
        (wf_revision current + 1) (int (wf_revision current + 1)) t db1 = Inr db2"
    and c: "update_board_rows (uuid_to_string E w) (int (wf_revision current))
        (workflow_state_storage st) (int (wf_revision current + 1)) (board_placement_mode_storage m) (int rank) t db2 = Inr db'"
    and sum: "summary = changed_summary current st m rank t"
    and le: "int (wf_revision current + 1) \<le> i64_max" "int rank \<le> i64_max"
    using assms unfolding persist_workflow_change_def changed_summary_def
    by (auto split: if_splits)
  show "summary = changed_summary current st m rank t" "int (wf_revision current + 1) \<le> i64_max" "int rank \<le> i64_max"
    by (fact sum le)+
  obtain wes where db1: "db1 = db\<lparr>workflow_events := workflow_events db @ wes\<rparr>"
      "wes = [] \<longleftrightarrow> st = wf_state current"
  proof (cases "wf_state current = st")
    case True
    with a that [of "[]"] show ?thesis by simp
  next
    case False
    with a obtain r where "insert_workflow_event r db = Inr db1"
      by (auto simp: append_workflow_event_def)
    with False that [of "[r]"] show ?thesis by (auto simp: insert_workflow_event_Inr_iff)
  qed
  from b obtain u json where b': "insert_board_event (board_event E u w ty current summary json) db1 = Inr db2"
    unfolding append_board_event_def sum board_event_def changed_summary_def by (auto simp: Let_def)
  then have "db2 = db1\<lparr>board_events := board_events db1 @ [board_event E u w ty current summary json]\<rparr>"
    by (simp add: insert_board_event_Inr_iff)
  with db1 b' c show "\<exists>u json wes db1. db1 = db\<lparr>workflow_events := workflow_events db @ wes,
           board_events := board_events db @ [board_event E u w ty current summary json]\<rparr>
         \<and> (wes = [] \<longleftrightarrow> st = wf_state current)
         \<and> insert_board_event (board_event E u w ty current summary json)
              (db\<lparr>workflow_events := workflow_events db @ wes\<rparr>) = Inr db1
         \<and> update_board_rows (uuid_to_string E w) (int (wf_revision current))
             (workflow_state_storage st) (int (wf_revision current + 1))
             (board_placement_mode_storage m) (int rank) t db1 = Inr db'"
    by (intro exI [of _ u] exI [of _ json] exI [of _ wes] exI [of _ db2]) simp
qed

abbreviation placement_row_ok :: "PlacementRow \<Rightarrow> bool" where
  "placement_row_ok r \<equiv> placement_check r \<and> bp_rank r \<le> i64_max"

lemma apply_lane_order_from_rows_ok:
  assumes "apply_lane_order_from E i ws t db = Inr db'" and "\<forall>r \<in> set (board_placement db). placement_row_ok r"
  shows "\<forall>r \<in> set (board_placement db'). placement_row_ok r"
  using assms
proof (induction E i ws t db rule: apply_lane_order_from.induct)
  case (2 E i w ws t db)
  let ?rows = "map (\<lambda>r. if bp_workspace_id r = uuid_to_string E w then r\<lparr>bp_rank := int i, bp_updated_at := t\<rparr> else r) (board_placement db)"
  have ok: "\<forall>r \<in> set (board_placement db). bp_workspace_id r = uuid_to_string E w \<longrightarrow>
        placement_check (r\<lparr>bp_rank := int i, bp_updated_at := t\<rparr>)"
    and le: "int i \<le> i64_max"
    and one: "length (filter (\<lambda>r. bp_workspace_id r = uuid_to_string E w) (board_placement db)) = 1"
    and rest: "apply_lane_order_from E (Suc i) ws t (db\<lparr>board_placement := ?rows\<rparr>) = Inr db'"
    using "2.prems"(1) by auto
  have "\<forall>r \<in> set ?rows. placement_row_ok r" using ok le "2.prems"(2) by auto
  then show ?case
    using rest le ok one by (intro "2.IH" [of "int i" "(1, ?rows)" 1 ?rows]) simp_all
qed simp

text \<open>
  A lane list is written by \<open>apply_lane_order\<close> so that its workspaces get their positions as ranks
  and the others keep theirs; a step that may be skipped is the identity.
\<close>

definition reordered_by :: "Env \<Rightarrow> Db \<Rightarrow> uuid list \<Rightarrow> Db \<Rightarrow> bool" where
  "reordered_by E db ws db' \<longleftrightarrow>
     same_but_placement db db'
     \<and> (\<forall>k < length ws. rank_at db' (uuid_to_string E (ws ! k)) = int k)
     \<and> (\<forall>x. x \<notin> uuid_to_string E ` set ws \<longrightarrow> placement_of db' x = placement_of db x)
     \<and> (\<forall>x. map_option bp_mode (placement_of db' x) = map_option bp_mode (placement_of db x))"

lemma same_but_placement_simps:
  assumes "same_but_placement db db'"
  shows "workflow_projection db' = workflow_projection db" "tombstone_events db' = tombstone_events db"
    "workflow_events db' = workflow_events db" "board_events db' = board_events db"
    "created_events db' = created_events db" "projection db' = projection db"
    "lifecycle_projection db' = lifecycle_projection db"
    "map bp_workspace_id (board_placement db') = map bp_workspace_id (board_placement db)"
    "workflow_of db' = workflow_of db" "state_at db' = state_at db" "tombstoned db' = tombstoned db"
  using assms by (auto simp: same_but_placement_def workflow_of_def state_at_def tombstoned_def fun_eq_iff)

lemma board_ok_same_but_placement:
  assumes "board_ok E db" "same_but_placement db db'" "\<forall>r \<in> set (board_placement db'). placement_row_ok r"
  shows "board_ok E db'"
proof -
  note s = same_but_placement_simps [OF assms(2)]
  have "set (map bp_workspace_id (board_placement db')) = set (map bp_workspace_id (board_placement db))"
    by (simp only: s(8))
  with assms(1,3) s(1,8) show ?thesis unfolding board_ok_def by metis
qed

lemma apply_lane_order_Inr:
  assumes "uuid_text_ok E" "board_ok E db" "apply_lane_order E ws t db = Inr db'" "distinct ws"
    "uuid_to_string E ` set ws \<subseteq> set (board_ids db)"
  shows "reordered_by E db ws db'" and "board_ok E db'"
proof -
  let ?S = "uuid_to_string E"
  have dist: "distinct (map ?S ws)"
    using assms(4) by (simp add: distinct_map inj_on_def uuid_to_string_eq_iff [OF assms(1)])
  note eff = apply_lane_order_from_Inr [OF assms(3) [unfolded apply_lane_order_def] dist]
  have "rank_at db' (?S (ws ! k)) = int k" if k: "k < length ws" for k
  proof -
    have "?S (ws ! k) \<in> set (board_ids db)" using assms(5) k by (meson image_subset_iff nth_mem subsetD)
    then obtain row where "placement_of db (?S (ws ! k)) = Some row"
      using board_ok_find assms(2) by blast
    with eff(2) k show ?thesis by (simp add: rank_at_def)
  qed
  moreover have "map_option bp_mode (placement_of db' x) = map_option bp_mode (placement_of db x)" for x
  proof (cases "x \<in> ?S ` set ws")
    case True
    then obtain k where "k < length ws" "x = ?S (ws ! k)" by (auto simp: in_set_conv_nth)
    then show ?thesis using eff(2) by (simp add: option.map_comp comp_def)
  qed (use eff(3) in simp)
  ultimately show "reordered_by E db ws db'" using eff by (simp add: reordered_by_def)
  have "\<forall>r \<in> set (board_placement db'). placement_row_ok r"
    using apply_lane_order_from_rows_ok assms(2,3) unfolding apply_lane_order_def board_ok_def by blast
  then show "board_ok E db'" using board_ok_same_but_placement assms(2) eff(1) by blast
qed

lemma reordered_by_Nil: "reordered_by E db [] db"
  by (simp add: reordered_by_def same_but_placement_refl)

text \<open>The change itself, on the rows of the workspace.\<close>

lemma update_board_rows_effect:
  assumes "uuid_text_ok E" "board_ok E db" "load_workflow E db w = Inr current"
    "update_board_rows (uuid_to_string E w) (int (wf_revision current))
       (workflow_state_storage st) (int (wf_revision current + 1))
       (board_placement_mode_storage m) (int rank) t db = Inr db'"
    "int (wf_revision current + 1) \<le> i64_max" "int rank \<le> i64_max"
    and s: "s = changed_summary current st m rank t"
  shows "board_ids db' = board_ids db"
    and "\<And>x. workflow_of db' x = (if x = uuid_to_string E w then map_option (changed_workflow s) (workflow_of db x) else workflow_of db x)"
    and "\<And>x. placement_of db' x = (if x = uuid_to_string E w then map_option (changed_placement s) (placement_of db x) else placement_of db x)"
    and "board_ok E db'" and "load_workflow E db' w = Inr s"
proof -
  let ?W = "uuid_to_string E w"
  let ?wf = "changed_workflow s" and ?bp = "changed_placement s"
  let ?isw = "\<lambda>r. wp_workspace_id r = ?W \<and> wp_revision r = int (wf_revision current)"
  note upd = assms(4) [unfolded update_board_rows_Inr_iff]
  have db': "db' = db\<lparr>workflow_projection := map (\<lambda>r. if ?isw r then ?wf r else r) (workflow_projection db),
      board_placement := map (\<lambda>r. if bp_workspace_id r = ?W then ?bp r else r) (board_placement db)\<rparr>"
    using upd unfolding changed_workflow_def changed_placement_def s changed_summary_def by simp
  have wchk: "\<forall>r \<in> set (workflow_projection db). ?isw r \<longrightarrow> workflow_check (?wf r)"
    and bchk: "\<forall>r \<in> set (board_placement db). bp_workspace_id r = ?W \<longrightarrow> placement_check (?bp r)"
    using upd unfolding changed_workflow_def changed_placement_def s changed_summary_def by simp_all
  obtain wrow prow where rows: "workflow_of db ?W = Some wrow" "placement_of db ?W = Some prow"
      "wp_revision wrow = int (wf_revision current)"
    using assms(3) unfolding load_workflow_iff by auto
  have id: "wp_workspace_id (?wf r) = wp_workspace_id r" for r by (simp add: changed_workflow_def)
  have id': "bp_workspace_id (?bp r) = bp_workspace_id r" for r by (simp add: changed_placement_def)
  show ids: "board_ids db' = board_ids db" using id by (simp add: db' comp_def)
  show wf: "workflow_of db' x = (if x = ?W then map_option ?wf (workflow_of db x) else workflow_of db x)" for x
  proof -
    have "workflow_of db' x = workflow_of (db\<lparr>workflow_projection :=
        map (\<lambda>r. if wp_workspace_id r = ?W \<and> wp_revision r = int (wf_revision current) then ?wf r else r) (workflow_projection db)\<rparr>) x"
      by (simp add: db' workflow_of_def)
    also have "\<dots> = map_option (\<lambda>r. if x = ?W \<and> wp_revision r = int (wf_revision current) then ?wf r else r) (workflow_of db x)"
      by (rule workflow_of_update) (rule id)
    finally show ?thesis using rows by (auto simp: option.map_ident)
  qed
  show bp: "placement_of db' x = (if x = ?W then map_option ?bp (placement_of db x) else placement_of db x)" for x
  proof -
    have "placement_of db' x = placement_of (db\<lparr>board_placement :=
        map (\<lambda>r. if bp_workspace_id r = ?W then ?bp r else r) (board_placement db)\<rparr>) x"
      by (simp add: db' placement_of_def)
    also have "\<dots> = (if x = ?W then map_option ?bp (placement_of db x) else placement_of db x)"
      by (rule placement_of_update) (rule id')
    finally show ?thesis .
  qed
  have rev_ok: "wp_revision (?wf r) \<le> i64_max" "bp_rank (?bp r') \<le> i64_max" for r r'
    using assms(5,6) by (simp_all add: changed_workflow_def changed_placement_def s changed_summary_def)
  have bids: "map bp_workspace_id (board_placement db') = map bp_workspace_id (board_placement db)"
    using id' by (simp add: db' comp_def)
  have "set (map bp_workspace_id (board_placement db')) = set (map bp_workspace_id (board_placement db))"
    by (simp only: bids)
  moreover have "\<forall>r \<in> set (workflow_projection db'). workflow_check r \<and> wp_revision r \<le> i64_max"
    using assms(2) wchk rev_ok by (auto simp: db' board_ok_def)
  moreover have "\<forall>r \<in> set (board_placement db'). placement_row_ok r"
    using assms(2) bchk rev_ok by (auto simp: db' board_ok_def)
  ultimately show ok: "board_ok E db'"
    using assms(2) unfolding board_ok_def ids bids by blast
  have mem: "wrow \<in> set (workflow_projection db)" "prow \<in> set (board_placement db)"
      "wp_workspace_id wrow = ?W" "bp_workspace_id prow = ?W"
    using workflow_of_Some [OF rows(1)] placement_of_Some [OF rows(2)] by auto
  then have "workflow_check (?wf wrow)" "placement_check (?bp prow)" using wchk bchk rows(3) by auto
  moreover have "workflow_of db' ?W = Some (?wf wrow)" "placement_of db' ?W = Some (?bp prow)"
    using rows wf bp by simp_all
  ultimately show "load_workflow E db' w = Inr s"
    unfolding load_workflow_iff using assms(5,6)
    by (auto simp: changed_workflow_def changed_placement_def workflow_codec.decode_encode
        mode_codec.decode_encode workflow_check_def placement_check_def s changed_summary_def
        i64_max_def u64_max_def)
qed

subsection \<open>Lanes after a move\<close>

lemma workflow_storage_of_read:
  "s \<in> set workflow_state_names \<Longrightarrow> workflow_state_from_storage s = Inr x \<longleftrightarrow> s = workflow_state_storage x"
  unfolding workflow_state_names_iff by (auto simp: workflow_codec.decode_encode workflow_codec.encode_eq_iff)

lemma state_at_current:
  assumes "board_ok E db" "load_workflow E db w = Inr current"
  shows "state_at db (uuid_to_string E w) = workflow_state_storage (wf_state current)"
    and "uuid_to_string E w \<in> set (board_ids db)"
proof -
  obtain wrow where row: "workflow_of db (uuid_to_string E w) = Some wrow"
      "workflow_state_from_storage (wp_state wrow) = Inr (wf_state current)"
    using assms(2) unfolding load_workflow_iff by auto
  then have mem: "wrow \<in> set (workflow_projection db)" "wp_workspace_id wrow = uuid_to_string E w"
    using workflow_of_Some by auto
  with assms(1) have "wp_state wrow \<in> set workflow_state_names"
    by (auto simp: board_ok_def workflow_check_def)
  with row show "state_at db (uuid_to_string E w) = workflow_state_storage (wf_state current)"
    by (simp only: workflow_storage_of_read state_at_def option.sel)
  show "uuid_to_string E w \<in> set (board_ids db)" using mem by force
qed

lemma sorted_by_position:
  assumes "\<And>k. k < length ys \<Longrightarrow> f (ys ! k) = int k"
  shows "sorted (map (\<lambda>i. (f i, i)) ys)"
  unfolding sorted_iff_nth_mono
proof (intro allI impI)
  fix i j assume "i \<le> j" "j < length (map (\<lambda>i. (f i, i)) ys)"
  then show "map (\<lambda>i. (f i, i)) ys ! i \<le> map (\<lambda>i. (f i, i)) ys ! j"
    using assms [of i] assms [of j] by (cases "i = j") auto
qed

lemma lane_ids_eqI:
  assumes "board_ok E db" "distinct ys"
    and "\<And>i. i \<in> set ys \<longleftrightarrow> i \<in> set (board_ids db) \<and> state_at db i = workflow_state_storage s \<and> \<not> tombstoned db i"
    and "\<And>k. k < length ys \<Longrightarrow> rank_at db (ys ! k) = int k"
  shows "lane_ids db s = ys"
proof -
  have "sort_key (\<lambda>i. (rank_at db i, i))
      (filter (\<lambda>i. state_at db i = workflow_state_storage s \<and> \<not> tombstoned db i) (board_ids db)) = ys"
  proof (rule sort_key_unique)
    show "sorted (map (\<lambda>i. (rank_at db i, i)) ys)" using assms(4) by (rule sorted_by_position)
    show "distinct (filter (\<lambda>i. state_at db i = workflow_state_storage s \<and> \<not> tombstoned db i) (board_ids db))"
      using assms(1) by (simp add: board_ok_def)
    show "set (filter (\<lambda>i. state_at db i = workflow_state_storage s \<and> \<not> tombstoned db i) (board_ids db)) = set ys"
      using assms(3) by auto
  qed (fact assms(2))
  then show ?thesis by (simp add: lane_ids_def)
qed

lemma lane_ids_cong:
  assumes "board_ok E db" "board_ids db' = board_ids db" "tombstoned db' = tombstoned db"
    and "\<And>i. i \<in> set (board_ids db) \<Longrightarrow>
          state_at db' i = workflow_state_storage s \<longleftrightarrow> state_at db i = workflow_state_storage s"
    and "\<And>i. i \<in> set (lane_ids db s) \<Longrightarrow> rank_at db' i = rank_at db i"
  shows "lane_ids db' s = lane_ids db s"
proof -
  have "sorted (map (\<lambda>i. (rank_at db i, i)) (lane_ids db s))" by (simp add: lane_ids_def)
  then have "sorted (map (\<lambda>i. (rank_at db' i, i)) (lane_ids db s))"
    using assms(5) by (simp cong: map_cong)
  moreover have "set (filter (\<lambda>i. state_at db' i = workflow_state_storage s \<and> \<not> tombstoned db' i) (board_ids db'))
      = set (lane_ids db s)"
    unfolding assms(2,3) using assms(4) by (auto simp: set_lane_ids)
  moreover have "distinct (filter (\<lambda>i. state_at db' i = workflow_state_storage s \<and> \<not> tombstoned db' i) (board_ids db'))"
    unfolding assms(2) using assms(1) by (simp add: board_ok_def)
  ultimately show ?thesis
    unfolding lane_ids_def [of db'] using distinct_lane_ids [OF assms(1)] by (intro sort_key_unique)
qed

text \<open>What loading a lane without one workspace says of its members.\<close>

lemma loaded_lane:
  assumes "uuid_text_ok E" "board_ok E db" "load_lane_workspace_ids E db s (Some w) = Inr us"
  shows "map (uuid_to_string E) us = filter (\<lambda>i. i \<noteq> uuid_to_string E w) (lane_ids db s)"
    and "distinct us" and "u \<in> set us \<longleftrightarrow> uuid_to_string E u \<in> set (lane_ids db s) \<and> u \<noteq> w"
proof -
  have inj: "inj (uuid_to_string E)" using uuid_to_string_eq_iff [OF assms(1)] by (simp add: inj_def)
  show m: "map (uuid_to_string E) us = filter (\<lambda>i. i \<noteq> uuid_to_string E w) (lane_ids db s)"
    using load_lane_iff [OF assms(1,2), of s "Some w" us] assms(3) by simp
  then have "distinct (map (uuid_to_string E) us)" using distinct_lane_ids [OF assms(2)] by simp
  then show "distinct us" by (simp add: distinct_map)
  have "u \<in> set us \<longleftrightarrow> uuid_to_string E u \<in> set (map (uuid_to_string E) us)"
    using inj by (simp add: inj_image_mem_iff)
  then show "u \<in> set us \<longleftrightarrow> uuid_to_string E u \<in> set (lane_ids db s) \<and> u \<noteq> w"
    unfolding m using uuid_to_string_eq_iff [OF assms(1)] by auto
qed

text \<open>
  The effect of a change on the board: the workspace has the new state and rank, the workspaces
  of the two written lanes have their positions as ranks, and nothing else has changed.
\<close>

definition board_step ::
    "Env \<Rightarrow> Db \<Rightarrow> Db \<Rightarrow> uuid \<Rightarrow> WorkspaceWorkflowState \<Rightarrow> nat \<Rightarrow> uuid list \<Rightarrow> uuid list \<Rightarrow> bool" where
  "board_step E db db' w st rank source target \<longleftrightarrow>
     board_ok E db' \<and> board_ids db' = board_ids db \<and> tombstoned db' = tombstoned db
     \<and> (\<forall>x. state_at db' x = (if x = uuid_to_string E w then workflow_state_storage st else state_at db x))
     \<and> rank_at db' (uuid_to_string E w) = int rank
     \<and> (\<forall>k < length source. source ! k \<noteq> w \<longrightarrow> source ! k \<notin> set target \<longrightarrow>
          rank_at db' (uuid_to_string E (source ! k)) = int k)
     \<and> (\<forall>k < length target. target ! k \<noteq> w \<longrightarrow> rank_at db' (uuid_to_string E (target ! k)) = int k)
     \<and> (\<forall>x. x \<notin> uuid_to_string E ` insert w (set source \<union> set target) \<longrightarrow> rank_at db' x = rank_at db x)"

lemma persist_effect:
  assumes env: "uuid_text_ok E" and ok: "board_ok E db2" and cur: "load_workflow E db w = Inr current"
    and same: "same_but_placement db db2"
    and modes: "\<forall>x. map_option bp_mode (placement_of db2 x) = map_option bp_mode (placement_of db x)"
    and per: "persist_workflow_change E A w current st m rank ty t db2 = Inr (summary, db')"
  shows "board_ok E db'" and "load_workflow E db' w = Inr summary" and "board_ids db' = board_ids db"
    and "tombstoned db' = tombstoned db"
    and "state_at db' x = (if x = uuid_to_string E w then workflow_state_storage st else state_at db x)"
    and "rank_at db' x = (if x = uuid_to_string E w then int rank else rank_at db2 x)"
proof -
  let ?S = "uuid_to_string E"
  note eq = same_but_placement_simps [OF same]
  obtain wrow prow where row: "workflow_of db (?S w) = Some wrow" "placement_of db (?S w) = Some prow"
    using cur unfolding load_workflow_iff by auto
  then obtain prow2 where prow2: "placement_of db2 (?S w) = Some prow2" "bp_mode prow2 = bp_mode prow"
    using modes by (metis (no_types, lifting) map_option_eq_Some)
  define cur2 where "cur2 = current\<lparr>wf_placement := (wf_placement current)\<lparr>placement_rank := nat (bp_rank prow2)\<rparr>\<rparr>"
  have "placement_row_ok prow2" using placement_of_Some [OF prow2(1)] ok by (auto simp: board_ok_def)
  then have load2: "load_workflow E db2 w = Inr cur2"
    using cur row prow2 eq(9) unfolding load_workflow_iff cur2_def
    by (auto simp: placement_check_def i64_max_def u64_max_def)
  note p = persist_workflow_change_Inr [OF per]
  obtain u json wes db3 where db3: "db3 = db2\<lparr>workflow_events := workflow_events db2 @ wes,
        board_events := board_events db2 @ [board_event E u w ty current summary json]\<rparr>"
    and upd: "update_board_rows (?S w) (int (wf_revision current)) (workflow_state_storage st)
        (int (wf_revision current + 1)) (board_placement_mode_storage m) (int rank) t db3 = Inr db'"
    using p(4) by auto
  have at3: "workflow_of db3 = workflow_of db" "placement_of db3 = placement_of db2"
      "board_ids db3 = board_ids db" "board_ok E db3" "load_workflow E db3 w = Inr cur2"
    using ok eq load2 by (simp_all add: db3 workflow_of_def placement_of_def fun_eq_iff board_ok_def load_workflow_def)
  have sum: "summary = changed_summary cur2 st m rank t" "wf_revision cur2 = wf_revision current"
    using p(1) by (simp_all add: changed_summary_def cur2_def)
  note eff = update_board_rows_effect [OF env at3(4,5), of st m rank t db' summary]
  have eff': "board_ids db' = board_ids db3"
      "\<And>x. workflow_of db' x = (if x = ?S w then map_option (changed_workflow summary) (workflow_of db3 x) else workflow_of db3 x)"
      "\<And>x. placement_of db' x = (if x = ?S w then map_option (changed_placement summary) (placement_of db3 x) else placement_of db3 x)"
      "board_ok E db'" "load_workflow E db' w = Inr summary"
    using eff upd p(2,3) sum by simp_all
  show "board_ok E db'" "load_workflow E db' w = Inr summary" by (fact eff')+
  show "board_ids db' = board_ids db" using eff'(1) at3(3) by simp
  have "tombstone_events db' = tombstone_events db"
    using upd eq(2) by (auto simp: update_board_rows_Inr_iff db3)
  then show "tombstoned db' = tombstoned db" by (simp add: tombstoned_def fun_eq_iff)
  show "state_at db' x = (if x = ?S w then workflow_state_storage st else state_at db x)"
    using eff'(2) [of x] at3(1) row(1) p(1)
    by (simp add: state_at_def changed_workflow_def changed_summary_def)
  show "rank_at db' x = (if x = ?S w then int rank else rank_at db2 x)"
    using eff'(3) [of x] at3(2) prow2 p(1)
    by (simp add: rank_at_def changed_placement_def changed_summary_def)
qed

lemma board_stepI:
  assumes env: "uuid_text_ok E" and cur: "load_workflow E db w = Inr current"
    and one: "reordered_by E db source db1" and two: "reordered_by E db1 target db2" "board_ok E db2"
    and per: "persist_workflow_change E A w current st m rank ty t db2 = Inr (summary, db')"
  shows "board_step E db db' w st rank source target" and "load_workflow E db' w = Inr summary"
proof -
  let ?S = "uuid_to_string E"
  have S_eq: "?S u = ?S v \<longleftrightarrow> u = v" for u v using uuid_to_string_eq_iff [OF env] .
  have inj: "?S u \<in> ?S ` X \<longleftrightarrow> u \<in> X" for u X using S_eq by auto
  have same: "same_but_placement db db2"
    using one two(1) same_but_placement_trans by (auto simp: reordered_by_def)
  have "\<forall>x. map_option bp_mode (placement_of db2 x) = map_option bp_mode (placement_of db x)"
    using one two(1) by (simp add: reordered_by_def)
  note eff = persist_effect [OF env two(2) cur same this per]
  show "load_workflow E db' w = Inr summary" by (fact eff(2))
  have "rank_at db' (?S (source ! k)) = int k"
    if "k < length source" "source ! k \<noteq> w" "source ! k \<notin> set target" for k
    using that one two(1) inj S_eq unfolding eff(6) by (simp add: reordered_by_def rank_at_def)
  moreover have "rank_at db' (?S (target ! k)) = int k" if "k < length target" "target ! k \<noteq> w" for k
    using that two(1) S_eq unfolding eff(6) by (simp add: reordered_by_def)
  moreover have "rank_at db' x = rank_at db x" if "x \<notin> ?S ` insert w (set source \<union> set target)" for x
  proof -
    have "x \<noteq> ?S w" "x \<notin> ?S ` set source" "x \<notin> ?S ` set target" using that by auto
    with one two(1) have "placement_of db2 x = placement_of db x" by (simp add: reordered_by_def)
    with \<open>x \<noteq> ?S w\<close> show ?thesis unfolding eff(6) by (simp add: rank_at_def)
  qed
  ultimately show "board_step E db db' w st rank source target"
    using eff(1,3,4) eff(5,6) by (simp add: board_step_def)
qed

lemma board_step_simps:
  assumes "board_step E db db' w st rank source target"
  shows "board_ok E db'" "board_ids db' = board_ids db" "tombstoned db' = tombstoned db"
    "state_at db' x = (if x = uuid_to_string E w then workflow_state_storage st else state_at db x)"
  using assms by (simp_all add: board_step_def)

lemma board_step_target_lane:
  assumes env: "uuid_text_ok E" and ok: "board_ok E db" and step: "board_step E db db' w st rank source target"
    and w: "uuid_to_string E w \<in> set (board_ids db)" "\<not> tombstoned db (uuid_to_string E w)"
    and target: "distinct target" "rank < length target" "target ! rank = w"
      "\<And>u. u \<in> set target \<longleftrightarrow> u = w \<or> uuid_to_string E u \<in> set (lane_ids db st)"
  shows "lane_ids db' st = map (uuid_to_string E) target"
proof (rule lane_ids_eqI)
  let ?S = "uuid_to_string E"
  note simps = board_step_simps [OF step]
  show "board_ok E db'" by (fact simps(1))
  show "distinct (map ?S target)"
    using target(1) uuid_to_string_eq_iff [OF env] by (simp add: distinct_map inj_on_def)
  show "i \<in> set (map ?S target) \<longleftrightarrow> i \<in> set (board_ids db') \<and> state_at db' i = workflow_state_storage st \<and> \<not> tombstoned db' i" for i
  proof (cases "\<exists>u. i = ?S u")
    case True
    then obtain u where u: "i = ?S u" by auto
    then have "i \<in> set (map ?S target) \<longleftrightarrow> u \<in> set target"
      using uuid_to_string_eq_iff [OF env] by auto
    with u target(4) [of u] w simps uuid_to_string_eq_iff [OF env] show ?thesis by (auto simp: set_lane_ids)
  next
    case False
    with ok simps show ?thesis by (auto simp: board_ok_def)
  qed
  show "rank_at db' (map ?S target ! k) = int k" if k: "k < length (map ?S target)" for k
  proof (cases "k = rank")
    case True
    with step target show ?thesis by (simp add: board_step_def)
  next
    case False
    with target k have "target ! k \<noteq> w" by (auto simp: nth_eq_iff_index_eq)
    with step k show ?thesis by (simp add: board_step_def)
  qed
qed

lemma board_step_other_lane:
  assumes env: "uuid_text_ok E" and ok: "board_ok E db" and step: "board_step E db db' w st rank source target"
    and here: "state_at db (uuid_to_string E w) = workflow_state_storage from_st"
    and source: "from_st \<noteq> st \<Longrightarrow> load_lane_workspace_ids E db from_st (Some w) = Inr source"
      "from_st = st \<Longrightarrow> source = []"
    and target: "\<And>u. u \<in> set target \<longleftrightarrow> u = w \<or> uuid_to_string E u \<in> set (lane_ids db st)"
    and s: "s \<noteq> st"
  shows "lane_ids db' s = filter (\<lambda>i. i \<noteq> uuid_to_string E w) (lane_ids db s)"
proof (cases "s = from_st")
  case True
  let ?S = "uuid_to_string E"
  note simps = board_step_simps [OF step]
  note src = loaded_lane [OF env ok source(1)] 
  have st: "from_st \<noteq> st" using True s by simp
  have "lane_ids db' s = map ?S source"
  proof (rule lane_ids_eqI [OF simps(1)])
    show "distinct (map ?S source)" unfolding src(1) [OF st] using distinct_lane_ids [OF ok] by simp
    show "i \<in> set (map ?S source) \<longleftrightarrow> i \<in> set (board_ids db') \<and> state_at db' i = workflow_state_storage s \<and> \<not> tombstoned db' i" for i
      unfolding src(1) [OF st] simps using s True workflow_codec.encode_eq_iff by (auto simp: set_lane_ids)
    show "rank_at db' (map ?S source ! k) = int k" if "k < length (map ?S source)" for k
    proof -
      have "source ! k \<in> set source" using that by simp
      then have "source ! k \<noteq> w" "?S (source ! k) \<in> set (lane_ids db from_st)" using src(3) [OF st] by auto
      moreover from this have "source ! k \<notin> set target"
        using st target workflow_codec.encode_eq_iff by (auto simp: set_lane_ids)
      ultimately show ?thesis using step that by (simp add: board_step_def)
    qed
  qed
  with src(1) [OF st] True show ?thesis by simp
next
  case False
  let ?S = "uuid_to_string E"
  note simps = board_step_simps [OF step]
  have w: "?S w \<notin> set (lane_ids db s)"
    using here False workflow_codec.encode_eq_iff by (simp add: set_lane_ids)
  have "i \<notin> ?S ` insert w (set source \<union> set target)" if i: "i \<in> set (lane_ids db s)" for i
  proof -
    have "i \<noteq> ?S w" using i w by blast
    moreover have "i \<notin> ?S ` set source"
      using i False source(2) loaded_lane(3) [OF env ok source(1)] workflow_codec.encode_eq_iff
      by (cases "from_st = st") (auto simp: set_lane_ids)
    moreover have "i \<notin> ?S ` set target" if "i \<noteq> ?S w"
      using that i s target workflow_codec.encode_eq_iff by (auto simp: set_lane_ids)
    ultimately show ?thesis by blast
  qed
  then have "rank_at db' i = rank_at db i" if "i \<in> set (lane_ids db s)" for i
    using that step unfolding board_step_def by blast
  moreover have "state_at db' i = workflow_state_storage s \<longleftrightarrow> state_at db i = workflow_state_storage s" for i
    unfolding simps using here False s workflow_codec.encode_eq_iff by auto
  ultimately have "lane_ids db' s = lane_ids db s"
    using lane_ids_cong [OF ok simps(2,3)] by blast
  moreover have "filter (\<lambda>i. i \<noteq> ?S w) (lane_ids db s) = lane_ids db s"
    using w by (auto simp: filter_id_conv)
  ultimately show ?thesis by simp
qed

subsection \<open>The lanes after an accepted operation\<close>

lemma load_projection_live: "load_projection E db i = Inr (Some p) \<Longrightarrow> \<not> tombstoned db i"
  by (auto simp: load_projection_def map_transpose_def find_Some_iff split: option.splits)

lemma begin_board_change_Inr:
  "begin_board_change E w expected db = Inr current \<longleftrightarrow>
     (\<exists>p. load_projection E db (uuid_to_string E w) = Inr (Some p)) \<and> load_workflow E db w = Inr current
     \<and> expected = wf_revision current"
  unfolding begin_board_change_def by auto

lemma same_order:
  assumes "uuid_text_ok E" "map (uuid_to_string E) us = map (uuid_to_string E) vs"
  shows "us = vs"
  using assms(2) by (rule map_injective) (simp add: uuid_to_string_eq_iff [OF assms(1)] inj_def)

lemma load_lane_total:
  assumes "uuid_text_ok E" "board_ok E db"
  shows "\<exists>us. load_lane_workspace_ids E db s ex = Inr us"
proof -
  let ?S = "uuid_to_string E"
  have "\<forall>i \<in> set (lane_ids db s). \<exists>u. i = ?S u" using assms(2) by (auto simp: set_lane_ids board_ok_def)
  then obtain f where f: "\<And>i. i \<in> set (lane_ids db s) \<Longrightarrow> i = ?S (f i)" by metis
  let ?ex = "case ex of None \<Rightarrow> [] | Some w \<Rightarrow> ?S w"
  have "map ?S (map f (filter (\<lambda>i. i \<noteq> ?ex) (lane_ids db s))) = filter (\<lambda>i. i \<noteq> ?ex) (lane_ids db s)"
    unfolding map_map by (rule map_idI) (use f in auto)
  then show ?thesis using load_lane_iff [OF assms] by blast
qed

text \<open>A lane is read from the board, so a source lane that is renumbered leaves the others as they were.\<close>

lemma load_lane_reordered:
  assumes "uuid_text_ok E" "board_ok E db" "board_ok E db1" "reordered_by E db source db1"
    and "load_lane_workspace_ids E db from_st (Some w) = Inr source" "s \<noteq> from_st"
  shows "load_lane_workspace_ids E db1 s ex = load_lane_workspace_ids E db s ex"
proof -
  let ?S = "uuid_to_string E"
  have same: "same_but_placement db db1" using assms(4) by (simp add: reordered_by_def)
  note eq = same_but_placement_simps [OF same]
  have st: "state_at db1 i = state_at db i" for i by (simp add: state_at_def workflow_of_def eq)
  have "rank_at db1 i = rank_at db i" if i: "i \<in> set (lane_ids db s)" for i
  proof -
    have "i \<notin> ?S ` set source"
      using i assms(6) loaded_lane(3) [OF assms(1,2,5)] workflow_codec.encode_eq_iff
      by (auto simp: set_lane_ids)
    with assms(4) show ?thesis by (simp add: reordered_by_def rank_at_def)
  qed
  then have "lane_ids db1 s = lane_ids db s"
    by (intro lane_ids_cong [OF assms(2)]) (simp_all add: eq st tombstoned_def fun_eq_iff)
  then have "load_lane_workspace_ids E db1 s ex = Inr us \<longleftrightarrow> load_lane_workspace_ids E db s ex = Inr us" for us
    by (simp add: load_lane_iff [OF assms(1,2)] load_lane_iff [OF assms(1,3)])
  with load_lane_total [OF assms(1,2), of s ex] show ?thesis by auto
qed

lemma source_reordered:
  assumes env: "uuid_text_ok E" and ok: "board_ok E db"
    and run: "(if from_st \<noteq> st
        then rbind (load_lane_workspace_ids E db from_st (Some w)) (\<lambda>source. apply_lane_order E source t db)
        else Inr db) = Inr db1"
  obtains source where "from_st \<noteq> st \<Longrightarrow> load_lane_workspace_ids E db from_st (Some w) = Inr source"
    "from_st = st \<Longrightarrow> source = []" "reordered_by E db source db1" "board_ok E db1"
proof (cases "from_st = st")
  case True
  with run ok that [of "[]"] reordered_by_Nil show ?thesis by simp
next
  case False
  with run obtain source where s: "load_lane_workspace_ids E db from_st (Some w) = Inr source"
      "apply_lane_order E source t db = Inr db1" by auto
  have "uuid_to_string E ` set source \<subseteq> set (board_ids db)"
    using loaded_lane(3) [OF env ok s(1)] by (auto simp: set_lane_ids)
  with that [of source] s False apply_lane_order_Inr [OF env ok s(2) loaded_lane(2) [OF env ok s(1)]]
  show ?thesis by blast
qed

text \<open>
  The common part of the operations that move a workspace: the source lane is renumbered when
  it is left, the target lane is renumbered, and the change is recorded.
\<close>

lemma move_effect:
  assumes env: "uuid_text_ok E" and ok: "board_ok E db"
    and start: "begin_board_change E w expected db = Inr current"
    and others: "load_lane_workspace_ids E db st (Some w) = Inr others"
    and source: "(if wf_state current \<noteq> st
        then rbind (load_lane_workspace_ids E db (wf_state current) (Some w)) (\<lambda>source.
             apply_lane_order E source t db)
        else Inr db) = Inr db1"
    and target: "apply_lane_order E target t db1 = Inr db2"
      "distinct target" "set target = insert w (set others)" "rank < length target" "target ! rank = w"
    and per: "persist_workflow_change E A w current st m rank ty t db2 = Inr (summary, db')"
  shows "board_ok E db'" "load_workflow E db' w = Inr summary"
    "load_lane_workspace_ids E db' st None = Inr target"
    "s \<noteq> st \<Longrightarrow> load_lane_workspace_ids E db s None = Inr l \<Longrightarrow>
       load_lane_workspace_ids E db' s None = Inr (filter (\<lambda>u. u \<noteq> w) l)"
proof -
  let ?S = "uuid_to_string E"
  have live: "\<not> tombstoned db (?S w)" and cur: "load_workflow E db w = Inr current"
    using start load_projection_live by (auto simp: begin_board_change_Inr)
  note here = state_at_current [OF ok cur]
  have S_eq: "?S u = ?S v \<longleftrightarrow> u = v" for u v using uuid_to_string_eq_iff [OF env] .
  have mem: "?S u \<in> set (lane_ids db x) \<Longrightarrow> ?S u \<in> set (board_ids db)" for u x by (simp add: set_lane_ids)
  obtain source where src: "wf_state current \<noteq> st \<Longrightarrow> load_lane_workspace_ids E db (wf_state current) (Some w) = Inr source"
      "wf_state current = st \<Longrightarrow> source = []" and one: "reordered_by E db source db1" "board_ok E db1"
    using source_reordered [OF env ok source] by blast
  have in_target: "u \<in> set target \<longleftrightarrow> u = w \<or> ?S u \<in> set (lane_ids db st)" for u
    unfolding target(3) using loaded_lane(3) [OF env ok others] by auto
  have "board_ids db1 = board_ids db"
    using one(1) same_but_placement_simps(1) [of db db1] by (simp add: reordered_by_def)
  then have "?S ` set target \<subseteq> set (board_ids db1)" using in_target here(2) mem by auto
  note two = apply_lane_order_Inr [OF env one(2) target(1,2) this]
  note step = board_stepI [OF env cur one(1) two per]
  show ok': "board_ok E db'" using board_step_simps(1) [OF step(1)] .
  show "load_workflow E db' w = Inr summary" by (fact step(2))
  have "lane_ids db' st = map ?S target"
    by (rule board_step_target_lane [OF env ok step(1) here(2) live target(2,4,5) in_target])
  then show "load_lane_workspace_ids E db' st None = Inr target"
    by (simp add: load_lane_all_iff [OF env ok'])
  assume s: "s \<noteq> st" and l: "load_lane_workspace_ids E db s None = Inr l"
  have "lane_ids db' s = filter (\<lambda>i. i \<noteq> ?S w) (lane_ids db s)"
    by (rule board_step_other_lane [OF env ok step(1) here(1) src in_target s])
  also have "\<dots> = map ?S (filter (\<lambda>u. u \<noteq> w) l)"
    using l by (simp add: load_lane_all_iff [OF env ok, symmetric] filter_map comp_def S_eq
        flip: load_lane_all_iff [OF env ok, THEN iffD1, OF l])
  finally show "load_lane_workspace_ids E db' s None = Inr (filter (\<lambda>u. u \<noteq> w) l)"
    by (simp add: load_lane_all_iff [OF env ok'])
qed

subsection \<open>Placing a workspace\<close>

lemma position_Some:
  "position p xs = Some i \<Longrightarrow>
     take i xs = takeWhile (\<lambda>x. \<not> p x) xs \<and> drop i xs = dropWhile (\<lambda>x. \<not> p x) xs \<and> i < length xs \<and> p (xs ! i)"
  by (induction xs arbitrary: i) (auto split: if_splits)

lemma position_ex: "(\<exists>i. position p xs = Some i) \<longleftrightarrow> (\<exists>x \<in> set xs. p x)"
  by (induction xs) auto

lemma vec_insert_simps:
  assumes "i \<le> length xs"
  shows "length (vec_insert i x xs) = Suc (length xs)" "vec_insert i x xs ! i = x"
    "set (vec_insert i x xs) = insert x (set xs)"
    "distinct (vec_insert i x xs) \<longleftrightarrow> distinct xs \<and> x \<notin> set xs"
proof -
  have "mset (take i xs) + mset (drop i xs) = mset xs" by (metis append_take_drop_id mset_append)
  then have m: "mset (vec_insert i x xs) = mset (x # xs)" by (simp add: vec_insert_def flip: \<open>_ = mset xs\<close>)
  from mset_eq_length [OF m] show "length (vec_insert i x xs) = Suc (length xs)" by simp
  from mset_eq_setD [OF m] show "set (vec_insert i x xs) = insert x (set xs)" by simp
  from mset_eq_imp_distinct_iff [OF m] show "distinct (vec_insert i x xs) \<longleftrightarrow> distinct xs \<and> x \<notin> set xs" by auto
  show "vec_insert i x xs ! i = x" using assms by (simp add: vec_insert_def nth_append)
qed

text \<open>
  The lane the request asks for: the workspace right before \<open>before_workspace_id\<close>, right after
  \<open>after_workspace_id\<close>, or last.
\<close>

definition placed_lane :: "PlaceWorkspaceOnBoardRequest \<Rightarrow> uuid \<Rightarrow> uuid list \<Rightarrow> uuid list" where
  "placed_lane req w others =
     (case (before_workspace_id req, after_workspace_id req) of
        (Some b, _) \<Rightarrow> takeWhile (\<lambda>u. u \<noteq> b) others @ w # dropWhile (\<lambda>u. u \<noteq> b) others
      | (None, Some a) \<Rightarrow> takeWhile (\<lambda>u. u \<noteq> a) others @ a # w # tl (dropWhile (\<lambda>u. u \<noteq> a) others)
      | (None, None) \<Rightarrow> others @ [w])"

definition insertion_index :: "PlaceWorkspaceOnBoardRequest \<Rightarrow> uuid list \<Rightarrow> nat option" where
  "insertion_index req others =
     (case (before_workspace_id req, after_workspace_id req) of
        (Some b, _) \<Rightarrow> position (\<lambda>u. u = b) others
      | (None, Some a) \<Rightarrow> map_option Suc (position (\<lambda>u. u = a) others)
      | (None, None) \<Rightarrow> Some (length others))"

lemma insertion_index_le: "insertion_index req others = Some i \<Longrightarrow> i \<le> length others"
  by (auto simp: insertion_index_def split: option.splits dest!: position_Some)

lemma vec_insert_placed:
  assumes "insertion_index req others = Some i"
  shows "vec_insert i w others = placed_lane req w others"
proof (cases "before_workspace_id req")
  case (Some b)
  with assms position_Some [of "\<lambda>u. u = b" others i] show ?thesis
    by (auto simp: vec_insert_def placed_lane_def insertion_index_def)
next
  case before: None
  show ?thesis
  proof (cases "after_workspace_id req")
    case (Some a)
    with before assms obtain k where k: "position (\<lambda>u. u = a) others = Some k" "i = Suc k"
      by (auto simp: insertion_index_def)
    from position_Some [OF k(1)] have "drop k others = a # drop (Suc k) others"
        "take (Suc k) others = take k others @ [a]"
      by (auto simp: Cons_nth_drop_Suc take_Suc_conv_app_nth)
    moreover from this position_Some [OF k(1)] have "drop (Suc k) others = tl (dropWhile (\<lambda>u. u \<noteq> a) others)"
      by (metis list.sel(3))
    ultimately show ?thesis
      using position_Some [OF k(1)] before Some k(2) by (simp add: vec_insert_def placed_lane_def)
  qed (use before assms in \<open>auto simp: vec_insert_def placed_lane_def insertion_index_def\<close>)
qed

abbreviation board_anchor :: "PlaceWorkspaceOnBoardRequest \<Rightarrow> uuid option" where
  "board_anchor req \<equiv> (case before_workspace_id req of Some b \<Rightarrow> Some b | None \<Rightarrow> after_workspace_id req)"

lemma insertion_index_iff:
  assumes "before_workspace_id req = None \<or> after_workspace_id req = None"
  shows "(case board_anchor req of
            Some a \<Rightarrow> rbind (ok_or (position (\<lambda>c. c = a) others) InvalidWorkspaceBoardPlacement) (\<lambda>index.
              Inr (if after_workspace_id req \<noteq> None then index + 1 else index))
          | None \<Rightarrow> Inr (length others)) = Inr i \<longleftrightarrow> insertion_index req others = Some i"
  using assms by (auto simp: insertion_index_def ok_or_def split: option.splits)

lemma place_Inr_iff:
  "place_workspace_on_board E A w req db = (Inr summary, db') \<longleftrightarrow>
     (before_workspace_id req = None \<or> after_workspace_id req = None)
     \<and> (\<forall>a. board_anchor req = Some a \<longrightarrow> \<not> is_nil a \<and> a \<noteq> w)
     \<and> (\<exists>current others i t db1 db2.
          begin_board_change E w (pw_expected_revision req) db = Inr current
          \<and> load_lane_workspace_ids E db (pw_state req) (Some w) = Inr others
          \<and> insertion_index req others = Some i \<and> unix_time_ms A = Inr t
          \<and> (if wf_state current \<noteq> pw_state req
             then rbind (load_lane_workspace_ids E db (wf_state current) (Some w)) (\<lambda>source.
                  apply_lane_order E source t db)
             else Inr db) = Inr db1
          \<and> apply_lane_order E (vec_insert i w others) t db1 = Inr db2
          \<and> persist_workflow_change E A w current (pw_state req) Pinned i BOARD_PLACED_EVENT_TYPE t db2
              = Inr (summary, db'))" (is "_ \<longleftrightarrow> ?one \<and> ?anchor \<and> ?run")
proof (cases ?one)
  case True
  have guard: "\<not> (before_workspace_id req \<noteq> None \<and> after_workspace_id req \<noteq> None)" using True by auto
  have anchor: "(\<not> (case board_anchor req of None \<Rightarrow> False | Some a \<Rightarrow> is_nil a \<or> a = w)) \<longleftrightarrow> ?anchor"
    by (auto split: option.splits)
  show ?thesis
    unfolding place_workspace_on_board_def Let_def transact_Inr_iff rbind_Inr_iff ensure_Inr_iff
      insertion_index_iff [OF True] anchor using True by blast
next
  case False
  then show ?thesis by (auto simp: place_workspace_on_board_def Let_def transact_Inr_iff)
qed

lemma changed_summary_simps [simp]:
  "wf_state (changed_summary c st m k t) = st" "wf_revision (changed_summary c st m k t) = wf_revision c + 1"
  "placement_mode (wf_placement (changed_summary c st m k t)) = m"
  "placement_rank (wf_placement (changed_summary c st m k t)) = k"
  "wf_updated_at_unix_ms (changed_summary c st m k t) = t"
  by (simp_all add: changed_summary_def)

text \<open>
  C10: an accepted placement puts the workspace in the requested lane exactly where the request
  says (before one workspace, after one, or last), pins it, and raises its revision by one. The
  other workspaces of that lane keep their order, every other lane only loses the workspace, and
  the workspace's workflow reads back as it was answered.
\<close>

theorem place_orders_lanes:
  assumes "uuid_text_ok E" and "board_ok E db"
    and "place_workspace_on_board E A w req db = (Inr summary, db')"
  shows "board_ok E db' \<and> load_workflow E db' w = Inr summary
    \<and> wf_state summary = pw_state req \<and> placement_mode (wf_placement summary) = Pinned
    \<and> wf_revision summary = pw_expected_revision req + 1
    \<and> (\<exists>others. load_lane_workspace_ids E db (pw_state req) (Some w) = Inr others
         \<and> load_lane_workspace_ids E db' (pw_state req) None = Inr (placed_lane req w others))
    \<and> (\<forall>s l. s \<noteq> pw_state req \<longrightarrow> load_lane_workspace_ids E db s None = Inr l \<longrightarrow>
         load_lane_workspace_ids E db' s None = Inr (filter (\<lambda>u. u \<noteq> w) l))"
proof -
  obtain current others i t db1 db2
    where start: "begin_board_change E w (pw_expected_revision req) db = Inr current"
      and others: "load_lane_workspace_ids E db (pw_state req) (Some w) = Inr others"
      and i: "insertion_index req others = Some i"
      and source: "(if wf_state current \<noteq> pw_state req
          then rbind (load_lane_workspace_ids E db (wf_state current) (Some w)) (\<lambda>source.
               apply_lane_order E source t db)
          else Inr db) = Inr db1"
      and target: "apply_lane_order E (vec_insert i w others) t db1 = Inr db2"
      and per: "persist_workflow_change E A w current (pw_state req) Pinned i BOARD_PLACED_EVENT_TYPE t db2
                = Inr (summary, db')"
    using assms(3) unfolding place_Inr_iff by blast
  note ins = vec_insert_simps [OF insertion_index_le [OF i], of w]
  have w: "distinct (vec_insert i w others)" "i < length (vec_insert i w others)"
    using ins loaded_lane(2,3) [OF assms(1,2) others] insertion_index_le [OF i] by auto
  note eff = move_effect [OF assms(1,2) start others source target w(1) ins(3) w(2) ins(2) per]
  show ?thesis
    using eff others persist_workflow_change_Inr(1) [OF per] start vec_insert_placed [OF i, of w]
    by (simp add: begin_board_change_Inr)
qed

abbreviation sample_place :: "uuid option \<Rightarrow> uuid option \<Rightarrow> PlaceWorkspaceOnBoardRequest" where
  "sample_place b a \<equiv> \<lparr>pw_state = Ready, pw_expected_revision = 1, before_workspace_id = b, after_workspace_id = a\<rparr>"

abbreviation sample_board_env :: Env where "sample_board_env \<equiv> sample_env sample_records []"

lemma sample_board_ok: "board_ok sample_board_env sample_board"
proof -
  have "board_ids sample_board = map (uuid_to_string sample_board_env) [1, 2, 3]" by code_simp
  then have "\<exists>u. i = uuid_to_string sample_board_env u" if "i \<in> set (board_ids sample_board)" for i
    using that by auto
  moreover have "distinct (board_ids sample_board) \<and> distinct (map bp_workspace_id (board_placement sample_board))
     \<and> set (map bp_workspace_id (board_placement sample_board)) = set (board_ids sample_board)
     \<and> (\<forall>r \<in> set (workflow_projection sample_board). workflow_check r \<and> wp_revision r \<le> i64_max)
     \<and> (\<forall>r \<in> set (board_placement sample_board). placement_check r \<and> bp_rank r \<le> i64_max)" by code_simp
  ultimately show ?thesis unfolding board_ok_def by blast
qed

theorem place_orders_lanes_witness:
  "\<exists>summary db'. place_workspace_on_board sample_board_env sample_ambient 3 (sample_place (Some 2) None) sample_board
       = (Inr summary, db')
     \<and> load_lane_workspace_ids sample_board_env db' Ready None = Inr [1, 3, 2]
     \<and> load_lane_workspace_ids sample_board_env db' Active None = Inr []"
proof -
  have "case fst (place_workspace_on_board sample_board_env sample_ambient 3 (sample_place (Some 2) None) sample_board)
      of Inl e \<Rightarrow> False | Inr _ \<Rightarrow> True" by code_simp
  then obtain summary db' where run:
    "place_workspace_on_board sample_board_env sample_ambient 3 (sample_place (Some 2) None) sample_board
       = (Inr summary, db')" by (metis (no_types, lifting) old.sum.simps(5) prod.collapse sum.exhaust)
  have lanes: "load_lane_workspace_ids sample_board_env sample_board Ready (Some 3) = Inr [1, 2]"
    "load_lane_workspace_ids sample_board_env sample_board Active None = Inr [3]"
    "placed_lane (sample_place (Some 2) None) 3 [1, 2] = [1, 3, 2]" by code_simp+
  from place_orders_lanes [OF sample_uuid_text_ok sample_board_ok run] lanes run show ?thesis by auto
qed

subsection \<open>A valid change is never refused\<close>

text \<open>
  What the two event tables hold of the workspaces: their creation, and no revision later than
  the current one. \<open>can_append\<close> says that the two identifiers an operation draws are new and
  that events serialise.
\<close>

definition history_ok :: "Db \<Rightarrow> bool" where
  "history_ok db \<longleftrightarrow> (\<forall>r \<in> set (workflow_projection db). event_exists db (wp_workspace_id r)
     \<and> (\<forall>x \<in> set (workflow_events db). we_workspace_id x = wp_workspace_id r \<longrightarrow> we_revision x \<le> wp_revision r)
     \<and> (\<forall>x \<in> set (board_events db). be_workspace_id x = wp_workspace_id r \<longrightarrow> be_revision x \<le> wp_revision r))"

definition can_append :: "Env \<Rightarrow> Ambient \<Rightarrow> Db \<Rightarrow> bool" where
  "can_append E A db \<longleftrightarrow> (\<forall>e. event_to_json E e \<noteq> None)
     \<and> (\<forall>n \<in> {0, 1}. uuid_to_string E (draw A n) \<notin> we_event_id ` set (workflow_events db)
          \<and> uuid_to_string E (draw A n) \<notin> be_event_id ` set (board_events db))"

lemma one_row:
  assumes "distinct (map key rows)" "i \<in> set (map key rows)"
  shows "length (filter (\<lambda>r. key r = i) rows) = 1"
proof -
  obtain r where "find (\<lambda>r. key r = i) rows = Some r"
    using assms(2) find_key_None_iff [of key i rows] by (metis not_None_eq set_map)
  then show ?thesis using filter_key_one [OF assms(1)] by simp
qed

lemma apply_lane_order_from_total:
  assumes "board_ok E db" "0 \<le> t" "int (i + length ws) \<le> i64_max"
    "uuid_to_string E ` set ws \<subseteq> set (board_ids db)"
  shows "\<exists>db'. apply_lane_order_from E i ws t db = Inr db'"
  using assms
proof (induction E i ws t db rule: apply_lane_order_from.induct)
  case (2 E i w ws t db)
  let ?S = "uuid_to_string E"
  let ?f = "\<lambda>r. r\<lparr>bp_rank := int i, bp_updated_at := t\<rparr>"
  let ?rows = "map (\<lambda>r. if bp_workspace_id r = ?S w then ?f r else r) (board_placement db)"
  note ok = "2.prems"(1) [unfolded board_ok_def]
  have i: "i64_try_from i = Some (int i)" using "2.prems"(3) by simp
  have "length (filter (\<lambda>r. bp_workspace_id r = ?S w) (board_placement db)) = 1"
    using ok "2.prems"(4) by (intro one_row) auto
  moreover have "\<forall>r \<in> set (board_placement db). bp_workspace_id r = ?S w \<longrightarrow> placement_check (?f r)"
    using ok "2.prems"(2) by (auto simp: placement_check_def)
  ultimately have upd: "update_rows placement_check (\<lambda>r. bp_workspace_id r = ?S w) ?f (board_placement db) = Inr (1, ?rows)"
    by simp
  have "map bp_workspace_id ?rows = map bp_workspace_id (board_placement db)" by simp
  moreover have "\<forall>r \<in> set ?rows. placement_row_ok r"
    using ok "2.prems"(2,3) by (auto simp: placement_check_def)
  ultimately have "board_ok E (db\<lparr>board_placement := ?rows\<rparr>)"
    using ok unfolding board_ok_def by (simp del: map_map set_map list.map_comp)
  then have "\<exists>db'. apply_lane_order_from E (Suc i) ws t (db\<lparr>board_placement := ?rows\<rparr>) = Inr db'"
    using "2.prems" by (intro "2.IH" [of "int i" "(1, ?rows)" 1 ?rows]) (use i upd in auto)
  then show ?case using i upd by auto
qed simp

text \<open>The two appends, for a workspace whose events are all older.\<close>

lemma storage_names:
  "workflow_state_storage s \<in> set workflow_state_names" "board_placement_mode_storage m \<in> set placement_mode_names"
  using workflow_state_names_iff placement_mode_names_iff by blast+

lemma insert_workflow_event_accepts:
  assumes "we_event_type r = WORKFLOW_EVENT_TYPE" "we_from_state r = workflow_state_storage s1" "we_to_state r = workflow_state_storage s2"
    "1 < we_revision r" "0 \<le> we_created_at r" "event_exists db (we_workspace_id r)"
    "\<forall>x \<in> set (workflow_events db). we_event_id x \<noteq> we_event_id r
                   \<and> (we_workspace_id x, we_revision x) \<noteq> (we_workspace_id r, we_revision r)"
  shows "insert_workflow_event r db = Inr (db\<lparr>workflow_events := workflow_events db @ [r]\<rparr>)"
proof -
  have "ensure (we_event_type r = WORKFLOW_EVENT_TYPE
              \<and> we_from_state r \<in> set workflow_state_names \<and> we_to_state r \<in> set workflow_state_names
              \<and> 1 < we_revision r \<and> 0 \<le> we_created_at r \<and> event_exists db (we_workspace_id r)
              \<and> (\<forall>x \<in> set (workflow_events db). we_event_id x \<noteq> we_event_id r
                   \<and> (we_workspace_id x, we_revision x) \<noteq> (we_workspace_id r, we_revision r))) Database = Inr ()"
    unfolding ensure_Inr_iff assms(2,3) by (intro conjI storage_names) (fact assms)+
  then show ?thesis by (simp only: insert_workflow_event_def rbind_simps)
qed

lemma insert_board_event_accepts:
  assumes "be_event_type r \<in> set [BOARD_PLACED_EVENT_TYPE, BOARD_FOLLOW_AGENT_EVENT_TYPE, BOARD_AUTO_TRANSITIONED_EVENT_TYPE]"
    "be_from_state r = workflow_state_storage s1" "be_to_state r = workflow_state_storage s2"
    "be_from_mode r = board_placement_mode_storage m1" "be_to_mode r = board_placement_mode_storage m2"
    "0 \<le> be_from_rank r" "0 \<le> be_to_rank r"
    "1 < be_revision r" "0 \<le> be_created_at r" "event_exists db (be_workspace_id r)"
    "\<forall>x \<in> set (board_events db). be_event_id x \<noteq> be_event_id r
                   \<and> (be_workspace_id x, be_revision x) \<noteq> (be_workspace_id r, be_revision r)"
  shows "insert_board_event r db = Inr (db\<lparr>board_events := board_events db @ [r]\<rparr>)"
proof -
  have "ensure (be_event_type r \<in> set [BOARD_PLACED_EVENT_TYPE, BOARD_FOLLOW_AGENT_EVENT_TYPE,
                        BOARD_AUTO_TRANSITIONED_EVENT_TYPE]
              \<and> be_from_state r \<in> set workflow_state_names \<and> be_to_state r \<in> set workflow_state_names
              \<and> be_from_mode r \<in> set placement_mode_names \<and> be_to_mode r \<in> set placement_mode_names
              \<and> 0 \<le> be_from_rank r \<and> 0 \<le> be_to_rank r
              \<and> 1 < be_revision r \<and> 0 \<le> be_created_at r \<and> event_exists db (be_workspace_id r)
              \<and> (\<forall>x \<in> set (board_events db). be_event_id x \<noteq> be_event_id r
                   \<and> (be_workspace_id x, be_revision x) \<noteq> (be_workspace_id r, be_revision r))) Database = Inr ()"
    unfolding ensure_Inr_iff assms(2-5) by (intro conjI storage_names) (fact assms)+
  then show ?thesis by (simp only: insert_board_event_def rbind_simps)
qed

lemma event_json:
  assumes "\<forall>e. event_to_json E e \<noteq> None"
  shows "\<exists>json. \<forall>e. event_to_json E e = Some (json e)"
proof (intro choice allI)
  fix e show "\<exists>json. event_to_json E e = Some json" using assms by auto
qed

lemma append_workflow_event_total:
  assumes "\<forall>e. event_to_json E e \<noteq> None" "event_exists db (uuid_to_string E w)" "1 < rev_i" "0 \<le> t" "uuid_to_string E u \<notin> we_event_id ` set (workflow_events db)"
    and "\<forall>x \<in> set (workflow_events db). we_workspace_id x = uuid_to_string E w \<longrightarrow> we_revision x < rev_i"
  shows "\<exists>r. append_workflow_event E u w current st k rev_i t db
    = Inr (db\<lparr>workflow_events := workflow_events db @ [r]\<rparr>)"
proof -
  obtain json where json: "\<And>e. event_to_json E e = Some (json e)" using event_json [OF assms(1)] by blast
  have new: "\<forall>x \<in> set (workflow_events db). we_event_id x \<noteq> uuid_to_string E u
      \<and> (we_workspace_id x, we_revision x) \<noteq> (uuid_to_string E w, rev_i)"
    using assms(5,6) by (metis imageI less_irrefl prod.inject)
  show ?thesis
    unfolding append_workflow_event_def json ok_or_simps rbind_simps
    by (rule exI, rule insert_workflow_event_accepts [where ?s1.0 = "wf_state current" and ?s2.0 = st])
      (use assms(2-4) new in \<open>simp_all only: WorkflowEventRow.select_convs\<close>)
qed

lemma append_board_event_total:
  assumes "\<forall>e. event_to_json E e \<noteq> None" "event_exists db (uuid_to_string E w)" "1 < rev_i" "0 \<le> t" "uuid_to_string E u \<notin> be_event_id ` set (board_events db)"
    and "\<forall>x \<in> set (board_events db). be_workspace_id x = uuid_to_string E w \<longrightarrow> be_revision x < rev_i"
    and "int (placement_rank (wf_placement current)) \<le> i64_max"
    and "ty \<in> set [BOARD_PLACED_EVENT_TYPE, BOARD_FOLLOW_AGENT_EVENT_TYPE, BOARD_AUTO_TRANSITIONED_EVENT_TYPE]"
  shows "\<exists>r. append_board_event E u w ty current st m k (int k) k' rev_i t db
    = Inr (db\<lparr>board_events := board_events db @ [r]\<rparr>)"
proof -
  obtain json where json: "\<And>e. event_to_json E e = Some (json e)" using event_json [OF assms(1)] by blast
  have new: "\<forall>x \<in> set (board_events db). be_event_id x \<noteq> uuid_to_string E u
      \<and> (be_workspace_id x, be_revision x) \<noteq> (uuid_to_string E w, rev_i)"
    using assms(5,6) by (metis imageI less_irrefl prod.inject)
  have rank: "i64_try_from (placement_rank (wf_placement current)) = Some (int (placement_rank (wf_placement current)))"
    using assms(7) by simp
  show ?thesis
    unfolding append_board_event_def Let_def json rank ok_or_simps rbind_simps
    by (rule exI, rule insert_board_event_accepts
        [where ?s1.0 = "wf_state current" and ?s2.0 = st and ?m1.0 = "placement_mode (wf_placement current)" and ?m2.0 = m])
      (use assms(2-4,8) new in \<open>simp_all only: BoardEventRow.select_convs of_nat_0_le_iff\<close>)
qed

lemma update_board_rows_total:
  assumes ok: "board_ok E db" and row: "workflow_of db W = Some wrow" "wp_revision wrow = expected"
    and nonneg: "0 < revision" "0 \<le> rank" "0 \<le> t"
  shows "\<exists>db'. update_board_rows W expected (workflow_state_storage st) revision
    (board_placement_mode_storage m) rank t db = Inr db'"
proof -
  have "workflow_check (r\<lparr>wp_state := workflow_state_storage st, wp_revision := revision, wp_updated_at := t\<rparr>)"
    "placement_check (p\<lparr>bp_mode := board_placement_mode_storage m, bp_rank := rank, bp_updated_at := t\<rparr>)" for r p
    using nonneg storage_names by (simp_all only: workflow_check_def placement_check_def) simp_all
  moreover have "filter (\<lambda>r. wp_workspace_id r = W) (workflow_projection db) = [wrow]"
    using ok row(1) by (intro filter_key_one) (simp_all only: board_ok_def workflow_of_def)
  then have "length (filter (\<lambda>r. wp_workspace_id r = W \<and> wp_revision r = expected) (workflow_projection db)) = 1"
    using row(2) by (simp flip: filter_filter)
  moreover have "W \<in> set (board_ids db)" using workflow_of_Some [OF row(1)] by force
  then have "length (filter (\<lambda>r. bp_workspace_id r = W) (board_placement db)) = 1"
    using ok by (intro one_row) (simp_all only: board_ok_def)
  ultimately show ?thesis unfolding update_board_rows_Inr_iff by simp
qed

lemma persist_total:
  assumes ok: "board_ok E db" and cur: "load_workflow E db w = Inr current0"
    and rev: "wf_revision current = wf_revision current0" "int (placement_rank (wf_placement current)) \<le> i64_max"
    and le: "int (wf_revision current + 1) \<le> i64_max" "int rank \<le> i64_max" "0 \<le> t"
    and hist: "history_ok db" and app': "can_append E A db"
    and ty: "ty \<in> set [BOARD_PLACED_EVENT_TYPE, BOARD_FOLLOW_AGENT_EVENT_TYPE, BOARD_AUTO_TRANSITIONED_EVENT_TYPE]"
  shows "\<exists>summary db'. persist_workflow_change E A w current st m rank ty t db = Inr (summary, db')"
proof -
  let ?W = "uuid_to_string E w" and ?rev = "wf_revision current + 1"
  obtain wrow prow where rows: "workflow_of db ?W = Some wrow" "placement_of db ?W = Some prow"
      "0 < wp_revision wrow" "wf_revision current0 = nat (wp_revision wrow)"
    using cur by (auto simp: load_workflow_iff)
  note mem = workflow_of_Some [OF rows(1)] placement_of_Some [OF rows(2)]
  have wrev: "wp_revision wrow = int (wf_revision current)" and pos: "0 < wf_revision current"
    using rows(3,4) rev(1) by simp_all
  have app: "\<forall>e. event_to_json E e \<noteq> None"
      "uuid_to_string E (draw A 0) \<notin> we_event_id ` set (workflow_events db)"
      "uuid_to_string E (draw A 0) \<notin> be_event_id ` set (board_events db)"
      "uuid_to_string E (draw A 1) \<notin> be_event_id ` set (board_events db)"
    using app' by (simp_all add: can_append_def)
  have old: "event_exists db ?W" "\<forall>x \<in> set (workflow_events db). we_workspace_id x = ?W \<longrightarrow> we_revision x < int ?rev"
      "\<forall>x \<in> set (board_events db). be_workspace_id x = ?W \<longrightarrow> be_revision x < int ?rev"
    using hist mem(1) wrev by (fastforce simp: history_ok_def)+
  obtain wes where one: "(if wf_state current \<noteq> st
      then append_workflow_event E (draw A 0) w current st ?rev (int ?rev) t db else Inr db)
      = Inr (db\<lparr>workflow_events := workflow_events db @ wes\<rparr>)"
    using append_workflow_event_total [OF app(1) old(1) _ le(3) app(2) old(2), of current st ?rev] pos
    by (cases "wf_state current = st") (auto intro: that [of "[]"])
  let ?db1 = "db\<lparr>workflow_events := workflow_events db @ wes\<rparr>"
  have "\<exists>r. append_board_event E (draw A (if wf_state current \<noteq> st then 1 else 0)) w ty current st m rank
      (int rank) ?rev (int ?rev) t ?db1 = Inr (?db1\<lparr>board_events := board_events ?db1 @ [r]\<rparr>)"
    using app(3,4) old(3) old(1) [unfolded event_exists_def] pos
    by (intro append_board_event_total [OF app(1) _ _ le(3) _ _ rev(2) ty]) (simp_all add: event_exists_def)
  then obtain r where two: "append_board_event E (draw A (if wf_state current \<noteq> st then 1 else 0)) w ty current st m rank
      (int rank) ?rev (int ?rev) t ?db1 = Inr (?db1\<lparr>board_events := board_events db @ [r]\<rparr>)" by auto
  let ?db2 = "?db1\<lparr>board_events := board_events db @ [r]\<rparr>"
  have "board_ok E ?db2" "workflow_of ?db2 ?W = Some wrow"
    using ok rows(1) by (simp_all add: board_ok_def workflow_of_def)
  from update_board_rows_total [OF this wrev, of "int ?rev" "int rank" t st m] le(3)
  have "\<exists>db'. update_board_rows ?W (int (wf_revision current)) (workflow_state_storage st) (int ?rev)
      (board_placement_mode_storage m) (int rank) t ?db2 = Inr db'" by simp
  moreover have "?rev \<le> u64_max" using le(1) by (simp add: i64_max_def u64_max_def)
  ultimately show ?thesis using one two le unfolding persist_workflow_change_def by auto
qed


text \<open>A board whose placement rows were renumbered still answers the workspace's revision.\<close>

lemma load_workflow_reordered:
  assumes "load_workflow E db w = Inr current" "same_but_placement db db2" "board_ok E db2"
    and "\<forall>x. map_option bp_mode (placement_of db2 x) = map_option bp_mode (placement_of db x)"
  shows "\<exists>current2. load_workflow E db2 w = Inr current2 \<and> wf_revision current2 = wf_revision current"
proof -
  let ?S = "uuid_to_string E"
  obtain wrow prow where row: "workflow_of db (?S w) = Some wrow" "placement_of db (?S w) = Some prow"
    using assms(1) unfolding load_workflow_iff by auto
  then have row2: "workflow_of db2 (?S w) = Some wrow"
    using same_but_placement_simps(1) [OF assms(2)] by (simp add: workflow_of_def)
  then have "?S w \<in> set (board_ids db2)" using workflow_of_Some by force
  then obtain current2 where "load_workflow E db2 w = Inr current2" using load_workflow_total [OF assms(3)] by blast
  with row row2 assms(1) show ?thesis unfolding load_workflow_iff by auto
qed

lemma current_rank_bound:
  assumes "board_ok E db" "load_workflow E db w = Inr current"
  shows "int (placement_rank (wf_placement current)) \<le> i64_max"
proof -
  obtain prow where "placement_of db (uuid_to_string E w) = Some prow" "0 \<le> bp_rank prow"
      "placement_rank (wf_placement current) = nat (bp_rank prow)"
    using assms(2) unfolding load_workflow_iff by auto
  with placement_of_Some [OF this(1)] assms(1) show ?thesis by (auto simp: board_ok_def)
qed

lemma lane_length:
  assumes "uuid_text_ok E" "distinct us" "uuid_to_string E ` set us \<subseteq> set (board_ids db)"
  shows "length us \<le> length (board_ids db)"
proof -
  have "length us = card (uuid_to_string E ` set us)"
    using assms(2) uuid_to_string_eq_iff [OF assms(1)] by (subst card_image) (auto simp: inj_on_def distinct_card)
  also have "\<dots> \<le> card (set (board_ids db))" using assms(3) by (intro card_mono) auto
  also have "\<dots> \<le> length (board_ids db)" by (rule card_length)
  finally show ?thesis .
qed

lemma apply_lane_order_total:
  assumes "uuid_text_ok E" "board_ok E db" "distinct ws" "uuid_to_string E ` set ws \<subseteq> set (board_ids db)"
    and "0 \<le> t" "int (length (board_ids db)) \<le> i64_max"
  shows "\<exists>db'. apply_lane_order E ws t db = Inr db' \<and> reordered_by E db ws db' \<and> board_ok E db'"
proof -
  have "int (length ws) \<le> i64_max" using lane_length [OF assms(1,3,4)] assms(6) by linarith
  then obtain db' where "apply_lane_order E ws t db = Inr db'"
    using apply_lane_order_from_total [OF assms(2,5), of 0 ws] assms(4) by (auto simp: apply_lane_order_def)
  with apply_lane_order_Inr [OF assms(1,2) _ assms(3,4)] show ?thesis by blast
qed

lemma move_total:
  assumes env: "uuid_text_ok E" and ok: "board_ok E db"
    and cur: "load_workflow E db w = Inr current"
    and others: "load_lane_workspace_ids E db st (Some w) = Inr others"
    and target: "distinct target" "set target = insert w (set others)"
    and bounds: "0 \<le> t" "int (length (board_ids db)) \<le> i64_max" "int (wf_revision current) < i64_max" "rank < length target"
    and hist: "history_ok db" and app: "can_append E A db"
    and ty: "ty \<in> set [BOARD_PLACED_EVENT_TYPE, BOARD_FOLLOW_AGENT_EVENT_TYPE, BOARD_AUTO_TRANSITIONED_EVENT_TYPE]"
  obtains db1 db2 summary db'
  where "(if wf_state current \<noteq> st
        then rbind (load_lane_workspace_ids E db (wf_state current) (Some w)) (\<lambda>source.
             apply_lane_order E source t db)
        else Inr db) = Inr db1"
    and "apply_lane_order E target t db1 = Inr db2"
    and "persist_workflow_change E A w current st m rank ty t db2 = Inr (summary, db')"
proof -
  let ?S = "uuid_to_string E"
  have mem: "?S u \<in> set (lane_ids db x) \<Longrightarrow> ?S u \<in> set (board_ids db)" for u x by (simp add: set_lane_ids)
  obtain source db1 where one: "(if wf_state current \<noteq> st
        then rbind (load_lane_workspace_ids E db (wf_state current) (Some w)) (\<lambda>source.
             apply_lane_order E source t db)
        else Inr db) = Inr db1" "reordered_by E db source db1" "board_ok E db1"
  proof (cases "wf_state current = st")
    case True
    with ok that [of db "[]"] reordered_by_Nil show ?thesis by simp
  next
    case False
    obtain source where s: "load_lane_workspace_ids E db (wf_state current) (Some w) = Inr source"
      using load_lane_total [OF env ok] by blast
    have "?S ` set source \<subseteq> set (board_ids db)" using loaded_lane(3) [OF env ok s] mem by auto
    with apply_lane_order_total [OF env ok loaded_lane(2) [OF env ok s] _ bounds(1,2)]
    obtain db1 where "apply_lane_order E source t db = Inr db1" "reordered_by E db source db1" "board_ok E db1" by blast
    with s False show ?thesis by (intro that [of db1 source]) simp_all
  qed
  have same1: "same_but_placement db db1" using one(2) by (simp add: reordered_by_def)
  note ids1 = same_but_placement_simps(1) [OF same1]
  have "?S ` set target \<subseteq> set (board_ids db1)"
    unfolding target(2) ids1 using loaded_lane(3) [OF env ok others] mem state_at_current(2) [OF ok cur] by auto
  with apply_lane_order_total [OF env one(3) target(1) _ bounds(1)] bounds(2) ids1
  obtain db2 where two: "apply_lane_order E target t db1 = Inr db2" "reordered_by E db1 target db2" "board_ok E db2"
    by auto
  have same: "same_but_placement db db2"
    using same1 two(2) same_but_placement_trans by (auto simp: reordered_by_def)
  note eq = same_but_placement_simps [OF same]
  have "\<forall>x. map_option bp_mode (placement_of db2 x) = map_option bp_mode (placement_of db x)"
    using one(2) two(2) by (simp add: reordered_by_def)
  then obtain cur2 where cur2: "load_workflow E db2 w = Inr cur2" "wf_revision current = wf_revision cur2"
    using load_workflow_reordered [OF cur same two(3)] by metis
  have "int rank \<le> i64_max"
    using lane_length [OF env target(1) \<open>?S ` set target \<subseteq> set (board_ids db1)\<close>] bounds(2,4) by (simp add: ids1)
  moreover have "int (placement_rank (wf_placement current)) \<le> i64_max"
    by (rule current_rank_bound [OF ok cur])
  moreover have "history_ok db2" "can_append E A db2"
    using hist app by (simp_all add: history_ok_def can_append_def event_exists_def eq)
  ultimately obtain summary db' where "persist_workflow_change E A w current st m rank ty t db2 = Inr (summary, db')"
    using persist_total [OF two(3) cur2 _ _ _ bounds(1) _ _ ty] bounds(3) by (metis add1_zle_eq of_nat_Suc Suc_eq_plus1 add.commute)
  with one(1) two(1) show ?thesis by (rule that)
qed


lemma place_total:
  assumes env: "uuid_text_ok E" and ok: "board_ok E db" and hist: "history_ok db" and app: "can_append E A db"
    and clock: "unix_time_ms A = Inr t"
    and there: "begin_board_change E w (pw_expected_revision req) db = Inr current"
    and bounds: "int (wf_revision current) < i64_max" "int (length (board_ids db)) \<le> i64_max"
    and guards: "before_workspace_id req = None \<or> after_workspace_id req = None"
      "\<forall>a. board_anchor req = Some a \<longrightarrow> \<not> is_nil a \<and> a \<noteq> w"
    and others: "load_lane_workspace_ids E db (pw_state req) (Some w) = Inr others"
    and i: "insertion_index req others = Some i"
  shows "\<exists>summary db'. place_workspace_on_board E A w req db = (Inr summary, db')"
proof -
  have cur: "load_workflow E db w = Inr current" using there by (simp add: begin_board_change_Inr)
  note ins = vec_insert_simps [OF insertion_index_le [OF i], of w]
  have w: "distinct (vec_insert i w others)" "i < length (vec_insert i w others)"
    using ins loaded_lane(2,3) [OF env ok others] insertion_index_le [OF i] by auto
  obtain db1 db2 summary db' where moves:
    "(if wf_state current \<noteq> pw_state req
      then rbind (load_lane_workspace_ids E db (wf_state current) (Some w)) (\<lambda>source.
           apply_lane_order E source t db)
      else Inr db) = Inr db1"
    "apply_lane_order E (vec_insert i w others) t db1 = Inr db2"
    "persist_workflow_change E A w current (pw_state req) Pinned i BOARD_PLACED_EVENT_TYPE t db2 = Inr (summary, db')"
    by (rule move_total [OF env ok cur others w(1) ins(3) _ bounds(2,1) w(2) hist app, of t BOARD_PLACED_EVENT_TYPE Pinned])
      (use clock in auto)
  with there moves guards i others clock show ?thesis unfolding place_Inr_iff by blast
qed

text \<open>
  C11: on a consistent board, when the clock and the identifiers an operation draws are usable,
  a placement is accepted exactly when the request carries the current revision and names at
  most one anchor, which is another workspace of the target lane.
\<close>

theorem place_accepted_iff:
  assumes env: "uuid_text_ok E" and ok: "board_ok E db" and hist: "history_ok db" and app: "can_append E A db"
    and clock: "unix_time_ms A = Inr t"
    and there: "load_projection E db (uuid_to_string E w) = Inr (Some p)" "load_workflow E db w = Inr current"
    and bounds: "int (wf_revision current) < i64_max" "int (length (board_ids db)) \<le> i64_max"
  shows "(\<exists>summary db'. place_workspace_on_board E A w req db = (Inr summary, db')) \<longleftrightarrow>
     pw_expected_revision req = wf_revision current
     \<and> (before_workspace_id req = None \<or> after_workspace_id req = None)
     \<and> (\<forall>a. before_workspace_id req = Some a \<or> after_workspace_id req = Some a \<longrightarrow>
          a \<noteq> w \<and> \<not> is_nil a \<and> uuid_to_string E a \<in> set (lane_ids db (pw_state req)))" (is "?L \<longleftrightarrow> ?R")
proof -
  obtain others where others: "load_lane_workspace_ids E db (pw_state req) (Some w) = Inr others"
    using load_lane_total [OF env ok] by blast
  have in_others: "a \<in> set others \<longleftrightarrow> uuid_to_string E a \<in> set (lane_ids db (pw_state req)) \<and> a \<noteq> w" for a
    using loaded_lane(3) [OF env ok others] .
  have start: "begin_board_change E w (pw_expected_revision req) db = Inr c \<longleftrightarrow>
      c = current \<and> pw_expected_revision req = wf_revision current" for c
    using there by (auto simp: begin_board_change_Inr)
  have index: "(\<exists>i. insertion_index req others = Some i) \<longleftrightarrow> (\<forall>a. board_anchor req = Some a \<longrightarrow> a \<in> set others)"
    by (cases "before_workspace_id req"; cases "after_workspace_id req")
      (auto simp: insertion_index_def position_ex)
  have both: "(\<forall>a. before_workspace_id req = Some a \<or> after_workspace_id req = Some a \<longrightarrow> P a)
      \<longleftrightarrow> (\<forall>a. board_anchor req = Some a \<longrightarrow> P a)"
    if "before_workspace_id req = None \<or> after_workspace_id req = None" for P
    using that by (auto split: option.splits)
  show ?thesis
  proof
    assume ?L
    then obtain i others' where R: "before_workspace_id req = None \<or> after_workspace_id req = None"
        "\<forall>a. board_anchor req = Some a \<longrightarrow> \<not> is_nil a \<and> a \<noteq> w" "pw_expected_revision req = wf_revision current"
        "load_lane_workspace_ids E db (pw_state req) (Some w) = Inr others'" "insertion_index req others' = Some i"
      unfolding place_Inr_iff start by blast
    from R(4,5) others index have "\<forall>a. board_anchor req = Some a \<longrightarrow> a \<in> set others" by auto
    with R(1-3) show ?R unfolding both [OF R(1)] in_others by blast
  next
    assume R: ?R
    then have "\<forall>a. board_anchor req = Some a \<longrightarrow> a \<in> set others \<and> \<not> is_nil a \<and> a \<noteq> w"
      using both by (simp add: in_others)
    with index obtain i where "insertion_index req others = Some i" by blast
    with \<open>?R\<close> place_total [OF env ok hist app clock start [THEN iffD2] bounds _ _ others] show ?L
      using \<open>\<forall>a. board_anchor req = Some a \<longrightarrow> _ a\<close> by blast
  qed
qed

theorem place_accepted_iff_witness:
  "(\<exists>summary db'. place_workspace_on_board sample_board_env sample_ambient 1 (sample_place None (Some 2)) sample_board
      = (Inr summary, db'))
   \<and> \<not> (\<exists>summary db'. place_workspace_on_board sample_board_env sample_ambient 1 (sample_place None (Some 3)) sample_board
      = (Inr summary, db'))"
proof -
  have members: "\<not> is_nil 2" "\<not> is_nil 3"
    "uuid_to_string sample_board_env 2 \<in> set (lane_ids sample_board Ready)"
    "uuid_to_string sample_board_env 3 \<notin> set (lane_ids sample_board Ready)" by code_simp+
  have "history_ok sample_board" by code_simp
  moreover have "we_event_id ` set (workflow_events sample_board) = {} \<and> be_event_id ` set (board_events sample_board) = {}"
    by code_simp
  then have "can_append sample_board_env sample_ambient sample_board"
    by (simp add: can_append_def sample_env_def sample_event_json_def)
  moreover have "(case load_projection sample_board_env sample_board (uuid_to_string sample_board_env 1) of
      Inr (Some _) \<Rightarrow> True | _ \<Rightarrow> False)"
    "(case load_workflow sample_board_env sample_board 1 of Inr c \<Rightarrow> wf_revision c = 1 | _ \<Rightarrow> False)" by code_simp+
  then obtain p current where there: "load_projection sample_board_env sample_board (uuid_to_string sample_board_env 1) = Inr (Some p)"
      "load_workflow sample_board_env sample_board 1 = Inr current" "wf_revision current = 1"
    by (auto split: sum.splits option.splits)
  moreover have "unix_time_ms sample_ambient = Inr 9" "int (length (board_ids sample_board)) \<le> i64_max" by code_simp+
  moreover have "int (wf_revision current) < i64_max" using there(3) by (simp add: i64_max_def)
  ultimately have "(\<exists>summary db'. place_workspace_on_board sample_board_env sample_ambient 1 req sample_board = (Inr summary, db'))
      \<longleftrightarrow> pw_expected_revision req = wf_revision current
      \<and> (before_workspace_id req = None \<or> after_workspace_id req = None)
      \<and> (\<forall>a. before_workspace_id req = Some a \<or> after_workspace_id req = Some a \<longrightarrow>
           a \<noteq> 1 \<and> \<not> is_nil a \<and> uuid_to_string sample_board_env a \<in> set (lane_ids sample_board (pw_state req)))" for req
    by (intro place_accepted_iff [OF sample_uuid_text_ok sample_board_ok])
  with there(3) members show ?thesis by simp
qed

subsection \<open>Agent transitions\<close>

lemma transition_Inr:
  assumes "uuid_text_ok E" and "board_ok E db"
    and "transition_workflow E A w req db = (Inr summary, db')"
  obtains (kept) "load_workflow E db w = Inr summary" "wf_revision summary = tw_expected_revision req" "db' = db"
      "placement_mode (wf_placement summary) = Pinned \<or> wf_state summary = tw_state req"
  | (moved) current others t db1 db2
    where "begin_board_change E w (tw_expected_revision req) db = Inr current"
      "placement_mode (wf_placement current) \<noteq> Pinned" "wf_state current \<noteq> tw_state req"
      "rbind (load_lane_workspace_ids E db (wf_state current) (Some w)) (\<lambda>source.
         apply_lane_order E source t db) = Inr db1"
      "load_lane_workspace_ids E db (tw_state req) (Some w) = Inr others"
      "apply_lane_order E (others @ [w]) t db1 = Inr db2"
      "persist_workflow_change E A w current (tw_state req) Automatic (length others)
         BOARD_AUTO_TRANSITIONED_EVENT_TYPE t db2 = Inr (summary, db')"
proof -
  obtain current where start: "begin_board_change E w (tw_expected_revision req) db = Inr current"
    and body: "(if placement_mode (wf_placement current) = Pinned \<or> tw_state req = wf_state current
     then Inr (current, db)
     else
       rbind (unix_time_ms A) (\<lambda>t.
       rbind (if wf_state current \<noteq> tw_state req
              then rbind (load_lane_workspace_ids E db (wf_state current) (Some w)) (\<lambda>source.
                   apply_lane_order E source t db)
              else Inr db) (\<lambda>db1.
       rbind (load_lane_workspace_ids E db1 (tw_state req) (Some w)) (\<lambda>others.
       let target = others @ [w] in
       rbind (apply_lane_order E target t db1) (\<lambda>db2.
       persist_workflow_change E A w current (tw_state req) Automatic (length target - 1)
         BOARD_AUTO_TRANSITIONED_EVENT_TYPE t db2))))) = Inr (summary, db')"
    using assms(3) unfolding transition_workflow_def transact_Inr_iff rbind_Inr_iff by blast
  show ?thesis
  proof (cases "placement_mode (wf_placement current) = Pinned \<or> wf_state current = tw_state req")
    case True
    with body have "summary = current" "db' = db" by auto
    with True start kept show ?thesis by (auto simp: begin_board_change_Inr)
  next
    case False
    with body obtain t source db1 others db2 where
      source: "load_lane_workspace_ids E db (wf_state current) (Some w) = Inr source" "apply_lane_order E source t db = Inr db1"
      and others1: "load_lane_workspace_ids E db1 (tw_state req) (Some w) = Inr others"
      and rest: "apply_lane_order E (others @ [w]) t db1 = Inr db2"
        "persist_workflow_change E A w current (tw_state req) Automatic (length others)
         BOARD_AUTO_TRANSITIONED_EVENT_TYPE t db2 = Inr (summary, db')" by (auto simp: Let_def)
    note src = loaded_lane [OF assms(1,2) source(1)]
    have "uuid_to_string E ` set source \<subseteq> set (board_ids db)" using src(3) by (auto simp: set_lane_ids)
    note one = apply_lane_order_Inr [OF assms(1,2) source(2) src(2) this]
    have "load_lane_workspace_ids E db (tw_state req) (Some w) = Inr others"
      using others1 load_lane_reordered [OF assms(1,2) one(2,1) source(1), of "tw_state req"] False by auto
    with start False source rest show ?thesis by (intro moved [of current t db1 others db2]) auto
  qed
qed

lemma load_lane_without:
  assumes "uuid_text_ok E" "board_ok E db" "load_workflow E db w = Inr current" "wf_state current \<noteq> s"
    "load_lane_workspace_ids E db s (Some w) = Inr others"
  shows "load_lane_workspace_ids E db s None = Inr others"
proof -
  have "uuid_to_string E w \<notin> set (lane_ids db s)"
    using state_at_current(1) [OF assms(2,3)] assms(4) workflow_codec.encode_eq_iff by (auto simp: set_lane_ids)
  then have "filter (\<lambda>i. i \<noteq> uuid_to_string E w) (lane_ids db s) = lane_ids db s"
    by (auto simp: filter_id_conv)
  with assms(5) load_lane_iff [OF assms(1,2), of s "Some w" others]
  show ?thesis unfolding load_lane_all_iff [OF assms(1,2)] by simp
qed

text \<open>
  An agent transition does nothing to a pinned workspace or to one already in the state;
  otherwise it appends the workspace to the end of the target lane with automatic placement and
  the next revision, and takes it out of its old lane without disturbing the order there.
\<close>

theorem transition_appends_to_lane:
  assumes "uuid_text_ok E" and "board_ok E db"
    and "transition_workflow E A w req db = (Inr summary, db')"
  shows "\<exists>current. load_workflow E db w = Inr current \<and> wf_revision current = tw_expected_revision req
    \<and> (if placement_mode (wf_placement current) = Pinned \<or> wf_state current = tw_state req
       then summary = current \<and> db' = db
       else board_ok E db' \<and> load_workflow E db' w = Inr summary
         \<and> wf_state summary = tw_state req \<and> placement_mode (wf_placement summary) = Automatic
         \<and> wf_revision summary = wf_revision current + 1
         \<and> (\<exists>others. load_lane_workspace_ids E db (tw_state req) None = Inr others
              \<and> load_lane_workspace_ids E db' (tw_state req) None = Inr (others @ [w]))
         \<and> (\<forall>s l. s \<noteq> tw_state req \<longrightarrow> load_lane_workspace_ids E db s None = Inr l \<longrightarrow>
              load_lane_workspace_ids E db' s None = Inr (filter (\<lambda>u. u \<noteq> w) l)))"
  using assms(1-3)
proof (cases rule: transition_Inr)
  case kept
  then show ?thesis by auto
next
  case (moved current others t db1 db2)
  then have source: "(if wf_state current \<noteq> tw_state req
        then rbind (load_lane_workspace_ids E db (wf_state current) (Some w)) (\<lambda>source.
             apply_lane_order E source t db)
        else Inr db) = Inr db1" by simp
  have cur: "load_workflow E db w = Inr current" "wf_revision current = tw_expected_revision req"
    using moved(1) by (auto simp: begin_board_change_Inr)
  have target: "distinct (others @ [w])" "set (others @ [w]) = insert w (set others)"
      "length others < length (others @ [w])" "(others @ [w]) ! length others = w"
    using loaded_lane [OF assms(1,2) moved(5)] by auto
  show ?thesis
    using move_effect [OF assms(1,2) moved(1,5) source moved(6) target moved(7)] cur moved(2,3)
      persist_workflow_change_Inr(1) [OF moved(7)] load_lane_without [OF assms(1,2) cur(1) moved(3,5)]
    by auto
qed

theorem transition_appends_to_lane_witness:
  "\<exists>summary db'. transition_workflow sample_board_env sample_ambient 1 \<lparr>tw_state = Active, tw_expected_revision = 1\<rparr> sample_board
      = (Inr summary, db')
    \<and> load_lane_workspace_ids sample_board_env db' Active None = Inr [3, 1]
    \<and> load_lane_workspace_ids sample_board_env db' Ready None = Inr [2]"
proof -
  have "case fst (transition_workflow sample_board_env sample_ambient 1 \<lparr>tw_state = Active, tw_expected_revision = 1\<rparr> sample_board)
      of Inl e \<Rightarrow> False | Inr _ \<Rightarrow> True" by code_simp
  then obtain summary db' where run:
    "transition_workflow sample_board_env sample_ambient 1 \<lparr>tw_state = Active, tw_expected_revision = 1\<rparr> sample_board
       = (Inr summary, db')" by (metis (no_types, lifting) old.sum.simps(5) prod.collapse sum.exhaust)
  have "load_lane_workspace_ids sample_board_env sample_board Ready None = Inr [1, 2]"
    "load_lane_workspace_ids sample_board_env sample_board Active None = Inr [3]"
    "map_sum (\<lambda>_. ()) (\<lambda>c. (wf_state c, placement_mode (wf_placement c))) (load_workflow sample_board_env sample_board 1)
      = Inr (Ready, Automatic)" by code_simp+
  with transition_appends_to_lane [OF sample_uuid_text_ok sample_board_ok run] run show ?thesis
    by (auto simp: map_sum_def split: sum.splits)
qed

subsection \<open>Following the agent again\<close>

text \<open>
  Asking a workspace to follow its agent changes nothing when it already does; otherwise it
  makes the placement automatic with the next revision and leaves the workspace's state, its
  rank and every lane of the board as they were.
\<close>

theorem follow_keeps_lanes:
  assumes "uuid_text_ok E" and "board_ok E db"
    and "follow_workspace_agent E A w req db = (Inr summary, db')"
  shows "\<exists>current. load_workflow E db w = Inr current \<and> wf_revision current = fw_expected_revision req
    \<and> (if placement_mode (wf_placement current) = Automatic then summary = current \<and> db' = db
       else board_ok E db' \<and> load_workflow E db' w = Inr summary
         \<and> placement_mode (wf_placement summary) = Automatic \<and> wf_state summary = wf_state current
         \<and> placement_rank (wf_placement summary) = placement_rank (wf_placement current)
         \<and> wf_revision summary = wf_revision current + 1
         \<and> (\<forall>s. load_lane_workspace_ids E db' s None = load_lane_workspace_ids E db s None))"
proof -
  obtain current where start: "begin_board_change E w (fw_expected_revision req) db = Inr current"
    and body: "(if placement_mode (wf_placement current) = Automatic
     then Inr (current, db)
     else rbind (unix_time_ms A) (\<lambda>t.
       persist_workflow_change E A w current (wf_state current) Automatic
         (placement_rank (wf_placement current)) BOARD_FOLLOW_AGENT_EVENT_TYPE t db)) = Inr (summary, db')"
    using assms(3) unfolding follow_workspace_agent_def transact_Inr_iff rbind_Inr_iff by blast
  have cur: "load_workflow E db w = Inr current" "wf_revision current = fw_expected_revision req"
    using start by (auto simp: begin_board_change_Inr)
  show ?thesis
  proof (cases "placement_mode (wf_placement current) = Automatic")
    case True
    with body cur show ?thesis by auto
  next
    case False
    with body obtain t where per: "persist_workflow_change E A w current (wf_state current) Automatic
         (placement_rank (wf_placement current)) BOARD_FOLLOW_AGENT_EVENT_TYPE t db = Inr (summary, db')" by auto
    note eff = persist_effect [OF assms(1,2) cur(1) same_but_placement_refl _ per, simplified]
    have st: "state_at db' x = state_at db x" for x
      using eff(5) [of x] state_at_current(1) [OF assms(2) cur(1)] by simp
    obtain prow where "placement_of db (uuid_to_string E w) = Some prow" "0 \<le> bp_rank prow"
        "placement_rank (wf_placement current) = nat (bp_rank prow)"
      using cur(1) unfolding load_workflow_iff by auto
    then have "rank_at db' x = rank_at db x" for x using eff(6) [of x] by (simp add: rank_at_def)
    then have "lane_ids db' s = lane_ids db s" for s
      using st by (intro lane_ids_cong [OF assms(2) eff(3,4)]) simp_all
    then have "load_lane_workspace_ids E db' s None = Inr us \<longleftrightarrow> load_lane_workspace_ids E db s None = Inr us" for s us
      by (simp only: load_lane_all_iff [OF assms(1,2)] load_lane_all_iff [OF assms(1) eff(1)])
    with load_lane_total [OF assms(1,2)] have "load_lane_workspace_ids E db' s None = load_lane_workspace_ids E db s None" for s
      by metis
    with cur False eff(1,2) persist_workflow_change_Inr(1) [OF per] show ?thesis by auto
  qed
qed

definition sample_pinned_board :: Db where
  "sample_pinned_board = sample_store
     [(sample_record 1 ''one'', ''ready'', 0, ''automatic''),
      (sample_record 2 ''two'', ''ready'', 1, ''pinned'')]"

lemma sample_pinned_board_ok: "board_ok sample_board_env sample_pinned_board"
proof -
  have "board_ids sample_pinned_board = map (uuid_to_string sample_board_env) [1, 2]" by code_simp
  then have "\<exists>u. i = uuid_to_string sample_board_env u" if "i \<in> set (board_ids sample_pinned_board)" for i
    using that by auto
  moreover have "distinct (board_ids sample_pinned_board) \<and> distinct (map bp_workspace_id (board_placement sample_pinned_board))
     \<and> set (map bp_workspace_id (board_placement sample_pinned_board)) = set (board_ids sample_pinned_board)
     \<and> (\<forall>r \<in> set (workflow_projection sample_pinned_board). workflow_check r \<and> wp_revision r \<le> i64_max)
     \<and> (\<forall>r \<in> set (board_placement sample_pinned_board). placement_check r \<and> bp_rank r \<le> i64_max)" by code_simp
  ultimately show ?thesis unfolding board_ok_def by blast
qed

theorem follow_keeps_lanes_witness:
  "\<exists>summary db'. follow_workspace_agent sample_board_env sample_ambient 2 \<lparr>fw_expected_revision = 1\<rparr> sample_pinned_board
      = (Inr summary, db')
    \<and> load_lane_workspace_ids sample_board_env db' Ready None = Inr [1, 2]"
proof -
  have "case fst (follow_workspace_agent sample_board_env sample_ambient 2 \<lparr>fw_expected_revision = 1\<rparr> sample_pinned_board)
      of Inl e \<Rightarrow> False | Inr _ \<Rightarrow> True" by code_simp
  then obtain summary db' where run:
    "follow_workspace_agent sample_board_env sample_ambient 2 \<lparr>fw_expected_revision = 1\<rparr> sample_pinned_board
       = (Inr summary, db')" by (metis (no_types, lifting) old.sum.simps(5) prod.collapse sum.exhaust)
  have "load_lane_workspace_ids sample_board_env sample_pinned_board Ready None = Inr [1, 2]"
    "map_sum (\<lambda>_. ()) (\<lambda>c. placement_mode (wf_placement c)) (load_workflow sample_board_env sample_pinned_board 2)
      = Inr Pinned" by code_simp+
  with follow_keeps_lanes [OF sample_uuid_text_ok sample_pinned_board_ok run] run show ?thesis
    by (auto simp: map_sum_def split: sum.splits)
qed

subsection \<open>Stale revisions\<close>

text \<open>
  C12: every board operation on a live workspace refuses a request whose expected revision is not
  the current one, names both revisions in the error, and leaves the database untouched. Only a
  placement whose anchors are malformed, two at once, nil or the workspace itself, is refused for that
  reason before.
\<close>

theorem stale_revision_refused:
  assumes "load_projection E db (uuid_to_string E w) = Inr (Some p)" and "load_workflow E db w = Inr current"
    and "expected \<noteq> wf_revision current"
  shows "transition_workflow E A w \<lparr>tw_state = s, tw_expected_revision = expected\<rparr> db
      = (Inl (WorkspaceWorkflowConflict expected (wf_revision current)), db)
    \<and> follow_workspace_agent E A w \<lparr>fw_expected_revision = expected\<rparr> db
      = (Inl (WorkspaceWorkflowConflict expected (wf_revision current)), db)
    \<and> place_workspace_on_board E A w
        \<lparr>pw_state = s, pw_expected_revision = expected, before_workspace_id = before, after_workspace_id = after\<rparr> db
      = (Inl (if before \<noteq> None \<and> after \<noteq> None \<or> (\<exists>a \<in> set_option before \<union> set_option after. is_nil a \<or> a = w)
              then InvalidWorkspaceBoardPlacement
              else WorkspaceWorkflowConflict expected (wf_revision current)), db)"
proof -
  have "begin_board_change E w expected db = Inl (WorkspaceWorkflowConflict expected (wf_revision current))"
    using assms by (simp add: begin_board_change_def)
  then show ?thesis
    by (cases before; cases after)
      (simp_all add: transition_workflow_def follow_workspace_agent_def place_workspace_on_board_def ensure_def)
qed

theorem stale_revision_refused_witness:
  "fst (transition_workflow sample_board_env sample_ambient 1 \<lparr>tw_state = Active, tw_expected_revision = 7\<rparr> sample_board)
     = Inl (WorkspaceWorkflowConflict 7 1)"
proof -
  have "(case load_projection sample_board_env sample_board (uuid_to_string sample_board_env 1) of
      Inr (Some _) \<Rightarrow> True | _ \<Rightarrow> False)"
    "(case load_workflow sample_board_env sample_board 1 of Inr c \<Rightarrow> wf_revision c = 1 | _ \<Rightarrow> False)" by code_simp+
  then obtain p current where there: "load_projection sample_board_env sample_board (uuid_to_string sample_board_env 1) = Inr (Some p)"
      "load_workflow sample_board_env sample_board 1 = Inr current" "wf_revision current = 1"
    by (auto split: sum.splits option.splits)
  show ?thesis using stale_revision_refused [OF there(1,2), of 7 sample_ambient Active] there(3) by simp
qed

end
