(* ===== verification/Store_Service.thy ===== *)
theory Store_Service
  imports Store_Workspaces Store_Reviews Store_Board_Lanes
begin

text \<open>
  The store as a state machine: the state is the database, a step is one of the writing methods
  of \<open>WorkspaceService\<close> in \<open>crates/wts-store/src/sqlite.rs\<close> with the clock and identifiers it
  draws, and the states of interest are those reached from an empty database. Every step keeps
  the invariant \<open>store_ok\<close>, from which it follows that reading the workspaces cannot fail.
\<close>

subsection \<open>Steps\<close>

text \<open>The writing methods of \<open>WorkspaceService\<close> with their arguments.\<close>

datatype StoreOp =
    TransitionWorkflow uuid TransitionWorkspaceWorkflowRequest
  | PlaceWorkspaceOnBoard uuid PlaceWorkspaceOnBoardRequest
  | FollowWorkspaceAgent uuid FollowWorkspaceAgentRequest
  | ConfirmWorkItemLink uuid str str StoredWorkItemProvider StoredWorkItemRole StoredWorkItemSnapshot
  | UnlinkWorkItemLink uuid uuid nat
  | CreateReviewThread uuid StoredReviewTarget StoredReviewAuthor str
  | ResolveReviewThread uuid uuid nat
  | ReplaceObservedWorkItems uuid "ObservedWorkItem list"
  | Rename uuid RenameWorkspaceRequest
  | AddRepository uuid WorkspaceRepositoryRequest
  | RemoveRepository uuid str
  | Create str CreateWorkspaceRequest
  | ObserveLifecycle uuid WorkspaceMaterializationState nat
  | Tombstone uuid str str str

definition service :: "Env \<Rightarrow> WorkspaceRoot \<Rightarrow> Ambient \<Rightarrow> StoreOp \<Rightarrow> Db \<Rightarrow> Db" where
  "service E root A op db =
     (case op of
        TransitionWorkflow w req \<Rightarrow> snd (transition_workflow E A w req db)
      | PlaceWorkspaceOnBoard w req \<Rightarrow> snd (place_workspace_on_board E A w req db)
      | FollowWorkspaceAgent w req \<Rightarrow> snd (follow_workspace_agent E A w req db)
      | ConfirmWorkItemLink w key digest provider role snapshot \<Rightarrow>
          snd (confirm_work_item_link E A w key digest provider role snapshot db)
      | UnlinkWorkItemLink w link expected \<Rightarrow> snd (unlink_work_item_link E A w link expected db)
      | CreateReviewThread w target author body \<Rightarrow> snd (create_review_thread E A w target author body db)
      | ResolveReviewThread w thread expected \<Rightarrow> snd (resolve_review_thread E A w thread expected db)
      | ReplaceObservedWorkItems w items \<Rightarrow> snd (replace_observed_work_items E w items db)
      | Rename w req \<Rightarrow> snd (rename_workspace E root A w req db)
      | AddRepository w q \<Rightarrow> snd (add_repository E root A w q db)
      | RemoveRepository w rid \<Rightarrow> snd (remove_repository E root A w rid db)
      | Create key req \<Rightarrow> snd (create_workspace E root A key req db)
      | ObserveLifecycle w state n \<Rightarrow> snd (observe_lifecycle E A w state n db)
      | Tombstone w key digest result \<Rightarrow> snd (tombstone_workspace E A w key digest result db))"

inductive reachable :: "Env \<Rightarrow> WorkspaceRoot \<Rightarrow> Db \<Rightarrow> bool" for E root where
  reachable_empty: "reachable E root empty_db"
| reachable_step: "reachable E root db \<Longrightarrow> reachable E root (service E root A op db)"

subsection \<open>Which tables an operation writes\<close>

text \<open>The tables the workspaces are read from.\<close>

definition core_tables ::
    "Db \<Rightarrow> CreatedEventRow list \<times> ProjectionRow list \<times> LifecycleRow list \<times> WorkflowEventRow list
      \<times> WorkflowRow list \<times> BoardEventRow list \<times> PlacementRow list" where
  "core_tables db = (created_events db, projection db, lifecycle_projection db, workflow_events db,
     workflow_projection db, board_events db, board_placement db)"

named_theorems table_frame

lemma insert_link_frame [table_frame]: "insert_link r db = Inr db' \<Longrightarrow> core_tables db' = core_tables db"
  by (auto simp: insert_link_def core_tables_def)

lemma insert_confirmation_frame [table_frame]: "insert_confirmation r db = Inr db' \<Longrightarrow> core_tables db' = core_tables db"
  by (auto simp: insert_confirmation_def core_tables_def)

lemma insert_link_event_frame [table_frame]: "insert_link_event r db = Inr db' \<Longrightarrow> core_tables db' = core_tables db"
  by (auto simp: insert_link_event_def core_tables_def)

lemma insert_linked_event_frame [table_frame]: "insert_linked_event E u l db = Inr db' \<Longrightarrow> core_tables db' = core_tables db"
  by (auto simp: insert_linked_event_def dest: table_frame)

lemma insert_tombstone_frame [table_frame]: "insert_tombstone r db = Inr db' \<Longrightarrow> core_tables db' = core_tables db"
  by (auto simp: insert_tombstone_def core_tables_def)

lemma insert_observations_frame [table_frame]: "insert_observations rs db = Inr db' \<Longrightarrow> core_tables db' = core_tables db"
proof (induction rs arbitrary: db)
  case (Cons r rs)
  then obtain db1 where "insert_observation r db = Inr db1" "core_tables db' = core_tables db1" by auto
  then show ?case by (auto simp: insert_observation_def core_tables_def)
qed simp

lemma insert_review_rows_frame [table_frame]:
  "insert_review_rows E A w target author body t db = Inr db' \<Longrightarrow> core_tables db' = core_tables db"
  by (auto simp: insert_review_rows_def core_tables_def Let_def split: StoredReviewTarget.splits)

lemma persist_jira_intent_frame [table_frame]:
  "persist_jira_intent_work_item_link E u v rec db = Inr db' \<Longrightarrow> core_tables db' = core_tables db"
  by (auto simp: persist_jira_intent_work_item_link_def Let_def split: WorkspaceIntent.splits dest!: table_frame)

lemma core_tables_simps [simp]:
  "core_tables (db\<lparr>links := a\<rparr>) = core_tables db" "core_tables (db\<lparr>observations := b\<rparr>) = core_tables db"
  "core_tables (db\<lparr>planning_threads := c\<rparr>) = core_tables db" "core_tables (db\<lparr>verification_threads := d\<rparr>) = core_tables db"
  "core_tables (db\<lparr>code_threads := e\<rparr>) = core_tables db"
  by (simp_all add: core_tables_def)

lemma transact_frame:
  assumes "\<And>x db'. body = Inr (x, db') \<Longrightarrow> P db'" and "P db"
  shows "P (snd (transact db body))"
  using assms by (cases body) auto

lemma commit_then_frame:
  assumes "\<And>x db'. body = Inr (x, db') \<Longrightarrow> P db'" and "P db"
  shows "P (snd (commit_then db body after))"
  using assms by (cases body) (auto simp: commit_then_def)

lemma confirm_frame: "core_tables (snd (confirm_work_item_link E A w key digest p role s db)) = core_tables db"
  unfolding confirm_work_item_link_def
  by (rule transact_frame) (auto simp: Let_def split: option.splits dest!: table_frame)

lemma unlink_frame: "core_tables (snd (unlink_work_item_link E A w link n db)) = core_tables db"
  unfolding unlink_work_item_link_def
  by (rule transact_frame) (auto simp: Let_def dest!: table_frame)

lemma create_thread_frame: "core_tables (snd (create_review_thread E A w target author body db)) = core_tables db"
  unfolding create_review_thread_def
  by (rule transact_frame) (auto simp: Let_def dest!: table_frame)

lemma resolve_target_frame:
  assumes "(case target of
          PlanningDocument a b c \<Rightarrow>
            rbind (resolve_rows E w thread r t e (planning_threads db)) (\<lambda>(n, rows). Inr (n, db\<lparr>planning_threads := rows\<rparr>))
        | VerificationCheck a b c \<Rightarrow>
            rbind (resolve_rows E w thread r t e (verification_threads db)) (\<lambda>(n, rows). Inr (n, db\<lparr>verification_threads := rows\<rparr>))
        | CodeChange a b c d f g h \<Rightarrow>
            rbind (resolve_rows E w thread r t e (code_threads db)) (\<lambda>(n, rows). Inr (n, db\<lparr>code_threads := rows\<rparr>)))
      = Inr result"
  shows "core_tables (snd result) = core_tables db"
  using assms by (auto split: StoredReviewTarget.splits)

lemma resolve_thread_frame: "core_tables (snd (resolve_review_thread E A w thread n db)) = core_tables db"
  unfolding resolve_review_thread_def
proof (rule transact_frame, elim rbind_InrE, goal_cases)
  case (1 x db' _ _ _ planning verification code _ current)
  from 1(10) show ?case
    by (auto split: if_splits elim!: rbind_InrE dest!: resolve_target_frame)
qed simp

lemma observe_work_items_frame: "core_tables (snd (replace_observed_work_items E w items db)) = core_tables db"
  unfolding replace_observed_work_items_def
  by (rule commit_then_frame) (auto dest!: table_frame)

lemma tombstone_frame: "core_tables (snd (tombstone_workspace E A w key digest r db)) = core_tables db"
  unfolding tombstone_workspace_def
  by (rule transact_frame) (auto simp: Let_def split: option.splits dest!: table_frame)

subsection \<open>Board operations\<close>

definition events_known :: "Db \<Rightarrow> bool" where
  "events_known db \<longleftrightarrow> (\<forall>x \<in> set (workflow_events db). event_exists db (we_workspace_id x))
     \<and> (\<forall>x \<in> set (board_events db). event_exists db (be_workspace_id x))"

definition record_tables :: "Db \<Rightarrow> CreatedEventRow list \<times> ProjectionRow list \<times> LifecycleRow list" where
  "record_tables db = (created_events db, projection db, lifecycle_projection db)"

lemma same_but_placement_history:
  assumes "same_but_placement db db'"
  shows "history_ok db' = history_ok db" "events_known db' = events_known db" "record_tables db' = record_tables db"
  using same_but_placement_simps [OF assms]
  by (simp_all add: history_ok_def events_known_def event_exists_def record_tables_def)

lemma insert_event_known:
  "insert_workflow_event r db = Inr db' \<Longrightarrow> event_exists db (we_workspace_id r)"
  "insert_board_event b db = Inr db' \<Longrightarrow> event_exists db (be_workspace_id b)"
  unfolding insert_workflow_event_def insert_board_event_def rbind_Inr_iff ensure_Inr_iff by blast+

lemma append_workflow_event_Inr:
  assumes "append_workflow_event E u w current st k rev_i t db = Inr db1"
  shows "\<exists>r. db1 = db\<lparr>workflow_events := workflow_events db @ [r]\<rparr> \<and> we_workspace_id r = uuid_to_string E w
    \<and> we_revision r = rev_i \<and> event_exists db (uuid_to_string E w)"
  using assms unfolding append_workflow_event_def
  by (elim rbind_InrE) (use insert_event_known(1) insert_workflow_event_Inr_iff in fastforce)

lemma append_board_event_Inr:
  assumes "append_board_event E u w ty current st m k k_i k' rev_i t db = Inr db1"
  shows "\<exists>r. db1 = db\<lparr>board_events := board_events db @ [r]\<rparr> \<and> be_workspace_id r = uuid_to_string E w
    \<and> be_revision r = rev_i \<and> event_exists db (uuid_to_string E w)"
  using assms unfolding append_board_event_def Let_def
  by (elim rbind_InrE) (use insert_event_known(2) insert_board_event_Inr_iff in fastforce)

text \<open>The rows of one board after the two rows of a workspace advanced by a revision.\<close>

lemma persist_history:
  assumes "persist_workflow_change E A w current st m rank ty t db = Inr (summary, db')"
    and "distinct (board_ids db)" and "history_ok db" and "events_known db"
  shows "history_ok db'" "events_known db'" "record_tables db' = record_tables db"
proof -
  let ?W = "uuid_to_string E w" and ?n = "int (wf_revision current)"
  obtain db1 db2 where one: "(if wf_state current \<noteq> st
        then append_workflow_event E (draw A 0) w current st (wf_revision current + 1) (?n + 1) t db else Inr db) = Inr db1"
    and two: "append_board_event E (draw A (if wf_state current \<noteq> st then 1 else 0)) w ty current st m rank (int rank)
        (wf_revision current + 1) (?n + 1) t db1 = Inr db2"
    and upd: "update_board_rows ?W ?n (workflow_state_storage st) (?n + 1) (board_placement_mode_storage m) (int rank) t db2 = Inr db'"
    using assms(1) unfolding persist_workflow_change_def by (auto simp: add.commute split: if_splits)
  obtain wes where db1: "db1 = db\<lparr>workflow_events := workflow_events db @ wes\<rparr>"
      "\<forall>r \<in> set wes. we_workspace_id r = ?W \<and> we_revision r = ?n + 1 \<and> event_exists db ?W"
    using one append_workflow_event_Inr by (cases "wf_state current = st") (fastforce intro: that [of "[]"])+
  obtain be where db2: "db2 = db1\<lparr>board_events := board_events db @ [be]\<rparr>" "be_workspace_id be = ?W"
      "be_revision be = ?n + 1" "event_exists db ?W"
    using append_board_event_Inr [OF two] by (auto simp: db1(1) event_exists_def)
  note rows = upd [unfolded update_board_rows_Inr_iff]
  then have "length (filter (\<lambda>r. wp_workspace_id r = ?W \<and> wp_revision r = ?n) (workflow_projection db)) = 1"
    by (simp add: db1 db2)
  then obtain r0 where "r0 \<in> set (workflow_projection db)" "wp_workspace_id r0 = ?W" "wp_revision r0 = ?n"
    by (metis (mono_tags, lifting) filter_empty_conv list.size(3) zero_neq_one)
  then have at: "wp_revision r = ?n" if "r \<in> set (workflow_projection db)" "wp_workspace_id r = ?W" for r
    using that assms(2) by (metis distinct_map inj_onD)
  have db': "workflow_events db' = workflow_events db @ wes" "board_events db' = board_events db @ [be]"
      "created_events db' = created_events db" "record_tables db' = record_tables db"
    using rows by (simp_all add: db1 db2 record_tables_def)
  show "record_tables db' = record_tables db" by (fact db')
  show "events_known db'" using assms(4) db1(2) db2 by (auto simp: events_known_def event_exists_def db')
  have "\<exists>r0 \<in> set (workflow_projection db). wp_workspace_id r = wp_workspace_id r0 \<and>
      wp_revision r = (if wp_workspace_id r0 = ?W then ?n + 1 else wp_revision r0)"
    if "r \<in> set (workflow_projection db')" for r
    using that rows at by (auto simp: db1 db2 split: if_splits)
  then show "history_ok db'"
    using assms(3) db1(2) db2 at unfolding history_ok_def db' event_exists_def
    by (fastforce split: if_splits)
qed

end
