(* ===== verification/Store_Invariant.thy ===== *)
theory Store_Invariant
  imports Store_Service
begin

text \<open>
  The invariant of the store: every operation of \<open>Store_Service\<close> keeps \<open>store_ok\<close>, so every
  database reached from an empty one satisfies it, whatever the requests, clocks and identifiers
  were. From it follow that listing never fails and that the board partitions the workspaces.
\<close>

subsection \<open>The invariant\<close>

text \<open>
  Every projection row decodes to a record of the store's root, the board has one entry for
  each of them, identifiers are unique, and events belong to created workspaces and are no
  later than the workspace's revision.
\<close>

definition row_ok :: "Env \<Rightarrow> WorkspaceRoot \<Rightarrow> Db \<Rightarrow> ProjectionRow \<Rightarrow> bool" where
  "row_ok E root db p \<longleftrightarrow> (\<exists>d. decode_projection E (raw_projection db p) = Inr d
     \<and> wr_workspace_root_id (dp_record d) = root_id root)"

definition store_ok :: "Env \<Rightarrow> WorkspaceRoot \<Rightarrow> Db \<Rightarrow> bool" where
  "store_ok E root db \<longleftrightarrow>
     distinct (map pr_workspace_id (projection db))
     \<and> (\<forall>p \<in> set (projection db). row_ok E root db p \<and> event_exists db (pr_workspace_id p))
     \<and> board_ok E db \<and> set (board_ids db) = set (map pr_workspace_id (projection db))
     \<and> history_ok db \<and> events_known db"

lemma store_ok_empty: "store_ok E root empty_db"
  by (simp add: store_ok_def empty_db_def board_ok_def history_ok_def events_known_def)

lemma board_ok_cong:
  "workflow_projection db' = workflow_projection db \<Longrightarrow> board_placement db' = board_placement db
     \<Longrightarrow> board_ok E db' = board_ok E db"
  by (simp add: board_ok_def)

lemma row_ok_cong:
  "lifecycle_projection db' = lifecycle_projection db \<Longrightarrow> row_ok E root db' p = row_ok E root db p"
  by (simp add: row_ok_def raw_projection_def)

lemma store_ok_core:
  assumes "core_tables db' = core_tables db"
  shows "store_ok E root db' = store_ok E root db"
proof -
  have eq: "projection db' = projection db" "board_ids db' = board_ids db" "board_ok E db' = board_ok E db"
      "history_ok db' = history_ok db" "events_known db' = events_known db" "event_exists db' = event_exists db"
    using assms by (simp_all add: core_tables_def board_ok_def history_ok_def events_known_def event_exists_def fun_eq_iff)
  have row: "row_ok E root db' p = row_ok E root db p" for p
    using assms by (intro row_ok_cong) (simp add: core_tables_def)
  show ?thesis unfolding store_ok_def eq row ..
qed

text \<open>A board operation touches the board and the two event tables only.\<close>

lemma store_ok_board:
  assumes "store_ok E root db" and "record_tables db' = record_tables db"
    and "board_ok E db'" "board_ids db' = board_ids db" "history_ok db'" "events_known db'"
  shows "store_ok E root db'"
proof -
  have eq: "projection db' = projection db" "event_exists db' = event_exists db"
    using assms(2) by (simp_all add: record_tables_def event_exists_def fun_eq_iff)
  have row: "row_ok E root db' p = row_ok E root db p" for p
    using assms(2) by (intro row_ok_cong) (simp add: record_tables_def)
  show ?thesis using assms(1,3-) unfolding store_ok_def eq row by metis
qed

lemma move_store_ok:
  assumes env: "uuid_text_ok E" and ok: "store_ok E root db"
    and cur: "load_workflow E db w = Inr current"
    and others: "load_lane_workspace_ids E db st (Some w) = Inr others"
    and source: "(if wf_state current \<noteq> st
        then rbind (load_lane_workspace_ids E db (wf_state current) (Some w)) (\<lambda>source.
             apply_lane_order E source t db)
        else Inr db) = Inr db1"
    and target: "apply_lane_order E target t db1 = Inr db2"
      "distinct target" "set target = insert w (set others)"
    and per: "persist_workflow_change E A w current st m rank ty t db2 = Inr (summary, db')"
  shows "store_ok E root db'"
proof -
  have board: "board_ok E db" "history_ok db" "events_known db" using ok by (simp_all add: store_ok_def)
  obtain source where one: "reordered_by E db source db1" "board_ok E db1"
    using source_reordered [OF env board(1) source] by blast
  have same1: "same_but_placement db db1" using one(1) by (simp add: reordered_by_def)
  have "uuid_to_string E ` set target \<subseteq> set (board_ids db1)"
    unfolding target(3) same_but_placement_simps(1) [OF same1]
    using loaded_lane(3) [OF env board(1) others] state_at_current(2) [OF board(1) cur] by (auto simp: set_lane_ids)
  note two = apply_lane_order_Inr [OF env one(2) target(1,2) this]
  then have same: "same_but_placement db db2"
    using same1 same_but_placement_trans by (auto simp: reordered_by_def)
  have modes: "\<forall>x. map_option bp_mode (placement_of db2 x) = map_option bp_mode (placement_of db x)"
    using one(1) two(1) by (simp add: reordered_by_def)
  note eff = persist_effect [OF env two(2) cur same modes per]
  have "distinct (board_ids db2)" using two(2) by (simp add: board_ok_def)
  from persist_history [OF per this] show ?thesis
    using board(2,3) same_but_placement_history [OF same] eff(1,3) by (intro store_ok_board [OF ok]) simp_all
qed

subsection \<open>Stored rows\<close>

definition lifecycle_of :: "Db \<Rightarrow> str \<Rightarrow> LifecycleRow option" where
  "lifecycle_of db i = find (\<lambda>x. lr_workspace_id x = i) (lifecycle_projection db)"

text \<open>What a lifecycle row, or its absence, says of a record.\<close>

definition lifecycle_reads :: "WorkspaceRecord \<Rightarrow> LifecycleRow option \<Rightarrow> WorkspaceLifecycleSummary \<Rightarrow> bool" where
  "lifecycle_reads r x l \<longleftrightarrow>
     (case x of
        None \<Rightarrow> l = lifecycle_unknown
      | Some x \<Rightarrow> i64_try_from (wr_record_version r) = Some (lr_record_version x)
          \<and> lifecycle_state_from_storage (lr_state x) = Inr (ls_materialization_state l)
          \<and> u32_try_from (lr_worktree_count x) = Some (ls_worktree_count l)
          \<and> ls_observed_at_unix_ms l = Some (lr_observed_at x) \<and> validate_lifecycle r l = Inr ())"

lemma decode_lifecycle_iff:
  "decode_lifecycle r (raw_projection db p) = Inr l \<longleftrightarrow> lifecycle_reads r (lifecycle_of db (pr_workspace_id p)) l"
proof (cases "lifecycle_of db (pr_workspace_id p)")
  case None
  then show ?thesis
    by (auto simp: decode_lifecycle_def raw_projection_def lifecycle_reads_def lifecycle_of_def Let_def)
next
  case (Some x)
  obtain m n ob where "l = \<lparr>ls_materialization_state = m, ls_worktree_count = n, ls_observed_at_unix_ms = ob\<rparr>"
    by (cases l) auto
  with Some show ?thesis
    unfolding decode_lifecycle_def raw_projection_def lifecycle_reads_def lifecycle_of_def Let_def
    by (auto simp: eq_commute [of "Some a" "i64_try_from b" for a b])
qed

lemma decode_projection_iff:
  "decode_projection E (raw_projection db p) = Inr d \<longleftrightarrow>
     sql_length (pr_record_json p) \<le> MAX_RECORD_JSON_BYTES
     \<and> record_from_json E (pr_record_json p) = Inr (dp_record d)
     \<and> uuid_to_string E (wr_workspace_id (dp_record d)) = pr_workspace_id p
     \<and> i64_try_from (wr_record_version (dp_record d)) = Some (pr_record_version p)
     \<and> wr_updated_at_unix_ms (dp_record d) = pr_updated_at p \<and> record_ok E (dp_record d)
     \<and> lifecycle_reads (dp_record d) (lifecycle_of db (pr_workspace_id p)) (dp_lifecycle d)"
proof -
  have eq: "d = \<lparr>dp_record = a, dp_lifecycle = b\<rparr> \<longleftrightarrow> dp_record d = a \<and> dp_lifecycle d = b" for a b
    by (cases d) auto
  have raw: "raw_workspace_id (raw_projection db p) = pr_workspace_id p"
      "raw_record_version (raw_projection db p) = pr_record_version p"
      "raw_record_json (raw_projection db p) = pr_record_json p" "raw_updated_at (raw_projection db p) = pr_updated_at p"
      "raw_json_bytes (raw_projection db p) = int (sql_length (pr_record_json p))"
    by (simp_all add: raw_projection_def Let_def)
  show ?thesis
    unfolding decode_projection_def rbind_Inr_iff ensure_Inr_iff map_err_Inr_iff decode_lifecycle_iff
      validate_record_iff [simplified] raw
    by (auto simp: eq eq_commute [of _ d] validate_record_iff)
qed

lemma sql_length_le: "sql_length s \<le> str_len s"
proof -
  have "sql_length s \<le> length s" unfolding sql_length_def sql_text_def by (rule length_takeWhile_le)
  then show ?thesis using length_le_str_len [of s] by linarith
qed

subsection \<open>Operations on records\<close>

text \<open>Only the lifecycle row of one workspace differs.\<close>

definition lifecycle_only :: "str \<Rightarrow> Db \<Rightarrow> Db \<Rightarrow> bool" where
  "lifecycle_only w db db' \<longleftrightarrow> (\<exists>rows. db' = db\<lparr>lifecycle_projection := rows\<rparr>)
     \<and> (\<forall>i. i \<noteq> w \<longrightarrow> lifecycle_of db' i = lifecycle_of db i)"

lemma lifecycle_only_refl: "lifecycle_only w db db"
  unfolding lifecycle_only_def by (auto intro: exI [of _ "lifecycle_projection db"])

lemma lifecycle_only_simps:
  assumes "lifecycle_only w db db'"
  shows "projection db' = projection db" "created_events db' = created_events db"
    "workflow_projection db' = workflow_projection db" "board_placement db' = board_placement db"
    "workflow_events db' = workflow_events db" "board_events db' = board_events db"
  using assms by (auto simp: lifecycle_only_def)

lemma load_projection_Some:
  assumes "load_projection E db i = Inr (Some d)"
  obtains p where "p \<in> set (projection db)" "pr_workspace_id p = i" "decode_projection E (raw_projection db p) = Inr d"
  using assms that nth_mem by (fastforce simp: load_projection_def map_transpose_def find_Some_iff split: option.splits)

text \<open>Replacing the document of one projection row, and perhaps its lifecycle row.\<close>

definition rewritten :: "str \<Rightarrow> str \<Rightarrow> int \<Rightarrow> ProjectionRow \<Rightarrow> ProjectionRow" where
  "rewritten w json t p = (if pr_workspace_id p = w then p\<lparr>pr_record_json := json, pr_updated_at := t\<rparr> else p)"

lemma pr_workspace_id_rewritten [simp]: "pr_workspace_id (rewritten w json t p) = pr_workspace_id p"
  by (simp add: rewritten_def)

lemma update_projection_Inr:
  "update_projection E w json t db = Inr db' \<Longrightarrow>
     db' = db\<lparr>projection := map (rewritten (uuid_to_string E w) json t) (projection db)\<rparr>"
  by (auto simp: update_projection_def rewritten_def [abs_def])

lemma rewrite_store_ok:
  assumes ok: "store_ok E root db"
    and old: "load_projection E db (uuid_to_string E w) = Inr (Some d)"
    and json: "record_from_json E json = Inr rec" "str_len json \<le> MAX_RECORD_JSON_BYTES \<or> sql_length json \<le> MAX_RECORD_JSON_BYTES"
    and rec: "record_ok E rec" "wr_workspace_id rec = wr_workspace_id (dp_record d)"
      "wr_workspace_root_id rec = wr_workspace_root_id (dp_record d)"
      "wr_updated_at_unix_ms rec = t"
    and db1: "db1 = db\<lparr>projection := map (rewritten (uuid_to_string E w) json t) (projection db)\<rparr>"
    and life: "lifecycle_only (uuid_to_string E w) db1 db'"
      "\<exists>l. lifecycle_reads rec (lifecycle_of db' (uuid_to_string E w)) l"
  shows "store_ok E root db'"
proof -
  let ?W = "uuid_to_string E w"
  note eq = lifecycle_only_simps [OF life(1)]
  obtain p0 where p0: "p0 \<in> set (projection db)" "pr_workspace_id p0 = ?W"
      "decode_projection E (raw_projection db p0) = Inr d" using old by (rule load_projection_Some)
  have ids: "map pr_workspace_id (projection db') = map pr_workspace_id (projection db)"
    unfolding eq db1 by simp
  have row: "row_ok E root db' (rewritten ?W json t p)" if p: "p \<in> set (projection db)" for p
  proof (cases "pr_workspace_id p = ?W")
    case True
    with p p0 ok have "p = p0" unfolding store_ok_def by (metis distinct_map inj_onD)
    obtain l where l: "lifecycle_reads rec (lifecycle_of db' ?W) l" using life(2) by blast
    have "decode_projection E (raw_projection db' (rewritten ?W json t p)) = Inr \<lparr>dp_record = rec, dp_lifecycle = l\<rparr>"
      using p0(2,3) json rec l sql_length_le [of json] unfolding decode_projection_iff \<open>p = p0\<close>
      by (auto simp: rewritten_def record_ok_def)
    moreover have "wr_workspace_root_id rec = root_id root"
      using ok p0(1,3) rec(3) by (auto simp: store_ok_def row_ok_def)
    ultimately show ?thesis by (auto simp: row_ok_def)
  next
    case False
    have "lifecycle_of db1 (pr_workspace_id p) = lifecycle_of db (pr_workspace_id p)"
      by (simp add: lifecycle_of_def db1)
    then have "decode_projection E (raw_projection db' p) = Inr d' \<longleftrightarrow> decode_projection E (raw_projection db p) = Inr d'" for d'
      using False life(1) unfolding decode_projection_iff by (simp add: lifecycle_only_def)
    then show ?thesis using ok p False by (simp add: store_ok_def row_ok_def rewritten_def)
  qed
  have frame: "board_ids db' = board_ids db" "board_ok E db' = board_ok E db" "history_ok db' = history_ok db"
      "events_known db' = events_known db" "event_exists db' = event_exists db"
    using eq by (simp_all add: db1 board_ok_def history_ok_def events_known_def event_exists_def fun_eq_iff)
  have "\<forall>p \<in> set (projection db'). row_ok E root db' p \<and> event_exists db (pr_workspace_id p)"
    using row ok unfolding eq db1 store_ok_def by auto
  then show ?thesis using ok unfolding store_ok_def frame ids by blast
qed

abbreviation renamed :: "Env \<Rightarrow> uuid \<Rightarrow> str \<Rightarrow> int \<Rightarrow> WorkspaceRecord \<Rightarrow> WorkspaceRecord" where
  "renamed E w name t rec \<equiv> rec\<lparr>wr_workspace_leaf := workspace_leaf_from_name E name w,
     wr_display_name := Some name, wr_updated_at_unix_ms := t\<rparr>"

lemma rename_Inr:
  assumes "rename_workspace E root A w request db = (result, db')" and "db' \<noteq> db"
  obtains d name json where "normalize_workspace_title (rename_title request) = Inr name"
    "load_projection E db (uuid_to_string E w) = Inr (Some d)"
    "record_ok E (renamed E w name (now A) (dp_record d))"
    "record_to_json E (renamed E w name (now A) (dp_record d)) = Some json" "str_len json \<le> MAX_RECORD_JSON_BYTES"
    "update_projection E w json (now A) db = Inr db'"
    "result = view_of E root db' (d\<lparr>dp_record := renamed E w name (now A) (dp_record d)\<rparr>)"
  using assms(1) unfolding rename_workspace_def Let_def commit_then_iff normalize_rename_def
  by (elim disjE exE conjE rbind_InrE) (use assms(2) that in \<open>auto simp: validate_record_iff\<close>)

lemma lifecycle_reads_rewritten:
  assumes "lifecycle_reads rec x l" "wr_record_version rec' = wr_record_version rec"
    "wr_created_at_unix_ms rec' = wr_created_at_unix_ms rec"
    "length (wr_repositories rec') = length (wr_repositories rec)"
  shows "lifecycle_reads rec' x l"
  using assms by (auto simp: lifecycle_reads_def validate_lifecycle_def validate_lifecycle_timestamp_def
      split: option.splits WorkspaceMaterializationState.splits)

lemma rename_store_ok:
  assumes "record_codec_ok E" and ok: "store_ok E root db"
  shows "store_ok E root (snd (rename_workspace E root A w request db))"
proof (cases "rename_workspace E root A w request db")
  case (Pair result db')
  show ?thesis
  proof (cases "db' = db")
    case False
    with Pair obtain d name json where d: "load_projection E db (uuid_to_string E w) = Inr (Some d)"
      and rec: "record_ok E (renamed E w name (now A) (dp_record d))"
        "record_to_json E (renamed E w name (now A) (dp_record d)) = Some json" "str_len json \<le> MAX_RECORD_JSON_BYTES"
      and upd: "update_projection E w json (now A) db = Inr db'" by (rule rename_Inr)
    obtain p where p: "pr_workspace_id p = uuid_to_string E w" "decode_projection E (raw_projection db p) = Inr d"
      using d by (rule load_projection_Some)
    have "lifecycle_of db' i = lifecycle_of db i" for i
      using update_projection_Inr [OF upd] by (simp add: lifecycle_of_def)
    then have "lifecycle_reads (renamed E w name (now A) (dp_record d)) (lifecycle_of db' (uuid_to_string E w)) (dp_lifecycle d)"
      using p lifecycle_reads_rewritten unfolding decode_projection_iff by auto
    then have "store_ok E root db'"
      using assms(1) rec(2,3) by (intro rewrite_store_ok [OF ok d _ _ rec(1) _ _ _ update_projection_Inr [OF upd] lifecycle_only_refl])
        (auto simp: record_codec_ok_def)
    with Pair show ?thesis by simp
  qed (use Pair ok in simp)
qed

lemma find_update_rows:
  assumes "\<And>x. lr_workspace_id (f x) = lr_workspace_id x"
  shows "lifecycle_of (db\<lparr>lifecycle_projection := map (\<lambda>x. if lr_workspace_id x = w then f x else x) (lifecycle_projection db)\<rparr>) i
    = (if i = w then map_option f (lifecycle_of db i) else lifecycle_of db i)"
proof -
  have "find (\<lambda>x. lr_workspace_id x = i) (map (\<lambda>x. if lr_workspace_id x = w then f x else x) rows)
      = map_option (\<lambda>x. if lr_workspace_id x = w then f x else x) (find (\<lambda>x. lr_workspace_id x = i) rows)" for rows
    by (rule find_key_map) (simp add: assms)
  moreover have "lr_workspace_id x = i" if "find (\<lambda>x. lr_workspace_id x = i) rows = Some x" for x rows
    using that by (auto simp: find_Some_iff)
  ultimately show ?thesis
    by (cases "find (\<lambda>x. lr_workspace_id x = i) (lifecycle_projection db)") (auto simp: lifecycle_of_def)
qed

lemma lifecycle_only_update:
  assumes "\<And>x. lr_workspace_id (f x) = lr_workspace_id x"
  shows "lifecycle_only w db (db\<lparr>lifecycle_projection := map (\<lambda>x. if lr_workspace_id x = w then f x else x) (lifecycle_projection db)\<rparr>)"
  using find_update_rows [OF assms] by (auto simp: lifecycle_only_def)

text \<open>The new lifecycle of a workspace whose repositories change, and the row that stores it.\<close>

definition refreshed :: "WorkspaceLifecycleSummary \<Rightarrow> nat \<Rightarrow> int \<Rightarrow> WorkspaceLifecycleSummary" where
  "refreshed l n t =
     (if ls_materialization_state l = Materialized
      then l\<lparr>ls_worktree_count := n, ls_observed_at_unix_ms := Some t\<rparr> else l)"

lemma store_repositories_Inr:
  assumes "store_repositories E A check_size w d plans db = Inr (d', db')"
  obtains rec json db1 where "rec = (dp_record d)\<lparr>wr_repositories := plans, wr_updated_at_unix_ms := now A\<rparr>"
    "d' = \<lparr>dp_record = rec, dp_lifecycle = refreshed (dp_lifecycle d) (length plans) (now A)\<rparr>"
    "record_ok E rec" "validate_lifecycle rec (dp_lifecycle d') = Inr ()"
    "record_to_json E rec = Some json" "check_size \<longrightarrow> str_len json \<le> MAX_RECORD_JSON_BYTES"
    "update_projection E w json (now A) db = Inr db1"
    "ls_materialization_state (dp_lifecycle d) = Materialized \<longrightarrow> length plans \<le> u32_max"
    "db' = (if ls_materialization_state (dp_lifecycle d) = Materialized
       then db1\<lparr>lifecycle_projection := map (\<lambda>x. if lr_workspace_id x = uuid_to_string E w
              then x\<lparr>lr_worktree_count := int (length plans), lr_observed_at := now A\<rparr> else x)
            (lifecycle_projection db1)\<rparr>
       else db1)"
proof (cases "ls_materialization_state (dp_lifecycle d) = Materialized")
  case True
  show ?thesis
    using assms True unfolding store_repositories_def Let_def
    by (elim rbind_InrE) (use that in \<open>auto simp: validate_record_iff refreshed_def\<close>)
next
  case False
  show ?thesis
    using assms False unfolding store_repositories_def Let_def
    by (elim rbind_InrE) (use that in \<open>auto simp: validate_record_iff refreshed_def\<close>)
qed

lemma store_repositories_ok:
  assumes codec: "record_codec_ok E" and ok: "store_ok E root db"
    and old: "load_projection E db (uuid_to_string E w) = Inr (Some d)"
    and run: "store_repositories E A check_size w d plans db = Inr (d', db')"
    and size: "\<And>r j. record_ok E r \<Longrightarrow> record_to_json E r = Some j \<Longrightarrow> str_len j \<le> MAX_RECORD_JSON_BYTES \<or> check_size"
  shows "store_ok E root db'"
proof -
  let ?W = "uuid_to_string E w"
  obtain rec json db1 where rec: "rec = (dp_record d)\<lparr>wr_repositories := plans, wr_updated_at_unix_ms := now A\<rparr>"
    and d': "d' = \<lparr>dp_record = rec, dp_lifecycle = refreshed (dp_lifecycle d) (length plans) (now A)\<rparr>"
    and valid: "record_ok E rec" "validate_lifecycle rec (dp_lifecycle d') = Inr ()"
    and json: "record_to_json E rec = Some json" "check_size \<longrightarrow> str_len json \<le> MAX_RECORD_JSON_BYTES"
    and upd: "update_projection E w json (now A) db = Inr db1"
    and count: "ls_materialization_state (dp_lifecycle d) = Materialized \<longrightarrow> length plans \<le> u32_max"
    and db': "db' = (if ls_materialization_state (dp_lifecycle d) = Materialized
       then db1\<lparr>lifecycle_projection := map (\<lambda>x. if lr_workspace_id x = ?W
              then x\<lparr>lr_worktree_count := int (length plans), lr_observed_at := now A\<rparr> else x)
            (lifecycle_projection db1)\<rparr>
       else db1)" using run by (rule store_repositories_Inr)
  obtain p where p: "pr_workspace_id p = ?W" "decode_projection E (raw_projection db p) = Inr d"
    using old by (rule load_projection_Some)
  have "lifecycle_of db1 i = lifecycle_of db i" for i
    using update_projection_Inr [OF upd] by (simp add: lifecycle_of_def)
  then have reads: "lifecycle_reads (dp_record d) (lifecycle_of db1 ?W) (dp_lifecycle d)"
    using p unfolding decode_projection_iff by simp
  have only: "lifecycle_only ?W db1 db'"
    unfolding db' using lifecycle_only_update [where f = "\<lambda>x. x\<lparr>lr_worktree_count := int (length plans), lr_observed_at := now A\<rparr>" and w = ?W and db = db1]
    by (auto simp: lifecycle_only_refl)
  have "lifecycle_of db' ?W = (if ls_materialization_state (dp_lifecycle d) = Materialized
      then map_option (\<lambda>x. x\<lparr>lr_worktree_count := int (length plans), lr_observed_at := now A\<rparr>) (lifecycle_of db1 ?W)
      else lifecycle_of db1 ?W)"
    unfolding db' using find_update_rows [where f = "\<lambda>x. x\<lparr>lr_worktree_count := int (length plans), lr_observed_at := now A\<rparr>" and db = db1 and w = ?W and i = ?W]
    by simp
  then have "lifecycle_reads rec (lifecycle_of db' ?W) (dp_lifecycle d')"
    using reads valid(2) count by (cases "lifecycle_of db1 ?W")
      (auto simp: lifecycle_reads_def d' refreshed_def rec lifecycle_unknown_def)
  then show ?thesis
    using json codec size [OF valid(1) json(1)]
    by (intro rewrite_store_ok [OF ok old _ _ valid(1) _ _ _ update_projection_Inr [OF upd] only])
      (auto simp: rec record_codec_ok_def)
qed

lemma add_repository_store_ok:
  assumes "record_codec_ok E" and ok: "store_ok E root db"
  shows "store_ok E root (snd (add_repository E root A w q db))"
  unfolding add_repository_def
proof (rule commit_then_frame)
  fix x db'
  assume "rbind (load_projection E db (uuid_to_string E w)) (\<lambda>found.
     rbind (ok_or found (WorkspaceNotFound w)) (\<lambda>d.
     store_repositories E A True w d
       (sort_key (plan_sort_key E) (wr_repositories (dp_record d) @ [new_plan E q (draw A 0)])) db)) = Inr (x, db')"
  then show "store_ok E root db'"
    by (elim rbind_InrE) (use store_repositories_ok [OF assms] in auto)
qed (fact ok)

text \<open>
  Removing a repository is the one write that does not check the size of the document: it is
  smaller than the one it replaces. The promise here is that valid records stay in the limit.
\<close>

definition record_json_bounded :: "Env \<Rightarrow> bool" where
  "record_json_bounded E \<longleftrightarrow>
     (\<forall>r j. record_ok E r \<longrightarrow> record_to_json E r = Some j \<longrightarrow> str_len j \<le> MAX_RECORD_JSON_BYTES)"

lemma remove_repository_store_ok:
  assumes "record_codec_ok E" and "record_json_bounded E" and ok: "store_ok E root db"
  shows "store_ok E root (snd (remove_repository E root A w rid db))"
  unfolding remove_repository_def
proof (rule commit_then_frame)
  fix x db'
  assume "rbind (load_projection E db (uuid_to_string E w)) (\<lambda>found.
     rbind (ok_or found (WorkspaceNotFound w)) (\<lambda>d.
     let plans = filter (\<lambda>p. rp_repository_id p \<noteq> Some rid) (wr_repositories (dp_record d)) in
     rbind (ensure (length plans \<noteq> length (wr_repositories (dp_record d))) (WorkspaceNotFound w)) (\<lambda>_.
     store_repositories E A False w d plans db))) = Inr (x, db')"
  then obtain d plans where "load_projection E db (uuid_to_string E w) = Inr (Some d)"
      "store_repositories E A False w d plans db = Inr (x, db')" by (auto simp: Let_def)
  then show "store_ok E root db'"
    using store_repositories_ok [OF assms(1) ok, of w d A False plans "fst (x, db')" db'] assms(2)
    by (auto simp: record_json_bounded_def)
qed (fact ok)

lemma upsert_lifecycle_Inr:
  assumes "upsert_lifecycle r db = Inr db'"
  shows "lifecycle_only (lr_workspace_id r) db db'" "lifecycle_of db' (lr_workspace_id r) = Some r"
proof -
  let ?W = "lr_workspace_id r"
  have "lifecycle_only ?W db db' \<and> lifecycle_of db' ?W = Some r"
  proof (cases "\<exists>x \<in> set (lifecycle_projection db). lr_workspace_id x = ?W")
    case True
    have upd: "db' = db\<lparr>lifecycle_projection := map (\<lambda>x. if lr_workspace_id x = ?W then r else x) (lifecycle_projection db)\<rparr>"
      using assms True by (auto simp: upsert_lifecycle_def)
    have "find (\<lambda>x. lr_workspace_id x = i) (map (\<lambda>x. if lr_workspace_id x = ?W then r else x) rows)
        = (if i = ?W \<and> (\<exists>x \<in> set rows. lr_workspace_id x = ?W) then Some r else find (\<lambda>x. lr_workspace_id x = i) rows)" for i rows
      by (induction rows) auto
    with True show ?thesis by (auto simp: upd lifecycle_only_def lifecycle_of_def)
  next
    case False
    then have "db' = db\<lparr>lifecycle_projection := lifecycle_projection db @ [r]\<rparr>"
      using assms by (auto simp: upsert_lifecycle_def insert_lifecycle_def)
    moreover have "find (\<lambda>x. lr_workspace_id x = i) (rows @ [r]) = (case find (\<lambda>x. lr_workspace_id x = i) rows of
        None \<Rightarrow> if i = ?W then Some r else None | Some x \<Rightarrow> Some x)" for i rows
      by (induction rows) auto
    moreover have "find (\<lambda>x. lr_workspace_id x = ?W) (lifecycle_projection db) = None"
      using False by (auto simp: find_None_iff)
    ultimately show ?thesis by (auto simp: lifecycle_only_def lifecycle_of_def split: option.splits)
  qed
  then show "lifecycle_only ?W db db'" "lifecycle_of db' ?W = Some r" by blast+
qed

lemma lifecycle_store_ok:
  assumes ok: "store_ok E root db" and old: "load_projection E db (uuid_to_string E w) = Inr (Some d)"
    and life: "lifecycle_only (uuid_to_string E w) db db'"
      "\<exists>l. lifecycle_reads (dp_record d) (lifecycle_of db' (uuid_to_string E w)) l"
  shows "store_ok E root db'"
proof -
  let ?W = "uuid_to_string E w"
  obtain p where p: "p \<in> set (projection db)" "pr_workspace_id p = ?W"
      "decode_projection E (raw_projection db p) = Inr d" using old by (rule load_projection_Some)
  have "rewritten ?W (pr_record_json p) (pr_updated_at p) q = q" if "q \<in> set (projection db)" for q
  proof (cases "pr_workspace_id q = ?W")
    case True
    with that p ok have "q = p" unfolding store_ok_def by (metis distinct_map inj_onD)
    then show ?thesis by (simp add: rewritten_def)
  qed (simp add: rewritten_def)
  then have "map (rewritten ?W (pr_record_json p) (pr_updated_at p)) (projection db) = projection db"
    by (simp add: map_idI)
  then have "db = db\<lparr>projection := map (rewritten ?W (pr_record_json p) (pr_updated_at p)) (projection db)\<rparr>" by simp
  then show ?thesis
    using p(3) by (intro rewrite_store_ok [OF ok old _ _ _ refl refl _ _ life]) (auto simp: decode_projection_iff)
qed

lemma record_ok_repositories: "record_ok E r \<Longrightarrow> length (wr_repositories r) \<le> 32 \<and> wr_repositories r \<noteq> []"
  by (auto simp: record_ok_def normalize_def record_request_def MAX_REPOSITORIES_PER_WORKSPACE_def)

lemma observe_lifecycle_store_ok:
  assumes ok: "store_ok E root db"
  shows "store_ok E root (snd (observe_lifecycle E A w state n db))"
proof (cases "observe_lifecycle E A w state n db")
  case (Pair result db')
  show ?thesis
  proof (cases result)
    case (Inr l)
    obtain d version where d: "load_projection E db (uuid_to_string E w) = Inr (Some d)" and state: "state \<noteq> Unknown"
      and l: "l = \<lparr>ls_materialization_state = state, ls_worktree_count = n, ls_observed_at_unix_ms = Some (now A)\<rparr>"
        "validate_lifecycle (dp_record d) l = Inr ()"
      and version: "i64_try_from (wr_record_version (dp_record d)) = Some version"
      and up: "upsert_lifecycle \<lparr>lr_workspace_id = uuid_to_string E w, lr_record_version = version,
              lr_state = lifecycle_state_storage state, lr_worktree_count = int n,
              lr_observed_at = now A\<rparr> db = Inr db'"
      using Pair unfolding Inr observe_lifecycle_def Let_def transact_Inr_iff
      by (elim rbind_InrE) auto
    obtain p where "decode_projection E (raw_projection db p) = Inr d" using d by (rule load_projection_Some)
    then have "n \<le> u32_max"
      using l(2) state record_ok_repositories [of E "dp_record d"]
      by (cases state) (auto simp: l(1) decode_projection_iff validate_lifecycle_def u32_max_def)
    then have "lifecycle_reads (dp_record d) (lifecycle_of db' (uuid_to_string E w)) l"
      using upsert_lifecycle_Inr(2) [OF up] l version state
      by (cases state) (auto simp: lifecycle_reads_def lifecycle_state_storage_def lifecycle_state_from_storage_def lit_def)
    with upsert_lifecycle_Inr(1) [OF up] lifecycle_store_ok [OF ok d] Pair show ?thesis by auto
  qed (use Pair ok in \<open>auto simp: observe_lifecycle_def transact_Inl_iff\<close>)
qed


text \<open>The tables after an insertion.\<close>

lemma insert_created_event_Inr:
  "insert_created_event r db = Inr db' \<Longrightarrow>
     db' = db\<lparr>created_events := created_events db @ [r]\<rparr> \<and> \<not> event_exists db (ce_workspace_id r)"
  by (auto simp: insert_created_event_def event_exists_def)

lemma insert_projection_Inr: "insert_projection r db = Inr db' \<Longrightarrow> db' = db\<lparr>projection := projection db @ [r]\<rparr>"
  by (auto simp: insert_projection_def)

lemma insert_lifecycle_Inr:
  "insert_lifecycle r db = Inr db' \<Longrightarrow> db' = db\<lparr>lifecycle_projection := lifecycle_projection db @ [r]\<rparr>
     \<and> lifecycle_of db (lr_workspace_id r) = None"
  by (auto simp: insert_lifecycle_def lifecycle_of_def find_None_iff)

lemma insert_workflow_Inr:
  "insert_workflow r db = Inr db' \<Longrightarrow> db' = db\<lparr>workflow_projection := workflow_projection db @ [r]\<rparr> \<and> workflow_check r"
  by (auto simp: insert_workflow_def)

lemma insert_placement_Inr:
  "insert_placement r db = Inr db' \<Longrightarrow> db' = db\<lparr>board_placement := board_placement db @ [r]\<rparr> \<and> placement_row_ok r"
  by (auto simp: insert_placement_def)

lemma persist_jira_intent_tombstones:
  "persist_jira_intent_work_item_link E u v rec db = Inr db' \<Longrightarrow> tombstone_events db' = tombstone_events db"
  by (auto simp: persist_jira_intent_work_item_link_def insert_link_def insert_linked_event_def insert_link_event_def
      Let_def split: WorkspaceIntent.splits)

text \<open>The rows of a new workspace, with its document and its rank.\<close>

definition new_rows ::
    "Env \<Rightarrow> WorkspaceRecord \<Rightarrow> int \<Rightarrow> str \<Rightarrow> int \<Rightarrow> ProjectionRow \<times> LifecycleRow \<times> WorkflowRow \<times> PlacementRow" where
  "new_rows E rec t json rank = (let w = uuid_to_string E (wr_workspace_id rec) in
     (\<lparr>pr_workspace_id = w, pr_record_version = int (wr_record_version rec), pr_record_json = json, pr_updated_at = t\<rparr>,
      \<lparr>lr_workspace_id = w, lr_record_version = int (wr_record_version rec), lr_state = lit ''not_materialized'',
        lr_worktree_count = 0, lr_observed_at = t\<rparr>,
      \<lparr>wp_workspace_id = w, wp_state = lit ''ready'', wp_revision = 1, wp_updated_at = t\<rparr>,
      \<lparr>bp_workspace_id = w, bp_mode = lit ''automatic'', bp_rank = rank, bp_updated_at = t\<rparr>))"

lemma insert_workspace_Inr:
  assumes "insert_workspace E A key digest rec t db = Inr db'"
  obtains json rank ce p l wrow prow where "new_rows E rec t json rank = (p, l, wrow, prow)"
    "record_to_json E rec = Some json" "str_len json \<le> MAX_RECORD_JSON_BYTES"
    "ce_workspace_id ce = uuid_to_string E (wr_workspace_id rec)"
    "ce_idempotency_key ce = uuid_to_string E key" "ce_request_digest ce = digest"
    "int (wr_record_version rec) \<le> i64_max" "workflow_check wrow" "placement_row_ok prow"
    "\<not> event_exists db (uuid_to_string E (wr_workspace_id rec))"
    "lifecycle_of db (uuid_to_string E (wr_workspace_id rec)) = None"
    "core_tables db' = (created_events db @ [ce], projection db @ [p], lifecycle_projection db @ [l],
       workflow_events db, workflow_projection db @ [wrow], board_events db, board_placement db @ [prow])"
    "tombstone_events db' = tombstone_events db"
  using assms unfolding insert_workspace_def Let_def ok_or_Inr_iff ensure_Inr_iff
proof (elim rbind_InrE, goal_cases)
  case prems: (1 json _ ej version db1 db2 db3 db4 db5)
  note 1 = prems
  have version: "version = int (wr_record_version rec)" "int (wr_record_version rec) \<le> i64_max"
    using 1(5) by simp_all
  let ?w = "uuid_to_string E (wr_workspace_id rec)"
  obtain ce where ce: "insert_created_event ce db = Inr db1" "ce_workspace_id ce = ?w"
      "ce_idempotency_key ce = uuid_to_string E key" "ce_request_digest ce = digest"
    by (rule that [OF 1(6)]) simp_all
  define rank where "rank = next_ready_rank db4"
  note new = insert_created_event_Inr [OF ce(1)] insert_projection_Inr [OF 1(7)]
    insert_lifecycle_Inr [OF 1(8)] insert_workflow_Inr [OF 1(9)] insert_placement_Inr [OF 1(10), folded rank_def]
  have core: "core_tables db' = core_tables db5" by (rule persist_jira_intent_frame [OF 1(11)])
  obtain p l wrow prow where rows: "new_rows E rec t json rank = (p, l, wrow, prow)"
    by (metis prod_cases4)
  have tables: "core_tables db5 = (created_events db @ [ce], projection db @ [p], lifecycle_projection db @ [l],
       workflow_events db, workflow_projection db @ [wrow], board_events db, board_placement db @ [prow])"
    using new rows version(1) by (simp add: core_tables_def new_rows_def Let_def)
  have "tombstone_events db' = tombstone_events db5" by (rule persist_jira_intent_tombstones [OF 1(11)])
  then have tombs: "tombstone_events db' = tombstone_events db" using new by simp
  have old: "\<not> event_exists db ?w" "lifecycle_of db ?w = None" "workflow_check wrow" "placement_row_ok prow"
    using new rows ce(2) version(1) by (auto simp: new_rows_def Let_def lifecycle_of_def)
  show ?case
    by (rule that [OF rows 1(2) [simplified] 1(3) [simplified] ce(2-4) version(2) old(3,4) old(1,2) core [unfolded tables] tombs])
qed

lemma find_append_new:
  "find P (xs @ [x]) = (case find P xs of None \<Rightarrow> if P x then Some x else None | Some y \<Rightarrow> Some y)"
  by (induction xs) auto

lemma board_ok_insert:
  assumes "board_ok E db" "workflow_projection db' = workflow_projection db @ [wrow]"
    "board_placement db' = board_placement db @ [prow]" "wp_workspace_id wrow = uuid_to_string E w"
    "bp_workspace_id prow = uuid_to_string E w" "uuid_to_string E w \<notin> set (board_ids db)"
    "workflow_check wrow" "wp_revision wrow = 1" "placement_row_ok prow"
  shows "board_ok E db'"
  using assms unfolding board_ok_def by (auto simp: i64_max_def)

text \<open>The new rows read back as the record with its first lifecycle; the other rows as before.\<close>

lemma insert_reads_back:
  assumes codec: "record_codec_ok E" and run: "insert_workspace E A key digest rec t db = Inr db'"
    and rec: "record_ok E rec" "wr_updated_at_unix_ms rec = t" "validate_lifecycle rec (new_lifecycle t) = Inr ()"
  obtains ce p wrow prow where
    "created_events db' = created_events db @ [ce]" "projection db' = projection db @ [p]"
    "workflow_events db' = workflow_events db" "board_events db' = board_events db"
    "workflow_projection db' = workflow_projection db @ [wrow]" "board_placement db' = board_placement db @ [prow]"
    "tombstone_events db' = tombstone_events db" "workflow_check wrow" "placement_row_ok prow" "wp_revision wrow = 1"
    "ce_workspace_id ce = uuid_to_string E (wr_workspace_id rec)" "ce_idempotency_key ce = uuid_to_string E key"
    "ce_request_digest ce = digest" "pr_workspace_id p = uuid_to_string E (wr_workspace_id rec)"
    "wp_workspace_id wrow = uuid_to_string E (wr_workspace_id rec)" "bp_workspace_id prow = uuid_to_string E (wr_workspace_id rec)"
    "\<not> event_exists db (uuid_to_string E (wr_workspace_id rec))"
    "decode_projection E (raw_projection db' p) = Inr \<lparr>dp_record = rec, dp_lifecycle = new_lifecycle t\<rparr>"
    "\<forall>q d. pr_workspace_id q \<noteq> uuid_to_string E (wr_workspace_id rec) \<longrightarrow>
       (decode_projection E (raw_projection db' q) = Inr d) = (decode_projection E (raw_projection db q) = Inr d)"
proof -
  let ?W = "uuid_to_string E (wr_workspace_id rec)"
  obtain json rank ce p l wrow prow where rows: "new_rows E rec t json rank = (p, l, wrow, prow)"
    and json: "record_to_json E rec = Some json" "str_len json \<le> MAX_RECORD_JSON_BYTES"
    and ce: "ce_workspace_id ce = ?W" "ce_idempotency_key ce = uuid_to_string E key" "ce_request_digest ce = digest"
    and version: "int (wr_record_version rec) \<le> i64_max"
    and checks: "workflow_check wrow" "placement_row_ok prow"
    and new: "\<not> event_exists db ?W" "lifecycle_of db ?W = None"
    and tables: "core_tables db' = (created_events db @ [ce], projection db @ [p], lifecycle_projection db @ [l],
       workflow_events db, workflow_projection db @ [wrow], board_events db, board_placement db @ [prow])"
    and tombs: "tombstone_events db' = tombstone_events db"
    using run by (rule insert_workspace_Inr)
  have ids: "pr_workspace_id p = ?W" "lr_workspace_id l = ?W" "wp_workspace_id wrow = ?W" "bp_workspace_id prow = ?W"
      "wp_revision wrow = 1"
    using rows by (auto simp: new_rows_def Let_def)
  have life: "lifecycle_of db' i = (if i = ?W then Some l else lifecycle_of db i)" for i
    using tables new(2) ids(2) by (auto simp: lifecycle_of_def core_tables_def find_append_new split: option.splits)
  have "decode_projection E (raw_projection db' p) = Inr \<lparr>dp_record = rec, dp_lifecycle = new_lifecycle t\<rparr>"
    using rows json sql_length_le [of json] codec version rec ids(1) unfolding decode_projection_iff life
    by (auto simp: new_rows_def Let_def record_codec_ok_def lifecycle_reads_def new_lifecycle_def
        lifecycle_state_from_storage_def lit_def)
  moreover have "decode_projection E (raw_projection db' q) = Inr d \<longleftrightarrow> decode_projection E (raw_projection db q) = Inr d"
    if "pr_workspace_id q \<noteq> ?W" for q d
    using that unfolding decode_projection_iff life by simp
  ultimately show ?thesis
    using tables tombs checks ids(1,3-5) ce new(1) by (intro that [of ce p wrow prow]) (simp_all add: core_tables_def)
qed

lemma insert_store_ok:
  assumes codec: "record_codec_ok E" and ok: "store_ok E root db"
    and run: "insert_workspace E A key digest rec t db = Inr db'"
    and rec: "record_ok E rec" "wr_workspace_root_id rec = root_id root" "wr_updated_at_unix_ms rec = t"
      "validate_lifecycle rec (new_lifecycle t) = Inr ()"
  shows "store_ok E root db'"
proof -
  let ?W = "uuid_to_string E (wr_workspace_id rec)"
  obtain ce p wrow prow where
    tables: "created_events db' = created_events db @ [ce]" "projection db' = projection db @ [p]"
      "workflow_events db' = workflow_events db" "board_events db' = board_events db"
      "workflow_projection db' = workflow_projection db @ [wrow]" "board_placement db' = board_placement db @ [prow]"
      "tombstone_events db' = tombstone_events db"
    and checks: "workflow_check wrow" "placement_row_ok prow" "wp_revision wrow = 1"
    and ids: "ce_workspace_id ce = ?W" "ce_idempotency_key ce = uuid_to_string E key" "ce_request_digest ce = digest"
      "pr_workspace_id p = ?W" "wp_workspace_id wrow = ?W" "bp_workspace_id prow = ?W"
    and new: "\<not> event_exists db ?W"
    and reads: "decode_projection E (raw_projection db' p) = Inr \<lparr>dp_record = rec, dp_lifecycle = new_lifecycle t\<rparr>"
      "\<forall>q d. pr_workspace_id q \<noteq> ?W \<longrightarrow>
         (decode_projection E (raw_projection db' q) = Inr d) = (decode_projection E (raw_projection db q) = Inr d)"
    by (rule insert_reads_back [OF codec run rec(1,3,4)])
  have ex: "event_exists db' i \<longleftrightarrow> i = ?W \<or> event_exists db i" for i
    using tables ids(1) by (auto simp: event_exists_def)
  have notin: "?W \<notin> set (map pr_workspace_id (projection db))" using ok new by (auto simp: store_ok_def)
  have old: "row_ok E root db' q" if q: "q \<in> set (projection db)" for q
  proof -
    have "pr_workspace_id q \<noteq> ?W" using q notin by force
    then show ?thesis using reads(2) ok q by (simp add: store_ok_def row_ok_def)
  qed
  have fresh: "row_ok E root db' p" using reads(1) rec(2) by (auto simp: row_ok_def)
  have "board_ok E db" "?W \<notin> set (board_ids db)" using ok notin unfolding store_ok_def by blast+
  with tables ids checks have "board_ok E db'" by (intro board_ok_insert [of E db db' wrow prow]) simp_all
  moreover have "history_ok db'"
    using ok new tables ids checks(3) ex unfolding store_ok_def history_ok_def events_known_def by auto
  moreover have "events_known db'" using ok tables ex unfolding store_ok_def events_known_def by auto
  moreover have "set (board_ids db') = set (map pr_workspace_id (projection db'))"
      "distinct (map pr_workspace_id (projection db'))"
    using ok tables ids notin by (auto simp: store_ok_def)
  moreover have "\<forall>q \<in> set (projection db'). row_ok E root db' q \<and> event_exists db' (pr_workspace_id q)"
    using old fresh ok tables ids ex by (auto simp: store_ok_def)
  ultimately show ?thesis unfolding store_ok_def by blast
qed

lemma create_store_ok:
  assumes "record_codec_ok E" and ok: "store_ok E root db"
  shows "store_ok E root (snd (create_workspace E root A raw_key request db))"
  unfolding create_workspace_def
proof (rule commit_then_frame)
  fix x db'
  assume "rbind (request_identity E raw_key request) (\<lambda>(key, req, digest).
     rbind (find_created E key digest db) (\<lambda>found.
     case found of
       Some d \<Rightarrow> Inr ((d, True), db)
     | None \<Rightarrow>
         rbind (unix_time_ms A) (\<lambda>t.
         let rec = new_record E root A t req; l = new_lifecycle t in
         rbind (validate_record E rec) (\<lambda>_.
         rbind (validate_lifecycle rec l) (\<lambda>_.
         rbind (insert_workspace E A key digest rec t db) (\<lambda>db.
         Inr ((\<lparr>dp_record = rec, dp_lifecycle = l\<rparr>, False), db))))))) = Inr (x, db')"
  then consider "db' = db"
    | key req digest t where "record_ok E (new_record E root A t req)"
        "validate_lifecycle (new_record E root A t req) (new_lifecycle t) = Inr ()"
        "insert_workspace E A key digest (new_record E root A t req) t db = Inr db'"
    by (auto simp: Let_def validate_record_iff split: option.splits prod.splits)
  then show "store_ok E root db'"
  proof cases
    case 2
    then show ?thesis by (intro insert_store_ok [OF assms 2(3) 2(1) _ _ 2(2)]) (simp_all add: new_record_def)
  qed (use ok in simp)
qed (fact ok)

lemma place_store_ok:
  assumes env: "uuid_text_ok E" and ok: "store_ok E root db"
  shows "store_ok E root (snd (place_workspace_on_board E A w req db))"
proof (cases "place_workspace_on_board E A w req db")
  case (Pair result db')
  show ?thesis
  proof (cases result)
    case (Inl e)
    with Pair ok show ?thesis by (simp add: place_workspace_on_board_def Let_def transact_Inl_iff)
  next
    case (Inr summary)
    obtain current others i t db1 db2
      where start: "begin_board_change E w (pw_expected_revision req) db = Inr current"
        and others: "load_lane_workspace_ids E db (pw_state req) (Some w) = Inr others"
        and i: "insertion_index req others = Some i"
        and source: "(if wf_state current \<noteq> pw_state req
          then rbind (load_lane_workspace_ids E db (wf_state current) (Some w)) (\<lambda>source.
               apply_lane_order E source t db)
          else Inr db) = Inr db1"
        and target: "apply_lane_order E (vec_insert i w others) t db1 = Inr db2"
        and per: "persist_workflow_change E A w current (pw_state req) Pinned i BOARD_PLACED_EVENT_TYPE t db2
                  = Inr (summary, db')"
      using Pair unfolding Inr place_Inr_iff by blast
    note ins = vec_insert_simps [OF insertion_index_le [OF i], of w]
    have board: "board_ok E db" and cur: "load_workflow E db w = Inr current"
      using ok start by (simp_all add: store_ok_def begin_board_change_Inr)
    have "distinct (vec_insert i w others)" using ins loaded_lane(2,3) [OF env board others] by auto
    from move_store_ok [OF env ok cur others source target this ins(3) per] Pair show ?thesis by simp
  qed
qed

lemma transition_store_ok:
  assumes env: "uuid_text_ok E" and ok: "store_ok E root db"
  shows "store_ok E root (snd (transition_workflow E A w req db))"
proof (cases "transition_workflow E A w req db")
  case (Pair result db')
  have board: "board_ok E db" using ok by (simp add: store_ok_def)
  show ?thesis
  proof (cases result)
    case (Inl e)
    with Pair ok show ?thesis by (simp add: transition_workflow_def transact_Inl_iff)
  next
    case (Inr summary)
    from Pair Inr have run: "transition_workflow E A w req db = (Inr summary, db')" by simp
    show ?thesis using env board run
    proof (cases rule: transition_Inr)
      case kept
      with Pair ok show ?thesis by simp
    next
      case (moved current others t db1 db2)
      then have source: "(if wf_state current \<noteq> tw_state req
          then rbind (load_lane_workspace_ids E db (wf_state current) (Some w)) (\<lambda>source.
               apply_lane_order E source t db)
          else Inr db) = Inr db1" by simp
      have "load_workflow E db w = Inr current" using moved(1) by (simp add: begin_board_change_Inr)
      moreover have "distinct (others @ [w])" "set (others @ [w]) = insert w (set others)"
        using loaded_lane [OF env board moved(5)] by auto
      ultimately show ?thesis using move_store_ok [OF env ok _ moved(5) source moved(6) _ _ moved(7)] Pair by simp
    qed
  qed
qed

lemma follow_store_ok:
  assumes env: "uuid_text_ok E" and ok: "store_ok E root db"
  shows "store_ok E root (snd (follow_workspace_agent E A w req db))"
  unfolding follow_workspace_agent_def
proof (rule transact_frame)
  fix x db'
  assume "rbind (begin_board_change E w (fw_expected_revision req) db) (\<lambda>current.
     if placement_mode (wf_placement current) = Automatic
     then Inr (current, db)
     else
       rbind (unix_time_ms A) (\<lambda>t.
       persist_workflow_change E A w current (wf_state current) Automatic
         (placement_rank (wf_placement current)) BOARD_FOLLOW_AGENT_EVENT_TYPE t db)) = Inr (x, db')"
  then obtain current t where cur: "load_workflow E db w = Inr current"
    and step: "db' = db \<or> persist_workflow_change E A w current (wf_state current) Automatic
         (placement_rank (wf_placement current)) BOARD_FOLLOW_AGENT_EVENT_TYPE t db = Inr (x, db')"
    by (auto simp: begin_board_change_Inr split: if_splits)
  have board: "board_ok E db" "history_ok db" "events_known db" using ok by (simp_all add: store_ok_def)
  then have "distinct (board_ids db)" by (simp add: board_ok_def)
  from step show "store_ok E root db'"
  proof
    assume per: "persist_workflow_change E A w current (wf_state current) Automatic
         (placement_rank (wf_placement current)) BOARD_FOLLOW_AGENT_EVENT_TYPE t db = Inr (x, db')"
    note eff = persist_effect [OF env board(1) cur same_but_placement_refl _ per, simplified]
    show ?thesis
      using persist_history [OF per \<open>distinct (board_ids db)\<close> board(2,3)] eff(1,3) by (intro store_ok_board [OF ok]) simp_all
  qed (use ok in simp)
qed (fact ok)

lemmas store_ok_records =
  rename_store_ok add_repository_store_ok remove_repository_store_ok create_store_ok observe_lifecycle_store_ok

lemmas store_ok_boards = place_store_ok transition_store_ok follow_store_ok

lemmas store_frames =
  confirm_frame unlink_frame create_thread_frame resolve_thread_frame observe_work_items_frame tombstone_frame

lemma service_store_ok:
  assumes "uuid_text_ok E" "record_codec_ok E" "record_json_bounded E" "store_ok E root db"
  shows "store_ok E root (service E root A op db)"
  using assms store_ok_records store_ok_boards
  by (cases op) (simp_all add: service_def store_ok_core [OF store_frames(1)] store_ok_core [OF store_frames(2)]
      store_ok_core [OF store_frames(3)] store_ok_core [OF store_frames(4)] store_ok_core [OF store_frames(5)]
      store_ok_core [OF store_frames(6)])

lemma reachable_store_ok:
  assumes "uuid_text_ok E" "record_codec_ok E" "record_json_bounded E" "reachable E root db"
  shows "store_ok E root db"
  using assms(4) by (induction rule: reachable.induct) (simp_all add: store_ok_empty service_store_ok [OF assms(1-3)])

subsection \<open>Reading the workspaces of a reachable store\<close>

lemma path_join_leaf:
  assumes "path_to_str p = Some s" and "\<forall>c \<in> set leaf. c < 128"
  shows "\<exists>s. path_to_str (path_join p leaf) = Some s"
proof -
  have "c < 0x110000" if "c \<in> set (lit ''/'')" for c using that by (auto simp: lit_def)
  with assms show ?thesis by (fastforce simp: path_to_str_def path_join_def split: if_splits)
qed

lemma view_total:
  assumes env: "uuid_text_ok E" and ok: "store_ok E root db" and path: "path_to_str (root_path root) = Some s"
    and p: "p \<in> set (projection db)" "decode_projection E (raw_projection db p) = Inr d"
  shows "\<exists>v. view_of E root db d = Inr v \<and> wr_workspace_id v = wr_workspace_id (dp_record d)
    \<and> wr_updated_at_unix_ms v = pr_updated_at p"
proof -
  have rec: "record_ok E (dp_record d)" "uuid_to_string E (wr_workspace_id (dp_record d)) = pr_workspace_id p"
      "wr_updated_at_unix_ms (dp_record d) = pr_updated_at p"
    using p(2) by (simp_all add: decode_projection_iff)
  have "validate_lifecycle (dp_record d) (dp_lifecycle d) = Inr ()"
    using p(2) unfolding decode_projection_iff
    by (auto simp: lifecycle_reads_def lifecycle_unknown_def validate_lifecycle_def split: option.splits)
  moreover obtain display where "path_to_str (path_join (root_path root) (wr_workspace_leaf (dp_record d))) = Some display"
    using path_join_leaf [OF path record_ok_leaf_chars [OF env rec(1)]] by blast
  moreover have "wr_workspace_root_id (dp_record d) = root_id root"
    using ok p by (auto simp: store_ok_def row_ok_def)
  moreover have "pr_workspace_id p \<in> set (board_ids db)" using ok p(1) unfolding store_ok_def by auto
  then obtain wf where "load_workflow E db (wr_workspace_id (dp_record d)) = Inr wf"
    using load_workflow_total [of E db "wr_workspace_id (dp_record d)"] ok rec(2) by (auto simp: store_ok_def)
  ultimately show ?thesis
    using rec by (auto simp: view_of_def view_def validate_record_iff load_observed_work_items_def WorkspaceRecord.extend_def)
qed

text \<open>
  C13: in every store reached from an empty database, listing the workspaces succeeds, and the
  list holds every workspace that was created and not tombstoned, once, the most recently
  updated first and those of the same time by identifier.
\<close>

theorem reachable_list_total:
  assumes "uuid_text_ok E" and "record_codec_ok E" and "record_json_bounded E"
    and "path_to_str (root_path root) = Some s" and "reachable E root db"
  shows "\<exists>l ps. list_workspaces E root db = Inr l
    \<and> map (\<lambda>v. (- wr_updated_at_unix_ms v, uuid_to_string E (wr_workspace_id v))) (wl_workspaces l)
        = map (\<lambda>p. (- pr_updated_at p, pr_workspace_id p)) ps
    \<and> sorted (map (\<lambda>p. (- pr_updated_at p, pr_workspace_id p)) ps) \<and> distinct (map pr_workspace_id ps)
    \<and> set ps = {p \<in> set (projection db). \<not> tombstoned db (pr_workspace_id p)}"
proof -
  let ?key = "\<lambda>p. (- pr_updated_at p, pr_workspace_id p)"
  let ?ps = "sort_key ?key (filter (\<lambda>p. \<not> tombstoned db (pr_workspace_id p)) (projection db))"
  let ?f = "\<lambda>p. rbind (decode_projection E (raw_projection db p)) (view_of E root db)"
  have ok: "store_ok E root db" using reachable_store_ok [OF assms(1-3,5)] .
  have "\<exists>v. ?f p = Inr v \<and> (- wr_updated_at_unix_ms v, uuid_to_string E (wr_workspace_id v)) = ?key p"
    if p: "p \<in> set ?ps" for p
  proof -
    have mem: "p \<in> set (projection db)" using p by simp
    with ok obtain d where d: "decode_projection E (raw_projection db p) = Inr d"
      by (auto simp: store_ok_def row_ok_def)
    moreover have "uuid_to_string E (wr_workspace_id (dp_record d)) = pr_workspace_id p"
      using d by (simp add: decode_projection_iff)
    ultimately show ?thesis using view_total [OF assms(1) ok assms(4) mem d] by auto
  qed
  then obtain vs where vs: "traverse ?f ?ps = Inr vs"
      "list_all2 (\<lambda>p v. (- wr_updated_at_unix_ms v, uuid_to_string E (wr_workspace_id v)) = ?key p) ?ps vs"
    using traverse_total [of ?ps ?f "\<lambda>p v. (- wr_updated_at_unix_ms v, uuid_to_string E (wr_workspace_id v)) = ?key p"] by blast
  have "distinct (map pr_workspace_id (projection db))" using ok by (simp add: store_ok_def)
  then have "distinct (map pr_workspace_id ?ps)"
    by (simp add: distinct_map distinct_map_filter inj_on_def)
  with vs list_all2_map_eq [OF vs(2)] show ?thesis
    by (intro exI [of _ "\<lparr>wl_workspace_root_id = root_id root, wl_workspace_root_display_path = root_display_path root,
          wl_workspaces = vs\<rparr>"] exI [of _ ?ps]) (auto simp: list_workspaces_def)
qed

text \<open>
  C14: in every reachable store the board is consistent: every workspace has a readable workflow,
  and a workspace that was not tombstoned is in exactly the lane of its state.
\<close>

theorem reachable_board_partition:
  assumes "uuid_text_ok E" and "record_codec_ok E" and "record_json_bounded E" and "reachable E root db"
    and "p \<in> set (projection db)" and "uuid_to_string E w = pr_workspace_id p" and "\<not> tombstoned db (pr_workspace_id p)"
  shows "\<exists>current. load_workflow E db w = Inr current \<and> 1 \<le> wf_revision current
    \<and> (\<forall>s. pr_workspace_id p \<in> set (lane_ids db s) \<longleftrightarrow> s = wf_state current)
    \<and> (\<forall>s. \<exists>us. load_lane_workspace_ids E db s None = Inr us \<and> distinct us \<and> (w \<in> set us \<longleftrightarrow> s = wf_state current))"
proof -
  have ok: "store_ok E root db" using reachable_store_ok [OF assms(1-4)] .
  then have board: "board_ok E db" and mem: "uuid_to_string E w \<in> set (board_ids db)"
    using assms(5,6) by (auto simp: store_ok_def)
  obtain current where cur: "load_workflow E db w = Inr current" using load_workflow_total [OF board mem] by blast
  have lane: "uuid_to_string E w \<in> set (lane_ids db s) \<longleftrightarrow> s = wf_state current" for s
    using state_at_current(1) [OF board cur] mem assms(6,7) workflow_codec.encode_eq_iff by (auto simp: set_lane_ids)
  have "\<exists>us. load_lane_workspace_ids E db s None = Inr us \<and> distinct us \<and> (w \<in> set us \<longleftrightarrow> s = wf_state current)" for s
  proof -
    obtain us where us: "load_lane_workspace_ids E db s None = Inr us" using load_lane_total [OF assms(1) board] by blast
    then have m: "map (uuid_to_string E) us = lane_ids db s" using load_lane_all_iff [OF assms(1) board] by simp
    have "distinct us" using distinct_lane_ids [OF board, of s] unfolding m [symmetric] by (simp add: distinct_map)
    moreover have "w \<in> set us \<longleftrightarrow> uuid_to_string E w \<in> set (lane_ids db s)"
      unfolding m [symmetric] using uuid_to_string_eq_iff [OF assms(1)] by auto
    ultimately show ?thesis using us lane by blast
  qed
  moreover have "1 \<le> wf_revision current" using cur by (auto simp: load_workflow_iff)
  ultimately show ?thesis using cur lane assms(6) by auto
qed

subsection \<open>A created workspace\<close>

definition sample_root :: WorkspaceRoot where
  "sample_root = \<lparr>root_id = lit ''default'', root_path = lit ''/w'', root_display_path = lit ''/w''\<rparr>"

definition sample_request :: CreateWorkspaceRequest where
  "sample_request =
     \<lparr>intent = Jira (lit ''AB-12''), title = lit ''Fix it'', preferred_provider = Codex,
      repositories = [\<lparr>repository_id = None, label = lit ''api'', base_ref = lit ''main''\<rparr>],
      runtime = None, planning = None\<rparr>"

definition sample_request_digest :: str where
  "sample_request_digest = sample_digest (lit ''Fix it'')"

definition sample_created_record :: WorkspaceRecord where
  "sample_created_record = new_record (sample_env [] []) sample_root sample_ambient 9 sample_request"

abbreviation sample_store_env :: Env where "sample_store_env \<equiv> sample_env [sample_created_record] []"

definition sample_created_store :: Db where
  "sample_created_store =
     (case insert_workspace sample_store_env sample_ambient 7 sample_request_digest sample_created_record 9 empty_db of
        Inl e \<Rightarrow> empty_db | Inr db \<Rightarrow> db)"

lemma sample_insert:
  "insert_workspace sample_store_env sample_ambient 7 sample_request_digest sample_created_record 9 empty_db
     = Inr sample_created_store"
proof -
  have "case insert_workspace sample_store_env sample_ambient 7 sample_request_digest sample_created_record 9 empty_db of
      Inl e \<Rightarrow> False | Inr _ \<Rightarrow> True" by code_simp
  then show ?thesis by (auto simp: sample_created_store_def split: sum.splits)
qed

lemma sample_identity:
  "request_identity sample_store_env (lit ''7'') sample_request = Inr (7, sample_request, sample_request_digest)"
  by code_simp

lemma sample_valid:
  "validate_record sample_store_env sample_created_record = Inr ()"
  "validate_lifecycle sample_created_record (new_lifecycle 9) = Inr ()" by code_simp+

lemma sample_created_record_eq: "new_record sample_store_env sample_root sample_ambient 9 sample_request = sample_created_record"
  by (simp add: sample_created_record_def new_record_def new_plan_def repository_leaf_def workspace_leaf_def
      workspace_leaf_from_name_def sample_env_def case_prod_unfold)

lemma sample_create:
  "snd (create_workspace sample_store_env sample_root sample_ambient (lit ''7'') sample_request empty_db) = sample_created_store"
proof -
  have "unix_time_ms sample_ambient = Inr 9" by code_simp
  moreover have "find_created sample_store_env 7 sample_request_digest empty_db = Inr None"
    by (simp add: find_created_def empty_db_def)
  ultimately show ?thesis
    by (simp add: create_workspace_def sample_identity sample_created_record_eq sample_valid sample_insert commit_then_def
        del: unix_time_ms_Inr_iff)
qed

lemma sample_created_reachable: "reachable sample_store_env sample_root sample_created_store"
  using reachable_step [OF reachable_empty, of sample_store_env sample_root sample_ambient "Create (lit ''7'') sample_request"]
  by (simp add: service_def sample_create)

lemma length_show_nat: "length (show_nat n) \<le> Suc n"
proof (induction n rule: show_nat.induct)
  case (1 n)
  then show ?case by (subst show_nat.simps) (auto simp: less_Suc_eq_le)
qed

lemma sample_record_json_bounded:
  assumes "length rs \<le> 1000"
  shows "record_json_bounded (sample_env rs ls)"
proof -
  have "str_len (show_nat n) \<le> MAX_RECORD_JSON_BYTES" if "n < length rs" for n
  proof -
    have "\<forall>c \<in> set (show_nat n). c < 128" using show_nat_digits by fastforce
    then have "str_len (show_nat n) \<le> Suc n" using length_show_nat [of n] str_len_ascii [of "show_nat n"] by simp
    then show ?thesis using that assms by (simp add: store_limits)
  qed
  then show ?thesis
    by (auto simp: record_json_bounded_def sample_env_def table_encode_def dest: index_of_nth)
qed

lemma sample_projection:
  "map pr_workspace_id (projection sample_created_store) = [sample_uuid_text 100]"
  "tombstone_events sample_created_store = []"
  by code_simp+

theorem reachable_list_total_witness:
  "\<exists>l v. list_workspaces sample_store_env sample_root sample_created_store = Inr l \<and> wl_workspaces l = [v]"
proof -
  have "path_to_str (root_path sample_root) = Some (lit ''/w'')" by code_simp
  from reachable_list_total [OF sample_uuid_text_ok sample_record_codec_ok sample_record_json_bounded this sample_created_reachable]
  obtain l ps where l: "list_workspaces sample_store_env sample_root sample_created_store = Inr l"
    and ps: "map (\<lambda>v. (- wr_updated_at_unix_ms v, uuid_to_string sample_store_env (wr_workspace_id v))) (wl_workspaces l)
        = map (\<lambda>p. (- pr_updated_at p, pr_workspace_id p)) ps"
      "distinct (map pr_workspace_id ps)"
      "set ps = {p \<in> set (projection sample_created_store). \<not> tombstoned sample_created_store (pr_workspace_id p)}"
    by auto
  have "set ps = set (projection sample_created_store)" using ps(3) sample_projection(2) by (simp add: tombstoned_def)
  then have "set (map pr_workspace_id ps) = {sample_uuid_text 100}"
    using arg_cong [OF sample_projection(1), of set] by simp
  then have "length (map pr_workspace_id ps) = 1" using distinct_card [OF ps(2)] by simp
  then have "length (wl_workspaces l) = 1" using arg_cong [OF ps(1), of length] by simp
  then show ?thesis using l by (auto simp: length_Suc_conv)
qed

theorem reachable_board_partition_witness:
  "\<exists>us. load_lane_workspace_ids sample_store_env sample_created_store Ready None = Inr us \<and> 100 \<in> set us"
proof -
  obtain p where p: "p \<in> set (projection sample_created_store)" "uuid_to_string sample_store_env 100 = pr_workspace_id p"
    using sample_projection(1) by (auto simp: sample_env_def)
  then have live: "\<not> tombstoned sample_created_store (pr_workspace_id p)"
    using sample_projection(2) by (simp add: tombstoned_def)
  have "map_sum (\<lambda>_. ()) wf_state (load_workflow sample_store_env sample_created_store 100) = Inr Ready" by code_simp
  with reachable_board_partition [OF sample_uuid_text_ok sample_record_codec_ok sample_record_json_bounded
      sample_created_reachable p live] show ?thesis
    by (auto simp: map_sum_def split: sum.splits)
qed

end
