(* ===== verification/Store_Creation.thy ===== *)
theory Store_Creation
  imports Store_Invariant
begin

text \<open>
  Creating workspaces and what the store keeps of them: repeating a creation under one idempotency
  key, removing a workspace behind a tombstone, and the directory names derived from a record.
  The lemmas say what a creation leaves in every table it writes.
\<close>

subsection \<open>Repeating a creation\<close>

text \<open>The foreign key of \<open>workspace_tombstone_events\<close>: a tombstone belongs to a created workspace.\<close>

definition tombstones_known :: "Db \<Rightarrow> bool" where
  "tombstones_known db \<longleftrightarrow> (\<forall>x \<in> set (tombstone_events db). event_exists db (tb_workspace_id x))"

lemma create_new_Inr:
  assumes "create_workspace E root A raw_key request db = (Inr res, db')" and "\<not> cw_replayed res"
  obtains key req digest where "request_identity E raw_key request = Inr (key, req, digest)"
    "find_created E key digest db = Inr None" "unix_time_ms A = Inr (now A)"
    "record_ok E (new_record E root A (now A) req)"
    "validate_lifecycle (new_record E root A (now A) req) (new_lifecycle (now A)) = Inr ()"
    "insert_workspace E A key digest (new_record E root A (now A) req) (now A) db = Inr db'"
    "view_of E root db' \<lparr>dp_record = new_record E root A (now A) req, dp_lifecycle = new_lifecycle (now A)\<rparr>
       = Inr (cw_workspace res)"
proof -
  obtain d r where body: "rbind (request_identity E raw_key request) (\<lambda>(key, req, digest).
     rbind (find_created E key digest db) (\<lambda>found.
     case found of
       Some d \<Rightarrow> Inr ((d, True), db)
     | None \<Rightarrow>
         rbind (unix_time_ms A) (\<lambda>t.
         let rec = new_record E root A t req; l = new_lifecycle t in
         rbind (validate_record E rec) (\<lambda>_.
         rbind (validate_lifecycle rec l) (\<lambda>_.
         rbind (insert_workspace E A key digest rec t db) (\<lambda>db.
         Inr ((\<lparr>dp_record = rec, dp_lifecycle = l\<rparr>, False), db))))))) = Inr ((d, r), db')"
    and after: "rbind (view_of E root db' d) (\<lambda>v. Inr \<lparr>cw_workspace = v, cw_replayed = r\<rparr>) = Inr res"
    using assms(1) unfolding create_workspace_def commit_then_Inr_iff split_paired_Ex prod.case by (elim exE conjE) (rule that)
  obtain key req digest found where id: "request_identity E raw_key request = Inr (key, req, digest)"
      and found: "find_created E key digest db = Inr found" using body by auto
  have "found = None" using body after id found assms(2) by (cases found) auto
  then have run: "rbind (unix_time_ms A) (\<lambda>t.
         rbind (validate_record E (new_record E root A t req)) (\<lambda>_.
         rbind (validate_lifecycle (new_record E root A t req) (new_lifecycle t)) (\<lambda>_.
         rbind (insert_workspace E A key digest (new_record E root A t req) t db) (\<lambda>db.
         Inr ((\<lparr>dp_record = new_record E root A t req, dp_lifecycle = new_lifecycle t\<rparr>, False), db))))) = Inr ((d, r), db')"
    using body id found by (simp only: Let_def rbind_simps prod.case option.case)
  from run show ?thesis
  proof (elim rbind_InrE, goal_cases)
    case (1 t _ _ db1)
    then have t: "t = now A" and fin: "db1 = db'"
        "d = \<lparr>dp_record = new_record E root A t req, dp_lifecycle = new_lifecycle t\<rparr>" by simp_all
    from after fin(2) have view: "view_of E root db' \<lparr>dp_record = new_record E root A t req, dp_lifecycle = new_lifecycle t\<rparr>
        = Inr (cw_workspace res)" by auto
    show ?case
      using 1(1-4) id found \<open>found = None\<close> view unfolding fin(1) t
      by (intro that [of key req digest]) (simp_all add: validate_record_iff)
  qed
qed


lemma load_projection_new:
  assumes "projection db' = projection db @ [p]" "pr_workspace_id p = i"
    "i \<notin> set (map pr_workspace_id (projection db))" "\<not> tombstoned db' i"
    "decode_projection E (raw_projection db' p) = Inr d"
  shows "load_projection E db' i = Inr (Some d)"
proof -
  have "find (\<lambda>p. pr_workspace_id p = i \<and> \<not> tombstoned db' (pr_workspace_id p)) (projection db) = None"
    using assms(3) by (auto simp: find_None_iff)
  then show ?thesis using assms by (simp add: load_projection_def find_append_new)
qed

lemma find_created_after:
  assumes ok: "store_ok E root db" and codec: "record_codec_ok E" and known: "tombstones_known db"
    and none: "find_created E key digest db = Inr None"
    and run: "insert_workspace E A key digest rec t db = Inr db'"
    and rec: "record_ok E rec" "wr_updated_at_unix_ms rec = t" "validate_lifecycle rec (new_lifecycle t) = Inr ()"
  shows "find_created E key digest' db' =
    (if digest' = digest then Inr (Some \<lparr>dp_record = rec, dp_lifecycle = new_lifecycle t\<rparr>)
     else Inl (IdempotencyConflict key))"
proof -
  let ?W = "uuid_to_string E (wr_workspace_id rec)"
  obtain ce p wrow prow where
    tables: "created_events db' = created_events db @ [ce]" "projection db' = projection db @ [p]"
      "workflow_events db' = workflow_events db" "board_events db' = board_events db"
      "workflow_projection db' = workflow_projection db @ [wrow]" "board_placement db' = board_placement db @ [prow]"
      "tombstone_events db' = tombstone_events db"
    and checks: "workflow_check wrow" "placement_row_ok prow" "wp_revision wrow = 1"
    and ids: "ce_workspace_id ce = ?W" "ce_idempotency_key ce = uuid_to_string E key" "ce_request_digest ce = digest"
      "pr_workspace_id p = ?W" "wp_workspace_id wrow = ?W" "bp_workspace_id prow = ?W"
    and new: "\<not> event_exists db ?W"
    and reads: "decode_projection E (raw_projection db' p) = Inr \<lparr>dp_record = rec, dp_lifecycle = new_lifecycle t\<rparr>"
      "\<forall>q d. pr_workspace_id q \<noteq> ?W \<longrightarrow>
         (decode_projection E (raw_projection db' q) = Inr d) = (decode_projection E (raw_projection db q) = Inr d)"
    by (rule insert_reads_back [OF codec run rec])
  have "find (\<lambda>e. ce_idempotency_key e = uuid_to_string E key) (created_events db) = None"
    using none by (auto simp: find_created_def split: option.splits)
  then have "find (\<lambda>e. ce_idempotency_key e = uuid_to_string E key) (created_events db') = Some ce"
    using ids(2) by (simp add: tables find_append_new)
  moreover have "\<not> tombstoned db' ?W" using known new tables(7) by (auto simp: tombstones_known_def tombstoned_def)
  moreover have "?W \<notin> set (map pr_workspace_id (projection db))" using ok new by (auto simp: store_ok_def)
  ultimately show ?thesis
    using load_projection_new [OF tables(2) ids(4) _ _ reads(1)] ids by (simp add: find_created_def)
qed

text \<open>
  C15: once a workspace was created under an idempotency key, the same request sent again (the
  parts the normaliser ignores may differ) changes nothing and answers the same workspace as a
  replay, and another request under that key is refused with a conflict.
\<close>

theorem create_is_idempotent:
  assumes "store_ok E root db" and "record_codec_ok E" and "tombstones_known db"
    and "create_workspace E root A raw_key request db = (Inr res, db')" and "\<not> cw_replayed res"
    and "request_identity E raw_key request = Inr (key, req, digest)"
    and "request_identity E raw_key' request' = Inr (key, req', digest')"
  shows "create_workspace E root A' raw_key' request' db' =
    (if digest' = digest then Inr \<lparr>cw_workspace = cw_workspace res, cw_replayed = True\<rparr>
     else Inl (IdempotencyConflict key), db')"
proof -
  obtain key1 req1 digest1 where id: "request_identity E raw_key request = Inr (key1, req1, digest1)"
    and none: "find_created E key1 digest1 db = Inr None"
    and clock: "unix_time_ms A = Inr (now A)"
    and rec: "record_ok E (new_record E root A (now A) req1)"
      "validate_lifecycle (new_record E root A (now A) req1) (new_lifecycle (now A)) = Inr ()"
    and run: "insert_workspace E A key1 digest1 (new_record E root A (now A) req1) (now A) db = Inr db'"
    and view: "view_of E root db' \<lparr>dp_record = new_record E root A (now A) req1, dp_lifecycle = new_lifecycle (now A)\<rparr>
       = Inr (cw_workspace res)"
    using assms(4,5) by (rule create_new_Inr)
  have same: "key1 = key" "req1 = req" "digest1 = digest" using id assms(6) by simp_all
  have "wr_updated_at_unix_ms (new_record E root A (now A) req) = now A" by (simp add: new_record_def)
  then have "find_created E key digest' db' =
      (if digest' = digest then Inr (Some \<lparr>dp_record = new_record E root A (now A) req, dp_lifecycle = new_lifecycle (now A)\<rparr>)
       else Inl (IdempotencyConflict key))"
    using find_created_after [OF assms(1-3) none run rec(1) _ rec(2)] by (simp add: same)
  then show ?thesis
    using assms(7) view by (simp add: create_workspace_def same commit_then_def)
qed

lemma sample_view:
  "\<exists>v. view_of sample_store_env sample_root sample_created_store
     \<lparr>dp_record = sample_created_record, dp_lifecycle = new_lifecycle 9\<rparr> = Inr v"
proof -
  have "case view_of sample_store_env sample_root sample_created_store
     \<lparr>dp_record = sample_created_record, dp_lifecycle = new_lifecycle 9\<rparr> of Inl _ \<Rightarrow> False | Inr _ \<Rightarrow> True" by code_simp
  then show ?thesis by (auto split: sum.splits)
qed

lemma sample_create_Inr:
  obtains res where "create_workspace sample_store_env sample_root sample_ambient (lit ''7'') sample_request empty_db
      = (Inr res, sample_created_store)" "\<not> cw_replayed res"
proof -
  have "unix_time_ms sample_ambient = Inr 9" by code_simp
  moreover have "find_created sample_store_env 7 sample_request_digest empty_db = Inr None"
    by (simp add: find_created_def empty_db_def)
  ultimately have "create_workspace sample_store_env sample_root sample_ambient (lit ''7'') sample_request empty_db
      = (rbind (view_of sample_store_env sample_root sample_created_store
           \<lparr>dp_record = sample_created_record, dp_lifecycle = new_lifecycle 9\<rparr>)
           (\<lambda>v. Inr \<lparr>cw_workspace = v, cw_replayed = False\<rparr>), sample_created_store)"
    by (simp add: create_workspace_def sample_identity sample_created_record_eq sample_valid sample_insert commit_then_def
        del: unix_time_ms_Inr_iff)
  then show ?thesis using sample_view that by auto
qed

theorem create_is_idempotent_witness:
  "\<exists>v. create_workspace sample_store_env sample_root sample_ambient (lit ''7'') sample_request sample_created_store
    = (Inr \<lparr>cw_workspace = v, cw_replayed = True\<rparr>, sample_created_store)"
proof -
  obtain res where run: "create_workspace sample_store_env sample_root sample_ambient (lit ''7'') sample_request empty_db
      = (Inr res, sample_created_store)" "\<not> cw_replayed res" by (rule sample_create_Inr)
  have "tombstones_known empty_db" by (simp add: tombstones_known_def empty_db_def)
  from create_is_idempotent [OF store_ok_empty sample_record_codec_ok this run sample_identity sample_identity]
  show ?thesis by auto
qed

subsection \<open>Tombstones\<close>

lemma tombstone_new_Inr:
  assumes "tombstone_workspace E A w raw_key digest result db = (Inr res, db')" and "\<not> tr_replayed res"
  obtains key row where "parse_idempotency_key E raw_key = Inr key"
    "validate_effect_digest digest = Inr ()" "load_tombstone_by_idempotency E db (uuid_to_string E key) = Inr None"
    "db' = db\<lparr>tombstone_events := tombstone_events db @ [row]\<rparr>"
    "tb_workspace_id row = uuid_to_string E w" "tb_idempotency_key row = uuid_to_string E key"
    "tb_effect_digest row = digest" "tb_result_json row = result"
    "tr_tombstone res = \<lparr>wt_workspace_id = w, wt_idempotency_key = key, wt_effect_digest = digest,
       wt_result_json = result, wt_removed_at_unix_ms = tb_removed_at row\<rparr>"
proof -
  obtain key earlier where start: "parse_idempotency_key E raw_key = Inr key" "validate_effect_digest digest = Inr ()"
      "load_tombstone_by_idempotency E db (uuid_to_string E key) = Inr earlier"
    using assms(1) unfolding tombstone_workspace_def transact_Inr_iff by (elim rbind_InrE) auto
  have none: "earlier = None"
    using assms start unfolding tombstone_workspace_def transact_Inr_iff by (auto split: option.splits)
  obtain t json where
    ins: "insert_tombstone
                  \<lparr>tb_event_id = uuid_to_string E (draw A 0), tb_workspace_id = uuid_to_string E w,
                   tb_event_type = TOMBSTONE_EVENT_TYPE, tb_event_json = json,
                   tb_idempotency_key = uuid_to_string E key, tb_effect_digest = digest,
                   tb_result_json = result, tb_removed_at = t\<rparr> db = Inr db'"
    and res: "res = \<lparr>tr_tombstone = \<lparr>wt_workspace_id = w, wt_idempotency_key = key,
                 wt_effect_digest = digest, wt_result_json = result,
                 wt_removed_at_unix_ms = t\<rparr>, tr_replayed = False\<rparr>"
    using assms(1) start none unfolding tombstone_workspace_def transact_Inr_iff
    by (simp, elim exE conjE) (blast)
  show ?thesis
    using start none ins res by (intro that [of key]) (auto simp: insert_tombstone_def)
qed

lemma load_projection_tombstoned:
  assumes "db' = db\<lparr>tombstone_events := tombstone_events db @ [row]\<rparr>"
  shows "load_projection E db' i = (if tb_workspace_id row = i then Inr None else load_projection E db i)"
    and "tombstoned db' i \<longleftrightarrow> i = tb_workspace_id row \<or> tombstoned db i"
    and "lane_ids db' s = filter (\<lambda>i. i \<noteq> tb_workspace_id row) (lane_ids db s)"
proof -
  show t: "tombstoned db' i \<longleftrightarrow> i = tb_workspace_id row \<or> tombstoned db i" for i
    using assms by (auto simp: tombstoned_def)
  have proj: "projection db' = projection db" using assms by simp
  have raw: "raw_projection db' p = raw_projection db p" for p using assms by (simp add: raw_projection_def)
  have "find (\<lambda>p. pr_workspace_id p = i \<and> \<not> tombstoned db' (pr_workspace_id p)) (projection db)
      = (if tb_workspace_id row = i then None
         else find (\<lambda>p. pr_workspace_id p = i \<and> \<not> tombstoned db (pr_workspace_id p)) (projection db))"
    by (auto simp: t find_None_iff intro!: find_cong)
  then show "load_projection E db' i = (if tb_workspace_id row = i then Inr None else load_projection E db i)"
    unfolding load_projection_def raw proj by (simp add: map_transpose_def)
  have "state_at db' = state_at db" "rank_at db' = rank_at db" "board_ids db' = board_ids db"
    using assms by (simp_all add: state_at_def rank_at_def workflow_of_def placement_of_def fun_eq_iff)
  then show "lane_ids db' s = filter (\<lambda>i. i \<noteq> tb_workspace_id row) (lane_ids db s)"
    unfolding lane_ids_def filter_sort by (auto simp: t intro!: arg_cong [of _ _ "sort_key _"] filter_cong)
qed

text \<open>The workspace that an operation names, and whether its answer is an error.\<close>

definition op_workspace :: "StoreOp \<Rightarrow> uuid option" where
  "op_workspace op =
     (case op of
        TransitionWorkflow w _ \<Rightarrow> Some w | PlaceWorkspaceOnBoard w _ \<Rightarrow> Some w | FollowWorkspaceAgent w _ \<Rightarrow> Some w
      | ConfirmWorkItemLink w _ _ _ _ _ \<Rightarrow> Some w | UnlinkWorkItemLink w _ _ \<Rightarrow> Some w
      | CreateReviewThread w _ _ _ \<Rightarrow> Some w | ResolveReviewThread w _ _ \<Rightarrow> Some w | ReplaceObservedWorkItems w _ \<Rightarrow> Some w
      | Rename w _ \<Rightarrow> Some w | AddRepository w _ \<Rightarrow> Some w | RemoveRepository w _ \<Rightarrow> Some w | Create _ _ \<Rightarrow> None
      | ObserveLifecycle w _ _ \<Rightarrow> Some w | Tombstone w _ _ _ \<Rightarrow> Some w)"

definition op_fails :: "Env \<Rightarrow> WorkspaceRoot \<Rightarrow> Ambient \<Rightarrow> StoreOp \<Rightarrow> Db \<Rightarrow> bool" where
  "op_fails E root A op db =
     (case op of
        TransitionWorkflow w req \<Rightarrow> isl (fst (transition_workflow E A w req db))
      | PlaceWorkspaceOnBoard w req \<Rightarrow> isl (fst (place_workspace_on_board E A w req db))
      | FollowWorkspaceAgent w req \<Rightarrow> isl (fst (follow_workspace_agent E A w req db))
      | ConfirmWorkItemLink w key digest provider role snapshot \<Rightarrow>
          isl (fst (confirm_work_item_link E A w key digest provider role snapshot db))
      | UnlinkWorkItemLink w link expected \<Rightarrow> isl (fst (unlink_work_item_link E A w link expected db))
      | CreateReviewThread w target author body \<Rightarrow> isl (fst (create_review_thread E A w target author body db))
      | ResolveReviewThread w thread expected \<Rightarrow> isl (fst (resolve_review_thread E A w thread expected db))
      | ReplaceObservedWorkItems w items \<Rightarrow> isl (fst (replace_observed_work_items E w items db))
      | Rename w req \<Rightarrow> isl (fst (rename_workspace E root A w req db))
      | AddRepository w q \<Rightarrow> isl (fst (add_repository E root A w q db))
      | RemoveRepository w rid \<Rightarrow> isl (fst (remove_repository E root A w rid db))
      | Create key req \<Rightarrow> isl (fst (create_workspace E root A key req db))
      | ObserveLifecycle w state n \<Rightarrow> isl (fst (observe_lifecycle E A w state n db))
      | Tombstone w key digest result \<Rightarrow> isl (fst (tombstone_workspace E A w key digest result db)))"

lemma transact_refused: "isl body \<Longrightarrow> snd (transact db body) = db \<and> isl (fst (transact db body))"
  by (cases body) simp_all

lemma commit_refused: "isl body \<Longrightarrow> snd (commit_then db body after) = db \<and> isl (fst (commit_then db body after))"
  by (cases body) (simp_all add: commit_then_def)

lemma isl_rbind: "isl (rbind m f) \<longleftrightarrow> isl m \<or> (\<exists>x. m = Inr x \<and> isl (f x))"
  by (cases m) simp_all

lemma isl_rbindI: "(\<And>x. m = Inr x \<Longrightarrow> isl (f x)) \<Longrightarrow> isl (rbind m f)"
  by (cases m) simp_all

lemma isl_rbind_Inl: "isl (rbind (Inl e) f)"
  by simp

lemma refuse:
  assumes "load_projection E db (uuid_to_string E w) = Inr None"
  shows "isl (rbind (load_projection E db (uuid_to_string E w)) (\<lambda>found. rbind (ensure (found \<noteq> None) e) f))"
    and "isl (rbind (load_projection E db (uuid_to_string E w)) (\<lambda>found. rbind (ok_or found e) g))"
  using assms by simp_all

lemma begin_board_change_gone:
  "load_projection E db (uuid_to_string E w) = Inr None \<Longrightarrow> begin_board_change E w n db = Inl (WorkspaceNotFound w)"
  by (simp add: begin_board_change_def ensure_def)

lemma gone_refused:
  assumes gone: "load_projection E db (uuid_to_string E w) = Inr None"
  shows "snd (transition_workflow E A w treq db) = db \<and> isl (fst (transition_workflow E A w treq db))"
    and "snd (place_workspace_on_board E A w preq db) = db \<and> isl (fst (place_workspace_on_board E A w preq db))"
    and "snd (follow_workspace_agent E A w freq db) = db \<and> isl (fst (follow_workspace_agent E A w freq db))"
    and "snd (confirm_work_item_link E A w key digest provider role snapshot db) = db
      \<and> isl (fst (confirm_work_item_link E A w key digest provider role snapshot db))"
    and "snd (unlink_work_item_link E A w link n db) = db \<and> isl (fst (unlink_work_item_link E A w link n db))"
    and "snd (create_review_thread E A w target author body db) = db \<and> isl (fst (create_review_thread E A w target author body db))"
    and "snd (resolve_review_thread E A w thread n db) = db \<and> isl (fst (resolve_review_thread E A w thread n db))"
    and "snd (replace_observed_work_items E w items db) = db \<and> isl (fst (replace_observed_work_items E w items db))"
    and "snd (rename_workspace E root A w rreq db) = db \<and> isl (fst (rename_workspace E root A w rreq db))"
    and "snd (add_repository E root A w q db) = db \<and> isl (fst (add_repository E root A w q db))"
    and "snd (remove_repository E root A w rid db) = db \<and> isl (fst (remove_repository E root A w rid db))"
    and "snd (observe_lifecycle E A w state worktrees db) = db \<and> isl (fst (observe_lifecycle E A w state worktrees db))"
  unfolding transition_workflow_def place_workspace_on_board_def follow_workspace_agent_def confirm_work_item_link_def
    unlink_work_item_link_def create_review_thread_def resolve_review_thread_def replace_observed_work_items_def
    rename_workspace_def add_repository_def remove_repository_def observe_lifecycle_def begin_board_change_gone [OF gone] Let_def
  by ((rule transact_refused commit_refused, (rule refuse [OF gone] | rule isl_rbind_Inl | rule isl_rbindI)+)+)


text \<open>A second tombstone writes nothing either, whatever its key.\<close>

lemma tombstoned_again:
  assumes "\<exists>r \<in> set (tombstone_events db). tb_workspace_id r = uuid_to_string E w"
  shows "snd (tombstone_workspace E A w key digest result db) = db"
proof -
  have there: "load_tombstone_by_workspace E db (uuid_to_string E w) \<noteq> Inr None"
    using assms by (auto simp: load_tombstone_by_workspace_def map_transpose_def find_None_iff split: option.splits)
  show ?thesis
    unfolding tombstone_workspace_def
  proof (rule transact_frame, elim rbind_InrE, goal_cases)
    case (1 x db' key _ _ earlier)
    show ?case
    proof (cases earlier)
      case None
      then show ?thesis using 1(5) there by (auto elim!: rbind_InrE)
    qed (use 1(5) in \<open>auto elim!: rbind_InrE\<close>)
  qed simp
qed

lemma removed_refused:
  assumes gone: "load_projection E db (uuid_to_string E w) = Inr None"
    and row: "\<exists>r \<in> set (tombstone_events db). tb_workspace_id r = uuid_to_string E w"
    and op: "op_workspace op = Some w"
  shows "service E root A op db = db \<and> (op_fails E root A op db \<or> (\<exists>k d r. op = Tombstone w k d r))"
  using op gone_refused [OF gone] tombstoned_again [OF row]
  by (cases op) (simp_all add: op_workspace_def service_def op_fails_def)


lemma decoded_id:
  "decode_projection E raw = Inr d \<Longrightarrow> uuid_to_string E (wr_workspace_id (dp_record d)) = raw_workspace_id raw"
  by (auto simp: decode_projection_def)

lemma view_id: "view E root db rec l = Inr v \<Longrightarrow> wr_workspace_id v = wr_workspace_id rec"
  by (auto simp: view_def WorkspaceRecord.defs WorkspaceView.defs)

lemma listed_live:
  assumes "list_workspaces E root db = Inr l" and "v \<in> set (wl_workspaces l)"
  shows "\<not> tombstoned db (uuid_to_string E (wr_workspace_id v))"
proof -
  let ?ps = "sort_key (\<lambda>p. (- pr_updated_at p, pr_workspace_id p)) (filter (\<lambda>p. \<not> tombstoned db (pr_workspace_id p)) (projection db))"
  have "traverse (\<lambda>p. rbind (decode_projection E (raw_projection db p)) (view_of E root db)) ?ps = Inr (wl_workspaces l)"
    using assms(1) unfolding list_workspaces_def by (elim rbind_InrE) auto
  then have views: "list_all2 (\<lambda>p v. rbind (decode_projection E (raw_projection db p)) (view_of E root db) = Inr v) ?ps (wl_workspaces l)"
    by (simp only: traverse_Inr_iff)
  obtain k where k: "k < length (wl_workspaces l)" "wl_workspaces l ! k = v" using assms(2) by (auto simp: in_set_conv_nth)
  let ?p = "?ps ! k"
  have "rbind (decode_projection E (raw_projection db ?p)) (view_of E root db) = Inr v"
    using list_all2_nthD2 [OF views k(1)] k(2) by simp
  then obtain d where d: "decode_projection E (raw_projection db ?p) = Inr d" "view_of E root db d = Inr v" by (elim rbind_InrE)
  have "uuid_to_string E (wr_workspace_id v) = pr_workspace_id ?p"
    using decoded_id [OF d(1)] view_id [OF d(2) [unfolded view_of_def]] by (simp add: raw_projection_def Let_def)
  moreover have "?p \<in> set ?ps" using list_all2_lengthD [OF views] k(1) by (intro nth_mem) simp
  then have "\<not> tombstoned db (pr_workspace_id ?p)" by simp
  ultimately show ?thesis by simp
qed

text \<open>
  C16: a workspace that was tombstoned is no longer found or listed, nor are its links and threads;
  every operation of the service that names it writes nothing, and fails unless it is a repeated
  removal; its lane closes up around it and every other workspace reads as before. Removing it
  again under the same idempotency key and digest answers the recorded tombstone as a replay, and
  the replay of a confirmed link, which does not look at the workspace, answers as before.
\<close>

theorem tombstone_hides:
  assumes env: "uuid_text_ok E"
    and run: "tombstone_workspace E A w raw_key digest result db = (Inr res, db')" "\<not> tr_replayed res"
  shows "get_workspace E root w db' = Inr None
    \<and> (\<forall>l. list_workspaces E root db' = Inr l \<longrightarrow> w \<notin> wr_workspace_id ` set (wl_workspaces l))
    \<and> (\<forall>i. i \<noteq> uuid_to_string E w \<longrightarrow> load_projection E db' i = load_projection E db i)
    \<and> (\<forall>s. lane_ids db' s = filter (\<lambda>i. i \<noteq> uuid_to_string E w) (lane_ids db s))
    \<and> (\<forall>op. op_workspace op = Some w \<longrightarrow> service E root A' op db' = db'
        \<and> (op_fails E root A' op db' \<or> (\<exists>k d r. op = Tombstone w k d r)))
    \<and> transition_workflow E A' w req db' = (Inl (WorkspaceNotFound w), db')
    \<and> add_repository E root A' w q db' = (Inl (WorkspaceNotFound w), db')
    \<and> list_work_item_links E w db' = Inl (WorkspaceNotFound w)
    \<and> list_review_threads E w db' = Inl (WorkspaceNotFound w)
    \<and> confirmed_work_item_link_replay E w link_key preview db' = confirmed_work_item_link_replay E w link_key preview db
    \<and> tombstone_by_idempotency E raw_key db' = Inr (Some (tr_tombstone res))
    \<and> tombstone_workspace E A' w raw_key digest result db'
        = (Inr \<lparr>tr_tombstone = tr_tombstone res, tr_replayed = True\<rparr>, db')"
proof -
  obtain key row where key: "parse_idempotency_key E raw_key = Inr key"
    and valid: "validate_effect_digest digest = Inr ()"
    and none: "load_tombstone_by_idempotency E db (uuid_to_string E key) = Inr None"
    and db': "db' = db\<lparr>tombstone_events := tombstone_events db @ [row]\<rparr>"
    and row: "tb_workspace_id row = uuid_to_string E w" "tb_idempotency_key row = uuid_to_string E key"
      "tb_effect_digest row = digest" "tb_result_json row = result"
    and res: "tr_tombstone res = \<lparr>wt_workspace_id = w, wt_idempotency_key = key, wt_effect_digest = digest,
       wt_result_json = result, wt_removed_at_unix_ms = tb_removed_at row\<rparr>"
    using run by (rule tombstone_new_Inr)
  note hidden = load_projection_tombstoned [OF db', unfolded row(1)]
  have gone: "load_projection E db' (uuid_to_string E w) = Inr None" by (simp add: hidden(1))
  have "find (\<lambda>r. tb_idempotency_key r = uuid_to_string E key) (tombstone_events db) = None"
    using none by (auto simp: load_tombstone_by_idempotency_def map_transpose_def split: option.splits)
  then have found: "load_tombstone_by_idempotency E db' (uuid_to_string E key) = Inr (Some (tr_tombstone res))"
    using uuid_parse_to_string [OF env] row
    by (simp add: load_tombstone_by_idempotency_def db' find_append_new decode_tombstone_row_def res)
  have json: "validate_tombstone_result_json E result = Inr ()"
    using run(1) unfolding tombstone_workspace_def transact_Inr_iff by (elim rbind_InrE) auto
  have again: "tombstone_workspace E A' w raw_key digest result db'
        = (Inr \<lparr>tr_tombstone = tr_tombstone res, tr_replayed = True\<rparr>, db')"
    by (simp add: tombstone_workspace_def key valid json found, simp add: res)
  have "\<exists>r \<in> set (tombstone_events db'). tb_workspace_id r = uuid_to_string E w" using db' row(1) by simp
  note refused = removed_refused [OF gone this]
  have unlisted: "w \<notin> wr_workspace_id ` set (wl_workspaces l)" if "list_workspaces E root db' = Inr l" for l
    using listed_live [OF that] hidden(2) by auto
  have replay: "confirmed_work_item_link_replay E w link_key preview db' = confirmed_work_item_link_replay E w link_key preview db"
    by (simp add: confirmed_work_item_link_replay_def find_confirmation_def db')
  have writes: "transition_workflow E A' w req db' = (Inl (WorkspaceNotFound w), db')
      \<and> add_repository E root A' w q db' = (Inl (WorkspaceNotFound w), db')"
    using gone by (simp add: transition_workflow_def begin_board_change_def add_repository_def commit_then_def)
  have reads: "get_workspace E root w db' = Inr None" "list_work_item_links E w db' = Inl (WorkspaceNotFound w)"
      "list_review_threads E w db' = Inl (WorkspaceNotFound w)" "tombstone_by_idempotency E raw_key db' = Inr (Some (tr_tombstone res))"
    using gone key found by (simp_all add: get_workspace_def list_work_item_links_def list_review_threads_def tombstone_by_idempotency_def)
  show ?thesis
    using again hidden(1,3) refused unlisted replay writes reads by simp
qed

definition sample_digest_text :: str where
  "sample_digest_text = lit ''sha256:'' @ replicate 64 97"

theorem tombstone_hides_witness:
  "\<exists>res db'. tombstone_workspace sample_board_env sample_ambient 2 (lit ''5'') sample_digest_text (lit ''{}'') sample_board
      = (Inr res, db') \<and> get_workspace sample_board_env sample_root 2 db' = Inr None
    \<and> lane_ids db' Ready = [sample_uuid_text 1]"
proof -
  have "case fst (tombstone_workspace sample_board_env sample_ambient 2 (lit ''5'') sample_digest_text (lit ''{}'') sample_board) of
      Inl _ \<Rightarrow> False | Inr res \<Rightarrow> \<not> tr_replayed res" by code_simp
  then obtain res db' where run: "tombstone_workspace sample_board_env sample_ambient 2 (lit ''5'') sample_digest_text (lit ''{}'') sample_board
      = (Inr res, db')" "\<not> tr_replayed res"
    by (cases "tombstone_workspace sample_board_env sample_ambient 2 (lit ''5'') sample_digest_text (lit ''{}'') sample_board")
      (auto split: sum.splits)
  have "filter (\<lambda>i. i \<noteq> uuid_to_string sample_board_env 2) (lane_ids sample_board Ready) = [sample_uuid_text 1]" by code_simp
  with tombstone_hides [OF sample_uuid_text_ok run, of sample_root] run show ?thesis by auto
qed

text \<open>
  C17: creating again under the idempotency key of a workspace that was tombstoned is reported as
  a corrupt record, both by \<open>create\<close> and by \<open>create_replay\<close>, and changes nothing.
\<close>

theorem create_after_tombstone:
  assumes "request_identity E raw_key request = Inr (key, req, digest)"
    and "find (\<lambda>e. ce_idempotency_key e = uuid_to_string E key) (created_events db) = Some e"
    and "ce_request_digest e = digest" and "tombstoned db (ce_workspace_id e)"
  shows "create_workspace E root A raw_key request db
      = (Inl (corrupt ''idempotency event has no materialized workspace''), db)
    \<and> create_replay E root raw_key request db
      = Inl (corrupt ''idempotency event has no materialized workspace'')"
proof -
  have "find (\<lambda>p. pr_workspace_id p = ce_workspace_id e \<and> \<not> tombstoned db (pr_workspace_id p)) (projection db) = None"
    using assms(4) by (auto simp: find_None_iff)
  then have "find_created E key digest db = Inl (corrupt ''idempotency event has no materialized workspace'')"
    using assms(2,3) by (simp add: find_created_def load_projection_def map_transpose_def)
  then show ?thesis
    by (simp add: create_workspace_def create_replay_def assms(1) commit_then_def)
qed

theorem create_after_tombstone_witness:
  "create_workspace sample_store_env sample_root sample_ambient (lit ''7'') sample_request
      (sample_created_store\<lparr>tombstone_events := [\<lparr>tb_event_id = [], tb_workspace_id = sample_uuid_text 100,
         tb_event_type = [], tb_event_json = [], tb_idempotency_key = [], tb_effect_digest = [],
         tb_result_json = [], tb_removed_at = 9\<rparr>]\<rparr>)
    = (Inl (corrupt ''idempotency event has no materialized workspace''),
       sample_created_store\<lparr>tombstone_events := [\<lparr>tb_event_id = [], tb_workspace_id = sample_uuid_text 100,
         tb_event_type = [], tb_event_json = [], tb_idempotency_key = [], tb_effect_digest = [],
         tb_result_json = [], tb_removed_at = 9\<rparr>]\<rparr>)" (is "_ = (_, ?db)")
proof -
  have "map_option (\<lambda>e. (ce_request_digest e, ce_workspace_id e))
      (find (\<lambda>e. ce_idempotency_key e = uuid_to_string sample_store_env 7) (created_events sample_created_store))
    = Some (sample_request_digest, sample_uuid_text 100)" by code_simp
  then obtain e where e: "find (\<lambda>e. ce_idempotency_key e = uuid_to_string sample_store_env 7) (created_events ?db) = Some e"
      "ce_request_digest e = sample_request_digest" "ce_workspace_id e = sample_uuid_text 100" by auto
  have "tombstoned ?db (ce_workspace_id e)" by (simp add: tombstoned_def e(3))
  from create_after_tombstone [OF sample_identity e(1,2) this] show ?thesis by blast
qed

subsection \<open>Directory names\<close>

text \<open>The text form of a UUID as the crate prints it: 36 characters, hexadecimal digits and hyphens.\<close>

definition uuid_text_hyphenated :: "Env \<Rightarrow> bool" where
  "uuid_text_hyphenated E \<longleftrightarrow>
     (\<forall>u. length (uuid_to_string E u) = 36 \<and> (\<forall>c \<in> set (uuid_to_string E u). is_lower_hex c \<or> c = chr CHR ''-''))"

text \<open>A name that is one normal component of a path, whatever directory it is joined to.\<close>

definition path_component :: "str \<Rightarrow> bool" where
  "path_component s \<longleftrightarrow> s \<noteq> [] \<and> s \<noteq> lit ''.'' \<and> s \<noteq> lit ''..'' \<and> chr CHR ''/'' \<notin> set s \<and> 0 \<notin> set s"

lemma slug_component:
  assumes "\<forall>c \<in> set s. is_slug_char c" and "2 < length s"
  shows "path_component s" "str_len s = length s"
proof -
  have "c \<noteq> 47 \<and> c \<noteq> 0 \<and> c \<noteq> 46 \<and> c < 128" if "c \<in> set s" for c
    using assms(1) that by (auto simp: is_slug_char_def ascii_defs)
  then show "path_component s" "str_len s = length s"
    using assms(2) by (auto simp: path_component_def chr_def lit_def intro!: str_len_ascii)
qed

lemma length_filter_join:
  "length (join_with [c] (filter (\<lambda>w. w \<noteq> []) ws)) \<le> length (join_with [c] ws)"
proof (induction ws)
  case (Cons w ws)
  have j: "length (join_with [c] (v # vs)) = length v + (if vs = [] then 0 else Suc (length (join_with [c] vs)))" for v vs
    by (cases vs) simp_all
  show ?case using Cons by (auto simp: j)
qed simp

lemma join_split_on: "join_with [d] (split_on d s) = s"
proof (induction s)
  case (Cons c s)
  have j: "join_with [d] (w # ws) = w @ (if ws = [] then [] else d # join_with [d] ws)" for w ws
    by (cases ws) simp_all
  show ?case
  proof (cases "c = d")
    case False
    then show ?thesis using Cons by (cases "split_on d s") (simp_all add: j)
  qed (use Cons in \<open>simp add: j\<close>)
qed simp

lemma length_slug: "length (slug s) \<le> length s"
  using length_filter_join [of 45 "split_on 45 (map slug_char s)"]
  by (simp add: slug_def join_split_on)

lemma uuid_text_chars:
  assumes "uuid_text_hyphenated E" and "c \<in> set (uuid_to_string E u)"
  shows "is_slug_char c"
proof -
  have "is_lower_hex c \<or> c = chr CHR ''-''" using assms by (simp add: uuid_text_hyphenated_def)
  then show ?thesis by (auto simp: is_slug_char_def is_lower_hex_def ascii_defs)
qed

text \<open>A slug followed by a hyphen and a UUID.\<close>

lemma slug_uuid:
  assumes "uuid_text_hyphenated E" and "\<forall>c \<in> set s. is_slug_char c"
  shows "path_component (s @ 45 # uuid_to_string E u)" "str_len (s @ 45 # uuid_to_string E u) = length s + 37"
    "uuid_to_string E u = drop (length (s @ 45 # uuid_to_string E u) - 36) (s @ 45 # uuid_to_string E u)"
proof -
  have len: "length (uuid_to_string E u) = 36" using assms(1) by (simp add: uuid_text_hyphenated_def)
  have "\<forall>c \<in> set (s @ 45 # uuid_to_string E u). is_slug_char c"
    using assms(2) uuid_text_chars [OF assms(1)] by (auto simp: is_slug_char_def)
  from slug_component [OF this] len
  show "path_component (s @ 45 # uuid_to_string E u)" "str_len (s @ 45 # uuid_to_string E u) = length s + 37" by simp_all
  show "uuid_to_string E u = drop (length (s @ 45 # uuid_to_string E u) - 36) (s @ 45 # uuid_to_string E u)"
    using len by simp
qed

definition leaf_stem :: "nat \<Rightarrow> string \<Rightarrow> str \<Rightarrow> str" where
  "leaf_stem limit fallback name =
     (if take limit (slug name) = [] then lit fallback else take limit (slug name))"

lemma leaf_stem_chars:
  assumes "\<forall>c \<in> set (lit fallback). is_slug_char c" and "c \<in> set (leaf_stem limit fallback name)"
  shows "is_slug_char c"
  using assms slug_chars [of c name] by (auto simp: leaf_stem_def dest: in_set_takeD split: if_splits)

lemma workspace_leaf_shape:
  "workspace_leaf_from_name E name w = leaf_stem 200 ''workspace'' name @ 45 # uuid_to_string E w"
  by (auto simp: workspace_leaf_from_name_def leaf_stem_def Let_def min_def)

lemma repository_leaf_shape:
  "repository_leaf E lab u = leaf_stem (length (slug lab)) ''repository'' lab @ 45 # uuid_to_string E u"
  by (simp add: repository_leaf_def leaf_stem_def Let_def)

lemma fallback_stems: "\<forall>c \<in> set (lit ''workspace''). is_slug_char c" "\<forall>c \<in> set (lit ''repository''). is_slug_char c"
  by code_simp+

lemma record_ok_leaf:
  assumes "record_ok E r"
  obtains name where "wr_workspace_leaf r = workspace_leaf_from_name E name (wr_workspace_id r)"
  using assms that by (auto simp: record_ok_def workspace_leaf_def split: option.splits)

lemma record_ok_label:
  assumes "record_ok E r" and "p \<in> set (wr_repositories r)"
  shows "length (rp_label p) \<le> 128"
proof -
  have "normalize (to_lowercase E) (record_request r) = Inr (record_request r)"
    using assms(1) by (simp add: record_ok_def)
  then obtain t it rt where ok: "repositories_ok (to_lowercase E) (repositories (record_request r))"
    and eq: "record_request r = (record_request r)\<lparr>title := t, intent := it, runtime := rt, repositories :=
            sort_key (repository_sort_key (to_lowercase E)) (map trimmed_repository (repositories (record_request r)))\<rparr>"
    unfolding normalize_Inr_iff by blast
  from arg_cong [OF eq, of "\<lambda>q. set (repositories q)"]
  have "set (repositories (record_request r)) = trimmed_repository ` set (repositories (record_request r))" by simp
  moreover have "plan_request p \<in> set (repositories (record_request r))" using assms(2) by (simp add: record_request_def)
  moreover note ok
  ultimately obtain q where "plan_request p = trimmed_repository q" "repository_ok q"
    unfolding repositories_ok_def by blast
  then have "length (trim (label q)) \<le> MAX_REPOSITORY_LABEL_CHARS" by (simp add: repository_ok_def)
  moreover have "rp_label p = trim (label q)"
    using arg_cong [OF \<open>plan_request p = trimmed_repository q\<close>, of label]
    by (simp add: plan_request_def trimmed_repository_def)
  ultimately show ?thesis by (simp add: MAX_REPOSITORY_LABEL_CHARS_def)
qed

text \<open>
  C18: the directory name of a valid record and of each of its worktrees is one plain path
  component of at most 237 and 165 bytes, so it cannot leave its parent directory and fits a
  file system, and two records have the same directory name only when they are the same
  workspace.
\<close>

theorem leaf_names_safe:
  assumes "uuid_text_ok E" and "uuid_text_hyphenated E" and "record_ok E r" and "record_ok E r'"
  shows "path_component (wr_workspace_leaf r) \<and> str_len (wr_workspace_leaf r) \<le> 237
    \<and> (wr_workspace_leaf r = wr_workspace_leaf r' \<longrightarrow> wr_workspace_id r = wr_workspace_id r')
    \<and> (\<forall>p \<in> set (wr_repositories r). path_component (rp_worktree_leaf p) \<and> str_len (rp_worktree_leaf p) \<le> 165)"
proof -
  obtain name name' where leaf: "wr_workspace_leaf r = workspace_leaf_from_name E name (wr_workspace_id r)"
      "wr_workspace_leaf r' = workspace_leaf_from_name E name' (wr_workspace_id r')"
    using record_ok_leaf assms(3,4) by metis
  have stem: "\<forall>c \<in> set (leaf_stem 200 ''workspace'' n). is_slug_char c" for n
    using leaf_stem_chars fallback_stems(1) by blast
  have "length (leaf_stem 200 ''workspace'' name) \<le> 200" by (simp add: leaf_stem_def lit_def)
  then have one: "path_component (wr_workspace_leaf r)" "str_len (wr_workspace_leaf r) \<le> 237"
    using slug_uuid [OF assms(2) stem, where u = "wr_workspace_id r"] by (simp_all add: leaf workspace_leaf_shape)
  have "wr_workspace_id r = wr_workspace_id r'" if "wr_workspace_leaf r = wr_workspace_leaf r'"
    using that slug_uuid(3) [OF assms(2) stem] uuid_to_string_eq_iff [OF assms(1)]
    unfolding leaf workspace_leaf_shape by metis
  moreover have "path_component (rp_worktree_leaf p) \<and> str_len (rp_worktree_leaf p) \<le> 165"
    if p: "p \<in> set (wr_repositories r)" for p
  proof -
    have "rp_worktree_leaf p = repository_leaf E (rp_label p) (rp_request_id p)"
      using assms(3) p by (simp add: record_ok_def)
    moreover have chars: "\<forall>c \<in> set (leaf_stem n ''repository'' (rp_label p)). is_slug_char c" for n
      using leaf_stem_chars fallback_stems(2) by blast
    moreover have "length (leaf_stem n ''repository'' (rp_label p)) \<le> 128" for n
      using record_ok_label [OF assms(3) p] length_slug [of "rp_label p"] by (auto simp: leaf_stem_def lit_def min_def)
    ultimately show ?thesis
      using slug_uuid(1,2) [OF assms(2) chars] by (simp add: repository_leaf_shape)
  qed
  ultimately show ?thesis using one by blast
qed

text \<open>An environment whose UUID text has the printed form, for the example.\<close>

fun hex_text :: "nat \<Rightarrow> nat \<Rightarrow> str" where
  "hex_text 0 n = []"
| "hex_text (Suc k) n = (if n mod 16 < 10 then 48 + n mod 16 else 87 + n mod 16) # hex_text k (n div 16)"

fun hex_value :: "str \<Rightarrow> nat" where
  "hex_value [] = 0"
| "hex_value (c # s) = (if c < 58 then c - 48 else c - 87) + 16 * hex_value s"

lemma hex_text_shape: "length (hex_text k n) = k" "c \<in> set (hex_text k n) \<Longrightarrow> is_lower_hex c"
  by (induction k arbitrary: n) (auto simp: is_lower_hex_def is_ascii_digit_def chr_def split: if_splits)

lemma hex_value_text: "hex_value (hex_text k n) = n mod 16 ^ k"
proof (induction k arbitrary: n)
  case (Suc k)
  have "n mod 16 ^ Suc k = 16 * (n div 16 mod 16 ^ k) + n mod 16"
    using mod_mult2_eq [of n 16 "16 ^ k"] by simp
  then show ?case using Suc by simp
qed simp

definition hex_uuid_text :: "uuid \<Rightarrow> str" where "hex_uuid_text u = hex_text 36 (unat u)"

text \<open>An evaluation applies this to a concrete identifier only.\<close>

fun hex_uuid_if :: "bool \<Rightarrow> uuid \<Rightarrow> str" where
  "hex_uuid_if True u = hex_text 36 (unat u)"
| "hex_uuid_if False u = hex_text 36 (unat u)"

lemma hex_uuid_text_code [code]: "hex_uuid_text u = hex_uuid_if (u = 0) u"
  by (cases "u = 0") (simp_all add: hex_uuid_text_def)

definition hex_uuid_parse :: "str \<Rightarrow> uuid option" where "hex_uuid_parse s = Some (of_nat (hex_value s))"

definition hex_env :: Env where
  "hex_env = (sample_env [] [])\<lparr>uuid_to_string := hex_uuid_text, uuid_parse_str := hex_uuid_parse\<rparr>"

lemma hex_env_ok: "uuid_text_ok hex_env" "uuid_text_hyphenated hex_env"
proof -
  have "unat u < 16 ^ 36" for u :: uuid using unsigned_less [of u, where 'a = nat] by simp
  then have "uuid_parse_str hex_env (uuid_to_string hex_env u) = Some u" for u
    by (simp add: hex_env_def hex_uuid_text_def hex_uuid_parse_def hex_value_text del: hex_text.simps)
  moreover have "uuid_to_string hex_env u \<noteq> []" for u
    using hex_text_shape(1) [of 36 "unat u"] by (auto simp: hex_env_def hex_uuid_text_def simp del: hex_text.simps)
  moreover have "c < 128" if "c \<in> set (uuid_to_string hex_env u)" for c u
    using hex_text_shape(2) [of c 36 "unat u"] that
    by (auto simp: hex_env_def hex_uuid_text_def is_lower_hex_def is_ascii_digit_def chr_def)
  ultimately show "uuid_text_ok hex_env" by (simp add: uuid_text_ok_def)
  show "uuid_text_hyphenated hex_env"
    using hex_text_shape(1) hex_text_shape(2) by (auto simp: uuid_text_hyphenated_def hex_env_def hex_uuid_text_def)
qed

definition hex_record :: WorkspaceRecord where
  "hex_record = new_record hex_env sample_root sample_ambient 9 sample_request"

theorem leaf_names_safe_witness:
  "path_component (wr_workspace_leaf hex_record)
     \<and> list_all (\<lambda>p. path_component (rp_worktree_leaf p)) (wr_repositories hex_record)"
proof -
  have "validate_record hex_env hex_record = Inr ()" by code_simp
  then have "record_ok hex_env hex_record" by (simp add: validate_record_iff)
  from leaf_names_safe [OF hex_env_ok this this] show ?thesis by (auto simp: list_all_iff)
qed

end
