(* ===== verification/Collaboration_Plan.thy ===== *)
theory Collaboration_Plan
  imports Contracts
begin

text \<open>
  \<open>wts-app/src/collaboration.rs\<close>, part one: the types of a collaboration, task identifiers, the
  limits of a coordinator, and what it checks before anything runs: \<open>prepare\<close> (tasks, workspaces
  and scopes) and \<open>validate_dependencies\<close> (the graph of prerequisites).

  A \<open>PathBuf\<close> is the list of its components, which is what \<open>Path\<close>'s equality, order and
  \<open>starts_with\<close> compare. The file system (\<open>canonicalize\<close>, \<open>symlink_metadata\<close>) and the adapter's
  attestation are parameters. Durations and instants are numbers of nanoseconds.
\<close>

subsection \<open>Paths\<close>

datatype Component = RootDir | CurDir | ParentDir | Normal str

type_synonym PathBuf = "Component list"

text \<open>The derived order of \<open>std::path::Component\<close>.\<close>

instantiation Component :: linorder
begin

fun component_key :: "Component \<Rightarrow> nat \<times> str" where
  "component_key RootDir = (0, [])"
| "component_key CurDir = (1, [])"
| "component_key ParentDir = (2, [])"
| "component_key (Normal s) = (3, s)"

definition less_eq_Component :: "Component \<Rightarrow> Component \<Rightarrow> bool" where
  "less_eq_Component a b \<longleftrightarrow> component_key a \<le> component_key b"

definition less_Component :: "Component \<Rightarrow> Component \<Rightarrow> bool" where
  "less_Component a b \<longleftrightarrow> component_key a < component_key b"

instance
proof
  fix a b c :: Component
  show "(a < b) = (a \<le> b \<and> \<not> b \<le> a)" by (auto simp: less_eq_Component_def less_Component_def)
  show "a \<le> a" by (simp add: less_eq_Component_def)
  show "a \<le> b \<or> b \<le> a" unfolding less_eq_Component_def by (rule linear)
  show "a \<le> b \<Longrightarrow> b \<le> c \<Longrightarrow> a \<le> c" unfolding less_eq_Component_def by (rule order_trans)
  assume "a \<le> b" "b \<le> a"
  then have "component_key a = component_key b" unfolding less_eq_Component_def by (rule order_antisym)
  then show "a = b" by (cases a; cases b) auto
qed

end

definition is_absolute :: "PathBuf \<Rightarrow> bool" where
  "is_absolute p \<longleftrightarrow> (case p of RootDir # _ \<Rightarrow> True | _ \<Rightarrow> False)"

definition path_starts_with :: "PathBuf \<Rightarrow> PathBuf \<Rightarrow> bool" where
  "path_starts_with p base \<longleftrightarrow> take (length base) p = base"

definition paths_overlap :: "PathBuf \<Rightarrow> PathBuf \<Rightarrow> bool" where
  "paths_overlap left right \<longleftrightarrow> path_starts_with left right \<or> path_starts_with right left"

lemma paths_overlap_refl [simp]: "paths_overlap p p"
  by (simp add: paths_overlap_def path_starts_with_def)

lemma paths_overlap_sym: "paths_overlap p q \<longleftrightarrow> paths_overlap q p"
  by (auto simp: paths_overlap_def)

text \<open>Two paths overlap when some path is inside both.\<close>

lemma paths_overlap_iff: "paths_overlap p q \<longleftrightarrow> (\<exists>r. path_starts_with r p \<and> path_starts_with r q)"
proof
  assume "paths_overlap p q"
  then show "\<exists>r. path_starts_with r p \<and> path_starts_with r q"
    unfolding paths_overlap_def path_starts_with_def by (metis order_refl take_all)
next
  assume "\<exists>r. path_starts_with r p \<and> path_starts_with r q"
  then obtain r where r: "take (length p) r = p" "take (length q) r = q" by (auto simp: path_starts_with_def)
  then show "paths_overlap p q"
    unfolding paths_overlap_def path_starts_with_def
    by (metis min.absorb1 min.absorb2 nle_le take_take)
qed

subsection \<open>Types\<close>

type_synonym CollaborationTaskId = str

definition MAX_TASK_ID_BYTES :: nat where "MAX_TASK_ID_BYTES = 128"

definition task_id_char :: "rchar \<Rightarrow> bool" where
  "task_id_char c \<longleftrightarrow> is_ascii_alphanumeric c \<or> c \<in> {chr CHR ''-'', chr CHR ''_'', chr CHR ''.'', chr CHR '':''}"

definition task_id_parse :: "str \<Rightarrow> unit + CollaborationTaskId" where
  "task_id_parse value =
     (if value = [] \<or> str_len value > MAX_TASK_ID_BYTES then Inl ()
      else if \<not> (\<forall>c \<in> set value. task_id_char c) then Inl ()
      else Inr value)"

datatype AgentProvider = AgentCodex | AgentOpenCode | AgentHermes | AgentCopilot

record CollaborationTask =
  ct_task_id :: CollaborationTaskId
  ct_workspace_id :: uuid
  ct_workspace_root :: PathBuf
  ct_scope_root :: PathBuf
  ct_provider :: AgentProvider
  ct_prompt :: str
  ct_phase :: nat
  ct_timeout :: nat

record CollaborationPlan =
  cp_collaboration_id :: uuid
  cp_tasks :: "CollaborationTask list"

record CollaborationLimits =
  maximum_parallel_agents :: nat
  maximum_tasks_per_run :: nat
  maximum_task_timeout :: nat
  maximum_prompt_bytes :: nat
  maximum_output_bytes :: nat
  maximum_retained_evidence :: nat
  maximum_retained_evidence_bytes :: nat

definition default_limits :: CollaborationLimits where
  "default_limits =
     \<lparr>maximum_parallel_agents = 4, maximum_tasks_per_run = 32,
      maximum_task_timeout = 15 * 60 * 1000000000, maximum_prompt_bytes = 16 * 1024,
      maximum_output_bytes = 1024 * 1024, maximum_retained_evidence = 256,
      maximum_retained_evidence_bytes = 4 * 1024 * 1024\<rparr>"

datatype CollaborationConfigError = ZeroLimit

datatype CollaborationPlanError =
    PlanEmpty
  | TooManyTasks
  | DuplicateTaskId CollaborationTaskId
  | InvalidPrompt CollaborationTaskId
  | InvalidTimeout CollaborationTaskId
  | InvalidTaskWorkspaceRoot CollaborationTaskId
  | WorkspaceIdentityMismatch uuid
  | WorkspaceRootAlias uuid uuid
  | OverlappingWorkspaceRoots
  | ScopeOutsideWorkspace CollaborationTaskId
  | OverlappingTaskScopes
  | ProviderConfinementUnavailable CollaborationTaskId
  | UnknownDependency
  | DuplicateDependency
  | DependencyPhaseConflict
  | DependencyCycle

datatype CollaborationConfinement = WorkspaceWriteIsolated | Unverified

record Metadata =
  is_dir :: bool
  is_symlink :: bool

text \<open>A coordinator's limits, with the adapter and the file system it asks.\<close>

record Coordinator =
  co_limits :: CollaborationLimits
  confinement :: "AgentProvider \<Rightarrow> CollaborationConfinement"
  canonicalize :: "PathBuf \<Rightarrow> PathBuf option"
  symlink_metadata :: "PathBuf \<Rightarrow> Metadata option"

definition coordinator_new ::
    "(AgentProvider \<Rightarrow> CollaborationConfinement) \<Rightarrow> (PathBuf \<Rightarrow> PathBuf option) \<Rightarrow> (PathBuf \<Rightarrow> Metadata option)
     \<Rightarrow> CollaborationLimits \<Rightarrow> CollaborationConfigError + Coordinator" where
  "coordinator_new confine canon meta limits =
     (if maximum_parallel_agents limits = 0
         \<or> maximum_tasks_per_run limits = 0
         \<or> maximum_task_timeout limits = 0
         \<or> maximum_prompt_bytes limits = 0
         \<or> maximum_output_bytes limits = 0
         \<or> maximum_retained_evidence limits = 0
         \<or> maximum_retained_evidence_bytes limits = 0
      then Inl ZeroLimit
      else Inr \<lparr>co_limits = limits, confinement = confine, canonicalize = canon, symlink_metadata = meta\<rparr>)"

record PreparedTask =
  pt_task_id :: CollaborationTaskId
  pt_workspace_id :: uuid
  pt_workspace_root :: PathBuf
  pt_scope_root :: PathBuf
  pt_provider :: AgentProvider
  pt_prompt :: str
  pt_phase :: nat
  pt_timeout :: nat

subsection \<open>Preparing the tasks\<close>

text \<open>The nested loops over \<open>enumerate()\<close> and \<open>skip(index + 1)\<close>: some earlier and later item are related.\<close>

fun any_pair :: "('a \<Rightarrow> 'a \<Rightarrow> bool) \<Rightarrow> 'a list \<Rightarrow> bool" where
  "any_pair P [] \<longleftrightarrow> False"
| "any_pair P (x # xs) \<longleftrightarrow> (\<exists>y \<in> set xs. P x y) \<or> any_pair P xs"

text \<open>A local directory that is not a symbolic link.\<close>

definition is_real_dir :: "Metadata \<Rightarrow> bool" where
  "is_real_dir m \<longleftrightarrow> is_dir m \<and> \<not> is_symlink m"

record PrepareState =
  task_ids :: "CollaborationTaskId set"
  roots_by_workspace :: "(uuid \<times> PathBuf) list"
  owners_by_root :: "(PathBuf \<times> uuid) list"
  scopes_by_phase :: "(nat \<times> PathBuf list) list"
  prepared_tasks :: "PreparedTask list"

definition prepare_start :: PrepareState where
  "prepare_start = \<lparr>task_ids = {}, roots_by_workspace = [], owners_by_root = [], scopes_by_phase = [], prepared_tasks = []\<rparr>"

definition register_root ::
    "CollaborationTask \<Rightarrow> PathBuf \<Rightarrow> PrepareState \<Rightarrow> CollaborationPlanError + PrepareState" where
  "register_root task root st =
     rbind (case map_of (roots_by_workspace st) (ct_workspace_id task) of
              Some existing \<Rightarrow>
                (if existing \<noteq> root then Inl (WorkspaceIdentityMismatch (ct_workspace_id task)) else Inr st)
            | None \<Rightarrow> Inr (st\<lparr>roots_by_workspace := entry_insert (ct_workspace_id task) root (roots_by_workspace st)\<rparr>))
     (\<lambda>st. case map_of (owners_by_root st) root of
             Some existing \<Rightarrow>
               (if existing \<noteq> ct_workspace_id task then Inl (WorkspaceRootAlias existing (ct_workspace_id task)) else Inr st)
           | None \<Rightarrow> Inr (st\<lparr>owners_by_root := entry_insert root (ct_workspace_id task) (owners_by_root st)\<rparr>))"

definition prepare_task ::
    "Coordinator \<Rightarrow> PrepareState \<Rightarrow> CollaborationTask \<Rightarrow> CollaborationPlanError + PrepareState" where
  "prepare_task C st task =
     (let tid = ct_task_id task; prompt = trim (ct_prompt task); limits = co_limits C in
      rbind (ensure (tid \<notin> task_ids st) (DuplicateTaskId tid)) (\<lambda>_.
      let st = st\<lparr>task_ids := insert tid (task_ids st)\<rparr> in
      rbind (ensure (\<not> (prompt = [] \<or> str_len prompt > maximum_prompt_bytes limits \<or> 0 \<in> set prompt))
        (InvalidPrompt tid)) (\<lambda>_.
      rbind (ensure (\<not> (ct_timeout task = 0 \<or> ct_timeout task > maximum_task_timeout limits)) (InvalidTimeout tid)) (\<lambda>_.
      rbind (ensure (confinement C (ct_provider task) = WorkspaceWriteIsolated) (ProviderConfinementUnavailable tid)) (\<lambda>_.
      rbind (ensure (is_absolute (ct_workspace_root task)) (InvalidTaskWorkspaceRoot tid)) (\<lambda>_.
      rbind (ok_or (canonicalize C (ct_workspace_root task)) (InvalidTaskWorkspaceRoot tid)) (\<lambda>root.
      rbind (ok_or (symlink_metadata C root) (InvalidTaskWorkspaceRoot tid)) (\<lambda>meta.
      rbind (ensure (is_real_dir meta) (InvalidTaskWorkspaceRoot tid)) (\<lambda>_.
      rbind (register_root task root st) (\<lambda>st.
      rbind (ensure (is_absolute (ct_scope_root task)) (ScopeOutsideWorkspace tid)) (\<lambda>_.
      rbind (ok_or (canonicalize C (ct_scope_root task)) (ScopeOutsideWorkspace tid)) (\<lambda>scope.
      rbind (ok_or (symlink_metadata C scope) (ScopeOutsideWorkspace tid)) (\<lambda>smeta.
      rbind (ensure (is_real_dir smeta \<and> path_starts_with scope root) (ScopeOutsideWorkspace tid)) (\<lambda>_.
      Inr (st\<lparr>scopes_by_phase := entry_push (ct_phase task) scope (scopes_by_phase st),
              prepared_tasks := prepared_tasks st @
                [\<lparr>pt_task_id = tid, pt_workspace_id = ct_workspace_id task, pt_workspace_root = root,
                  pt_scope_root = scope, pt_provider = ct_provider task, pt_prompt = prompt,
                  pt_phase = ct_phase task, pt_timeout = ct_timeout task\<rparr>]\<rparr>)))))))))))))))"

fun prepare_tasks :: "Coordinator \<Rightarrow> PrepareState \<Rightarrow> CollaborationTask list \<Rightarrow> CollaborationPlanError + PrepareState" where
  "prepare_tasks C st [] = Inr st"
| "prepare_tasks C st (t # ts) = rbind (prepare_task C st t) (\<lambda>st. prepare_tasks C st ts)"

definition prepare :: "Coordinator \<Rightarrow> CollaborationTask list \<Rightarrow> CollaborationPlanError + PreparedTask list" where
  "prepare C tasks =
     rbind (ensure (tasks \<noteq> []) PlanEmpty) (\<lambda>_.
     rbind (ensure (\<not> length tasks > maximum_tasks_per_run (co_limits C)) TooManyTasks) (\<lambda>_.
     rbind (prepare_tasks C prepare_start tasks) (\<lambda>st.
     rbind (ensure (\<not> any_pair (\<lambda>r s. path_starts_with r s \<or> path_starts_with s r) (map fst (owners_by_root st)))
       OverlappingWorkspaceRoots) (\<lambda>_.
     rbind (ensure (\<forall>(phase, scopes) \<in> set (scopes_by_phase st). \<not> any_pair paths_overlap scopes)
       OverlappingTaskScopes) (\<lambda>_.
     Inr (prepared_tasks st))))))"

subsection \<open>Checking the dependencies\<close>

type_synonym Dependencies = "(CollaborationTaskId \<times> CollaborationTaskId list) list"

text \<open>\<open>dependencies.get(task).into_iter().flatten()\<close>.\<close>

definition parents_of :: "Dependencies \<Rightarrow> CollaborationTaskId \<Rightarrow> CollaborationTaskId list" where
  "parents_of deps t = (case map_of deps t of None \<Rightarrow> [] | Some ps \<Rightarrow> ps)"

definition phase_of :: "PreparedTask list \<Rightarrow> CollaborationTaskId \<Rightarrow> nat option" where
  "phase_of tasks = map_of (map (\<lambda>t. (pt_task_id t, pt_phase t)) (rev tasks))"

fun check_parents ::
    "PreparedTask list \<Rightarrow> nat \<Rightarrow> CollaborationTaskId set \<Rightarrow> CollaborationTaskId list \<Rightarrow> CollaborationPlanError + unit" where
  "check_parents tasks phase seen [] = Inr ()"
| "check_parents tasks phase seen (p # ps) =
     rbind (ok_or (phase_of tasks p) UnknownDependency) (\<lambda>parent_phase.
     rbind (ensure (p \<notin> seen) DuplicateDependency) (\<lambda>_.
     rbind (ensure (\<not> parent_phase > phase) DependencyPhaseConflict) (\<lambda>_.
     check_parents tasks phase (insert p seen) ps)))"

fun check_entries :: "PreparedTask list \<Rightarrow> Dependencies \<Rightarrow> CollaborationPlanError + unit" where
  "check_entries tasks [] = Inr ()"
| "check_entries tasks ((t, ps) # deps) =
     rbind (ok_or (phase_of tasks t) UnknownDependency) (\<lambda>phase.
     rbind (check_parents tasks phase {} ps) (\<lambda>_.
     check_entries tasks deps))"

text \<open>A round of the loop makes the set smaller.\<close>

lemma filter_shrinks:
  assumes "filter P xs \<noteq> []"
  shows "length (filter (\<lambda>x. x \<notin> set (filter P xs)) xs) < length xs"
proof -
  obtain x where "x \<in> set xs" "P x" using assms by (auto simp: filter_empty_conv)
  then show ?thesis by (intro length_filter_less [of x]) simp_all
qed

text \<open>The \<open>while\<close> loop; \<open>remaining\<close> is the sorted content of the set.\<close>

function resolve :: "Dependencies \<Rightarrow> CollaborationTaskId list \<Rightarrow> CollaborationPlanError + unit" where
  "resolve deps remaining =
     (if remaining = [] then Inr ()
      else
        let ready = filter (\<lambda>t. \<forall>p \<in> set (parents_of deps t). p \<notin> set remaining) remaining in
        if ready = [] then Inl DependencyCycle
        else resolve deps (filter (\<lambda>t. t \<notin> set ready) remaining))"
  by pat_completeness auto
termination
  by (relation "measure (\<lambda>(deps, remaining). length remaining)") (simp_all only: filter_shrinks in_measure prod.case wf_measure not_False_eq_True)

declare resolve.simps [simp del]

definition validate_dependencies :: "PreparedTask list \<Rightarrow> Dependencies \<Rightarrow> CollaborationPlanError + unit" where
  "validate_dependencies tasks deps =
     rbind (check_entries tasks deps) (\<lambda>_. resolve deps (sort_dedup (map pt_task_id tasks)))"

subsection \<open>Which dependency graphs are accepted\<close>

text \<open>The declared edges from a prerequisite to the task that waits for it.\<close>

definition dependency_edges :: "Dependencies \<Rightarrow> (CollaborationTaskId \<times> CollaborationTaskId) set" where
  "dependency_edges deps = {(p, t). p \<in> set (parents_of deps t)}"

text \<open>A task of the list that waits for nothing else in the list.\<close>

definition ready_tasks :: "Dependencies \<Rightarrow> CollaborationTaskId list \<Rightarrow> CollaborationTaskId list" where
  "ready_tasks deps remaining = filter (\<lambda>t. \<forall>p \<in> set (parents_of deps t). p \<notin> set remaining) remaining"

lemma resolve_step:
  "remaining \<noteq> [] \<Longrightarrow> resolve deps remaining =
     (if ready_tasks deps remaining = [] then Inl DependencyCycle
      else resolve deps (filter (\<lambda>t. t \<notin> set (ready_tasks deps remaining)) remaining))"
  by (subst resolve.simps) (simp add: ready_tasks_def Let_def)

lemma resolve_Nil [simp]: "resolve deps [] = Inr ()"
  by (subst resolve.simps) simp

text \<open>A finite part of an acyclic graph has a task that is ready.\<close>

lemma acyclic_ready:
  assumes "acyclic (dependency_edges deps)" and "remaining \<noteq> []"
  shows "ready_tasks deps remaining \<noteq> []"
proof -
  let ?r = "dependency_edges deps \<inter> set remaining \<times> set remaining"
  have "acyclic ?r" by (rule acyclic_subset [OF assms(1)]) blast
  moreover have "finite ?r" by (rule finite_subset [of _ "set remaining \<times> set remaining"]) auto
  ultimately have "wf ?r" by (simp add: finite_acyclic_wf)
  moreover obtain x where "x \<in> set remaining" using assms(2) by (cases remaining) auto
  ultimately obtain t where "t \<in> set remaining" "\<forall>p \<in> set remaining. (p, t) \<notin> ?r"
    unfolding wf_eq_minimal by meson
  then have "t \<in> set (ready_tasks deps remaining)"
    by (auto simp: ready_tasks_def dependency_edges_def)
  then show ?thesis by auto
qed

text \<open>The rounds of the loop number the tasks so that every prerequisite comes in an earlier round.\<close>

lemma resolve_rank:
  assumes "resolve deps remaining = Inr ()"
  shows "\<exists>f :: CollaborationTaskId \<Rightarrow> nat. \<forall>t \<in> set remaining. \<forall>p \<in> set remaining.
           (p, t) \<in> dependency_edges deps \<longrightarrow> f p < f t"
  using assms
proof (induction "length remaining" arbitrary: remaining rule: less_induct)
  case less
  show ?case
  proof (cases "remaining = []")
    case False
    let ?ready = "ready_tasks deps remaining"
    let ?rest = "filter (\<lambda>t. t \<notin> set ?ready) remaining"
    have ready: "?ready \<noteq> []" and rest: "resolve deps ?rest = Inr ()"
      using less.prems by (simp_all add: resolve_step [OF False] split: if_splits)
    have "length ?rest < length remaining"
      using ready unfolding ready_tasks_def by (rule filter_shrinks)
    from less.hyps [OF this rest] obtain f :: "CollaborationTaskId \<Rightarrow> nat"
      where f: "\<forall>t \<in> set ?rest. \<forall>p \<in> set ?rest. (p, t) \<in> dependency_edges deps \<longrightarrow> f p < f t" by blast
    let ?g = "\<lambda>t. if t \<in> set ?ready then 0 else Suc (f t)"
    have "?g p < ?g t" if e: "t \<in> set remaining" "p \<in> set remaining" "(p, t) \<in> dependency_edges deps" for t p
    proof -
      have t: "t \<notin> set ?ready" using e by (auto simp: ready_tasks_def dependency_edges_def)
      with e(1) have t': "t \<in> set ?rest" by simp
      show ?thesis
      proof (cases "p \<in> set ?ready")
        case False
        with e(2) have "p \<in> set ?rest" by simp
        with f t' e(3) have "f p < f t" by blast
        then show ?thesis by (simp only: t False if_False Suc_less_eq)
      qed (simp only: t if_True if_False zero_less_Suc)
    qed
    then show ?thesis by (intro exI [of _ ?g] ballI impI)
  qed simp
qed

lemma resolve_iff:
  assumes "\<And>p t. (p, t) \<in> dependency_edges deps \<Longrightarrow> p \<in> set remaining \<and> t \<in> set remaining"
  shows "resolve deps remaining = Inr () \<longleftrightarrow> acyclic (dependency_edges deps)"
proof
  assume "resolve deps remaining = Inr ()"
  from resolve_rank [OF this] obtain f :: "CollaborationTaskId \<Rightarrow> nat"
    where "\<forall>t \<in> set remaining. \<forall>p \<in> set remaining. (p, t) \<in> dependency_edges deps \<longrightarrow> f p < f t" by blast
  then have "dependency_edges deps \<subseteq> measure f" using assms by auto
  then show "acyclic (dependency_edges deps)" by (metis wf_subset wf_measure wf_acyclic)
next
  assume acyclic: "acyclic (dependency_edges deps)"
  have "resolve deps remaining = Inr ()" for remaining
  proof (induction "length remaining" arbitrary: remaining rule: less_induct)
    case less
    show ?case
    proof (cases "remaining = []")
      case False
      let ?ready = "ready_tasks deps remaining"
      have ready: "?ready \<noteq> []" by (rule acyclic_ready [OF acyclic False])
      have "length (filter (\<lambda>t. t \<notin> set ?ready) remaining) < length remaining"
        using ready unfolding ready_tasks_def by (rule filter_shrinks)
      from less.hyps [OF this] ready show ?thesis by (simp only: resolve_step [OF False] if_False)
    qed simp
  qed
  then show "resolve deps remaining = Inr ()" .
qed

lemma check_parents_iff:
  "check_parents tasks phase seen ps = Inr () \<longleftrightarrow>
     distinct ps \<and> set ps \<inter> seen = {} \<and> (\<forall>p \<in> set ps. \<exists>ph. phase_of tasks p = Some ph \<and> ph \<le> phase)"
  by (induction ps arbitrary: seen) auto

lemma check_entries_iff:
  "check_entries tasks deps = Inr () \<longleftrightarrow>
     (\<forall>(t, ps) \<in> set deps. \<exists>phase. phase_of tasks t = Some phase \<and> distinct ps
        \<and> (\<forall>p \<in> set ps. \<exists>ph. phase_of tasks p = Some ph \<and> ph \<le> phase))"
  by (induction deps) (auto simp: check_parents_iff)

lemma phase_of_Some_iff:
  "distinct (map pt_task_id tasks) \<Longrightarrow>
     phase_of tasks i = Some ph \<longleftrightarrow> (\<exists>t \<in> set tasks. pt_task_id t = i \<and> pt_phase t = ph)"
  by (auto simp: phase_of_def map_of_eq_Some_iff rev_map [symmetric] comp_def)

text \<open>What the declared dependencies must satisfy, independently of the order of the checks.\<close>

definition dependencies_ok :: "PreparedTask list \<Rightarrow> Dependencies \<Rightarrow> bool" where
  "dependencies_ok tasks deps \<longleftrightarrow>
     (\<forall>(i, ps) \<in> set deps. distinct ps \<and> (\<exists>t \<in> set tasks. pt_task_id t = i \<and>
        (\<forall>p \<in> set ps. \<exists>u \<in> set tasks. pt_task_id u = p \<and> pt_phase u \<le> pt_phase t)))
     \<and> acyclic (dependency_edges deps)"

lemma validate_dependencies_Inr_iff:
  assumes "distinct (map pt_task_id tasks)"
  shows "validate_dependencies tasks deps = Inr () \<longleftrightarrow> dependencies_ok tasks deps"
proof -
  have entries: "check_entries tasks deps = Inr () \<longleftrightarrow>
      (\<forall>(i, ps) \<in> set deps. distinct ps \<and> (\<exists>t \<in> set tasks. pt_task_id t = i \<and>
        (\<forall>p \<in> set ps. \<exists>u \<in> set tasks. pt_task_id u = p \<and> pt_phase u \<le> pt_phase t)))"
    unfolding check_entries_iff phase_of_Some_iff [OF assms] by fastforce
  have "resolve deps (sort_dedup (map pt_task_id tasks)) = Inr () \<longleftrightarrow> acyclic (dependency_edges deps)"
    if "check_entries tasks deps = Inr ()"
  proof (rule resolve_iff)
    fix p t assume "(p, t) \<in> dependency_edges deps"
    then obtain ps where "(t, ps) \<in> set deps" "p \<in> set ps"
      using map_of_SomeD [of deps t] by (cases "map_of deps t") (auto simp: dependency_edges_def parents_of_def)
    with that show "p \<in> set (sort_dedup (map pt_task_id tasks)) \<and> t \<in> set (sort_dedup (map pt_task_id tasks))"
      unfolding entries by fastforce
  qed
  then show ?thesis unfolding validate_dependencies_def dependencies_ok_def entries [symmetric] by auto
qed

text \<open>
  C20: the dependencies of a plan with distinct task identifiers are accepted exactly when every
  entry and every prerequisite names a task of the plan, no prerequisite is repeated or in a later
  phase, and the graph they form has no cycle.
\<close>

theorem validate_dependencies_iff:
  assumes "distinct (map pt_task_id tasks)"
  shows "validate_dependencies tasks deps = Inr () \<longleftrightarrow> dependencies_ok tasks deps"
  using validate_dependencies_Inr_iff [OF assms] .

subsection \<open>Which plans are accepted\<close>

text \<open>A path that resolves to a directory, and what a task becomes.\<close>

definition real_dir :: "Coordinator \<Rightarrow> PathBuf \<Rightarrow> PathBuf option" where
  "real_dir C p =
     (case canonicalize C p of None \<Rightarrow> None
      | Some q \<Rightarrow> (case symlink_metadata C q of None \<Rightarrow> None | Some m \<Rightarrow> if is_real_dir m then Some q else None))"

lemma real_dir_Some_iff:
  "real_dir C p = Some q \<longleftrightarrow> canonicalize C p = Some q \<and> (\<exists>m. symlink_metadata C q = Some m \<and> is_real_dir m)"
  by (auto simp: real_dir_def split: option.splits if_splits)

definition prepared_of :: "Coordinator \<Rightarrow> CollaborationTask \<Rightarrow> PreparedTask" where
  "prepared_of C t =
     \<lparr>pt_task_id = ct_task_id t, pt_workspace_id = ct_workspace_id t,
      pt_workspace_root = the (real_dir C (ct_workspace_root t)), pt_scope_root = the (real_dir C (ct_scope_root t)),
      pt_provider = ct_provider t, pt_prompt = trim (ct_prompt t), pt_phase = ct_phase t, pt_timeout = ct_timeout t\<rparr>"

text \<open>A task on its own.\<close>

definition task_ok :: "Coordinator \<Rightarrow> CollaborationTask \<Rightarrow> bool" where
  "task_ok C t \<longleftrightarrow>
     trim (ct_prompt t) \<noteq> [] \<and> str_len (trim (ct_prompt t)) \<le> maximum_prompt_bytes (co_limits C) \<and> 0 \<notin> set (trim (ct_prompt t))
     \<and> 0 < ct_timeout t \<and> ct_timeout t \<le> maximum_task_timeout (co_limits C)
     \<and> confinement C (ct_provider t) = WorkspaceWriteIsolated
     \<and> is_absolute (ct_workspace_root t) \<and> is_absolute (ct_scope_root t)
     \<and> (\<exists>root scope. real_dir C (ct_workspace_root t) = Some root \<and> real_dir C (ct_scope_root t) = Some scope
          \<and> path_starts_with scope root)"

text \<open>
  Two tasks of one plan: the same workspace exactly when the same root, roots of different
  workspaces disjoint, and in one phase disjoint scopes.
\<close>

definition compatible_tasks :: "PreparedTask \<Rightarrow> PreparedTask \<Rightarrow> bool" where
  "compatible_tasks t u \<longleftrightarrow>
     pt_task_id t \<noteq> pt_task_id u
     \<and> (pt_workspace_id t = pt_workspace_id u \<longleftrightarrow> pt_workspace_root t = pt_workspace_root u)
     \<and> (pt_workspace_root t \<noteq> pt_workspace_root u \<longrightarrow> \<not> paths_overlap (pt_workspace_root t) (pt_workspace_root u))
     \<and> (pt_phase t = pt_phase u \<longrightarrow> \<not> paths_overlap (pt_scope_root t) (pt_scope_root u))"

definition plan_ok :: "Coordinator \<Rightarrow> CollaborationTask list \<Rightarrow> bool" where
  "plan_ok C ts \<longleftrightarrow>
     ts \<noteq> [] \<and> length ts \<le> maximum_tasks_per_run (co_limits C) \<and> (\<forall>t \<in> set ts. task_ok C t)
     \<and> sorted_wrt compatible_tasks (map (prepared_of C) ts)"

lemma any_pair_iff: "any_pair P xs \<longleftrightarrow> \<not> sorted_wrt (\<lambda>x y. \<not> P x y) xs"
  by (induction xs) auto

lemma any_pair_distinct:
  assumes "distinct xs" and sym: "\<And>x y. P x y \<Longrightarrow> P y x"
  shows "any_pair P xs \<longleftrightarrow> (\<exists>x \<in> set xs. \<exists>y \<in> set xs. x \<noteq> y \<and> P x y)"
  using assms(1)
proof (induction xs)
  case (Cons a xs)
  have flip: "P x a \<longleftrightarrow> P a x" for x using sym by blast
  from Cons have a: "a \<notin> set xs" and ih: "any_pair P xs \<longleftrightarrow> (\<exists>x \<in> set xs. \<exists>y \<in> set xs. x \<noteq> y \<and> P x y)" by simp_all
  show ?case
  proof
    assume "any_pair P (a # xs)"
    then consider y where "y \<in> set xs" "P a y" | "any_pair P xs" by auto
    then show "\<exists>x \<in> set (a # xs). \<exists>y \<in> set (a # xs). x \<noteq> y \<and> P x y"
      using a ih by cases (metis list.set_intros, metis list.set_intros(2))
  next
    assume "\<exists>x \<in> set (a # xs). \<exists>y \<in> set (a # xs). x \<noteq> y \<and> P x y"
    then obtain x y where "x \<in> insert a (set xs)" "y \<in> insert a (set xs)" "x \<noteq> y" "P x y" by auto
    then consider "x = a" "y \<in> set xs" | "y = a" "x \<in> set xs" | "x \<in> set xs" "y \<in> set xs" by blast
    then show "any_pair P (a # xs)"
      using \<open>P x y\<close> \<open>x \<noteq> y\<close> ih flip unfolding any_pair.simps by cases blast+
  qed
qed simp

text \<open>What the loop has collected after the tasks \<open>ts\<close>.\<close>

definition collected :: "Coordinator \<Rightarrow> CollaborationTask list \<Rightarrow> PrepareState \<Rightarrow> bool" where
  "collected C ts st \<longleftrightarrow>
     task_ids st = ct_task_id ` set ts
     \<and> (\<forall>w r. map_of (roots_by_workspace st) w = Some r \<longleftrightarrow>
          (\<exists>t \<in> set ts. ct_workspace_id t = w \<and> pt_workspace_root (prepared_of C t) = r))
     \<and> (\<forall>r w. map_of (owners_by_root st) r = Some w \<longleftrightarrow>
          (\<exists>t \<in> set ts. ct_workspace_id t = w \<and> pt_workspace_root (prepared_of C t) = r))
     \<and> sorted_wrt (<) (map fst (owners_by_root st)) \<and> sorted_wrt (<) (map fst (scopes_by_phase st))
     \<and> (\<forall>ph. map_of (scopes_by_phase st) ph =
          (if \<exists>t \<in> set ts. ct_phase t = ph
           then Some (map (pt_scope_root \<circ> prepared_of C) (filter (\<lambda>t. ct_phase t = ph) ts)) else None))
     \<and> prepared_tasks st = map (prepared_of C) ts"

lemma collected_start: "collected C [] prepare_start"
  by (simp add: collected_def prepare_start_def)

lemma register_root_Inr_iff:
  "register_root task root st = Inr st' \<longleftrightarrow>
     (\<forall>r. map_of (roots_by_workspace st) (ct_workspace_id task) = Some r \<longrightarrow> r = root)
     \<and> (\<forall>w. map_of (owners_by_root st) root = Some w \<longrightarrow> w = ct_workspace_id task)
     \<and> st' = st\<lparr>roots_by_workspace := (if ct_workspace_id task \<in> dom (map_of (roots_by_workspace st)) then roots_by_workspace st
                  else entry_insert (ct_workspace_id task) root (roots_by_workspace st)),
                owners_by_root := (if root \<in> dom (map_of (owners_by_root st)) then owners_by_root st
                  else entry_insert root (ct_workspace_id task) (owners_by_root st))\<rparr>"
  unfolding register_root_def
  by (cases "map_of (roots_by_workspace st) (ct_workspace_id task)"; cases "map_of (owners_by_root st) root") auto

lemma map_of_ensure:
  assumes "\<forall>r. map_of m k = Some r \<longrightarrow> r = v"
  shows "map_of (if k \<in> dom (map_of m) then m else entry_insert k v m) = (map_of m)(k \<mapsto> v)"
  using assms map_of_entry_insert [of k m v] by (auto simp: fun_eq_iff)

lemma prepare_task_Inr_iff:
  "prepare_task C st t = Inr st' \<longleftrightarrow>
     ct_task_id t \<notin> task_ids st \<and> task_ok C t
     \<and> (\<exists>st1. register_root t (pt_workspace_root (prepared_of C t)) (st\<lparr>task_ids := insert (ct_task_id t) (task_ids st)\<rparr>) = Inr st1
          \<and> st' = st1\<lparr>scopes_by_phase := entry_push (ct_phase t) (pt_scope_root (prepared_of C t)) (scopes_by_phase st1),
                     prepared_tasks := prepared_tasks st1 @ [prepared_of C t]\<rparr>)"
  unfolding prepare_task_def task_ok_def Let_def real_dir_Some_iff
  by (auto simp: prepared_of_def real_dir_def not_less)

lemma prepare_task_collected:
  assumes ok: "collected C ts st" and step: "prepare_task C st t = Inr st'"
  shows "collected C (ts @ [t]) st'"
proof -
  let ?root = "pt_workspace_root (prepared_of C t)" and ?w = "ct_workspace_id t"
  obtain st1 where reg: "register_root t ?root (st\<lparr>task_ids := insert (ct_task_id t) (task_ids st)\<rparr>) = Inr st1"
    and st': "st' = st1\<lparr>scopes_by_phase := entry_push (ct_phase t) (pt_scope_root (prepared_of C t)) (scopes_by_phase st1),
                     prepared_tasks := prepared_tasks st1 @ [prepared_of C t]\<rparr>"
    using step unfolding prepare_task_Inr_iff by blast
  note one = reg [unfolded register_root_Inr_iff, THEN conjunct1, simplified]
  note two = reg [unfolded register_root_Inr_iff, THEN conjunct2, THEN conjunct1, simplified]
  note st1 = reg [unfolded register_root_Inr_iff, THEN conjunct2, THEN conjunct2]
  have "roots_by_workspace st1 = (if ?w \<in> dom (map_of (roots_by_workspace st)) then roots_by_workspace st
        else entry_insert ?w ?root (roots_by_workspace st))"
    "owners_by_root st1 = (if ?root \<in> dom (map_of (owners_by_root st)) then owners_by_root st
        else entry_insert ?root ?w (owners_by_root st))" by (simp_all add: st1)
  note maps = this
  have roots: "map_of (roots_by_workspace st1) = (map_of (roots_by_workspace st))(?w \<mapsto> ?root)"
    unfolding maps by (rule map_of_ensure [OF one])
  have owners: "map_of (owners_by_root st1) = (map_of (owners_by_root st))(?root \<mapsto> ?w)"
    unfolding maps by (rule map_of_ensure [OF two])
  have sorted: "sorted_wrt (<) (map fst (owners_by_root st1))"
    using ok entry_insert_sorted [of "owners_by_root st" ?root ?w]
    by (simp add: st1 collected_def dom_map_of_conv_image_fst)
  have rest: "scopes_by_phase st1 = scopes_by_phase st" "prepared_tasks st1 = prepared_tasks st"
      "task_ids st1 = insert (ct_task_id t) (task_ids st)"
    by (simp_all add: st1)
  have old: "(map_of (roots_by_workspace st) w = Some r) = (\<exists>u \<in> set ts. ct_workspace_id u = w \<and> pt_workspace_root (prepared_of C u) = r)"
      "(map_of (owners_by_root st) r = Some w) = (\<exists>u \<in> set ts. ct_workspace_id u = w \<and> pt_workspace_root (prepared_of C u) = r)" for w r
    using ok by (simp_all add: collected_def)
  have sc: "sorted_wrt (<) (map fst (scopes_by_phase st))" using ok by (simp add: collected_def)
  show ?thesis
    unfolding collected_def
  proof (intro conjI allI)
    show "(map_of (roots_by_workspace st') w = Some r) =
        (\<exists>u \<in> set (ts @ [t]). ct_workspace_id u = w \<and> pt_workspace_root (prepared_of C u) = r)" for w r
      using one old(1) [of w r] old(1) [of w ?root] by (auto simp: st' roots)
    show "(map_of (owners_by_root st') r = Some w) =
        (\<exists>u \<in> set (ts @ [t]). ct_workspace_id u = w \<and> pt_workspace_root (prepared_of C u) = r)" for w r
      using two old(2) [of r w] old(2) [of ?root w] by (auto simp: st' owners)
    show "map_of (scopes_by_phase st') ph = (if \<exists>u \<in> set (ts @ [t]). ct_phase u = ph
           then Some (map (pt_scope_root \<circ> prepared_of C) (filter (\<lambda>u. ct_phase u = ph) (ts @ [t]))) else None)" for ph
      using ok unfolding st' collected_def by (simp add: rest map_of_entry_push sc)
  qed (use ok sorted entry_push_sorted [OF sc] in \<open>simp_all add: collected_def st' rest\<close>)
qed

lemma prepare_task_accepts:
  assumes ok: "collected C ts st"
  shows "(\<exists>st'. prepare_task C st t = Inr st') \<longleftrightarrow> task_ok C t \<and> (\<forall>u \<in> set ts. ct_task_id u \<noteq> ct_task_id t
     \<and> (ct_workspace_id u = ct_workspace_id t \<longleftrightarrow> pt_workspace_root (prepared_of C u) = pt_workspace_root (prepared_of C t)))"
proof -
  let ?root = "pt_workspace_root (prepared_of C t)" and ?w = "ct_workspace_id t"
  have old: "(map_of (roots_by_workspace st) w = Some r) = (\<exists>u \<in> set ts. ct_workspace_id u = w \<and> pt_workspace_root (prepared_of C u) = r)"
      "(map_of (owners_by_root st) r = Some w) = (\<exists>u \<in> set ts. ct_workspace_id u = w \<and> pt_workspace_root (prepared_of C u) = r)" for w r
    using ok by (simp_all add: collected_def)
  have "(\<exists>st1. register_root t ?root (st\<lparr>task_ids := insert (ct_task_id t) (task_ids st)\<rparr>) = Inr st1) \<longleftrightarrow>
      (\<forall>u \<in> set ts. ct_workspace_id u = ?w \<longleftrightarrow> pt_workspace_root (prepared_of C u) = ?root)"
    unfolding register_root_Inr_iff by (auto simp: old)
  moreover have "task_ids st = ct_task_id ` set ts" using ok by (simp add: collected_def)
  ultimately show ?thesis unfolding prepare_task_Inr_iff by auto (metis imageI)
qed

text \<open>The part of \<open>compatible_tasks\<close> that the loop itself checks.\<close>

definition same_workspace_same_root :: "PreparedTask \<Rightarrow> PreparedTask \<Rightarrow> bool" where
  "same_workspace_same_root t u \<longleftrightarrow> pt_task_id t \<noteq> pt_task_id u
     \<and> (pt_workspace_id t = pt_workspace_id u \<longleftrightarrow> pt_workspace_root t = pt_workspace_root u)"

lemma prepare_tasks_collected:
  "collected C ts st \<Longrightarrow> prepare_tasks C st us = Inr st' \<Longrightarrow> collected C (ts @ us) st'"
proof (induction us arbitrary: ts st)
  case (Cons u us)
  then obtain st1 where "prepare_task C st u = Inr st1" "prepare_tasks C st1 us = Inr st'" by auto
  with Cons.IH [OF prepare_task_collected [OF Cons.prems(1)]] show ?case by auto
qed simp

lemma prepare_tasks_accepts:
  "collected C ts st \<Longrightarrow> (\<exists>st'. prepare_tasks C st us = Inr st') \<longleftrightarrow>
      (\<forall>t \<in> set us. task_ok C t) \<and> (\<forall>t \<in> set ts. \<forall>u \<in> set us. same_workspace_same_root (prepared_of C t) (prepared_of C u))
      \<and> sorted_wrt same_workspace_same_root (map (prepared_of C) us)"
proof (induction us arbitrary: ts st)
  case (Cons u us)
  have step: "(\<exists>st1. prepare_task C st u = Inr st1) \<longleftrightarrow>
      task_ok C u \<and> (\<forall>t \<in> set ts. same_workspace_same_root (prepared_of C t) (prepared_of C u))"
    unfolding prepare_task_accepts [OF Cons.prems] by (auto simp: same_workspace_same_root_def prepared_of_def)
  show ?case
  proof (cases "prepare_task C st u")
    case (Inl e)
    then show ?thesis using step by auto
  next
    case (Inr st1)
    from Cons.IH [OF prepare_task_collected [OF Cons.prems this]] show ?thesis using Inr step by auto
  qed
qed simp

lemma sorted_wrt_conj: "sorted_wrt (\<lambda>x y. P x y \<and> Q x y) xs \<longleftrightarrow> sorted_wrt P xs \<and> sorted_wrt Q xs"
  by (induction xs) auto

lemma sorted_wrt_classes:
  "sorted_wrt (\<lambda>x y. f x = f y \<longrightarrow> P x y) xs \<longleftrightarrow> (\<forall>k. sorted_wrt P (filter (\<lambda>x. f x = k) xs))"
proof (induction xs)
  case (Cons x xs)
  have "(\<forall>k. sorted_wrt P (filter (\<lambda>y. f y = k) (x # xs))) \<longleftrightarrow>
      (\<forall>y \<in> set xs. f x = f y \<longrightarrow> P x y) \<and> (\<forall>k. sorted_wrt P (filter (\<lambda>y. f y = k) xs))"
    by (auto simp: all_conj_distrib) (metis filter_cong)
  with Cons show ?case by auto
qed simp

lemma sorted_wrt_sym:
  assumes "\<And>x. P x x" and "\<And>x y. P x y \<Longrightarrow> P y x"
  shows "sorted_wrt P xs \<longleftrightarrow> (\<forall>x \<in> set xs. \<forall>y \<in> set xs. P x y)"
proof (induction xs)
  case (Cons a xs)
  have "(\<forall>x \<in> insert a (set xs). \<forall>y \<in> insert a (set xs). P x y) \<longleftrightarrow>
      (\<forall>y \<in> set xs. P a y) \<and> (\<forall>x \<in> set xs. \<forall>y \<in> set xs. P x y)"
    using assms by blast
  with Cons show ?case by simp
qed simp

lemma sorted_wrt_compatible:
  "sorted_wrt compatible_tasks ps \<longleftrightarrow>
     sorted_wrt same_workspace_same_root ps
     \<and> (\<forall>t \<in> set ps. \<forall>u \<in> set ps. pt_workspace_root t \<noteq> pt_workspace_root u \<longrightarrow>
          \<not> paths_overlap (pt_workspace_root t) (pt_workspace_root u))
     \<and> (\<forall>ph. sorted_wrt (\<lambda>x y. \<not> paths_overlap x y) (map pt_scope_root (filter (\<lambda>t. pt_phase t = ph) ps)))"
proof -
  have compat: "compatible_tasks = (\<lambda>t u. same_workspace_same_root t u
      \<and> ((pt_workspace_root t \<noteq> pt_workspace_root u \<longrightarrow> \<not> paths_overlap (pt_workspace_root t) (pt_workspace_root u))
      \<and> (pt_phase t = pt_phase u \<longrightarrow> \<not> paths_overlap (pt_scope_root t) (pt_scope_root u))))"
    by (intro ext) (simp add: compatible_tasks_def same_workspace_same_root_def)
  have roots: "sorted_wrt (\<lambda>t u. pt_workspace_root t \<noteq> pt_workspace_root u \<longrightarrow>
          \<not> paths_overlap (pt_workspace_root t) (pt_workspace_root u)) ps \<longleftrightarrow>
      (\<forall>t \<in> set ps. \<forall>u \<in> set ps. pt_workspace_root t \<noteq> pt_workspace_root u \<longrightarrow>
          \<not> paths_overlap (pt_workspace_root t) (pt_workspace_root u))"
    by (rule sorted_wrt_sym) (auto simp: paths_overlap_sym)
  show ?thesis unfolding compat sorted_wrt_conj roots sorted_wrt_classes sorted_wrt_map ..
qed

lemma collected_final:
  assumes "collected C ts st"
  shows "any_pair (\<lambda>r s. path_starts_with r s \<or> path_starts_with s r) (map fst (owners_by_root st)) \<longleftrightarrow>
      (\<exists>t \<in> set (map (prepared_of C) ts). \<exists>u \<in> set (map (prepared_of C) ts). pt_workspace_root t \<noteq> pt_workspace_root u
        \<and> paths_overlap (pt_workspace_root t) (pt_workspace_root u))" (is ?roots)
    and "(\<forall>(phase, scopes) \<in> set (scopes_by_phase st). \<not> any_pair paths_overlap scopes) \<longleftrightarrow>
      (\<forall>ph. sorted_wrt (\<lambda>x y. \<not> paths_overlap x y) (map pt_scope_root (filter (\<lambda>t. pt_phase t = ph) (map (prepared_of C) ts))))"
      (is ?scopes)
proof -
  have dist: "distinct (map fst (owners_by_root st))" "distinct (map fst (scopes_by_phase st))"
    using assms by (simp_all add: collected_def strict_sorted_iff)
  have "fst ` set (owners_by_root st) = dom (map_of (owners_by_root st))" by (simp add: dom_map_of_conv_image_fst)
  also have "\<dots> = pt_workspace_root ` set (map (prepared_of C) ts)"
    using assms by (auto simp: collected_def dom_def)
  finally have keys: "set (map fst (owners_by_root st)) = pt_workspace_root ` set (map (prepared_of C) ts)" by simp
  have "any_pair paths_overlap (map fst (owners_by_root st)) \<longleftrightarrow> (\<exists>x \<in> set (map fst (owners_by_root st)).
      \<exists>y \<in> set (map fst (owners_by_root st)). x \<noteq> y \<and> paths_overlap x y)"
    by (rule any_pair_distinct [OF dist(1)]) (simp add: paths_overlap_sym)
  then show ?roots unfolding keys by (simp add: paths_overlap_def [abs_def])
  have entry: "(ph, scopes) \<in> set (scopes_by_phase st) \<longleftrightarrow> (\<exists>t \<in> set ts. ct_phase t = ph)
      \<and> scopes = map (pt_scope_root \<circ> prepared_of C) (filter (\<lambda>t. ct_phase t = ph) ts)" for ph scopes
    using assms unfolding collected_def map_of_eq_Some_iff [OF dist(2), symmetric] by auto
  have none: "filter (\<lambda>t. ct_phase t = ph) ts = []" if "\<not> (\<exists>t \<in> set ts. ct_phase t = ph)" for ph
    using that by (simp add: filter_empty_conv)
  have "(\<forall>(phase, scopes) \<in> set (scopes_by_phase st). \<not> any_pair paths_overlap scopes) \<longleftrightarrow>
      (\<forall>ph. (\<exists>t \<in> set ts. ct_phase t = ph) \<longrightarrow>
        \<not> any_pair paths_overlap (map (pt_scope_root \<circ> prepared_of C) (filter (\<lambda>t. ct_phase t = ph) ts)))"
    using entry by (auto simp: Ball_def)
  also have "\<dots> \<longleftrightarrow> (\<forall>ph. \<not> any_pair paths_overlap (map (pt_scope_root \<circ> prepared_of C) (filter (\<lambda>t. ct_phase t = ph) ts)))"
    using none by (metis any_pair.simps(1) list.simps(8))
  also have "\<dots> \<longleftrightarrow> (\<forall>ph. sorted_wrt (\<lambda>x y. \<not> paths_overlap x y)
      (map pt_scope_root (filter (\<lambda>t. pt_phase t = ph) (map (prepared_of C) ts))))"
    by (simp add: any_pair_iff filter_map comp_def prepared_of_def)
  finally show ?scopes .
qed

lemma prepare_Inr_iff:
  "prepare C tasks = Inr ps \<longleftrightarrow> plan_ok C tasks \<and> ps = map (prepared_of C) tasks"
proof (cases "\<exists>st. prepare_tasks C prepare_start tasks = Inr st")
  case True
  then obtain st where st: "prepare_tasks C prepare_start tasks = Inr st" by blast
  have c: "collected C tasks st" using prepare_tasks_collected [OF collected_start st] by simp
  have "(\<forall>t \<in> set tasks. task_ok C t) \<and> sorted_wrt same_workspace_same_root (map (prepared_of C) tasks)"
    using True prepare_tasks_accepts [OF collected_start, of C tasks] by simp
  moreover have "prepared_tasks st = map (prepared_of C) tasks" using c by (simp add: collected_def)
  ultimately show ?thesis
    unfolding prepare_def rbind_Inr_iff ensure_Inr_iff collected_final [OF c, symmetric] plan_ok_def sorted_wrt_compatible
    using collected_final [OF c] by (auto simp: st)
next
  case False
  then have "\<not> plan_ok C tasks"
    using prepare_tasks_accepts [OF collected_start, of C tasks] by (auto simp: plan_ok_def sorted_wrt_compatible)
  then show ?thesis using False by (auto simp: prepare_def)
qed

text \<open>
  C19: a plan is accepted exactly when it has between one task and the limit, every task is within
  the limits, confined, and in a scope inside its workspace directory, the tasks have different
  identifiers, workspaces and directories correspond one to one and do not overlap, and no two
  scopes of one phase overlap; every task is then prepared with its canonical directories.
\<close>

theorem prepare_accepts_exactly:
  "prepare C tasks = Inr ps \<longleftrightarrow> plan_ok C tasks \<and> ps = map (prepared_of C) tasks"
  by (rule prepare_Inr_iff)

subsection \<open>A concrete coordinator and plan\<close>

text \<open>A file system in which every absolute path is a directory, and two tasks in two directories.\<close>

definition sample_coordinator :: Coordinator where
  "sample_coordinator =
     \<lparr>co_limits = default_limits, confinement = \<lambda>_. WorkspaceWriteIsolated, canonicalize = Some,
      symlink_metadata = \<lambda>p. Some \<lparr>is_dir = True, is_symlink = False\<rparr>\<rparr>"

definition sample_task :: "string \<Rightarrow> uuid \<Rightarrow> CollaborationTask" where
  "sample_task name w =
     \<lparr>ct_task_id = lit name, ct_workspace_id = w, ct_workspace_root = [RootDir, Normal (lit name)],
      ct_scope_root = [RootDir, Normal (lit name), Normal (lit ''repo'')], ct_provider = AgentCodex,
      ct_prompt = lit '' work '', ct_phase = 0, ct_timeout = 1000\<rparr>"

definition sample_plan :: CollaborationPlan where
  "sample_plan = \<lparr>cp_collaboration_id = 7, cp_tasks = [sample_task ''a'' 1, sample_task ''b'' 2]\<rparr>"

definition sample_prepared :: "PreparedTask list" where
  "sample_prepared = map (prepared_of sample_coordinator) (cp_tasks sample_plan)"

lemma sample_prepare: "prepare sample_coordinator (cp_tasks sample_plan) = Inr sample_prepared"
  unfolding sample_prepared_def by code_simp

lemma sample_ids: "map pt_task_id sample_prepared = [lit ''a'', lit ''b'']"
  by code_simp

text \<open>\<open>a\<close> waits for \<open>b\<close>; and a cycle.\<close>

definition sample_dependencies :: Dependencies where
  "sample_dependencies = [(lit ''a'', [lit ''b''])]"

definition sample_cycle :: Dependencies where
  "sample_cycle = [(lit ''a'', [lit ''b'']), (lit ''b'', [lit ''a''])]"

lemma sample_validate: "validate_dependencies sample_prepared sample_dependencies = Inr ()"
  by code_simp

theorem validate_dependencies_iff_witness:
  "acyclic (dependency_edges sample_dependencies) \<and> \<not> dependencies_ok sample_prepared sample_cycle"
proof -
  have dist: "distinct (map pt_task_id sample_prepared)" unfolding sample_ids by (simp add: lit_def)
  have "validate_dependencies sample_prepared sample_cycle \<noteq> Inr ()" by code_simp
  then show ?thesis
    using validate_dependencies_iff [OF dist, of sample_dependencies] validate_dependencies_iff [OF dist, of sample_cycle]
      sample_validate
    by (simp add: dependencies_ok_def)
qed

end
