(* ===== verification/Collaboration_Run.thy ===== *)
theory Collaboration_Run
  imports Collaboration_Plan
begin

text \<open>
  \<open>wts-app/src/collaboration.rs\<close>, part two: running one wave of prepared tasks on a pool of worker
  threads that share the execution gate. The pool is a state with one program counter per worker;
  an event is one atomic step of a worker (what it does between two points where another thread
  may act: the atomic counter, the gate's mutex, the adapter call, the results' mutex), a step of
  time, a cancellation, or a permit taken or dropped by another execution on the same gate. A
  schedule is a list of events, so a theorem about every schedule is about every interleaving.

  The adapter is outside the model: the event \<open>Return\<close> carries what it answered, \<open>None\<close> for a
  panic. One step reads the clock once, except in \<open>acquire\<close>, whose two readings are modelled.
\<close>

subsection \<open>Types\<close>

datatype CollaborationStopReason = StopCancelled | StopTimedOut

datatype CollaborationAdapterFailure = AdapterUnavailable | SpawnFailed | ProviderFailed

datatype CollaborationAdapterOutcome =
    OutcomeSucceeded str
  | OutcomeFailed CollaborationAdapterFailure str
  | OutcomeStopped CollaborationStopReason

datatype CollaborationTaskState =
    TaskSucceeded | TaskProviderFailed | TaskAdapterFailed | TaskAdapterPanicked
  | TaskCancelled | TaskTimedOut | TaskOutputTooLarge | TaskDependencyBlocked

record CollaborationTaskResult =
  tr_task_id :: CollaborationTaskId
  tr_workspace_id :: uuid
  tr_provider :: AgentProvider
  tr_phase :: nat
  tr_state :: CollaborationTaskState
  tr_output :: str
  tr_failure :: "CollaborationAdapterFailure option"
  tr_started_at_unix_ms :: "int option"
  tr_completed_at_unix_ms :: int
  tr_duration_ms :: nat

text \<open>The monotonic clock in nanoseconds and the system clock in milliseconds since the epoch.\<close>

record Clock =
  instant :: nat
  unix_ms :: nat

text \<open>The largest \<open>Instant\<close>: seconds are an \<open>i64\<close>.\<close>

definition INSTANT_MAX :: nat where "INSTANT_MAX = 9223372036854775807 * 1000000000 + 999999999"

definition now_unix_ms :: "Clock \<Rightarrow> int" where
  "now_unix_ms c = (case i64_try_from (unix_ms c) of None \<Rightarrow> i64_max | Some i \<Rightarrow> i)"

definition elapsed_ms :: "Clock \<Rightarrow> nat \<Rightarrow> nat" where
  "elapsed_ms c started = min u64_max ((instant c - started) div 1000000)"

subsection \<open>Cancellation\<close>

record CollaborationControl =
  all_cancelled :: bool
  task_tokens :: "CollaborationTaskId \<Rightarrow> bool option"

definition cancel_all :: "CollaborationControl \<Rightarrow> CollaborationControl" where
  "cancel_all c = c\<lparr>all_cancelled := True\<rparr>"

text \<open>\<open>entry(task_id).or_insert(false)\<close>, and the token's value.\<close>

definition task_token :: "CollaborationTaskId \<Rightarrow> CollaborationControl \<Rightarrow> bool \<times> CollaborationControl" where
  "task_token i c =
     (case task_tokens c i of
        Some b \<Rightarrow> (b, c)
      | None \<Rightarrow> (False, c\<lparr>task_tokens := (task_tokens c)(i \<mapsto> False)\<rparr>))"

definition cancel_task :: "CollaborationTaskId \<Rightarrow> CollaborationControl \<Rightarrow> bool \<times> CollaborationControl" where
  "cancel_task i c =
     (let (old, c) = task_token i c in (\<not> old, c\<lparr>task_tokens := (task_tokens c)(i \<mapsto> True)\<rparr>))"

definition is_cancelled :: "CollaborationControl \<Rightarrow> CollaborationTaskId \<Rightarrow> bool" where
  "is_cancelled c i \<longleftrightarrow> all_cancelled c \<or> task_tokens c i = Some True"

definition checkpoint ::
    "CollaborationControl \<Rightarrow> CollaborationTaskId \<Rightarrow> Clock \<Rightarrow> nat \<Rightarrow> CollaborationStopReason + unit" where
  "checkpoint c i clk deadline =
     (if is_cancelled c i then Inl StopCancelled
      else if instant clk \<ge> deadline then Inl StopTimedOut
      else Inr ())"

subsection \<open>Results\<close>

definition task_result ::
    "PreparedTask \<Rightarrow> CollaborationTaskState \<Rightarrow> str \<Rightarrow> CollaborationAdapterFailure option \<Rightarrow> int option \<Rightarrow> int \<Rightarrow> nat
     \<Rightarrow> CollaborationTaskResult" where
  "task_result task state output failure started completed duration =
     \<lparr>tr_task_id = pt_task_id task, tr_workspace_id = pt_workspace_id task, tr_provider = pt_provider task,
      tr_phase = pt_phase task, tr_state = state, tr_output = output, tr_failure = failure,
      tr_started_at_unix_ms = started, tr_completed_at_unix_ms = completed, tr_duration_ms = duration\<rparr>"

definition stopped_result ::
    "PreparedTask \<Rightarrow> CollaborationStopReason \<Rightarrow> int option \<Rightarrow> nat \<Rightarrow> Clock \<Rightarrow> CollaborationTaskResult" where
  "stopped_result task reason started_at started clk =
     task_result task (case reason of StopCancelled \<Rightarrow> TaskCancelled | StopTimedOut \<Rightarrow> TaskTimedOut) [] None
       started_at (now_unix_ms clk) (elapsed_ms clk started)"

text \<open>The end of \<open>execute_task\<close>, after the permit was dropped.\<close>

definition finish_result ::
    "CollaborationLimits \<Rightarrow> CollaborationControl \<Rightarrow> Clock \<Rightarrow> PreparedTask \<Rightarrow> nat \<Rightarrow> nat \<Rightarrow> int
     \<Rightarrow> CollaborationAdapterOutcome option \<Rightarrow> CollaborationTaskResult" where
  "finish_result L ctl clk task deadline started started_at outcome =
     (let res = (\<lambda>state output failure.
            task_result task state output failure (Some started_at) (now_unix_ms clk) (elapsed_ms clk started)) in
      if is_cancelled ctl (pt_task_id task) then res TaskCancelled [] None
      else if instant clk \<ge> deadline then res TaskTimedOut [] None
      else (case outcome of
        None \<Rightarrow> res TaskAdapterPanicked [] None
      | Some (OutcomeStopped reason) \<Rightarrow> stopped_result task reason (Some started_at) started clk
      | Some (OutcomeSucceeded output) \<Rightarrow>
          (if str_len output > maximum_output_bytes L then res TaskOutputTooLarge [] None
           else res TaskSucceeded output None)
      | Some (OutcomeFailed failure output) \<Rightarrow>
          (if str_len output > maximum_output_bytes L then res TaskOutputTooLarge [] (Some failure)
           else res (if failure = ProviderFailed then TaskProviderFailed else TaskAdapterFailed) output (Some failure))))"

subsection \<open>The execution gate\<close>

record ExecutionGate =
  gate_maximum :: nat
  gate_active :: nat
  gate_roots :: "PathBuf set"

definition gate_new :: "nat \<Rightarrow> ExecutionGate" where
  "gate_new m = \<lparr>gate_maximum = m, gate_active = 0, gate_roots = {}\<rparr>"

definition gate_admits :: "ExecutionGate \<Rightarrow> PathBuf \<Rightarrow> bool" where
  "gate_admits g root \<longleftrightarrow>
     gate_active g < gate_maximum g \<and> \<not> (\<exists>active \<in> gate_roots g. paths_overlap active root)"

definition gate_enter :: "PathBuf \<Rightarrow> ExecutionGate \<Rightarrow> ExecutionGate" where
  "gate_enter root g = g\<lparr>gate_active := gate_active g + 1, gate_roots := insert root (gate_roots g)\<rparr>"

text \<open>\<open>Drop for ExecutionPermit\<close>.\<close>

definition gate_leave :: "PathBuf \<Rightarrow> ExecutionGate \<Rightarrow> ExecutionGate" where
  "gate_leave root g = g\<lparr>gate_active := gate_active g - 1, gate_roots := gate_roots g - {root}\<rparr>"

subsection \<open>The workers\<close>

text \<open>Where a worker is, with the local variables that are live there.\<close>

datatype Worker =
    Fetching
  | Acquiring PreparedTask nat nat                         \<comment> \<open>task, queued, deadline\<close>
  | Admitted PreparedTask nat                              \<comment> \<open>holds the permit\<close>
  | Running PreparedTask nat nat int                       \<comment> \<open>deadline, started, started (Unix)\<close>
  | Returned PreparedTask nat nat int "CollaborationAdapterOutcome option"
  | Released PreparedTask nat nat int "CollaborationAdapterOutcome option"
  | Publishing CollaborationTaskResult
  | Exited

record Pool =
  clock :: Clock
  control :: CollaborationControl
  gate :: ExecutionGate
  other_permits :: "PathBuf list"
  workers :: "Worker list"
  next_task :: nat
  results :: "CollaborationTaskResult list"

datatype Action =
    Fetch
  | Acquire nat                                            \<comment> \<open>time between the two readings of the clock\<close>
  | Begin
  | Return "CollaborationAdapterOutcome option"
  | Release
  | Finish
  | Publish

text \<open>\<open>queued.checked_add(timeout).unwrap_or_else(Instant::now)\<close>.\<close>

definition deadline_of :: "nat \<Rightarrow> nat \<Rightarrow> nat" where
  "deadline_of queued timeout = (if queued + timeout \<le> INSTANT_MAX then queued + timeout else queued)"

fun work :: "CollaborationLimits \<Rightarrow> PreparedTask list \<Rightarrow> Action \<Rightarrow> Worker \<Rightarrow> Pool \<Rightarrow> (Worker \<times> Pool) option" where
  "work L runnable Fetch Fetching p =
     (if next_task p < length runnable
      then let task = runnable ! next_task p; queued = instant (clock p) in
        Some (Acquiring task queued (deadline_of queued (pt_timeout task)),
              p\<lparr>next_task := next_task p + 1, control := snd (task_token (pt_task_id task) (control p))\<rparr>)
      else Some (Exited, p\<lparr>next_task := next_task p + 1\<rparr>))"
| "work L runnable (Acquire d) (Acquiring task queued deadline) p =
     (case checkpoint (control p) (pt_task_id task) (clock p) deadline of
        Inl reason \<Rightarrow> Some (Publishing (stopped_result task reason None queued (clock p)), p)
      | Inr _ \<Rightarrow>
          (if gate_admits (gate p) (pt_scope_root task)
           then Some (Admitted task deadline, p\<lparr>gate := gate_enter (pt_scope_root task) (gate p)\<rparr>)
           else
             let p = p\<lparr>clock := (clock p)\<lparr>instant := instant (clock p) + d\<rparr>\<rparr> in
             if deadline - instant (clock p) = 0
             then Some (Publishing (stopped_result task StopTimedOut None queued (clock p)), p)
             else Some (Acquiring task queued deadline, p)))"
| "work L runnable Begin (Admitted task deadline) p =
     (let started_at = now_unix_ms (clock p); started = instant (clock p) in
      case checkpoint (control p) (pt_task_id task) (clock p) deadline of
        Inl reason \<Rightarrow>
          Some (Publishing (stopped_result task reason (Some started_at) started (clock p)),
                p\<lparr>gate := gate_leave (pt_scope_root task) (gate p)\<rparr>)
      | Inr _ \<Rightarrow> Some (Running task deadline started started_at, p))"
| "work L runnable (Return outcome) (Running task deadline started started_at) p =
     Some (Returned task deadline started started_at outcome, p)"
| "work L runnable Release (Returned task deadline started started_at outcome) p =
     Some (Released task deadline started started_at outcome,
           p\<lparr>gate := gate_leave (pt_scope_root task) (gate p)\<rparr>)"
| "work L runnable Finish (Released task deadline started started_at outcome) p =
     Some (Publishing (finish_result L (control p) (clock p) task deadline started started_at outcome), p)"
| "work L runnable Publish (Publishing r) p = Some (Fetching, p\<lparr>results := results p @ [r]\<rparr>)"
| "work L runnable _ _ p = None"

datatype Event =
    Work nat Action
  | Tick nat nat                                           \<comment> \<open>nanoseconds passed, new system time\<close>
  | CancelAll
  | CancelTask CollaborationTaskId
  | OtherEnter PathBuf
  | OtherLeave PathBuf

fun pool_step :: "CollaborationLimits \<Rightarrow> PreparedTask list \<Rightarrow> Event \<Rightarrow> Pool \<Rightarrow> Pool option" where
  "pool_step L runnable (Work w a) p =
     (if w < length (workers p)
      then map_option (\<lambda>(k, p'). p'\<lparr>workers := (workers p)[w := k]\<rparr>) (work L runnable a (workers p ! w) p)
      else None)"
| "pool_step L runnable (Tick d u) p = Some (p\<lparr>clock := \<lparr>instant = instant (clock p) + d, unix_ms = u\<rparr>\<rparr>)"
| "pool_step L runnable CancelAll p = Some (p\<lparr>control := cancel_all (control p)\<rparr>)"
| "pool_step L runnable (CancelTask i) p = Some (p\<lparr>control := snd (cancel_task i (control p))\<rparr>)"
| "pool_step L runnable (OtherEnter root) p =
     (if gate_admits (gate p) root
      then Some (p\<lparr>gate := gate_enter root (gate p), other_permits := root # other_permits p\<rparr>) else None)"
| "pool_step L runnable (OtherLeave root) p =
     (if root \<in> set (other_permits p)
      then Some (p\<lparr>gate := gate_leave root (gate p), other_permits := remove1 root (other_permits p)\<rparr>) else None)"

fun run_events :: "CollaborationLimits \<Rightarrow> PreparedTask list \<Rightarrow> Event list \<Rightarrow> Pool \<Rightarrow> Pool option" where
  "run_events L runnable [] p = Some p"
| "run_events L runnable (e # es) p =
     (case pool_step L runnable e p of None \<Rightarrow> None | Some p' \<Rightarrow> run_events L runnable es p')"

text \<open>Entering \<open>thread::scope\<close>: the workers are spawned and the counter is new.\<close>

definition spawn :: "CollaborationLimits \<Rightarrow> PreparedTask list \<Rightarrow> Pool \<Rightarrow> Pool" where
  "spawn L runnable p =
     p\<lparr>workers := replicate (min (length runnable) (maximum_parallel_agents L)) Fetching, next_task := 0\<rparr>"

text \<open>Leaving it: every thread is joined. A schedule that stops earlier is no run of the scope.\<close>

definition run_scope :: "CollaborationLimits \<Rightarrow> PreparedTask list \<Rightarrow> Event list \<Rightarrow> Pool \<Rightarrow> Pool option" where
  "run_scope L runnable es p =
     (case run_events L runnable es (spawn L runnable p) of
        None \<Rightarrow> None
      | Some p' \<Rightarrow> if \<forall>k \<in> set (workers p'). k = Exited then Some p' else None)"

subsection \<open>Updating one worker\<close>

lemma mset_concat_update:
  "i < length ks \<Longrightarrow> mset (concat (map f (ks[i := k]))) + mset (f (ks ! i)) = mset (concat (map f ks)) + mset (f k)"
proof (induction ks arbitrary: i)
  case (Cons a ks)
  then show ?case by (cases i) (auto simp: algebra_simps)
qed simp

lemma map_concat_replicate [simp]: "f x = [] \<Longrightarrow> concat (map f (replicate n x)) = []"
  by (induction n) simp_all

text \<open>Every step is one of these.\<close>

lemma pool_step_Some_cases:
  assumes "pool_step L runnable e p = Some p'"
  obtains (Work) w a k q where "e = Work w a" "w < length (workers p)" "work L runnable a (workers p ! w) p = Some (k, q)"
      "p' = q\<lparr>workers := (workers p)[w := k]\<rparr>"
    | (Tick) d u where "p' = p\<lparr>clock := \<lparr>instant = instant (clock p) + d, unix_ms = u\<rparr>\<rparr>"
    | (Cancel) c where "p' = p\<lparr>control := c\<rparr>"
    | (Enter) root where "gate_admits (gate p) root"
        "p' = p\<lparr>gate := gate_enter root (gate p), other_permits := root # other_permits p\<rparr>"
    | (Leave) root where "root \<in> set (other_permits p)"
        "p' = p\<lparr>gate := gate_leave root (gate p), other_permits := remove1 root (other_permits p)\<rparr>"
  using assms by (cases e) (auto split: if_splits)

text \<open>What a worker's own step does to the shared state, by action.\<close>

fun_cases workE: "work L runnable a k p = Some x"

subsection \<open>Permits\<close>

text \<open>The permit a worker holds, and all permits of the gate.\<close>

fun permit :: "Worker \<Rightarrow> PathBuf list" where
  "permit (Admitted t d) = [pt_scope_root t]"
| "permit (Running t d s u) = [pt_scope_root t]"
| "permit (Returned t d s u r) = [pt_scope_root t]"
| "permit _ = []"

definition permits :: "Pool \<Rightarrow> PathBuf list" where
  "permits p = concat (map permit (workers p)) @ other_permits p"

text \<open>The gate counts and names exactly the permits in force, within its bound, no two overlapping.\<close>

definition gate_ok :: "Pool \<Rightarrow> bool" where
  "gate_ok p \<longleftrightarrow>
     gate_active (gate p) = length (permits p) \<and> gate_roots (gate p) = set (permits p)
     \<and> length (permits p) \<le> gate_maximum (gate p)
     \<and> sorted_wrt (\<lambda>x y. \<not> paths_overlap x y) (permits p)"

lemma disjoint_mset:
  "sorted_wrt (\<lambda>x y. \<not> paths_overlap x y) xs \<longleftrightarrow> distinct xs \<and> (\<forall>x \<in> set xs. \<forall>y \<in> set xs. x \<noteq> y \<longrightarrow> \<not> paths_overlap x y)"
proof (induction xs)
  case (Cons a xs)
  have "(\<forall>x \<in> insert a (set xs). \<forall>y \<in> insert a (set xs). x \<noteq> y \<longrightarrow> \<not> paths_overlap x y) \<longleftrightarrow>
      (\<forall>y \<in> set xs. a \<noteq> y \<longrightarrow> \<not> paths_overlap a y) \<and> (\<forall>x \<in> set xs. \<forall>y \<in> set xs. x \<noteq> y \<longrightarrow> \<not> paths_overlap x y)"
    by (auto simp: paths_overlap_sym [of _ a])
  moreover have "(\<forall>y \<in> set xs. \<not> paths_overlap a y) \<longleftrightarrow> a \<notin> set xs \<and> (\<forall>y \<in> set xs. a \<noteq> y \<longrightarrow> \<not> paths_overlap a y)"
    using paths_overlap_refl by metis
  ultimately show ?case using Cons by simp blast
qed simp

lemma gate_ok_alt:
  "gate_ok p \<longleftrightarrow> gate_active (gate p) = size (mset (permits p)) \<and> gate_roots (gate p) = set_mset (mset (permits p))
     \<and> size (mset (permits p)) \<le> gate_maximum (gate p)
     \<and> distinct (permits p) \<and> (\<forall>x \<in># mset (permits p). \<forall>y \<in># mset (permits p). x \<noteq> y \<longrightarrow> \<not> paths_overlap x y)"
  by (auto simp: gate_ok_def disjoint_mset)

text \<open>Only the gate and the permits matter, up to their order; entering and leaving keep the invariant.\<close>

lemma gate_ok_same:
  assumes "gate_ok p" and "mset (permits p') = mset (permits p)" and "gate p' = gate p"
  shows "gate_ok p'"
  using assms mset_eq_imp_distinct_iff [OF assms(2)] unfolding gate_ok_alt by simp

lemma gate_ok_enter:
  assumes ok: "gate_ok p" and admits: "gate_admits (gate p) root"
    and new: "mset (permits p') = add_mset root (mset (permits p))" and gate: "gate p' = gate_enter root (gate p)"
  shows "gate_ok p'"
proof -
  have free: "\<forall>x \<in> set (permits p). \<not> paths_overlap x root" and room: "length (permits p) < gate_maximum (gate p)"
    using ok admits by (auto simp: gate_ok_def gate_admits_def)
  have perm: "mset (permits p') = mset (root # permits p)" using new by simp
  have "sorted_wrt (\<lambda>x y. \<not> paths_overlap x y) (root # permits p)"
    using free ok paths_overlap_sym by (auto simp: gate_ok_def)
  then have "distinct (permits p')" "\<forall>x \<in> set (permits p'). \<forall>y \<in> set (permits p'). x \<noteq> y \<longrightarrow> \<not> paths_overlap x y"
    unfolding disjoint_mset using mset_eq_imp_distinct_iff [OF perm] mset_eq_setD [OF perm] by metis+
  then show ?thesis
    using ok room mset_eq_length [OF perm] mset_eq_setD [OF perm] gate
    by (simp add: gate_ok_def disjoint_mset gate_enter_def)
qed

lemma gate_ok_leave:
  assumes ok: "gate_ok p" and gone: "mset (permits p) = add_mset root (mset (permits p'))"
    and gate: "gate p' = gate_leave root (gate p)"
  shows "gate_ok p'"
proof -
  have perm: "mset (permits p) = mset (root # permits p')" using gone by simp
  have "sorted_wrt (\<lambda>x y. \<not> paths_overlap x y) (root # permits p')"
    using ok mset_eq_imp_distinct_iff [OF perm] mset_eq_setD [OF perm] unfolding gate_ok_def disjoint_mset by metis
  moreover have "root \<notin> set (permits p')" using calculation paths_overlap_refl by auto
  ultimately show ?thesis
    using ok mset_eq_length [OF perm] mset_eq_setD [OF perm] gate by (auto simp: gate_ok_def gate_leave_def)
qed

lemma permits_work:
  assumes "w < length (workers p)" and "other_permits q = other_permits p"
  shows "mset (permits (q\<lparr>workers := (workers p)[w := k]\<rparr>)) + mset (permit (workers p ! w)) = mset (permits p) + mset (permit k)"
  using mset_concat_update [OF assms(1), of permit k] assms(2) by (simp add: permits_def algebra_simps)

lemma work_gate:
  assumes "work L runnable a k p = Some (k', q)"
  shows "other_permits q = other_permits p \<and>
    (permit k' = permit k \<and> gate q = gate p
     \<or> (\<exists>root. permit k = [] \<and> permit k' = [root] \<and> gate_admits (gate p) root \<and> gate q = gate_enter root (gate p))
     \<or> (\<exists>root. permit k = [root] \<and> permit k' = [] \<and> gate q = gate_leave root (gate p)))"
  using assms
  by (elim workE) (auto simp: Let_def split: if_splits sum.splits)

lemma pool_step_gate_ok:
  assumes ok: "gate_ok p" and step: "pool_step L runnable e p = Some p'"
  shows "gate_ok p'"
  using step
proof (cases rule: pool_step_Some_cases)
  case (Work w a k q)
  note perm = permits_work [OF Work(2) conjunct1 [OF work_gate [OF Work(3)]], of k]
  have g: "gate p' = gate q" using Work(4) by simp
  note perm' = perm [folded Work(4)]
  from work_gate [OF Work(3), THEN conjunct2] show ?thesis
  proof (elim disjE exE conjE)
    assume "permit k = permit (workers p ! w)" "gate q = gate p"
    then show ?thesis using perm' by (intro gate_ok_same [OF ok]) (simp_all add: g)
  next
    fix root assume "permit (workers p ! w) = []" "permit k = [root]" "gate_admits (gate p) root"
      "gate q = gate_enter root (gate p)"
    then show ?thesis using perm' by (intro gate_ok_enter [OF ok]) (simp_all add: g)
  next
    fix root assume "permit (workers p ! w) = [root]" "permit k = []" "gate q = gate_leave root (gate p)"
    then show ?thesis using perm' by (intro gate_ok_leave [OF ok]) (simp_all add: g)
  qed
next
  case (Tick d u)
  with ok show ?thesis by (intro gate_ok_same [OF ok]) (simp_all add: permits_def)
next
  case (Cancel c)
  with ok show ?thesis by (intro gate_ok_same [OF ok]) (simp_all add: permits_def)
next
  case (Enter root)
  then show ?thesis by (intro gate_ok_enter [OF ok Enter(1)]) (simp_all add: permits_def)
next
  case (Leave root)
  then show ?thesis by (intro gate_ok_leave [OF ok, of root]) (simp_all add: permits_def insert_DiffM)
qed

text \<open>So it holds after every schedule.\<close>

lemma run_events_eq: "run_events L runnable es p = run_steps (pool_step L runnable) es p"
  by (induction es arbitrary: p) (auto split: option.splits)

interpretation gate_invariant: step_invariant "pool_step L runnable" gate_ok for L runnable
  by unfold_locales (rule pool_step_gate_ok)

text \<open>Between two scopes every thread has been joined.\<close>

definition joined :: "Pool \<Rightarrow> bool" where
  "joined p \<longleftrightarrow> (\<forall>k \<in> set (workers p). k = Exited)"

lemma permits_joined: "joined p \<Longrightarrow> permits p = other_permits p"
  unfolding permits_def joined_def by (induction "workers p") auto

lemma permits_spawn [simp]: "permits (spawn L runnable p) = other_permits p"
  by (simp add: permits_def spawn_def)

text \<open>
  C21: whatever the interleaving of workers, cancellations, passing time and other executions on
  the same gate, at most the configured number of tasks run at once and no two running tasks have
  overlapping scopes, so one directory never has two writers; the gate counts and names exactly
  the permits in force.
\<close>

theorem gate_exclusive:
  assumes "gate_ok p" and "joined p" and "run_events L runnable es (spawn L runnable p) = Some p'"
  shows "length (permits p') \<le> gate_maximum (gate p') \<and> sorted_wrt (\<lambda>x y. \<not> paths_overlap x y) (permits p')
    \<and> gate_active (gate p') = length (permits p') \<and> gate_roots (gate p') = set (permits p')"
proof -
  have "gate_ok (spawn L runnable p)"
    by (rule gate_ok_same [OF assms(1)]) (simp_all add: permits_joined [OF assms(2)], simp add: spawn_def)
  from gate_invariant.run [OF this assms(3) [unfolded run_events_eq]] show ?thesis by (simp add: gate_ok_def)
qed

subsection \<open>Every task gets one result\<close>

text \<open>What a result says of its task, and the task a worker is busy with.\<close>

type_synonym TaskKey = "CollaborationTaskId \<times> uuid \<times> AgentProvider \<times> nat"

definition task_key :: "PreparedTask \<Rightarrow> TaskKey" where
  "task_key t = (pt_task_id t, pt_workspace_id t, pt_provider t, pt_phase t)"

definition result_key :: "CollaborationTaskResult \<Rightarrow> TaskKey" where
  "result_key r = (tr_task_id r, tr_workspace_id r, tr_provider r, tr_phase r)"

fun busy_with :: "Worker \<Rightarrow> TaskKey list" where
  "busy_with (Acquiring t q d) = [task_key t]"
| "busy_with (Admitted t d) = [task_key t]"
| "busy_with (Running t d s u) = [task_key t]"
| "busy_with (Returned t d s u r) = [task_key t]"
| "busy_with (Released t d s u r) = [task_key t]"
| "busy_with (Publishing r) = [result_key r]"
| "busy_with _ = []"

lemma result_key_simps [simp]:
  "result_key (task_result t s out f a b c) = task_key t"
  "result_key (stopped_result t reason at began clk) = task_key t"
  "result_key (finish_result L ctl clk t deadline st sat r) = task_key t"
  by (simp_all add: result_key_def task_key_def task_result_def stopped_result_def finish_result_def Let_def
      split: option.split CollaborationAdapterOutcome.split)

text \<open>A result is complete when it names a state the pool can produce and its output is within the limit.\<close>

definition result_ok :: "CollaborationLimits \<Rightarrow> CollaborationTaskResult \<Rightarrow> bool" where
  "result_ok L r \<longleftrightarrow> tr_state r \<noteq> TaskDependencyBlocked \<and> str_len (tr_output r) \<le> maximum_output_bytes L"

lemma result_ok_simps [simp]:
  "result_ok L (stopped_result t reason a b clk)"
  "result_ok L (finish_result L ctl clk t d s u r)"
  by (auto simp: result_ok_def task_result_def stopped_result_def finish_result_def Let_def
      split: option.split CollaborationAdapterOutcome.split CollaborationStopReason.split)

fun worker_ok :: "CollaborationLimits \<Rightarrow> nat \<Rightarrow> nat \<Rightarrow> Worker \<Rightarrow> bool" where
  "worker_ok L m next (Publishing r) \<longleftrightarrow> result_ok L r"
| "worker_ok L m next Exited \<longleftrightarrow> m < next"
| "worker_ok L m next _ \<longleftrightarrow> True"

text \<open>Tasks taken so far are either with a worker or published.\<close>

definition accounted :: "CollaborationLimits \<Rightarrow> PreparedTask list \<Rightarrow> CollaborationTaskResult list \<Rightarrow> Pool \<Rightarrow> bool" where
  "accounted L runnable old p \<longleftrightarrow>
     (\<exists>new. results p = old @ new \<and> (\<forall>r \<in> set new. result_ok L r)
        \<and> mset (map result_key new) + mset (concat (map busy_with (workers p)))
            = mset (map task_key (take (next_task p) runnable)))
     \<and> (\<forall>k \<in> set (workers p). worker_ok L (length runnable) (next_task p) k)"

lemma work_accounted:
  assumes "work L runnable a k p = Some (k', q)" and "worker_ok L (length runnable) (next_task p) k"
  shows "next_task p \<le> next_task q \<and> worker_ok L (length runnable) (next_task q) k' \<and>
    (\<exists>new. results q = results p @ new \<and> (\<forall>r \<in> set new. result_ok L r)
      \<and> mset (map result_key new) + mset (busy_with k') + mset (map task_key (take (next_task p) runnable))
        = mset (busy_with k) + mset (map task_key (take (next_task q) runnable)))"
  using assms
  by (elim workE) (auto simp: Let_def take_Suc_conv_app_nth split: if_splits sum.splits)

lemma worker_ok_mono: "worker_ok L m n k \<Longrightarrow> n \<le> n' \<Longrightarrow> worker_ok L m n' k"
  by (cases k) auto

lemma pool_step_accounted:
  assumes ok: "accounted L runnable old p" and step: "pool_step L runnable e p = Some p'"
  shows "accounted L runnable old p'"
  using step
proof (cases rule: pool_step_Some_cases)
  case (Work w a k q)
  let ?taken = "\<lambda>n. mset (map task_key (take n runnable))"
  obtain new where new: "results p = old @ new" "\<forall>r \<in> set new. result_ok L r"
      "mset (map result_key new) + mset (concat (map busy_with (workers p))) = ?taken (next_task p)"
    and workers: "\<forall>k \<in> set (workers p). worker_ok L (length runnable) (next_task p) k"
    using ok unfolding accounted_def by blast
  obtain more where more: "next_task p \<le> next_task q" "worker_ok L (length runnable) (next_task q) k"
      "results q = results p @ more" "\<forall>r \<in> set more. result_ok L r"
      "mset (map result_key more) + mset (busy_with k) + ?taken (next_task p)
        = mset (busy_with (workers p ! w)) + ?taken (next_task q)"
    using work_accounted [OF Work(3)] workers Work(2) by auto
  note upd = mset_concat_update [OF Work(2), of busy_with k]
  have "mset (map result_key (new @ more)) + mset (concat (map busy_with ((workers p)[w := k]))) + mset (busy_with (workers p ! w))
      = mset (map result_key new) + mset (map result_key more) + (mset (concat (map busy_with (workers p))) + mset (busy_with k))"
    using upd by (simp only: map_append mset_append add.assoc)
  also have "\<dots> = mset (map result_key more) + mset (busy_with k) + ?taken (next_task p)"
    using new(3) by (simp only: add_ac)
  also have "\<dots> = ?taken (next_task q) + mset (busy_with (workers p ! w))" using more(5) by (simp only: add_ac)
  finally have "mset (map result_key (new @ more)) + mset (concat (map busy_with ((workers p)[w := k]))) = ?taken (next_task q)"
    by (simp only: add_right_cancel)
  moreover have "\<forall>j \<in> set ((workers p)[w := k]). worker_ok L (length runnable) (next_task q) j"
    using workers more(1,2) set_update_subset_insert [of "workers p" w k] worker_ok_mono by blast
  ultimately show ?thesis
    using new(1,2) more(3,4) unfolding accounted_def Work(4)
    by (intro conjI exI [of _ "new @ more"]) auto
qed (use ok in \<open>simp_all add: accounted_def\<close>)

interpretation results_invariant: step_invariant "pool_step L runnable" "accounted L runnable old" for L runnable old
  by unfold_locales (rule pool_step_accounted)

interpretation workers_invariant: step_invariant "pool_step L runnable" "\<lambda>p. length (workers p) = n" for L runnable n
  by unfold_locales (auto elim!: pool_step_Some_cases)

lemma accounted_spawn: "accounted L runnable (results p) (spawn L runnable p)"
  by (simp add: accounted_def spawn_def)

lemma scope_completes:
  assumes "0 < maximum_parallel_agents L" and "run_scope L runnable es p = Some p'"
  shows "\<exists>new. results p' = results p @ new \<and> mset (map result_key new) = mset (map task_key runnable)
    \<and> (\<forall>r \<in> set new. str_len (tr_output r) \<le> maximum_output_bytes L \<and> tr_state r \<noteq> TaskDependencyBlocked)"
proof -
  have run: "run_events L runnable es (spawn L runnable p) = Some p'" and joined: "\<forall>k \<in> set (workers p'). k = Exited"
    using assms(2) by (auto simp: run_scope_def split: option.splits if_splits)
  have len: "length (workers p') = length (workers (spawn L runnable p))"
    by (rule workers_invariant.run [OF refl run [unfolded run_events_eq]])
  have "accounted L runnable (results p) p'"
    by (rule results_invariant.run [OF accounted_spawn run [unfolded run_events_eq]])
  then obtain new where new: "results p' = results p @ new" "\<forall>r \<in> set new. result_ok L r"
      "mset (map result_key new) + mset (concat (map busy_with (workers p'))) = mset (map task_key (take (next_task p') runnable))"
    and workers: "\<forall>k \<in> set (workers p'). worker_ok L (length runnable) (next_task p') k"
    unfolding accounted_def by blast
  have none: "concat (map busy_with (workers p')) = []" using joined by auto
  have all: "take (next_task p') runnable = runnable"
  proof (cases "runnable = []")
    case False
    then have "0 < length (workers p')" using len assms(1) by (simp add: spawn_def)
    then have "workers p' \<noteq> []" by simp
    then have "Exited \<in> set (workers p')" using joined by (metis last_in_set)
    with workers show ?thesis by fastforce
  qed simp
  show ?thesis using new(1,2) new(3) [unfolded none all] by (intro exI [of _ new]) (simp add: result_ok_def)
qed

text \<open>
  C22: when the scope is left every task of the wave has exactly one result, which names the task's
  own workspace, provider and phase, keeps its output within the limit and is never
  \<open>DependencyBlocked\<close>; results recorded before stay in front.
\<close>

theorem scope_completes_every_task:
  assumes "0 < maximum_parallel_agents L" and "run_scope L runnable es p = Some p'"
  shows "\<exists>new. results p' = results p @ new \<and> mset (map result_key new) = mset (map task_key runnable)
    \<and> (\<forall>r \<in> set new. str_len (tr_output r) \<le> maximum_output_bytes L \<and> tr_state r \<noteq> TaskDependencyBlocked)"
  using scope_completes [OF assms] .

subsection \<open>A scope can always be left\<close>

text \<open>How many steps a worker is from the end of its task, and the measure of the whole pool.\<close>

fun stage :: "Worker \<Rightarrow> nat" where
  "stage Exited = 0"
| "stage Fetching = 1"
| "stage (Publishing r) = 2"
| "stage (Released t d s u r) = 3"
| "stage (Returned t d s u r) = 4"
| "stage (Running t d s u) = 5"
| "stage (Admitted t d) = 6"
| "stage (Acquiring t q d) = 7"

definition work_left :: "PreparedTask list \<Rightarrow> Pool \<Rightarrow> nat" where
  "work_left runnable p = sum_list (map stage (workers p)) + 7 * (length runnable - next_task p)"

lemma run_events_append:
  "run_events L runnable (es @ fs) p =
     (case run_events L runnable es p of None \<Rightarrow> None | Some q \<Rightarrow> run_events L runnable fs q)"
  by (simp add: run_events_eq run_steps_append split: option.split)

lemma sum_list_update_stage:
  "w < length ks \<Longrightarrow> sum_list (map stage (ks[w := k])) + stage (ks ! w) = sum_list (map stage ks) + stage k"
proof (induction ks arbitrary: w)
  case (Cons a ks)
  then show ?case by (cases w) auto
qed simp

text \<open>The next action of a worker; one that waits for the gate gives up once its deadline has passed.\<close>

fun next_action :: "Worker \<Rightarrow> Action" where
  "next_action Fetching = Fetch"
| "next_action (Acquiring t q d) = Acquire 0"
| "next_action (Admitted t d) = Begin"
| "next_action (Running t d s u) = Return None"
| "next_action (Returned t d s u r) = Release"
| "next_action (Released t d s u r) = Finish"
| "next_action (Publishing r) = Publish"
| "next_action Exited = Fetch"

fun worker_deadline :: "Worker \<Rightarrow> nat" where
  "worker_deadline (Acquiring t q d) = d"
| "worker_deadline _ = 0"

lemma work_progress:
  assumes "k \<noteq> Exited" and "worker_deadline k \<le> instant (clock p)"
  shows "\<exists>k' q. work L runnable (next_action k) k p = Some (k', q)
     \<and> stage k' + 7 * (length runnable - next_task q) < stage k + 7 * (length runnable - next_task p)"
  using assms
  by (cases k) (auto simp: Let_def checkpoint_def split: sum.splits)

lemma pool_progress:
  assumes "\<not> joined p"
  shows "\<exists>es p'. run_events L runnable es p = Some p' \<and> work_left runnable p' < work_left runnable p
     \<and> (\<forall>e \<in> set es. (\<exists>w a. e = Work w a) \<or> (\<exists>d u. e = Tick d u))"
proof -
  obtain w where w: "w < length (workers p)" "workers p ! w \<noteq> Exited"
    using assms by (auto simp: joined_def in_set_conv_nth)
  let ?k = "workers p ! w"
  let ?p = "p\<lparr>clock := \<lparr>instant = instant (clock p) + worker_deadline ?k, unix_ms = unix_ms (clock p)\<rparr>\<rparr>"
  obtain k' q where q: "work L runnable (next_action ?k) ?k ?p = Some (k', q)"
      "stage k' + 7 * (length runnable - next_task q) < stage ?k + 7 * (length runnable - next_task p)"
    using work_progress [OF w(2), of ?p L runnable] by auto
  let ?p' = "q\<lparr>workers := (workers p)[w := k']\<rparr>"
  have "run_events L runnable [Tick (worker_deadline ?k) (unix_ms (clock p)), Work w (next_action ?k)] p = Some ?p'"
    using w q(1) by simp
  moreover have "work_left runnable ?p' < work_left runnable p"
    using q(2) sum_list_update_stage [OF w(1), of k'] by (simp add: work_left_def)
  ultimately show ?thesis by (intro exI [of _ "[_, _]"] exI [of _ ?p'] conjI) (assumption, assumption, simp)
qed

lemma pool_can_finish:
  "\<exists>es p'. run_events L runnable es p = Some p' \<and> joined p'
     \<and> (\<forall>e \<in> set es. (\<exists>w a. e = Work w a) \<or> (\<exists>d u. e = Tick d u))"
proof (induction "work_left runnable p" arbitrary: p rule: less_induct)
  case less
  show ?case
  proof (cases "joined p")
    case True
    then show ?thesis by (intro exI [of _ "[]"]) simp
  next
    case False
    then obtain es p1 where one: "run_events L runnable es p = Some p1" "work_left runnable p1 < work_left runnable p"
        "\<forall>e \<in> set es. (\<exists>w a. e = Work w a) \<or> (\<exists>d u. e = Tick d u)"
      using pool_progress by blast
    from less [OF one(2)] obtain fs p2 where two: "run_events L runnable fs p1 = Some p2" "joined p2"
        "\<forall>e \<in> set fs. (\<exists>w a. e = Work w a) \<or> (\<exists>d u. e = Tick d u)" by blast
    have "run_events L runnable (es @ fs) p = Some p2" using one(1) two(1) by (simp add: run_events_append)
    then show ?thesis using one(3) two(2,3) by (intro exI [of _ "es @ fs"] exI [of _ p2]) auto
  qed
qed

text \<open>
  C23: from every state of the pool, once the running adapters return, the workers alone can
  finish, with no cancellation and no cooperation of other executions: there is no deadlock,
  because a task that waits for the gate stops at its deadline.
\<close>

theorem scope_can_finish:
  "\<exists>es p'. run_events L runnable es p = Some p' \<and> joined p'
     \<and> (\<forall>e \<in> set es. (\<exists>w a. e = Work w a) \<or> (\<exists>d u. e = Tick d u))"
  by (rule pool_can_finish)

subsection \<open>Examples\<close>

definition sample_pool :: Pool where
  "sample_pool =
     \<lparr>clock = \<lparr>instant = 5, unix_ms = 9\<rparr>, control = \<lparr>all_cancelled = False, task_tokens = \<lambda>_. None\<rparr>,
      gate = gate_new 4, other_permits = [], workers = [], next_task = 0, results = []\<rparr>"

text \<open>One worker running a task to success.\<close>

definition sample_turn :: "nat \<Rightarrow> Event list" where
  "sample_turn w = map (Work w) [Fetch, Acquire 0, Begin, Return (Some (OutcomeSucceeded (lit ''ok''))), Release, Finish, Publish]"

lemma sample_pool_ok: "gate_ok sample_pool" "joined sample_pool"
  by (simp_all add: gate_ok_def permits_def sample_pool_def gate_new_def joined_def)

text \<open>Two workers hold a permit each, in different directories.\<close>

theorem gate_exclusive_witness:
  "\<exists>p'. run_events default_limits sample_prepared [Work 0 Fetch, Work 1 Fetch, Work 1 (Acquire 0), CancelAll, Work 0 (Acquire 0)]
       (spawn default_limits sample_prepared sample_pool) = Some p'
     \<and> permits p' = [[RootDir, Normal (lit ''b''), Normal (lit ''repo'')]]
     \<and> gate_active (gate p') = 1"
proof -
  have "map_option permits (run_events default_limits sample_prepared
      [Work 0 Fetch, Work 1 Fetch, Work 1 (Acquire 0), CancelAll, Work 0 (Acquire 0)]
      (spawn default_limits sample_prepared sample_pool)) = Some [[RootDir, Normal (lit ''b''), Normal (lit ''repo'')]]"
    by code_simp
  then obtain p' where p': "run_events default_limits sample_prepared
      [Work 0 Fetch, Work 1 Fetch, Work 1 (Acquire 0), CancelAll, Work 0 (Acquire 0)]
      (spawn default_limits sample_prepared sample_pool) = Some p'"
    and "permits p' = [[RootDir, Normal (lit ''b''), Normal (lit ''repo'')]]" by auto
  with gate_exclusive [OF sample_pool_ok p'] show ?thesis by auto
qed

theorem scope_completes_every_task_witness:
  "\<exists>p'. run_scope default_limits sample_prepared
        (sample_turn 0 @ sample_turn 1 @ [Work 0 Fetch, Work 1 Fetch]) sample_pool = Some p'
     \<and> mset (map tr_task_id (results p')) = {#lit ''a'', lit ''b''#}"
proof -
  have "map_option (\<lambda>_. ()) (run_scope default_limits sample_prepared
        (sample_turn 0 @ sample_turn 1 @ [Work 0 Fetch, Work 1 Fetch]) sample_pool) = Some ()" by code_simp
  then obtain p' where run: "run_scope default_limits sample_prepared
        (sample_turn 0 @ sample_turn 1 @ [Work 0 Fetch, Work 1 Fetch]) sample_pool = Some p'" by auto
  have "0 < maximum_parallel_agents default_limits" by (simp add: default_limits_def)
  from scope_completes_every_task [OF this run] obtain new
    where "results p' = results sample_pool @ new" "mset (map result_key new) = mset (map task_key sample_prepared)" by blast
  then have "image_mset fst (mset (map result_key (results p'))) = image_mset fst (mset (map task_key sample_prepared))"
    by (simp add: sample_pool_def)
  then have "mset (map tr_task_id (results p')) = mset (map pt_task_id sample_prepared)"
    by (simp add: result_key_def task_key_def multiset.map_comp comp_def)
  with run show ?thesis unfolding sample_ids by auto
qed

theorem scope_can_finish_witness:
  "\<exists>es p'. run_events default_limits sample_prepared es (spawn default_limits sample_prepared sample_pool) = Some p' \<and> joined p'"
  using scope_can_finish [of default_limits sample_prepared "spawn default_limits sample_prepared sample_pool"] by blast

end
