(* ===== verification/Collaboration_Execute.thy ===== *)
theory Collaboration_Execute
  imports Collaboration_Run "HOL-Library.Sublist"
begin

text \<open>
  \<open>wts-app/src/collaboration.rs\<close>, part three: \<open>execute_with_dependencies\<close>. Phases run in order; in
  a phase the tasks whose prerequisites have results form a wave, those with a failed prerequisite
  are recorded as blocked, and the others run in one scope of the worker pool. The schedules, one
  for each wave, are an argument; a list of schedules that is too short stands for a loop that
  has not returned, so the model answers \<open>None\<close> for it.
\<close>

subsection \<open>Retained evidence\<close>

record CollaborationTaskEvidence =
  te_collaboration_id :: uuid
  te_task_id :: CollaborationTaskId
  te_workspace_id :: uuid
  te_workspace_root :: PathBuf
  te_scope_root :: PathBuf
  te_provider :: AgentProvider
  te_phase :: nat
  te_state :: CollaborationTaskState
  te_prompt_sha256 :: str
  te_output_sha256 :: "str option"
  te_failure :: "CollaborationAdapterFailure option"
  te_started_at_unix_ms :: "int option"
  te_completed_at_unix_ms :: int
  te_duration_ms :: nat

record EvidenceRetention =
  entries :: "(nat \<times> CollaborationTaskEvidence) list"
  total_bytes :: nat

text \<open>The \<open>while\<close> loop that drops the oldest entries.\<close>

fun evict :: "nat \<Rightarrow> nat \<Rightarrow> (nat \<times> 'e) list \<Rightarrow> nat \<Rightarrow> (nat \<times> 'e) list \<times> nat" where
  "evict maximum_count maximum_bytes [] used = ([], used)"
| "evict maximum_count maximum_bytes ((bytes, e) # es) used =
     (if length ((bytes, e) # es) > maximum_count \<or> used > maximum_bytes
      then evict maximum_count maximum_bytes es (used - bytes)
      else ((bytes, e) # es, used))"

text \<open>One pass of the loop over the report; \<open>json_len\<close> is the length of the serialised evidence.\<close>

definition retain ::
    "(CollaborationTaskEvidence \<Rightarrow> nat option) \<Rightarrow> nat \<Rightarrow> nat \<Rightarrow> CollaborationTaskEvidence \<Rightarrow> EvidenceRetention
     \<Rightarrow> EvidenceRetention" where
  "retain json_len maximum_count maximum_bytes evidence retention =
     (case json_len evidence of
        None \<Rightarrow> retention
      | Some bytes \<Rightarrow>
          (if bytes > maximum_bytes then retention
           else
             let (es, used) = evict maximum_count maximum_bytes (entries retention @ [(bytes, evidence)])
                   (min u64_max (total_bytes retention + bytes)) in
             \<lparr>entries = es, total_bytes = used\<rparr>))"

record CollaborationReport =
  cr_collaboration_id :: uuid
  cr_started_at_unix_ms :: int
  cr_completed_at_unix_ms :: int
  cr_duration_ms :: nat
  cr_tasks :: "CollaborationTaskResult list"

definition evidence_of ::
    "(str \<Rightarrow> str) \<Rightarrow> PreparedTask list \<Rightarrow> uuid \<Rightarrow> CollaborationTaskResult \<Rightarrow> CollaborationTaskEvidence" where
  "evidence_of sha256 prepared cid task =
     (let origin = the (map_of (map (\<lambda>t. (pt_task_id t, t)) prepared) (tr_task_id task)) in
      \<lparr>te_collaboration_id = cid, te_task_id = tr_task_id task, te_workspace_id = tr_workspace_id task,
       te_workspace_root = pt_workspace_root origin, te_scope_root = pt_scope_root origin,
       te_provider = tr_provider task, te_phase = tr_phase task, te_state = tr_state task,
       te_prompt_sha256 = sha256 (pt_prompt origin),
       te_output_sha256 = (if tr_output task \<noteq> [] then Some (sha256 (tr_output task)) else None),
       te_failure = tr_failure task, te_started_at_unix_ms = tr_started_at_unix_ms task,
       te_completed_at_unix_ms = tr_completed_at_unix_ms task, te_duration_ms = tr_duration_ms task\<rparr>)"

definition retain_report_evidence ::
    "(str \<Rightarrow> str) \<Rightarrow> (CollaborationTaskEvidence \<Rightarrow> nat option) \<Rightarrow> CollaborationLimits \<Rightarrow> PreparedTask list
     \<Rightarrow> CollaborationReport \<Rightarrow> EvidenceRetention \<Rightarrow> EvidenceRetention" where
  "retain_report_evidence sha256 json_len L prepared report retention =
     fold (\<lambda>task. retain json_len (maximum_retained_evidence L) (maximum_retained_evidence_bytes L)
        (evidence_of sha256 prepared (cr_collaboration_id report) task)) (cr_tasks report) retention"

subsection \<open>Waves\<close>

definition completed_of :: "CollaborationTaskResult list \<Rightarrow> CollaborationTaskId \<Rightarrow> CollaborationTaskState option" where
  "completed_of rs = map_of (rev (map (\<lambda>r. (tr_task_id r, tr_state r)) rs))"

text \<open>A task of the wave: every prerequisite has completed; and those that did not succeed.\<close>

definition in_wave :: "Dependencies \<Rightarrow> CollaborationTaskResult list \<Rightarrow> PreparedTask \<Rightarrow> bool" where
  "in_wave deps rs t \<longleftrightarrow> (\<forall>parent \<in> set (parents_of deps (pt_task_id t)). completed_of rs parent \<noteq> None)"

definition failed_parents :: "Dependencies \<Rightarrow> CollaborationTaskResult list \<Rightarrow> PreparedTask \<Rightarrow> CollaborationTaskId list" where
  "failed_parents deps rs t =
     filter (\<lambda>parent. completed_of rs parent \<noteq> Some TaskSucceeded) (parents_of deps (pt_task_id t))"

definition blocked_output :: "CollaborationLimits \<Rightarrow> CollaborationTaskId list \<Rightarrow> str" where
  "blocked_output L failed =
     (let output = lit ''This task did not start. These prerequisites did not succeed: ''
        @ join_with (lit '', '') failed @ lit ''.'' in
      if str_len output > maximum_output_bytes L then [] else output)"

definition blocked_result ::
    "CollaborationLimits \<Rightarrow> Dependencies \<Rightarrow> CollaborationTaskResult list \<Rightarrow> Clock \<Rightarrow> PreparedTask \<Rightarrow> CollaborationTaskResult" where
  "blocked_result L deps rs clk t =
     task_result t TaskDependencyBlocked (blocked_output L (failed_parents deps rs t)) None None (now_unix_ms clk) 0"

definition run_wave ::
    "CollaborationLimits \<Rightarrow> Dependencies \<Rightarrow> Event list \<Rightarrow> PreparedTask list \<Rightarrow> Pool \<Rightarrow> (PreparedTask list \<times> Pool) option" where
  "run_wave L deps es pending p =
     (let rs = results p;
          wave = filter (in_wave deps rs) pending;
          waiting = filter (\<lambda>t. \<not> in_wave deps rs t) pending;
          runnable = filter (\<lambda>t. failed_parents deps rs t = []) wave;
          blocked = map (blocked_result L deps rs (clock p)) (filter (\<lambda>t. failed_parents deps rs t \<noteq> []) wave) in
      map_option (\<lambda>p. (waiting, p)) (run_scope L runnable es (p\<lparr>results := rs @ blocked\<rparr>)))"

fun run_phase ::
    "CollaborationLimits \<Rightarrow> Dependencies \<Rightarrow> Event list list \<Rightarrow> PreparedTask list \<Rightarrow> Pool \<Rightarrow> (Event list list \<times> Pool) option" where
  "run_phase L deps schedules [] p = Some (schedules, p)"
| "run_phase L deps [] (t # pending) p = None"
| "run_phase L deps (es # schedules) (t # pending) p =
     (case run_wave L deps es (t # pending) p of
        None \<Rightarrow> None
      | Some (waiting, p) \<Rightarrow> run_phase L deps schedules waiting p)"

subsection \<open>Phases\<close>

text \<open>\<open>phased\<close>: by phase, then by scope.\<close>

definition phased :: "PreparedTask list \<Rightarrow> (nat \<times> (PathBuf \<times> PreparedTask list) list) list" where
  "phased tasks = fold (\<lambda>t. entry_update (pt_phase t) [] (entry_push (pt_scope_root t) t)) tasks []"

definition pending_tasks :: "(PathBuf \<times> PreparedTask list) list \<Rightarrow> PreparedTask list" where
  "pending_tasks grouped = sort_key pt_task_id (concat (map snd grouped))"

fun run_phases ::
    "CollaborationLimits \<Rightarrow> Dependencies \<Rightarrow> Event list list \<Rightarrow> (nat \<times> (PathBuf \<times> PreparedTask list) list) list \<Rightarrow> Pool
     \<Rightarrow> Pool option" where
  "run_phases L deps schedules [] p = Some p"
| "run_phases L deps schedules ((phase, grouped) # rest) p =
     (case run_phase L deps schedules (pending_tasks grouped) p of
        None \<Rightarrow> None
      | Some (schedules, p) \<Rightarrow> run_phases L deps schedules rest p)"

definition report_of :: "uuid \<Rightarrow> Clock \<Rightarrow> Pool \<Rightarrow> CollaborationReport" where
  "report_of cid began p =
     \<lparr>cr_collaboration_id = cid, cr_started_at_unix_ms = now_unix_ms began,
      cr_completed_at_unix_ms = now_unix_ms (clock p), cr_duration_ms = elapsed_ms (clock p) (instant began),
      cr_tasks = sort_key (\<lambda>r. (tr_phase r, tr_task_id r)) (results p)\<rparr>"

text \<open>
  The answer: an error of the plan, or the report with the state it leaves, \<open>None\<close> when the
  schedules end before the run does.
\<close>

definition execute_with_dependencies ::
    "Coordinator \<Rightarrow> (str \<Rightarrow> str) \<Rightarrow> (CollaborationTaskEvidence \<Rightarrow> nat option) \<Rightarrow> CollaborationPlan \<Rightarrow> Dependencies
     \<Rightarrow> Event list list \<Rightarrow> Pool \<times> EvidenceRetention
     \<Rightarrow> CollaborationPlanError + (CollaborationReport \<times> Pool \<times> EvidenceRetention) option" where
  "execute_with_dependencies C sha256 json_len plan deps schedules w =
     (case w of (p, retention) \<Rightarrow>
      rbind (prepare C (cp_tasks plan)) (\<lambda>prepared.
      rbind (validate_dependencies prepared deps) (\<lambda>_.
      Inr (map_option (\<lambda>p'.
        let report = report_of (cp_collaboration_id plan) (clock p) p' in
        (report, p', retain_report_evidence sha256 json_len (co_limits C) prepared report retention))
        (run_phases (co_limits C) deps schedules (phased prepared) (p\<lparr>results := []\<rparr>))))))"

definition execute ::
    "Coordinator \<Rightarrow> (str \<Rightarrow> str) \<Rightarrow> (CollaborationTaskEvidence \<Rightarrow> nat option) \<Rightarrow> CollaborationPlan
     \<Rightarrow> Event list list \<Rightarrow> Pool \<times> EvidenceRetention
     \<Rightarrow> CollaborationPlanError + (CollaborationReport \<times> Pool \<times> EvidenceRetention) option" where
  "execute C sha256 json_len plan schedules w = execute_with_dependencies C sha256 json_len plan [] schedules w"

subsection \<open>The history of a run\<close>

text \<open>
  The results in the order they were recorded: those of a task's prerequisites come before its
  own, and it is blocked exactly when one of them did not succeed.
\<close>

definition result_follows :: "Dependencies \<Rightarrow> CollaborationTaskResult list \<Rightarrow> CollaborationTaskResult \<Rightarrow> bool" where
  "result_follows deps before r \<longleftrightarrow>
     set (parents_of deps (tr_task_id r)) \<subseteq> tr_task_id ` set before
     \<and> (tr_state r = TaskDependencyBlocked \<longleftrightarrow>
          (\<exists>q \<in> set before. tr_task_id q \<in> set (parents_of deps (tr_task_id r)) \<and> tr_state q \<noteq> TaskSucceeded))"

definition history_ok :: "Dependencies \<Rightarrow> CollaborationTaskResult list \<Rightarrow> bool" where
  "history_ok deps rs \<longleftrightarrow> (\<forall>before r after. rs = before @ r # after \<longrightarrow> result_follows deps before r)"

lemma history_ok_Nil [simp]: "history_ok deps []"
  by (simp add: history_ok_def)

lemma history_ok_snoc: "history_ok deps (rs @ [r]) \<longleftrightarrow> history_ok deps rs \<and> result_follows deps rs r"
proof
  assume ok: "history_ok deps (rs @ [r])"
  have "result_follows deps before q" if "rs = before @ q # after" for before q after
    using ok that unfolding history_ok_def by (metis append.assoc append_Cons)
  moreover have "result_follows deps rs r" using ok unfolding history_ok_def by blast
  ultimately show "history_ok deps rs \<and> result_follows deps rs r" by (auto simp: history_ok_def)
next
  assume ok: "history_ok deps rs \<and> result_follows deps rs r"
  show "history_ok deps (rs @ [r])"
    unfolding history_ok_def
  proof (intro allI impI)
    fix before q after assume eq: "rs @ [r] = before @ q # after"
    show "result_follows deps before q"
    proof (cases after rule: rev_cases)
      case Nil
      with eq ok show ?thesis by simp
    next
      case (snoc more z)
      with eq have "rs = before @ q # more" by simp
      with ok show ?thesis unfolding history_ok_def by blast
    qed
  qed
qed

text \<open>Results of one wave are judged by what was there before the wave.\<close>

lemma history_ok_append:
  assumes "history_ok deps rs" and "distinct (map tr_task_id (rs @ new))"
    and "\<And>r. r \<in> set new \<Longrightarrow> result_follows deps rs r"
  shows "history_ok deps (rs @ new)"
  using assms(2,3)
proof (induction new rule: rev_induct)
  case Nil
  then show ?case using assms(1) by simp
next
  case (snoc r new)
  have follows: "result_follows deps rs r" using snoc.prems(2) by simp
  have fresh: "tr_task_id q \<notin> set (parents_of deps (tr_task_id r))" if "q \<in> set new" for q
  proof
    assume "tr_task_id q \<in> set (parents_of deps (tr_task_id r))"
    then have "tr_task_id q \<in> tr_task_id ` set rs" using follows by (auto simp: result_follows_def)
    then show False using snoc.prems(1) that by auto
  qed
  have "result_follows deps (rs @ new) r"
    using follows fresh unfolding result_follows_def by auto
  with snoc show ?case by (simp add: history_ok_snoc append_assoc [symmetric] del: append_assoc)
qed

lemma completed_of_Some_iff:
  assumes "distinct (map tr_task_id rs)"
  shows "completed_of rs i = Some s \<longleftrightarrow> (\<exists>r \<in> set rs. tr_task_id r = i \<and> tr_state r = s)"
proof -
  have "distinct (map fst (rev (map (\<lambda>r. (tr_task_id r, tr_state r)) rs)))"
    using assms by (simp add: rev_map [symmetric] comp_def)
  then show ?thesis unfolding completed_of_def by (auto simp: map_of_eq_Some_iff)
qed

lemma completed_of_None_iff: "completed_of rs i = None \<longleftrightarrow> i \<notin> tr_task_id ` set rs"
  by (auto simp: completed_of_def map_of_eq_None_iff image_image)

lemma in_wave_iff: "in_wave deps rs t \<longleftrightarrow> set (parents_of deps (pt_task_id t)) \<subseteq> tr_task_id ` set rs"
  by (auto simp: in_wave_def completed_of_None_iff)

lemma failed_parents_Nil_iff:
  assumes "distinct (map tr_task_id rs)" and "in_wave deps rs t"
  shows "failed_parents deps rs t = [] \<longleftrightarrow>
     \<not> (\<exists>q \<in> set rs. tr_task_id q \<in> set (parents_of deps (pt_task_id t)) \<and> tr_state q \<noteq> TaskSucceeded)"
proof -
  have "(completed_of rs p \<noteq> Some TaskSucceeded) = (\<exists>q \<in> set rs. tr_task_id q = p \<and> tr_state q \<noteq> TaskSucceeded)"
    if p: "p \<in> set (parents_of deps (pt_task_id t))" for p
  proof -
    obtain s where s: "completed_of rs p = Some s" using assms(2) p unfolding in_wave_def by auto
    have "completed_of rs p = Some (tr_state q)" if "q \<in> set rs" "tr_task_id q = p" for q
      using completed_of_Some_iff [OF assms(1)] that by blast
    then show ?thesis using s completed_of_Some_iff [OF assms(1), of p s] by auto
  qed
  then show ?thesis by (auto simp: failed_parents_def filter_empty_conv)
qed

subsection \<open>One wave\<close>

lemma result_key_eqD: "result_key r = task_key t \<Longrightarrow> tr_task_id r = pt_task_id t \<and> tr_phase r = pt_phase t"
  by (simp add: result_key_def task_key_def)

text \<open>
  What holds between the waves of a phase: the tasks of \<open>tasks\<close> (those of this and earlier phases)
  are recorded or pending, the recorded ones in a good history.
\<close>

definition wave_inv :: "Dependencies \<Rightarrow> nat \<Rightarrow> PreparedTask list \<Rightarrow> PreparedTask list \<Rightarrow> Pool \<Rightarrow> bool" where
  "wave_inv deps phase tasks pending p \<longleftrightarrow>
     distinct (map pt_task_id tasks)
     \<and> mset (map result_key (results p)) + mset (map task_key pending) = mset (map task_key tasks)
     \<and> history_ok deps (results p) \<and> sorted (map tr_phase (results p))
     \<and> (\<forall>t \<in> set pending. pt_phase t = phase) \<and> (\<forall>r \<in> set (results p). tr_phase r \<le> phase)"

lemma result_ids:
  assumes "mset (map result_key rs) + mset (map task_key pending) = mset (map task_key tasks)"
  shows "mset (map tr_task_id rs) + mset (map pt_task_id pending) = mset (map pt_task_id tasks)"
proof -
  have "mset (map tr_task_id rs) = image_mset fst (mset (map result_key rs))"
    "mset (map pt_task_id us) = image_mset fst (mset (map task_key us))" for us
    by (simp_all add: result_key_def task_key_def multiset.map_comp comp_def flip: mset_map)
  then show ?thesis using arg_cong [OF assms, of "image_mset fst"] by simp
qed

lemma distinct_result_ids:
  assumes "mset (map result_key rs) + mset (map task_key pending) = mset (map task_key tasks)"
    and "distinct (map pt_task_id tasks)"
  shows "distinct (map tr_task_id rs @ map pt_task_id pending)"
proof -
  have "mset (map tr_task_id rs @ map pt_task_id pending) = mset (map pt_task_id tasks)"
    using result_ids [OF assms(1)] by simp
  from mset_eq_imp_distinct_iff [OF this] assms(2) show ?thesis by blast
qed

lemma mset_map_filter_split: "mset (map f (filter P xs)) + mset (map f (filter (\<lambda>x. \<not> P x) xs)) = mset (map f xs)"
  by (induction xs) auto

lemma run_wave_inv:
  assumes max: "0 < maximum_parallel_agents L" and inv: "wave_inv deps phase tasks pending p"
    and run: "run_wave L deps es pending p = Some (waiting, p')"
  shows "wave_inv deps phase tasks waiting p'"
    and "waiting = filter (\<lambda>t. \<not> in_wave deps (results p) t) pending"
proof -
  let ?rs = "results p"
  let ?wave = "filter (in_wave deps ?rs) pending"
  let ?runnable = "filter (\<lambda>t. failed_parents deps ?rs t = []) ?wave"
  let ?stopped = "filter (\<lambda>t. failed_parents deps ?rs t \<noteq> []) ?wave"
  let ?blocked = "map (blocked_result L deps ?rs (clock p)) ?stopped"
  have waiting: "waiting = filter (\<lambda>t. \<not> in_wave deps ?rs t) pending"
    and scope: "run_scope L ?runnable es (p\<lparr>results := ?rs @ ?blocked\<rparr>) = Some p'"
    using run by (auto simp: run_wave_def Let_def)
  show "waiting = filter (\<lambda>t. \<not> in_wave deps ?rs t) pending" by (rule waiting)
  obtain ran where ran: "results p' = ?rs @ ?blocked @ ran" "mset (map result_key ran) = mset (map task_key ?runnable)"
      "\<forall>r \<in> set ran. tr_state r \<noteq> TaskDependencyBlocked"
    using scope_completes [OF max scope] by auto
  have blocked_key: "map result_key ?blocked = map task_key ?stopped" by (simp add: blocked_result_def)
  have before: "mset (map result_key ?rs) + mset (map task_key pending) = mset (map task_key tasks)"
    using inv by (simp only: wave_inv_def)
  have keys: "mset (map result_key (?rs @ ?blocked @ ran)) + mset (map task_key waiting) = mset (map task_key tasks)"
  proof -
    have "mset (map result_key (?rs @ ?blocked @ ran)) + mset (map task_key waiting)
        = mset (map result_key ?rs) + ((mset (map task_key ?runnable) + mset (map task_key ?stopped)) + mset (map task_key waiting))"
      using ran(2) blocked_key by (simp only: map_append mset_append add_ac)
    also have "\<dots> = mset (map result_key ?rs) + mset (map task_key pending)"
      using mset_map_filter_split [of task_key "\<lambda>t. failed_parents deps ?rs t = []" ?wave]
        mset_map_filter_split [of task_key "in_wave deps ?rs" pending] by (simp only: waiting)
    finally show ?thesis by (simp only: before)
  qed
  have dist: "distinct (map tr_task_id (?rs @ ?blocked @ ran))"
    using distinct_result_ids [OF keys] inv unfolding wave_inv_def distinct_append by blast
  then have dist_rs: "distinct (map tr_task_id ?rs)" by simp
  have origin: "\<exists>t \<in> set ?wave. result_key r = task_key t
      \<and> (tr_state r = TaskDependencyBlocked \<longleftrightarrow> failed_parents deps ?rs t \<noteq> [])" if "r \<in> set (?blocked @ ran)" for r
  proof (cases "r \<in> set ran")
    case True
    then have "result_key r \<in> set (map task_key ?runnable)"
      using mset_eq_setD [OF ran(2)] by auto
    then show ?thesis using True ran(3) by auto
  next
    case False
    then show ?thesis using that by (auto simp: blocked_result_def task_result_def result_key_def task_key_def)
  qed
  have follows: "result_follows deps ?rs r" if r: "r \<in> set (?blocked @ ran)" for r
  proof -
    from origin [OF r] obtain t where t: "t \<in> set ?wave" "result_key r = task_key t"
      "tr_state r = TaskDependencyBlocked \<longleftrightarrow> failed_parents deps ?rs t \<noteq> []" by blast
    then show ?thesis
      using failed_parents_Nil_iff [OF dist_rs, of deps t] result_key_eqD [OF t(2)]
      by (auto simp: result_follows_def in_wave_iff)
  qed
  have phase: "tr_phase r = phase" if "r \<in> set (?blocked @ ran)" for r
    using origin [OF that] inv by (auto simp: wave_inv_def dest!: result_key_eqD)
  have "sorted (map tr_phase (?rs @ ?blocked @ ran))"
  proof -
    have "map tr_phase (?blocked @ ran) = map (\<lambda>_. phase) (?blocked @ ran)" by (rule map_cong [OF refl phase])
    also have "\<dots> = replicate (length (?blocked @ ran)) phase" by (simp only: map_replicate_const)
    finally show ?thesis using inv unfolding map_append [of _ ?rs] wave_inv_def by (auto simp: sorted_append)
  qed
  moreover have "history_ok deps (?rs @ ?blocked @ ran)"
    using history_ok_append [OF _ dist follows] inv by (simp add: wave_inv_def)
  moreover have "\<forall>r \<in> set (?rs @ ?blocked @ ran). tr_phase r \<le> phase"
    using phase inv by (auto simp: wave_inv_def)
  ultimately show "wave_inv deps phase tasks waiting p'"
    using keys inv unfolding wave_inv_def ran(1) waiting by auto
qed

subsection \<open>A phase and the phases\<close>

lemma run_phase_inv:
  "0 < maximum_parallel_agents L \<Longrightarrow> wave_inv deps phase tasks pending p
    \<Longrightarrow> run_phase L deps schedules pending p = Some (rest, p') \<Longrightarrow> wave_inv deps phase tasks [] p'"
proof (induction L deps schedules pending p rule: run_phase.induct)
  case (3 L deps es schedules t pending p)
  from 3(4) obtain waiting p1 where wave: "run_wave L deps es (t # pending) p = Some (waiting, p1)"
    and more: "run_phase L deps schedules waiting p1 = Some (rest, p')" by (auto split: option.splits)
  from 3(1) [OF wave refl 3(2) run_wave_inv(1) [OF 3(2,3) wave] more] show ?case .
qed auto

text \<open>The tasks of a grouped map, by phase.\<close>

definition group_tasks :: "(PathBuf \<times> PreparedTask list) list \<Rightarrow> PreparedTask multiset" where
  "group_tasks g = mset (concat (map snd g))"

lemma group_tasks_single [simp]: "group_tasks [(s, [t])] = {#t#}"
  by (simp add: group_tasks_def)

lemma group_tasks_push: "group_tasks (entry_push k t g) = add_mset t (group_tasks g)"
  by (induction k t g rule: entry_push.induct) (auto simp: group_tasks_def)

text \<open>Every entry of the phase map holds the tasks of its phase, and the entries together all tasks.\<close>

definition phased_ok :: "PreparedTask list \<Rightarrow> (nat \<times> (PathBuf \<times> PreparedTask list) list) list \<Rightarrow> bool" where
  "phased_ok tasks m \<longleftrightarrow>
     sorted_wrt (<) (map fst m) \<and> (\<forall>(ph, g) \<in> set m. \<forall>t \<in># group_tasks g. pt_phase t = ph)
     \<and> sum_list (map (group_tasks \<circ> snd) m) = mset tasks"

lemma sum_entry_update_push:
  "sum_list (map (group_tasks \<circ> snd) (entry_update k [] (entry_push s t) m))
     = add_mset t (sum_list (map (group_tasks \<circ> snd) m))"
  by (induction k "[] :: (PathBuf \<times> PreparedTask list) list" "entry_push s t" m rule: entry_update.induct)
    (auto simp: group_tasks_push)

lemma entry_update_phase:
  "\<forall>(ph, g) \<in> set m. \<forall>t \<in># group_tasks g. pt_phase t = ph \<Longrightarrow>
    \<forall>(ph, g) \<in> set (entry_update (pt_phase t) [] (entry_push (pt_scope_root t) t) m). \<forall>t \<in># group_tasks g. pt_phase t = ph"
  by (induction "pt_phase t" "[] :: (PathBuf \<times> PreparedTask list) list" "entry_push (pt_scope_root t) t" m rule: entry_update.induct)
    (auto simp: group_tasks_push)

lemma phased_ok_step:
  assumes "phased_ok tasks m"
  shows "phased_ok (tasks @ [t]) (entry_update (pt_phase t) [] (entry_push (pt_scope_root t) t) m)"
  using assms entry_update_sorted [of m "pt_phase t"] entry_update_phase [of m t]
  unfolding phased_ok_def sum_entry_update_push by simp

lemma phased_ok: "phased_ok tasks (phased tasks)"
  unfolding phased_def
proof (induction tasks rule: rev_induct)
  case Nil
  then show ?case by (simp add: phased_ok_def)
next
  case (snoc t tasks)
  then show ?case using phased_ok_step by simp
qed

lemma mset_pending_tasks: "mset (pending_tasks g) = group_tasks g"
  by (simp add: pending_tasks_def group_tasks_def)

lemma wave_inv_append:
  assumes "distinct (map pt_task_id (tasks @ pending))" and "mset (map result_key (results p)) = mset (map task_key tasks)"
    and "history_ok deps (results p)" and "sorted (map tr_phase (results p))"
    and "\<forall>t \<in> set pending. pt_phase t = phase" and "\<forall>r \<in> set (results p). tr_phase r \<le> phase"
  shows "wave_inv deps phase (tasks @ pending) pending p"
  using assms unfolding wave_inv_def by simp

text \<open>Tasks of the phases done and of those still to come, with the plan they make up.\<close>

definition phases_inv ::
    "Dependencies \<Rightarrow> PreparedTask list \<Rightarrow> PreparedTask list \<Rightarrow> (nat \<times> (PathBuf \<times> PreparedTask list) list) list \<Rightarrow> Pool \<Rightarrow> bool" where
  "phases_inv deps tasks finished m p \<longleftrightarrow>
     distinct (map pt_task_id tasks) \<and> mset finished + sum_list (map (group_tasks \<circ> snd) m) = mset tasks
     \<and> mset (map result_key (results p)) = mset (map task_key finished)
     \<and> history_ok deps (results p) \<and> sorted (map tr_phase (results p))
     \<and> sorted_wrt (<) (map fst m) \<and> (\<forall>(ph, g) \<in> set m. \<forall>t \<in># group_tasks g. pt_phase t = ph)
     \<and> (\<forall>r \<in> set (results p). \<forall>(ph, g) \<in> set m. tr_phase r < ph)"

lemma phases_inv_start:
  assumes "distinct (map pt_task_id tasks)"
  shows "phases_inv deps tasks [] (phased tasks) (p\<lparr>results := []\<rparr>)"
  using assms phased_ok [of tasks] by (simp add: phases_inv_def phased_ok_def)

lemma phases_inv_enter:
  assumes "phases_inv deps tasks finished ((ph, g) # m) p"
  shows "wave_inv deps ph (finished @ pending_tasks g) (pending_tasks g) p"
proof (rule wave_inv_append)
  obtain others where others: "mset others = sum_list (map (group_tasks \<circ> snd) m)" using ex_mset by blast
  have "mset (finished @ pending_tasks g @ others) = mset tasks"
    using assms others by (simp add: phases_inv_def mset_pending_tasks)
  then have "mset (map pt_task_id (finished @ pending_tasks g @ others)) = mset (map pt_task_id tasks)"
    by (metis mset_map)
  moreover have "distinct (map pt_task_id tasks)" using assms by (simp only: phases_inv_def)
  ultimately have "distinct (map pt_task_id (finished @ pending_tasks g @ others))"
    using mset_eq_imp_distinct_iff by blast
  then show "distinct (map pt_task_id (finished @ pending_tasks g))"
    unfolding map_append append_assoc [symmetric] by (rule distinct_append [THEN iffD1, THEN conjunct1])
  have "set (pending_tasks g) = set_mset (group_tasks g)" by (simp flip: mset_pending_tasks)
  then show "\<forall>t \<in> set (pending_tasks g). pt_phase t = ph" using assms by (simp add: phases_inv_def)
qed (use assms in \<open>auto simp: phases_inv_def\<close>)

lemma phases_inv_leave:
  assumes "phases_inv deps tasks finished ((ph, g) # m) p"
    and "wave_inv deps ph (finished @ pending_tasks g) [] p'"
  shows "phases_inv deps tasks (finished @ pending_tasks g) m p'"
proof -
  have "tr_phase r < k" if "r \<in> set (results p')" "(k, h) \<in> set m" for r k h
  proof -
    have "ph < k" using assms(1) that(2) by (auto simp: phases_inv_def)
    moreover have "tr_phase r \<le> ph" using assms(2) that(1) by (simp add: wave_inv_def)
    ultimately show ?thesis by simp
  qed
  moreover have "mset (map result_key (results p')) = mset (map task_key (finished @ pending_tasks g))"
      "history_ok deps (results p')" "sorted (map tr_phase (results p'))"
    using assms(2) by (simp_all add: wave_inv_def)
  moreover have "mset (finished @ pending_tasks g) + sum_list (map (group_tasks \<circ> snd) m) = mset tasks"
      "distinct (map pt_task_id tasks)" "sorted_wrt (<) (map fst m)"
      "\<forall>(ph, g) \<in> set m. \<forall>t \<in># group_tasks g. pt_phase t = ph"
    using assms(1) by (simp_all add: phases_inv_def mset_pending_tasks add.assoc)
  ultimately show ?thesis unfolding phases_inv_def by blast
qed

lemma run_phases_inv:
  assumes max: "0 < maximum_parallel_agents L"
  shows "phases_inv deps tasks finished m p \<Longrightarrow> run_phases L deps schedules m p = Some p'
    \<Longrightarrow> \<exists>all. phases_inv deps tasks all [] p'"
proof (induction m arbitrary: finished p schedules)
  case (Cons x m)
  obtain ph g where x: "x = (ph, g)" by force
  obtain rest p1 where phase: "run_phase L deps schedules (pending_tasks g) p = Some (rest, p1)"
    and more: "run_phases L deps rest m p1 = Some p'"
    using Cons.prems(2) by (auto simp: x split: option.splits)
  have "wave_inv deps ph (finished @ pending_tasks g) [] p1"
    by (rule run_phase_inv [OF max phases_inv_enter [OF Cons.prems(1) [unfolded x]] phase])
  from Cons.IH [OF phases_inv_leave [OF Cons.prems(1) [unfolded x] this] more] show ?case .
qed auto

subsection \<open>Reports\<close>

lemma execute_Inr_iff:
  "execute_with_dependencies C sha256 json_len plan deps schedules (p, retention) = Inr (Some (report, p', retention')) \<longleftrightarrow>
     (\<exists>tasks. prepare C (cp_tasks plan) = Inr tasks \<and> validate_dependencies tasks deps = Inr ()
        \<and> run_phases (co_limits C) deps schedules (phased tasks) (p\<lparr>results := []\<rparr>) = Some p'
        \<and> report = report_of (cp_collaboration_id plan) (clock p) p'
        \<and> retention' = retain_report_evidence sha256 json_len (co_limits C) tasks report retention)"
  by (auto simp: execute_with_dependencies_def Let_def)

lemma compatible_distinct: "sorted_wrt compatible_tasks ts \<Longrightarrow> distinct (map pt_task_id ts)"
  by (induction ts) (auto simp: compatible_tasks_def)

lemma prepare_distinct: "prepare C tasks = Inr ps \<Longrightarrow> distinct (map pt_task_id ps)"
  using compatible_distinct [of ps] by (auto simp: prepare_Inr_iff plan_ok_def simp del: map_map)

text \<open>Where a report stands: by phase, then by task identifier.\<close>

definition key_order :: "TaskKey \<Rightarrow> nat \<times> CollaborationTaskId" where
  "key_order k = (case k of (i, w, provider, phase) \<Rightarrow> (phase, i))"

lemma key_order_simps:
  "(\<lambda>r. (tr_phase r, tr_task_id r)) = key_order \<circ> result_key"
  "(\<lambda>t. (pt_phase t, pt_task_id t)) = key_order \<circ> task_key"
  by (simp_all add: fun_eq_iff key_order_def result_key_def task_key_def)

lemma sorted_keys_eq:
  assumes "mset (map result_key rs) = mset (map task_key ts)" and "distinct (map pt_task_id ts)"
  shows "map result_key (sort_key (\<lambda>r. (tr_phase r, tr_task_id r)) rs)
    = map task_key (sort_key (\<lambda>t. (pt_phase t, pt_task_id t)) ts)"
proof -
  have "inj_on key_order (set (map task_key ts))"
  proof (rule inj_onI)
    fix a b assume "a \<in> set (map task_key ts)" "b \<in> set (map task_key ts)" "key_order a = key_order b"
    then obtain t u where tu: "t \<in> set ts" "a = task_key t" "u \<in> set ts" "b = task_key u" "pt_task_id t = pt_task_id u"
      by (auto simp: key_order_def task_key_def)
    then have "t = u" using assms(2) by (auto simp: distinct_map dest: inj_onD)
    with tu show "a = b" by simp
  qed
  then have "sort_key key_order (map result_key rs) = sort_key key_order (map task_key ts)"
    by (intro sort_key_inj_key_eq) (simp_all only: mset_eq_setD [OF assms(1)] mset_sort assms(1) sorted_sort_key)
  then show ?thesis unfolding key_order_simps sort_key_map .
qed

text \<open>
  C25: a run that returns reports every task of the plan exactly once, ordered by phase and then by
  identifier, each under its own workspace and provider.
\<close>

theorem report_lists_every_task:
  assumes "0 < maximum_parallel_agents (co_limits C)"
    and "execute_with_dependencies C sha256 json_len plan deps schedules (p, retention) = Inr (Some (report, p', retention'))"
  shows "\<exists>tasks. prepare C (cp_tasks plan) = Inr tasks
    \<and> map result_key (cr_tasks report) = map task_key (sort_key (\<lambda>t. (pt_phase t, pt_task_id t)) tasks)"
proof -
  obtain tasks where tasks: "prepare C (cp_tasks plan) = Inr tasks"
    and run: "run_phases (co_limits C) deps schedules (phased tasks) (p\<lparr>results := []\<rparr>) = Some p'"
    and report: "report = report_of (cp_collaboration_id plan) (clock p) p'"
    using assms(2) unfolding execute_Inr_iff by blast
  have dist: "distinct (map pt_task_id tasks)" by (rule prepare_distinct [OF tasks])
  obtain all where "phases_inv deps tasks all [] p'"
    using run_phases_inv [OF assms(1) phases_inv_start [OF dist] run] by blast
  then have "mset (map result_key (results p')) = mset (map task_key all)" "mset all = mset tasks"
    by (simp_all add: phases_inv_def)
  then have "mset (map result_key (results p')) = mset (map task_key tasks)" by (metis mset_map)
  from sorted_keys_eq [OF this dist] show ?thesis using tasks by (auto simp: report report_of_def)
qed

text \<open>
  C26: in every run the phases follow one another, a task has its result after all its
  prerequisites, and it is recorded as blocked, without being started, exactly when one of them
  did not succeed.
\<close>

theorem prerequisites_come_first:
  assumes "0 < maximum_parallel_agents (co_limits C)"
    and "execute_with_dependencies C sha256 json_len plan deps schedules (p, retention) = Inr (Some (report, p', retention'))"
  shows "sorted (map tr_phase (results p')) \<and> (\<forall>before r after. results p' = before @ r # after \<longrightarrow>
     (\<forall>parent \<in> set (parents_of deps (tr_task_id r)). \<exists>q \<in> set before. tr_task_id q = parent)
     \<and> (tr_state r = TaskDependencyBlocked \<longleftrightarrow>
          (\<exists>q \<in> set before. tr_task_id q \<in> set (parents_of deps (tr_task_id r)) \<and> tr_state q \<noteq> TaskSucceeded)))"
proof -
  obtain tasks where tasks: "prepare C (cp_tasks plan) = Inr tasks"
    and run: "run_phases (co_limits C) deps schedules (phased tasks) (p\<lparr>results := []\<rparr>) = Some p'"
    using assms(2) unfolding execute_Inr_iff by blast
  obtain all where "phases_inv deps tasks all [] p'"
    using run_phases_inv [OF assms(1) phases_inv_start [OF prepare_distinct [OF tasks]] run] by blast
  then have "history_ok deps (results p')" "sorted (map tr_phase (results p'))" by (simp_all add: phases_inv_def)
  then show ?thesis unfolding history_ok_def result_follows_def by (fastforce simp: subset_iff)
qed

subsection \<open>Runs return\<close>

lemma joined_iff_exited: "joined p \<longleftrightarrow> (\<forall>k \<in> set (workers p). k = Exited)"
  by (simp add: joined_def)

lemma run_wave_exists: "\<exists>es p'. run_wave L deps es pending p = Some (filter (\<lambda>t. \<not> in_wave deps (results p) t) pending, p')"
proof -
  let ?wave = "filter (in_wave deps (results p)) pending"
  let ?runnable = "filter (\<lambda>t. failed_parents deps (results p) t = []) ?wave"
  let ?p = "p\<lparr>results := results p @ map (blocked_result L deps (results p) (clock p))
      (filter (\<lambda>t. failed_parents deps (results p) t \<noteq> []) ?wave)\<rparr>"
  obtain es p' where "run_events L ?runnable es (spawn L ?runnable ?p) = Some p'" "joined p'"
    using pool_can_finish by blast
  then have "run_scope L ?runnable es ?p = Some p'" unfolding run_scope_def joined_iff_exited by simp
  then show ?thesis unfolding run_wave_def Let_def by (intro exI [of _ es] exI [of _ p']) simp
qed

lemma wave_nonempty:
  assumes inv: "wave_inv deps phase tasks pending p" and "acyclic (dependency_edges deps)" and "pending \<noteq> []"
    and closed: "\<forall>t \<in> set pending. set (parents_of deps (pt_task_id t)) \<subseteq> pt_task_id ` set tasks"
  shows "\<exists>t \<in> set pending. in_wave deps (results p) t"
proof -
  have "ready_tasks deps (map pt_task_id pending) \<noteq> []" using acyclic_ready [OF assms(2)] assms(3) by simp
  then obtain t where t: "t \<in> set pending" "\<forall>parent \<in> set (parents_of deps (pt_task_id t)). parent \<notin> pt_task_id ` set pending"
    by (auto simp: ready_tasks_def filter_empty_conv)
  have "mset (map tr_task_id (results p)) + mset (map pt_task_id pending) = mset (map pt_task_id tasks)"
    by (rule result_ids) (use inv in \<open>simp only: wave_inv_def\<close>)
  from arg_cong [OF this, of set_mset]
  have "tr_task_id ` set (results p) \<union> pt_task_id ` set pending = pt_task_id ` set tasks" by simp
  note ids = this
  have "set (parents_of deps (pt_task_id t)) \<subseteq> tr_task_id ` set (results p)"
  proof
    fix parent assume parent: "parent \<in> set (parents_of deps (pt_task_id t))"
    then have "parent \<in> pt_task_id ` set tasks" using closed t(1) by blast
    moreover have "parent \<notin> pt_task_id ` set pending" using t(2) parent by blast
    ultimately show "parent \<in> tr_task_id ` set (results p)" using ids by blast
  qed
  with t(1) show ?thesis by (auto simp: in_wave_iff)
qed

lemma run_phase_returns:
  assumes max: "0 < maximum_parallel_agents L" and acyclic: "acyclic (dependency_edges deps)"
  shows "wave_inv deps phase tasks pending p
    \<Longrightarrow> \<forall>t \<in> set pending. set (parents_of deps (pt_task_id t)) \<subseteq> pt_task_id ` set tasks
    \<Longrightarrow> \<exists>schedules p'. length schedules \<le> length pending
        \<and> (\<forall>rest. run_phase L deps (schedules @ rest) pending p = Some (rest, p'))"
proof (induction "length pending" arbitrary: pending p rule: less_induct)
  case less
  show ?case
  proof (cases pending)
    case Nil
    then show ?thesis by (intro exI [of _ "[]"]) simp
  next
    case (Cons t ts)
    let ?waiting = "filter (\<lambda>t. \<not> in_wave deps (results p) t) pending"
    obtain es p1 where wave: "run_wave L deps es pending p = Some (?waiting, p1)" using run_wave_exists by blast
    have shorter: "length ?waiting < length pending"
      using wave_nonempty [OF less.prems(1) acyclic _ less.prems(2)] Cons by (metis length_filter_less list.discI)
    have "\<exists>schedules p'. length schedules \<le> length ?waiting
        \<and> (\<forall>rest. run_phase L deps (schedules @ rest) ?waiting p1 = Some (rest, p'))"
      using less.prems(2) by (intro less.hyps [OF shorter run_wave_inv(1) [OF max less.prems(1) wave]]) simp
    then obtain schedules p' where rest: "length schedules \<le> length ?waiting"
        "\<forall>rest. run_phase L deps (schedules @ rest) ?waiting p1 = Some (rest, p')" by blast
    have "run_phase L deps ((es # schedules) @ rest) pending p = Some (rest, p')" for rest
      using rest(2) wave by (simp add: Cons)
    then show ?thesis using rest(1) shorter by (intro exI [of _ "es # schedules"] exI [of _ p']) simp
  qed
qed

lemma dependencies_closed:
  assumes "dependencies_ok tasks deps" and "distinct (map pt_task_id tasks)" and "t \<in> set tasks"
    and "parent \<in> set (parents_of deps (pt_task_id t))"
  shows "\<exists>u \<in> set tasks. pt_task_id u = parent \<and> pt_phase u \<le> pt_phase t"
proof -
  obtain ps where ps: "(pt_task_id t, ps) \<in> set deps" "parent \<in> set ps"
    using assms(4) map_of_SomeD [of deps "pt_task_id t"] by (cases "map_of deps (pt_task_id t)") (auto simp: parents_of_def)
  then obtain t' where "t' \<in> set tasks" "pt_task_id t' = pt_task_id t"
      "\<forall>p \<in> set ps. \<exists>u \<in> set tasks. pt_task_id u = p \<and> pt_phase u \<le> pt_phase t'"
    using assms(1) unfolding dependencies_ok_def by fastforce
  moreover have "t' = t" using calculation(1,2) assms(2,3) by (auto simp: distinct_map dest: inj_onD)
  ultimately show ?thesis using ps(2) by auto
qed

lemma in_mset_sum_list: "x \<in># sum_list ms \<longleftrightarrow> (\<exists>M \<in> set ms. x \<in># M)"
  by (induction ms) auto

lemma phases_inv_closed:
  assumes "phases_inv deps tasks finished ((ph, g) # m) p" and "dependencies_ok tasks deps"
    and "t \<in> set (pending_tasks g)"
  shows "set (parents_of deps (pt_task_id t)) \<subseteq> pt_task_id ` set (finished @ pending_tasks g)"
proof
  fix parent assume parent: "parent \<in> set (parents_of deps (pt_task_id t))"
  have parts: "mset finished + group_tasks g + sum_list (map (group_tasks \<circ> snd) m) = mset tasks"
      "distinct (map pt_task_id tasks)"
    using assms(1) by (simp_all add: phases_inv_def add.assoc)
  have group: "set (pending_tasks g) = set_mset (group_tasks g)" by (simp flip: mset_pending_tasks)
  have "t \<in> set tasks" using arg_cong [OF parts(1), of set_mset] assms(3) group by auto
  then obtain u where u: "u \<in> set tasks" "pt_task_id u = parent" "pt_phase u \<le> pt_phase t"
    using dependencies_closed [OF assms(2) parts(2) _ parent] by blast
  have "u \<notin># sum_list (map (group_tasks \<circ> snd) m)"
  proof
    assume "u \<in># sum_list (map (group_tasks \<circ> snd) m)"
    then obtain x where "x \<in> set m" "u \<in># group_tasks (snd x)" by (auto simp: in_mset_sum_list)
    then have "pt_phase u = fst x" "ph < fst x" "pt_phase t = ph"
      using assms(1,3) group by (auto simp: phases_inv_def)
    with u(3) show False by simp
  qed
  then have "u \<in> set (finished @ pending_tasks g)"
    using arg_cong [OF parts(1), of set_mset] u(1) group by auto
  with u(2) show "parent \<in> pt_task_id ` set (finished @ pending_tasks g)" by blast
qed

lemma run_phases_returns:
  assumes max: "0 < maximum_parallel_agents L" and ok: "dependencies_ok tasks deps"
  shows "phases_inv deps tasks finished m p \<Longrightarrow>
    \<exists>schedules p'. length schedules \<le> size (sum_list (map (group_tasks \<circ> snd) m)) \<and> run_phases L deps schedules m p = Some p'"
proof (induction m arbitrary: finished p)
  case Nil
  then show ?case by (intro exI [of _ "[]"]) simp
next
  case (Cons x m)
  obtain ph g where x: "x = (ph, g)" by force
  note inv = Cons.prems [unfolded x]
  have acyclic: "acyclic (dependency_edges deps)" using ok by (simp add: dependencies_ok_def)
  obtain schedules p1 where one: "length schedules \<le> length (pending_tasks g)"
      "\<And>rest. run_phase L deps (schedules @ rest) (pending_tasks g) p = Some (rest, p1)"
    using run_phase_returns [OF max acyclic phases_inv_enter [OF inv]] phases_inv_closed [OF inv ok] by blast
  have "wave_inv deps ph (finished @ pending_tasks g) [] p1"
    by (rule run_phase_inv [OF max phases_inv_enter [OF inv] one(2)])
  from Cons.IH [OF phases_inv_leave [OF inv this]] obtain more p2
    where two: "length more \<le> size (sum_list (map (group_tasks \<circ> snd) m))" "run_phases L deps more m p1 = Some p2" by blast
  have "length (pending_tasks g) = size (group_tasks g)" by (simp flip: mset_pending_tasks)
  then show ?case
    using one two by (intro exI [of _ "schedules @ more"] exI [of _ p2]) (simp add: x comp_def)
qed

text \<open>
  C24: a plan and dependencies that pass the checks always can be run to a report: no wave is ever
  empty, so there are at most as many waves as tasks, and each wave can finish.
\<close>

theorem accepted_plan_returns:
  assumes "0 < maximum_parallel_agents (co_limits C)" and "prepare C (cp_tasks plan) = Inr tasks"
    and "validate_dependencies tasks deps = Inr ()"
  shows "\<exists>schedules report p' retention'. length schedules \<le> length tasks
    \<and> execute_with_dependencies C sha256 json_len plan deps schedules (p, retention) = Inr (Some (report, p', retention'))"
proof -
  have dist: "distinct (map pt_task_id tasks)" by (rule prepare_distinct [OF assms(2)])
  have ok: "dependencies_ok tasks deps" using assms(3) validate_dependencies_Inr_iff [OF dist] by blast
  obtain schedules p' where run: "length schedules \<le> size (sum_list (map (group_tasks \<circ> snd) (phased tasks)))"
      "run_phases (co_limits C) deps schedules (phased tasks) (p\<lparr>results := []\<rparr>) = Some p'"
    using run_phases_returns [OF assms(1) ok phases_inv_start [OF dist]] by blast
  moreover have "size (sum_list (map (group_tasks \<circ> snd) (phased tasks))) = length tasks"
    using phased_ok [of tasks] by (simp add: phased_ok_def)
  ultimately show ?thesis
    unfolding execute_Inr_iff using assms(2,3) by auto
qed

subsection \<open>Evidence\<close>

text \<open>The longest final part of a history that fits both bounds, computed in one pass.\<close>

definition fits :: "nat \<Rightarrow> nat \<Rightarrow> (nat \<times> 'e) list \<Rightarrow> bool" where
  "fits m b xs \<longleftrightarrow> length xs \<le> m \<and> sum_list (map fst xs) \<le> b"

fun newest_fit :: "nat \<Rightarrow> nat \<Rightarrow> (nat \<times> 'e) list \<Rightarrow> (nat \<times> 'e) list" where
  "newest_fit m b [] = []"
| "newest_fit m b (x # xs) = (if fits m b (x # xs) then x # xs else newest_fit m b xs)"

lemma newest_fit_spec:
  "suffix (newest_fit m b xs) xs \<and> fits m b (newest_fit m b xs)
     \<and> (\<forall>ys. suffix ys xs \<longrightarrow> fits m b ys \<longrightarrow> length ys \<le> length (newest_fit m b xs))"
proof (induction xs)
  case (Cons x xs)
  then show ?case by (auto simp: suffix_Cons dest: suffix_length_le)
qed (simp add: fits_def)

lemma newest_fit_append: "newest_fit m b (newest_fit m b xs @ [x]) = newest_fit m b (xs @ [x])"
proof (induction xs)
  case (Cons y xs)
  have "\<not> fits m b (y # xs @ [x])" if "\<not> fits m b (y # xs)" using that by (auto simp: fits_def)
  with Cons show ?case by auto
qed simp

lemma evict_newest_fit:
  "evict m b xs (sum_list (map fst xs)) = (newest_fit m b xs, sum_list (map fst (newest_fit m b xs)))"
proof (induction xs)
  case (Cons x xs)
  obtain n e where x: "x = (n, e)" by force
  show ?case using Cons by (auto simp: x fits_def)
qed simp

text \<open>The evidence that is kept at all: it serialises, and alone it is within the limit.\<close>

definition sized :: "('e \<Rightarrow> nat option) \<Rightarrow> nat \<Rightarrow> 'e list \<Rightarrow> (nat \<times> 'e) list" where
  "sized json_len b evs = map (\<lambda>e. (the (json_len e), e)) (filter (\<lambda>e. \<exists>n. json_len e = Some n \<and> n \<le> b) evs)"

lemma retain_all:
  assumes "2 * b \<le> u64_max"
  shows "fold (retain json_len m b) evs \<lparr>entries = [], total_bytes = 0\<rparr>
    = \<lparr>entries = newest_fit m b (sized json_len b evs), total_bytes = sum_list (map fst (newest_fit m b (sized json_len b evs)))\<rparr>"
proof (induction evs rule: rev_induct)
  case (snoc e evs)
  let ?old = "newest_fit m b (sized json_len b evs)"
  show ?case
  proof (cases "\<exists>n. json_len e = Some n \<and> n \<le> b")
    case False
    then show ?thesis using snoc by (auto simp: retain_def sized_def split: option.split)
  next
    case True
    then obtain n where n: "json_len e = Some n" "n \<le> b" by blast
    have "sum_list (map fst ?old) \<le> b" using newest_fit_spec [of m b "sized json_len b evs"] by (simp add: fits_def)
    with n(2) assms have "min u64_max (sum_list (map fst ?old) + n) = sum_list (map fst (?old @ [(n, e)]))" by simp
    then show ?thesis
      using n snoc evict_newest_fit [of m b "?old @ [(n, e)]"] newest_fit_append [of m b "sized json_len b evs" "(n, e)"]
      by (simp add: retain_def sized_def)
  qed
qed (simp add: sized_def)

text \<open>
  C27: whatever evidence was offered to an empty retention, in whatever batches, what is kept is the
  longest run of the newest entries within the count and the byte limit, and the byte total is
  theirs.
\<close>

theorem retention_keeps_newest:
  assumes "2 * b \<le> u64_max" and "r = fold (retain json_len m b) evs \<lparr>entries = [], total_bytes = 0\<rparr>"
  shows "suffix (entries r) (sized json_len b evs) \<and> length (entries r) \<le> m \<and> total_bytes r = sum_list (map fst (entries r))
    \<and> total_bytes r \<le> b
    \<and> (\<forall>ys. suffix ys (sized json_len b evs) \<longrightarrow> length ys \<le> m \<longrightarrow> sum_list (map fst ys) \<le> b
          \<longrightarrow> length ys \<le> length (entries r))"
  using newest_fit_spec [of m b "sized json_len b evs"] unfolding assms(2) retain_all [OF assms(1)]
  by (simp add: fits_def)

text \<open>An example: three entries of sizes 3, 2 and 2 with room for five bytes.\<close>

definition sample_evidence :: "nat \<Rightarrow> CollaborationTaskEvidence" where
  "sample_evidence n =
     \<lparr>te_collaboration_id = 1, te_task_id = show_nat n, te_workspace_id = 1, te_workspace_root = [], te_scope_root = [],
      te_provider = AgentCodex, te_phase = 0, te_state = TaskSucceeded, te_prompt_sha256 = [], te_output_sha256 = None,
      te_failure = None, te_started_at_unix_ms = None, te_completed_at_unix_ms = 0, te_duration_ms = n\<rparr>"

theorem retention_keeps_newest_witness:
  "map te_duration_ms (map snd (entries
      (fold (retain (\<lambda>e. Some (te_duration_ms e)) 2 5) (map sample_evidence [3, 9, 2, 2]) \<lparr>entries = [], total_bytes = 0\<rparr>)))
    = [2, 2]" (is "map _ (map _ (entries ?r)) = _")
proof -
  have "2 * 5 \<le> u64_max" by (simp add: u64_max_def)
  from retention_keeps_newest [OF this refl, of "\<lambda>e. Some (te_duration_ms e)" 2 "map sample_evidence [3, 9, 2, 2]"]
  have "suffix (entries ?r) (sized (\<lambda>e. Some (te_duration_ms e)) 5 (map sample_evidence [3, 9, 2, 2]))"
    and "length (entries ?r) \<le> 2"
    and longest: "\<And>ys. suffix ys (sized (\<lambda>e. Some (te_duration_ms e)) 5 (map sample_evidence [3, 9, 2, 2]))
      \<Longrightarrow> length ys \<le> 2 \<Longrightarrow> sum_list (map fst ys) \<le> 5 \<Longrightarrow> length ys \<le> length (entries ?r)" by blast+
  moreover have sized: "sized (\<lambda>e. Some (te_duration_ms e)) 5 (map sample_evidence [3, 9, 2, 2])
      = [(3, sample_evidence 3), (2, sample_evidence 2), (2, sample_evidence 2)]"
    by (simp add: sized_def sample_evidence_def)
  ultimately have "suffix (entries ?r) [(3, sample_evidence 3), (2, sample_evidence 2), (2, sample_evidence 2)]"
    "length (entries ?r) \<le> 2" by simp_all
  moreover have "2 \<le> length (entries ?r)"
  proof -
    have "suffix [(2, sample_evidence 2), (2, sample_evidence 2)] (sized (\<lambda>e. Some (te_duration_ms e)) 5 (map sample_evidence [3, 9, 2, 2]))"
      unfolding sized by (simp add: suffix_Cons)
    from longest [OF this] show ?thesis by (simp add: numeral_2_eq_2)
  qed
  ultimately have "entries ?r = [(2, sample_evidence 2), (2, sample_evidence 2)]" by (auto simp: suffix_Cons)
  then show ?thesis by (simp add: sample_evidence_def)
qed

subsection \<open>Outcomes\<close>

text \<open>
  Once the adapter has returned, a task counts as succeeded exactly when neither it nor the run
  was cancelled, its deadline has not passed, the adapter reported success and the output is
  within the limit; the result then carries the whole output.
\<close>

theorem task_succeeds_iff:
  "tr_state (finish_result L ctl clk task deadline started started_at outcome) = TaskSucceeded \<longleftrightarrow>
     \<not> all_cancelled ctl \<and> task_tokens ctl (pt_task_id task) \<noteq> Some True \<and> instant clk < deadline
     \<and> (\<exists>output. outcome = Some (OutcomeSucceeded output) \<and> str_len output \<le> maximum_output_bytes L
          \<and> tr_output (finish_result L ctl clk task deadline started started_at outcome) = output)"
  by (auto simp: finish_result_def Let_def task_result_def stopped_result_def is_cancelled_def not_less
      split: option.split CollaborationAdapterOutcome.split CollaborationStopReason.split)

subsection \<open>An example run\<close>

text \<open>\<open>b\<close> runs first, then \<open>a\<close>, which waits for it.\<close>

definition sample_schedules :: "Event list list" where
  "sample_schedules = [sample_turn 0 @ [Work 0 Fetch], sample_turn 0 @ [Work 0 Fetch]]"

abbreviation sample_execute ::
    "CollaborationPlanError + (CollaborationReport \<times> Pool \<times> EvidenceRetention) option" where
  "sample_execute \<equiv> execute_with_dependencies sample_coordinator id (\<lambda>_. Some 100) sample_plan sample_dependencies
     sample_schedules (sample_pool, \<lparr>entries = [], total_bytes = 0\<rparr>)"

lemma sample_limits: "0 < maximum_parallel_agents (co_limits sample_coordinator)"
  by (simp add: sample_coordinator_def default_limits_def)

lemma sample_run:
  "map_sum id (map_option (\<lambda>(report, p', r). map (\<lambda>t. (tr_task_id t, tr_phase t, tr_state t)) (results p'))) sample_execute
    = Inr (Some [(lit ''b'', 0, TaskSucceeded), (lit ''a'', 0, TaskSucceeded)])"
  by code_simp

lemma sample_run_obtains:
  obtains report p' r where "sample_execute = Inr (Some (report, p', r))"
    "map (\<lambda>t. (tr_task_id t, tr_phase t, tr_state t)) (results p') = [(lit ''b'', 0, TaskSucceeded), (lit ''a'', 0, TaskSucceeded)]"
  using sample_run by (cases sample_execute) auto

theorem report_lists_every_task_witness:
  "\<exists>report p' r. sample_execute = Inr (Some (report, p', r)) \<and> map tr_task_id (cr_tasks report) = [lit ''a'', lit ''b'']"
proof -
  obtain report p' r where run: "sample_execute = Inr (Some (report, p', r))" by (rule sample_run_obtains)
  from report_lists_every_task [OF sample_limits run]
  have "map result_key (cr_tasks report) = map task_key (sort_key (\<lambda>t. (pt_phase t, pt_task_id t)) sample_prepared)"
    by (simp add: sample_prepare)
  moreover have "map (fst \<circ> task_key) (sort_key (\<lambda>t. (pt_phase t, pt_task_id t)) sample_prepared) = [lit ''a'', lit ''b'']"
    by code_simp
  ultimately have "map (fst \<circ> result_key) (cr_tasks report) = [lit ''a'', lit ''b'']"
    by (metis list.map_comp)
  then show ?thesis using run by (auto simp: result_key_def comp_def)
qed

theorem prerequisites_come_first_witness:
  "\<exists>report p' r q before. sample_execute = Inr (Some (report, p', r)) \<and> results p' = before @ [q]
     \<and> tr_task_id q = lit ''a'' \<and> lit ''b'' \<in> tr_task_id ` set before \<and> tr_state q \<noteq> TaskDependencyBlocked"
proof -
  obtain report p' r where run: "sample_execute = Inr (Some (report, p', r))"
    and res: "map (\<lambda>t. (tr_task_id t, tr_phase t, tr_state t)) (results p') = [(lit ''b'', 0, TaskSucceeded), (lit ''a'', 0, TaskSucceeded)]"
    by (rule sample_run_obtains)
  then obtain b a where ab: "results p' = [b] @ a # []" "tr_task_id a = lit ''a''" "tr_task_id b = lit ''b''" "tr_state b = TaskSucceeded"
    by (auto simp: map_eq_Cons_conv)
  have parents: "set (parents_of sample_dependencies (lit ''a'')) = {lit ''b''}" by (simp add: parents_of_def sample_dependencies_def)
  from prerequisites_come_first [OF sample_limits run] ab(1)
  have "\<forall>parent \<in> set (parents_of sample_dependencies (tr_task_id a)). \<exists>q \<in> set [b]. tr_task_id q = parent"
    and "tr_state a = TaskDependencyBlocked \<longleftrightarrow> (\<exists>q \<in> set [b]. tr_task_id q \<in> set (parents_of sample_dependencies (tr_task_id a))
        \<and> tr_state q \<noteq> TaskSucceeded)" by blast+
  then show ?thesis using run ab parents
    by (intro exI [of _ report] exI [of _ p'] exI [of _ r] exI [of _ a] exI [of _ "[b]"]) simp
qed

theorem accepted_plan_returns_witness:
  "\<exists>schedules report p' r. length schedules \<le> 2 \<and> execute_with_dependencies sample_coordinator id (\<lambda>_. Some 100) sample_plan
     sample_dependencies schedules (sample_pool, \<lparr>entries = [], total_bytes = 0\<rparr>) = Inr (Some (report, p', r))"
proof -
  have "length sample_prepared = 2" using arg_cong [OF sample_ids, of length] by simp
  with accepted_plan_returns [OF sample_limits sample_prepare sample_validate, of id "\<lambda>_. Some 100" sample_pool
      "\<lparr>entries = [], total_bytes = 0\<rparr>"]
  show ?thesis by auto
qed

end
