(* ===== verification/Time_Review_Draft.thy ===== *)
theory Time_Review_Draft
  imports Contracts
begin

text \<open>
  \<open>wts-app/src/time_review.rs\<close>: the daily time-review draft, which turns overlapping attention
  intervals into disjoint segments grouped by workspace and attribution, and the schedule of the
  review. Times are \<open>i64\<close> milliseconds, kept as \<open>int\<close>; the theorems bound what is computed from
  values in range.
\<close>

subsection \<open>Types\<close>

definition SANITIZED_ATTENTION_SCHEMA_VERSION :: nat where "SANITIZED_ATTENTION_SCHEMA_VERSION = 1"
definition DRAFT_SCHEMA_VERSION :: nat where "DRAFT_SCHEMA_VERSION = 1"
definition MAX_SANITIZED_ATTENTION_INTERVALS :: nat where "MAX_SANITIZED_ATTENTION_INTERVALS = 4096"
definition MILLIS_PER_MINUTE :: int where "MILLIS_PER_MINUTE = 60000"
definition MILLIS_PER_DAY :: int where "MILLIS_PER_DAY = 24 * 60 * MILLIS_PER_MINUTE"
definition MAX_UTC_OFFSET_MINUTES :: int where "MAX_UTC_OFFSET_MINUTES = 14 * 60"
definition MAX_PROJECT_KEY_BYTES :: nat where "MAX_PROJECT_KEY_BYTES = 32"
definition MAX_ISSUE_NUMBER_BYTES :: nat where "MAX_ISSUE_NUMBER_BYTES = 18"
definition MAX_PROPOSAL_SUMMARY_CHARS :: nat where "MAX_PROPOSAL_SUMMARY_CHARS = 240"

lemmas draft_limits =
  SANITIZED_ATTENTION_SCHEMA_VERSION_def DRAFT_SCHEMA_VERSION_def MAX_SANITIZED_ATTENTION_INTERVALS_def
  MILLIS_PER_MINUTE_def MILLIS_PER_DAY_def MAX_UTC_OFFSET_MINUTES_def MAX_PROJECT_KEY_BYTES_def
  MAX_ISSUE_NUMBER_BYTES_def MAX_PROPOSAL_SUMMARY_CHARS_def

datatype TimeAttribution =
    ExistingJira str
  | CreateTicketProposal "str option" str
  | Unassigned

text \<open>The derived order: by variant, then by the fields in turn.\<close>

instantiation TimeAttribution :: linorder
begin

fun attribution_key :: "TimeAttribution \<Rightarrow> nat \<times> str option \<times> str" where
  "attribution_key (ExistingJira k) = (0, None, k)"
| "attribution_key (CreateTicketProposal p s) = (1, p, s)"
| "attribution_key Unassigned = (2, None, [])"

definition less_eq_TimeAttribution :: "TimeAttribution \<Rightarrow> TimeAttribution \<Rightarrow> bool" where
  "less_eq_TimeAttribution a b \<longleftrightarrow> attribution_key a \<le> attribution_key b"

definition less_TimeAttribution :: "TimeAttribution \<Rightarrow> TimeAttribution \<Rightarrow> bool" where
  "less_TimeAttribution a b \<longleftrightarrow> attribution_key a < attribution_key b"

instance
proof
  fix a b c :: TimeAttribution
  show "(a < b) = (a \<le> b \<and> \<not> b \<le> a)" by (auto simp: less_eq_TimeAttribution_def less_TimeAttribution_def)
  show "a \<le> a" by (simp add: less_eq_TimeAttribution_def)
  show "a \<le> b \<or> b \<le> a" unfolding less_eq_TimeAttribution_def by (rule linear)
  show "a \<le> b \<Longrightarrow> b \<le> c \<Longrightarrow> a \<le> c" unfolding less_eq_TimeAttribution_def by (rule order_trans)
  assume "a \<le> b" "b \<le> a"
  then have "attribution_key a = attribution_key b" unfolding less_eq_TimeAttribution_def by (rule order_antisym)
  then show "a = b" by (cases a; cases b) auto
qed

end

record SanitizedAttentionInterval =
  ai_schema_version :: nat
  ai_started :: int
  ai_ended :: int
  ai_workspace_id :: "uuid option"
  ai_attribution :: TimeAttribution

record TimeReviewSegment =
  sg_started :: int
  sg_ended :: int

record TimeReviewGroup =
  tg_workspace_id :: "uuid option"
  tg_attribution :: TimeAttribution
  tg_attention_ms :: int
  tg_segments :: "TimeReviewSegment list"

record TimeReviewDraft =
  td_schema_version :: nat
  td_total_attention_ms :: int
  td_unassigned_attention_ms :: int
  td_groups :: "TimeReviewGroup list"

datatype TimeReviewError = TooManyIntervals | InvalidInterval | InvalidAttribution | InvalidSchedule

text \<open>\<open>GroupKey\<close>, ordered by its fields.\<close>

type_synonym GroupKey = "uuid option \<times> TimeAttribution"

subsection \<open>Validation\<close>

definition draft_project_key :: "str \<Rightarrow> bool" where
  "draft_project_key k \<longleftrightarrow>
     2 \<le> str_len k \<and> str_len k \<le> MAX_PROJECT_KEY_BYTES
     \<and> (case k of [] \<Rightarrow> False | c # _ \<Rightarrow> is_ascii_uppercase c)
     \<and> (\<forall>c \<in> set (tl k). is_ascii_uppercase c \<or> is_ascii_digit c \<or> c = chr CHR ''_'')"

fun valid_attribution :: "TimeAttribution \<Rightarrow> bool" where
  "valid_attribution (ExistingJira issue_key) \<longleftrightarrow>
     (case split_once (chr CHR ''-'') issue_key of
        None \<Rightarrow> False
      | Some (project_key, issue_number) \<Rightarrow>
          draft_project_key project_key \<and> issue_number \<noteq> [] \<and> str_len issue_number \<le> MAX_ISSUE_NUMBER_BYTES
          \<and> \<not> starts_with (lit ''0'') issue_number \<and> (\<forall>c \<in> set issue_number. is_ascii_digit c))"
| "valid_attribution (CreateTicketProposal project_key summary) \<longleftrightarrow>
     (case project_key of None \<Rightarrow> True | Some k \<Rightarrow> draft_project_key k)
     \<and> summary \<noteq> [] \<and> trim summary = summary \<and> length summary \<le> MAX_PROPOSAL_SUMMARY_CHARS
     \<and> \<not> (\<exists>c \<in> set summary. is_control c)"
| "valid_attribution Unassigned \<longleftrightarrow> True"

definition interval_ok :: "SanitizedAttentionInterval \<Rightarrow> bool" where
  "interval_ok i \<longleftrightarrow>
     \<not> (ai_schema_version i \<noteq> SANITIZED_ATTENTION_SCHEMA_VERSION \<or> ai_started i < 0 \<or> ai_ended i \<le> ai_started i)"

subsection \<open>Segments\<close>

definition boundaries_of :: "SanitizedAttentionInterval list \<Rightarrow> int list" where
  "boundaries_of intervals = sort_dedup (concat (map (\<lambda>i. [ai_started i, ai_ended i]) intervals))"

definition active_in :: "SanitizedAttentionInterval list \<Rightarrow> int \<Rightarrow> int \<Rightarrow> SanitizedAttentionInterval list" where
  "active_in intervals started ended = filter (\<lambda>i. ai_started i < ended \<and> ai_ended i > started) intervals"

definition key_of :: "SanitizedAttentionInterval list \<Rightarrow> GroupKey" where
  "key_of active =
     (let first = hd active in
      if \<forall>i \<in> set active. ai_workspace_id i = ai_workspace_id first \<and> ai_attribution i = ai_attribution first
      then (ai_workspace_id first, ai_attribution first)
      else (if \<forall>i \<in> set active. ai_workspace_id i = ai_workspace_id first then ai_workspace_id first else None,
            Unassigned))"

definition push_segment :: "GroupKey \<Rightarrow> int \<Rightarrow> int \<Rightarrow> (GroupKey \<times> TimeReviewSegment) list \<Rightarrow> (GroupKey \<times> TimeReviewSegment) list" where
  "push_segment key started ended normalized =
     (if normalized \<noteq> [] \<and> fst (last normalized) = key \<and> sg_ended (snd (last normalized)) = started
      then butlast normalized @ [(key, (snd (last normalized))\<lparr>sg_ended := ended\<rparr>)]
      else normalized @ [(key, \<lparr>sg_started = started, sg_ended = ended\<rparr>)])"

fun normalize_windows ::
    "SanitizedAttentionInterval list \<Rightarrow> (int \<times> int) list \<Rightarrow> (GroupKey \<times> TimeReviewSegment) list
     \<Rightarrow> (GroupKey \<times> TimeReviewSegment) list" where
  "normalize_windows intervals [] normalized = normalized"
| "normalize_windows intervals ((started, ended) # ws) normalized =
     (let active = active_in intervals started ended in
      normalize_windows intervals ws
        (if active = [] then normalized else push_segment (key_of active) started ended normalized))"

definition segment_ms :: "TimeReviewSegment \<Rightarrow> int" where
  "segment_ms s = sg_ended s - sg_started s"

definition grouped_segments :: "(GroupKey \<times> TimeReviewSegment) list \<Rightarrow> (GroupKey \<times> TimeReviewSegment list) list" where
  "grouped_segments normalized = fold (\<lambda>(k, s). entry_push k s) normalized []"

definition group_of :: "GroupKey \<times> TimeReviewSegment list \<Rightarrow> TimeReviewGroup" where
  "group_of e =
     (case e of ((w, a), segments) \<Rightarrow>
       \<lparr>tg_workspace_id = w, tg_attribution = a, tg_attention_ms = sum_list (map segment_ms segments),
        tg_segments = segments\<rparr>)"

definition build_time_review_draft :: "SanitizedAttentionInterval list \<Rightarrow> TimeReviewError + TimeReviewDraft" where
  "build_time_review_draft intervals =
     rbind (ensure (\<not> length intervals > MAX_SANITIZED_ATTENTION_INTERVALS) TooManyIntervals) (\<lambda>_.
     rbind (ensure (\<forall>i \<in> set intervals. interval_ok i) InvalidInterval) (\<lambda>_.
     rbind (ensure (\<forall>i \<in> set intervals. valid_attribution (ai_attribution i)) InvalidAttribution) (\<lambda>_.
     let normalized = normalize_windows intervals (windows2 (boundaries_of intervals)) [];
         groups = map group_of (grouped_segments normalized) in
     Inr \<lparr>td_schema_version = DRAFT_SCHEMA_VERSION,
          td_total_attention_ms = sum_list (map tg_attention_ms groups),
          td_unassigned_attention_ms = sum_list (map tg_attention_ms (filter (\<lambda>g. tg_attribution g = Unassigned) groups)),
          td_groups = groups\<rparr>)))"

subsection \<open>The schedule\<close>

record TimeReviewSchedule =
  minute_of_local_day :: int
  utc_offset_minutes :: int

datatype TimeReviewScheduleState =
    NotDue int
  | Due int int
  | CatchUp int int int

text \<open>
  \<open>i16::abs\<close> as a release build computes it: the least \<open>i16\<close> has no absolute value and wraps to
  itself (a debug build panics there).
\<close>

definition i16_abs :: "int \<Rightarrow> int" where
  "i16_abs i = (if i = -32768 then -32768 else \<bar>i\<bar>)"

text \<open>\<open>u32::try_from(n).unwrap_or(u32::MAX)\<close> for a positive \<open>n\<close>.\<close>

definition clamp_u32 :: "int \<Rightarrow> int" where
  "clamp_u32 n = (case u32_try_from n of None \<Rightarrow> int u32_max | Some k \<Rightarrow> int k)"

definition time_review_schedule_state ::
    "TimeReviewSchedule \<Rightarrow> int \<Rightarrow> int option \<Rightarrow> TimeReviewError + TimeReviewScheduleState" where
  "time_review_schedule_state schedule now_ms last_completed =
     rbind (ensure (\<not> (minute_of_local_day schedule \<ge> 24 * 60 \<or> i16_abs (utc_offset_minutes schedule) > MAX_UTC_OFFSET_MINUTES
        \<or> now_ms < 0)) InvalidSchedule) (\<lambda>_.
     let offset_ms = utc_offset_minutes schedule * MILLIS_PER_MINUTE;
         local_now_ms = now_ms + offset_ms;
         current_local_day = local_now_ms div MILLIS_PER_DAY;
         current_local_minute = local_now_ms mod MILLIS_PER_DAY div MILLIS_PER_MINUTE;
         scheduled_minute = minute_of_local_day schedule;
         latest_due_local_day =
           (if current_local_minute \<ge> scheduled_minute then current_local_day else current_local_day - 1);
         due_at = latest_due_local_day * MILLIS_PER_DAY + scheduled_minute * MILLIS_PER_MINUTE - offset_ms;
         due = Inr (Due latest_due_local_day due_at) in
     case last_completed of
       None \<Rightarrow> due
     | Some completed \<Rightarrow>
         (if completed \<ge> latest_due_local_day then
            let next_local_day =
              (if current_local_minute < scheduled_minute then current_local_day else current_local_day + 1) in
            Inr (NotDue (next_local_day * MILLIS_PER_DAY + scheduled_minute * MILLIS_PER_MINUTE - offset_ms))
          else if i64_saturating_sub latest_due_local_day completed > 1 then
            Inr (CatchUp (completed + 1) latest_due_local_day (clamp_u32 (i64_saturating_sub latest_due_local_day completed)))
          else due))"

subsection \<open>What a draft must say\<close>

text \<open>
  The specification: at an instant the review credits the workspace and attribution on which the
  intervals that cover it agree; where they do not, the time is unassigned, in their workspace if
  they agree on that; an instant that no interval covers is not credited.
\<close>

definition covering :: "SanitizedAttentionInterval list \<Rightarrow> int \<Rightarrow> SanitizedAttentionInterval list" where
  "covering intervals x = filter (\<lambda>i. ai_started i \<le> x \<and> x < ai_ended i) intervals"

definition agreed :: "'a list \<Rightarrow> 'a option" where
  "agreed xs = (case remdups xs of [x] \<Rightarrow> Some x | _ \<Rightarrow> None)"

definition credited :: "SanitizedAttentionInterval list \<Rightarrow> int \<Rightarrow> GroupKey option" where
  "credited intervals x =
     (let c = covering intervals x in
      if c = [] then None
      else case agreed (map (\<lambda>i. (ai_workspace_id i, ai_attribution i)) c) of
        Some key \<Rightarrow> Some key
      | None \<Rightarrow> Some (case agreed (map ai_workspace_id c) of Some w \<Rightarrow> w | None \<Rightarrow> None, Unassigned))"

lemma agreed_Cons: "agreed (x # xs) = (if \<forall>y \<in> set xs. y = x then Some x else None)"
proof (cases "\<forall>y \<in> set xs. y = x")
  case True
  then have "remdups (x # xs) = [x]" by (induction xs) auto
  then show ?thesis using True by (simp add: agreed_def)
next
  case False
  have "remdups (x # xs) \<noteq> [y]" for y
  proof
    assume "remdups (x # xs) = [y]"
    then have "insert x (set xs) = {y}" using set_remdups [of "x # xs"] by simp
    then show False using False by blast
  qed
  then have "agreed (x # xs) = None" by (simp only: agreed_def split: list.split) auto
  then show ?thesis unfolding if_not_P [OF False] .
qed

lemma agreed_map: "c \<noteq> [] \<Longrightarrow> agreed (map f c) = (if \<forall>i \<in> set c. f i = f (hd c) then Some (f (hd c)) else None)"
  by (cases c) (simp_all only: list.map agreed_Cons list.set_map ball_simps list.sel list.set, simp_all)

lemma credited_key:
  "credited intervals x = (if covering intervals x = [] then None else Some (key_of (covering intervals x)))"
proof (cases "covering intervals x = []")
  case False
  define P where "P \<longleftrightarrow> (\<forall>i \<in> set (covering intervals x). ai_workspace_id i = ai_workspace_id (hd (covering intervals x))
      \<and> ai_attribution i = ai_attribution (hd (covering intervals x)))"
  define Q where "Q \<longleftrightarrow> (\<forall>i \<in> set (covering intervals x). ai_workspace_id i = ai_workspace_id (hd (covering intervals x)))"
  note key = key_of_def [of "covering intervals x", unfolded Let_def, folded Q_def P_def]
  show ?thesis
    unfolding credited_def Let_def agreed_map [OF False] prod.inject P_def [symmetric] Q_def [symmetric] key
    using False by simp
qed (simp add: credited_def)

text \<open>The instants of a segment, and which key a list of segments gives an instant.\<close>

definition instants :: "TimeReviewSegment \<Rightarrow> int set" where
  "instants s = {sg_started s ..< sg_ended s}"

definition gives :: "(GroupKey \<times> TimeReviewSegment) list \<Rightarrow> GroupKey \<Rightarrow> int \<Rightarrow> bool" where
  "gives n k x \<longleftrightarrow> (\<exists>s. (k, s) \<in> set n \<and> x \<in> instants s)"

text \<open>Segments in order, none empty, none overlapping, all before \<open>t\<close>.\<close>

definition in_order :: "int \<Rightarrow> (GroupKey \<times> TimeReviewSegment) list \<Rightarrow> bool" where
  "in_order t n \<longleftrightarrow>
     sorted_wrt (\<lambda>a b. sg_ended (snd a) \<le> sg_started (snd b)) n
     \<and> (\<forall>(k, s) \<in> set n. sg_started s < sg_ended s \<and> sg_ended s \<le> t)"

lemma in_order_mono: "in_order t n \<Longrightarrow> t \<le> u \<Longrightarrow> in_order u n"
  by (fastforce simp: in_order_def)

lemma push_segment_spec:
  assumes "in_order started n" and "started < ended"
  shows "in_order ended (push_segment key started ended n)"
    and "gives (push_segment key started ended n) k x \<longleftrightarrow> gives n k x \<or> (k = key \<and> started \<le> x \<and> x < ended)"
proof (atomize (full), cases "n \<noteq> [] \<and> fst (last n) = key \<and> sg_ended (snd (last n)) = started")
  case True
  then obtain m s where n: "n = m @ [(key, s)]" "sg_ended s = started"
    by (metis append_butlast_last_id prod.collapse)
  have push: "push_segment key started ended n = m @ [(key, s\<lparr>sg_ended := ended\<rparr>)]"
    using n by (simp add: push_segment_def)
  have "sg_started s < started" using assms(1) n by (auto simp: in_order_def)
  then show "in_order ended (push_segment key started ended n) \<and>
      gives (push_segment key started ended n) k x = (gives n k x \<or> k = key \<and> started \<le> x \<and> x < ended)"
    unfolding push using assms n by (auto simp: in_order_def gives_def instants_def sorted_wrt_append)
next
  case False
  then have push: "push_segment key started ended n = n @ [(key, \<lparr>sg_started = started, sg_ended = ended\<rparr>)]"
    by (auto simp: push_segment_def)
  show "in_order ended (push_segment key started ended n) \<and>
      gives (push_segment key started ended n) k x = (gives n k x \<or> k = key \<and> started \<le> x \<and> x < ended)"
    unfolding push using assms by (auto simp: in_order_def gives_def instants_def sorted_wrt_append)
qed

lemma strict_sort_dedup: "sorted_wrt (<) (sort_dedup xs)" for xs :: "int list"
  by (simp add: sort_dedup_eq)

lemma boundaries_sorted: "sorted_wrt (<) (boundaries_of intervals)"
  by (simp add: boundaries_of_def strict_sort_dedup)

lemma set_boundaries: "set (boundaries_of intervals) = ai_started ` set intervals \<union> ai_ended ` set intervals"
  by (auto simp: boundaries_of_def)

text \<open>Inside a window the intervals that touch it are those that cover any of its instants.\<close>

lemma active_in_covering:
  assumes "\<forall>i \<in> set intervals. ai_started i < ai_ended i" and "(s, e) \<in> set (windows2 (boundaries_of intervals))"
    and "s \<le> x" and "x < e"
  shows "active_in intervals s e = covering intervals x"
  unfolding active_in_def covering_def
proof (rule filter_cong [OF refl])
  fix i assume i: "i \<in> set intervals"
  have "ai_started i \<le> s \<or> e \<le> ai_started i" "ai_ended i \<le> s \<or> e \<le> ai_ended i"
    using windows2_gap [OF boundaries_sorted assms(2)] i by (auto simp: set_boundaries)
  then show "(ai_started i < e \<and> ai_ended i > s) = (ai_started i \<le> x \<and> x < ai_ended i)"
    using assms(3,4) by auto
qed

lemma normalize_windows_spec:
  assumes "\<forall>i \<in> set intervals. ai_started i < ai_ended i"
  shows "set (windows2 bs) \<subseteq> set (windows2 (boundaries_of intervals)) \<Longrightarrow> sorted_wrt (<) bs
    \<Longrightarrow> (case bs of [] \<Rightarrow> n = [] | b # _ \<Rightarrow> in_order b n)
    \<Longrightarrow> \<exists>t. in_order t (normalize_windows intervals (windows2 bs) n)
      \<and> (\<forall>k x. gives (normalize_windows intervals (windows2 bs) n) k x \<longleftrightarrow>
           gives n k x \<or> (\<exists>(s, e) \<in> set (windows2 bs). s \<le> x \<and> x < e) \<and> credited intervals x = Some k)"
proof (induction bs arbitrary: n rule: windows2.induct)
  case (1 s e zs)
  let ?active = "active_in intervals s e"
  let ?n = "if ?active = [] then n else push_segment (key_of ?active) s e n"
  have se: "s < e" "in_order s n" and w: "(s, e) \<in> set (windows2 (boundaries_of intervals))" using 1(2-4) by auto
  have active: "?active = covering intervals x" if "s \<le> x" "x < e" for x
    using active_in_covering [OF assms w that] .
  have order: "in_order e ?n"
    using push_segment_spec(1) [OF se(2,1)] in_order_mono [OF se(2)] se(1) by auto
  have step: "gives ?n k x \<longleftrightarrow> gives n k x \<or> (s \<le> x \<and> x < e \<and> credited intervals x = Some k)" for k x
    using push_segment_spec(2) [OF se(2,1)] active [of x] by (auto simp: credited_key)
  have "\<exists>t. in_order t (normalize_windows intervals (windows2 (e # zs)) ?n)
      \<and> (\<forall>k x. gives (normalize_windows intervals (windows2 (e # zs)) ?n) k x \<longleftrightarrow>
           gives ?n k x \<or> (\<exists>(s, e) \<in> set (windows2 (e # zs)). s \<le> x \<and> x < e) \<and> credited intervals x = Some k)"
    using order 1(2,3) by (intro 1(1)) auto
  then show ?case unfolding step by (auto simp: Let_def)
next
  case "2_1"
  then show ?case by (intro exI [of _ 0]) (simp add: in_order_def gives_def)
next
  case "2_2"
  then show ?case by auto
qed

lemma normalized_spec:
  assumes "\<forall>i \<in> set intervals. ai_started i < ai_ended i"
    and "n = normalize_windows intervals (windows2 (boundaries_of intervals)) []"
  shows "\<exists>t. in_order t n" and "gives n k x \<longleftrightarrow> credited intervals x = Some k"
proof -
  have start: "case boundaries_of intervals of [] \<Rightarrow> ([] :: (GroupKey \<times> TimeReviewSegment) list) = [] | b # _ \<Rightarrow> in_order b []"
    by (simp add: in_order_def split: list.split)
  note spec = normalize_windows_spec [OF assms(1) subset_refl boundaries_sorted start, folded assms(2)]
  from spec show "\<exists>t. in_order t n" by blast
  have "\<exists>(s, e) \<in> set (windows2 (boundaries_of intervals)). s \<le> x \<and> x < e" if some: "credited intervals x = Some k"
  proof -
    obtain i where "i \<in> set intervals" "ai_started i \<le> x" "x < ai_ended i"
      using some by (auto simp: credited_key covering_def filter_empty_conv split: if_splits)
    then show ?thesis
      by (intro windows2_cover [OF boundaries_sorted, of "ai_started i" intervals "ai_ended i"]) (auto simp: set_boundaries)
  qed
  moreover have "gives n k x \<longleftrightarrow> gives [] k x \<or> (\<exists>(s, e) \<in> set (windows2 (boundaries_of intervals)). s \<le> x \<and> x < e)
      \<and> credited intervals x = Some k" using spec by blast
  ultimately show "gives n k x \<longleftrightarrow> credited intervals x = Some k" by (auto simp: gives_def [of "[]"])
qed

subsection \<open>Grouping\<close>

lemma grouped_segments_spec:
  "sorted_wrt (<) (map fst (grouped_segments n)) \<and>
   (\<forall>k. map_of (grouped_segments n) k =
      (if k \<in> fst ` set n then Some (map snd (filter (\<lambda>e. fst e = k) n)) else None))"
proof (induction n rule: rev_induct)
  case Nil
  then show ?case by (simp add: grouped_segments_def)
next
  case (snoc e n)
  obtain k s where e: "e = (k, s)" by (cases e)
  have step: "grouped_segments (n @ [e]) = entry_push k s (grouped_segments n)"
    by (simp add: grouped_segments_def e)
  have none: "filter (\<lambda>e. fst e = k) n = []" if "k \<notin> fst ` set n" for k
    using that by (auto simp: filter_empty_conv)
  show ?case
    unfolding step
    using snoc entry_push_sorted [of "grouped_segments n" k s] none
    by (auto simp: map_of_entry_push e)
qed

lemma in_grouped_iff:
  "(k, segs) \<in> set (grouped_segments n) \<longleftrightarrow> k \<in> fst ` set n \<and> segs = map snd (filter (\<lambda>e. fst e = k) n)"
proof -
  have "distinct (map fst (grouped_segments n))" using grouped_segments_spec [of n] by (simp add: strict_sorted_iff)
  from map_of_eq_Some_iff [OF this, of k segs]
  have "(k, segs) \<in> set (grouped_segments n) \<longleftrightarrow> map_of (grouped_segments n) k = Some segs" by blast
  then show ?thesis using grouped_segments_spec [of n] by (auto split: if_splits)
qed

lemma sum_entry_push:
  fixes f :: "TimeReviewSegment \<Rightarrow> int"
  shows "sum_list (map (\<lambda>e. sum_list (map f (snd e))) (entry_push k s m)) = f s + sum_list (map (\<lambda>e. sum_list (map f (snd e))) m)"
  by (induction k s m rule: entry_push.induct) auto

lemma sum_grouped:
  fixes f :: "TimeReviewSegment \<Rightarrow> int"
  shows "sum_list (map (\<lambda>e. sum_list (map f (snd e))) (grouped_segments n)) = sum_list (map (f \<circ> snd) n)"
proof (induction n rule: rev_induct)
  case (snoc e n)
  obtain k s where e: "e = (k, s)" by (cases e)
  have "grouped_segments (n @ [e]) = entry_push k s (grouped_segments n)" by (simp add: grouped_segments_def e)
  then show ?case using snoc by (simp add: sum_entry_push e)
qed (simp add: grouped_segments_def)

text \<open>The measure of segments in order is the number of their instants.\<close>

lemma sum_segments:
  assumes "in_order t n"
  shows "sum_list (map (segment_ms \<circ> snd) n) = int (card (\<Union>e \<in> set n. instants (snd e)))"
proof -
  have "sum_list (map (\<lambda>e. sg_ended (snd e) - sg_started (snd e)) n)
      = int (card (\<Union>e \<in> set n. {sg_started (snd e) ..< sg_ended (snd e)}))"
    using assms by (intro sum_spans) (auto simp: in_order_def)
  then show ?thesis by (simp add: segment_ms_def instants_def comp_def)
qed

lemma in_order_filter: "in_order t n \<Longrightarrow> in_order t (filter P n)"
  by (auto simp: in_order_def sorted_wrt_filter)

lemma gives_instants: "(\<Union>e \<in> set n. instants (snd e)) = {x. \<exists>k. gives n k x}"
  by (force simp: gives_def)

lemma group_of_simps [simp]:
  "tg_workspace_id (group_of (k, segs)) = fst k" "tg_attribution (group_of (k, segs)) = snd k"
  "tg_segments (group_of (k, segs)) = segs" "tg_attention_ms (group_of (k, segs)) = sum_list (map segment_ms segs)"
  by (cases k; simp add: group_of_def)+

lemma tg_attention_group: "tg_attention_ms \<circ> group_of = (\<lambda>e. sum_list (map segment_ms (snd e)))"
  by (auto simp: fun_eq_iff)

text \<open>The parts of an accepted draft.\<close>

lemma build_Inr_iff:
  "build_time_review_draft intervals = Inr draft \<longleftrightarrow>
     length intervals \<le> MAX_SANITIZED_ATTENTION_INTERVALS
     \<and> (\<forall>i \<in> set intervals. interval_ok i \<and> valid_attribution (ai_attribution i))
     \<and> (let groups = map group_of (grouped_segments (normalize_windows intervals (windows2 (boundaries_of intervals)) [])) in
        draft = \<lparr>td_schema_version = DRAFT_SCHEMA_VERSION,
          td_total_attention_ms = sum_list (map tg_attention_ms groups),
          td_unassigned_attention_ms = sum_list (map tg_attention_ms (filter (\<lambda>g. tg_attribution g = Unassigned) groups)),
          td_groups = groups\<rparr>)"
  by (auto simp: build_time_review_draft_def Let_def)

lemma sum_filtered_groups:
  "sum_list (map tg_attention_ms (filter (\<lambda>g. P (tg_attribution g)) (map group_of (grouped_segments n))))
     = sum_list (map (segment_ms \<circ> snd) (filter (\<lambda>e. P (snd (fst e))) n))"
proof (induction n rule: rev_induct)
  case (snoc e n)
  obtain k s where e: "e = (k, s)" by (cases e)
  have "grouped_segments (n @ [e]) = entry_push k s (grouped_segments n)" by (simp add: grouped_segments_def e)
  moreover have "sum_list (map tg_attention_ms (filter (\<lambda>g. P (tg_attribution g)) (map group_of (entry_push k s m))))
      = (if P (snd k) then segment_ms s else 0)
        + sum_list (map tg_attention_ms (filter (\<lambda>g. P (tg_attribution g)) (map group_of m)))" for m
    by (induction k s m rule: entry_push.induct) auto
  ultimately show ?case using snoc by (simp add: e)
qed (simp add: grouped_segments_def)

lemma accepted_intervals:
  "build_time_review_draft intervals = Inr draft \<Longrightarrow> \<forall>i \<in> set intervals. 0 \<le> ai_started i \<and> ai_started i < ai_ended i"
  by (auto simp: build_Inr_iff interval_ok_def)

lemma draft_groups:
  assumes "build_time_review_draft intervals = Inr draft"
  shows "\<exists>n t. in_order t n \<and> (\<forall>k x. gives n k x \<longleftrightarrow> credited intervals x = Some k)
    \<and> td_groups draft = map group_of (grouped_segments n)
    \<and> td_total_attention_ms draft = sum_list (map tg_attention_ms (td_groups draft))
    \<and> td_unassigned_attention_ms draft = sum_list (map tg_attention_ms (filter (\<lambda>g. tg_attribution g = Unassigned) (td_groups draft)))"
proof -
  let ?n = "normalize_windows intervals (windows2 (boundaries_of intervals)) []"
  have pos: "\<forall>i \<in> set intervals. ai_started i < ai_ended i" using accepted_intervals [OF assms] by blast
  obtain t where "in_order t ?n" using normalized_spec(1) [OF pos refl] by blast
  with normalized_spec(2) [OF pos refl] assms show ?thesis
    by (intro exI [of _ ?n] exI [of _ t]) (simp add: build_Inr_iff Let_def)
qed

text \<open>
  C28: a draft implements the specification instant by instant: an instant is in a segment of a group
  exactly when it is credited to that group's workspace and attribution, so time under
  overlapping intervals is never credited twice.
\<close>

theorem draft_credits_every_instant:
  assumes "build_time_review_draft intervals = Inr draft"
  shows "(\<exists>g \<in> set (td_groups draft). tg_workspace_id g = w \<and> tg_attribution g = a \<and> (\<exists>s \<in> set (tg_segments g). x \<in> instants s))
      \<longleftrightarrow> credited intervals x = Some (w, a)"
proof -
  obtain n where n: "\<forall>k x. gives n k x \<longleftrightarrow> credited intervals x = Some k" "td_groups draft = map group_of (grouped_segments n)"
    using draft_groups [OF assms] by blast
  have "(\<exists>g \<in> set (td_groups draft). tg_workspace_id g = w \<and> tg_attribution g = a \<and> (\<exists>s \<in> set (tg_segments g). x \<in> instants s))
      \<longleftrightarrow> (\<exists>segs. ((w, a), segs) \<in> set (grouped_segments n) \<and> (\<exists>s \<in> set segs. x \<in> instants s))"
    unfolding n(2) by force
  also have "\<dots> \<longleftrightarrow> gives n (w, a) x" unfolding in_grouped_iff gives_def by force
  finally show ?thesis using n(1) by blast
qed

text \<open>
  C29: a draft is well formed: every group is listed once in the order of its key, its segments are
  not empty, in order and apart, and its attention is the sum of their lengths.
\<close>

theorem draft_well_formed:
  assumes "build_time_review_draft intervals = Inr draft"
  shows "sorted_wrt (<) (map (\<lambda>g. (tg_workspace_id g, tg_attribution g)) (td_groups draft))
    \<and> (\<forall>g \<in> set (td_groups draft). tg_segments g \<noteq> [] \<and> tg_attention_ms g = sum_list (map segment_ms (tg_segments g))
        \<and> sorted_wrt (\<lambda>s t. sg_ended s \<le> sg_started t) (tg_segments g)
        \<and> (\<forall>s \<in> set (tg_segments g). sg_started s < sg_ended s))"
proof -
  obtain n t where n: "in_order t n" "td_groups draft = map group_of (grouped_segments n)"
    using draft_groups [OF assms] by blast
  have "(\<lambda>g. (tg_workspace_id g, tg_attribution g)) \<circ> group_of = fst" by (auto simp: fun_eq_iff)
  then have "sorted_wrt (<) (map (\<lambda>g. (tg_workspace_id g, tg_attribution g)) (td_groups draft))"
    using grouped_segments_spec [of n] by (simp add: n(2))
  moreover have "tg_segments g \<noteq> [] \<and> tg_attention_ms g = sum_list (map segment_ms (tg_segments g))
        \<and> sorted_wrt (\<lambda>s t. sg_ended s \<le> sg_started t) (tg_segments g)
        \<and> (\<forall>s \<in> set (tg_segments g). sg_started s < sg_ended s)" if g: "g \<in> set (td_groups draft)" for g
  proof -
    obtain k segs where "(k, segs) \<in> set (grouped_segments n)" "g = group_of (k, segs)" using g n(2) by auto
    then have "k \<in> fst ` set n" "tg_segments g = map snd (filter (\<lambda>e. fst e = k) n)"
        "tg_attention_ms g = sum_list (map segment_ms (tg_segments g))"
      by (simp_all add: in_grouped_iff)
    then show ?thesis using in_order_filter [OF n(1), of "\<lambda>e. fst e = k"]
      by (auto simp: in_order_def sorted_wrt_map filter_empty_conv)
  qed
  ultimately show ?thesis by blast
qed

text \<open>
  The total is the number of milliseconds under at least one interval, the unassigned total the
  number of those credited to nobody, and both are \<open>i64\<close> values when the interval ends are.
\<close>

theorem draft_totals:
  assumes "build_time_review_draft intervals = Inr draft" and "\<forall>i \<in> set intervals. ai_ended i \<le> i64_max"
  shows "td_total_attention_ms draft = int (card {x. \<exists>i \<in> set intervals. ai_started i \<le> x \<and> x < ai_ended i})
    \<and> td_unassigned_attention_ms draft = int (card {x. \<exists>w. credited intervals x = Some (w, Unassigned)})
    \<and> td_unassigned_attention_ms draft \<le> td_total_attention_ms draft \<and> td_total_attention_ms draft \<le> i64_max"
proof -
  obtain n t where n: "in_order t n" "\<forall>k x. gives n k x \<longleftrightarrow> credited intervals x = Some k"
      "td_groups draft = map group_of (grouped_segments n)"
    and totals: "td_total_attention_ms draft = sum_list (map tg_attention_ms (td_groups draft))"
      "td_unassigned_attention_ms draft = sum_list (map tg_attention_ms (filter (\<lambda>g. tg_attribution g = Unassigned) (td_groups draft)))"
    using draft_groups [OF assms(1)] by blast
  let ?all = "{x. \<exists>i \<in> set intervals. ai_started i \<le> x \<and> x < ai_ended i}"
  let ?none = "{x. \<exists>w. credited intervals x = Some (w, Unassigned)}"
  have "td_total_attention_ms draft = int (card {x. \<exists>k. gives n k x})"
    unfolding totals(1) n(3) map_map tg_attention_group sum_grouped sum_segments [OF n(1)] gives_instants ..
  moreover have all: "{x. \<exists>k. gives n k x} = ?all"
    using n(2) by (auto simp: credited_key covering_def filter_empty_conv)
  ultimately have total_eq: "td_total_attention_ms draft = int (card ?all)" by simp
  let ?m = "filter (\<lambda>e. snd (fst e) = Unassigned) n"
  have "td_unassigned_attention_ms draft = int (card {x. \<exists>k. gives ?m k x})"
    unfolding totals(2) n(3) sum_filtered_groups [of "\<lambda>a. a = Unassigned"]
      sum_segments [OF in_order_filter [OF n(1)]] gives_instants ..
  moreover have "gives ?m k x \<longleftrightarrow> snd k = Unassigned \<and> gives n k x" for k x by (auto simp: gives_def)
  then have "{x. \<exists>k. gives ?m k x} = ?none" using n(2) by force
  ultimately have none_eq: "td_unassigned_attention_ms draft = int (card ?none)" by simp
  have bound: "?all \<subseteq> {0..<i64_max}" using accepted_intervals [OF assms(1)] assms(2) by fastforce
  then have "card ?all \<le> card {0..<i64_max}" by (intro card_mono) simp_all
  moreover have "?none \<subseteq> ?all" by (auto simp: credited_key covering_def filter_empty_conv split: if_splits)
  then have "card ?none \<le> card ?all" using finite_subset [OF bound] by (intro card_mono) simp_all
  ultimately show ?thesis using total_eq none_eq by (simp add: i64_max_def)
qed

subsection \<open>The schedule\<close>

text \<open>The instant at which the review of a local day falls due.\<close>

definition due_at :: "TimeReviewSchedule \<Rightarrow> int \<Rightarrow> int" where
  "due_at S day = day * MILLIS_PER_DAY + minute_of_local_day S * MILLIS_PER_MINUTE - utc_offset_minutes S * MILLIS_PER_MINUTE"

text \<open>
  C30: a valid schedule is at the last due day \<open>L\<close>, the one whose instant is the latest not after now;
  it is due when that day is the next to review, catches up when more days are open, and
  otherwise waits for the next instant, which is after now; every time in the answer is an
  \<open>i64\<close> while now is a day short of its limit.
\<close>

theorem schedule_follows_due_days:
  assumes "0 \<le> minute_of_local_day S" and "minute_of_local_day S < 1440" and "\<bar>utc_offset_minutes S\<bar> \<le> 840"
    and "0 \<le> now_ms" and "now_ms \<le> i64_max - 2 * MILLIS_PER_DAY"
  shows "\<exists>L. due_at S L \<le> now_ms \<and> now_ms < due_at S (L + 1) \<and> \<bar>due_at S L\<bar> \<le> i64_max \<and> due_at S (L + 1) \<le> i64_max
    \<and> time_review_schedule_state S now_ms completed = Inr (case completed of
        None \<Rightarrow> Due L (due_at S L)
      | Some d \<Rightarrow> if d \<ge> L then NotDue (due_at S (L + 1))
          else if d = L - 1 then Due L (due_at S L)
          else CatchUp (d + 1) L (if L - d \<le> int u32_max then L - d else int u32_max))"
proof -
  define m where "m = minute_of_local_day S"
  define b where "b = now_ms + utc_offset_minutes S * 60000"
  define q where "q = b div 86400000"
  define r where "r = b mod 86400000"
  have b: "b = 86400000 * q + r" "0 \<le> r" "r < 86400000" by (simp_all add: q_def r_def)
  have minute: "r div 60000 \<ge> m \<longleftrightarrow> r \<ge> m * 60000"
  proof -
    have "r = r div 60000 * 60000 + r mod 60000" "0 \<le> r mod 60000" "r mod 60000 < 60000" by simp_all
    then show ?thesis by linarith
  qed
  define L where "L = (if r div 60000 \<ge> m then q else q - 1)"
  have due: "due_at S d = 86400000 * d + 60000 * m - 60000 * utc_offset_minutes S" for d
    by (simp add: due_at_def draft_limits m_def)
  have now: "now_ms = 86400000 * q + r - 60000 * utc_offset_minutes S" using b(1) by (simp add: b_def)
  have between: "due_at S L \<le> now_ms" "now_ms < due_at S (L + 1)"
    using b(2,3) assms(1,2) minute unfolding due now L_def m_def [symmetric] by (auto simp: m_def)
  have valid: "i16_abs (utc_offset_minutes S) \<le> 840" using assms(3) by (auto simp: i16_abs_def)
  have state: "time_review_schedule_state S now_ms completed = Inr (case completed of
        None \<Rightarrow> Due L (due_at S L)
      | Some d \<Rightarrow> if d \<ge> L then NotDue (due_at S (L + 1))
          else if i64_saturating_sub L d > 1 then CatchUp (d + 1) L (clamp_u32 (i64_saturating_sub L d))
          else Due L (due_at S L))"
  proof -
    have "\<not> (minute_of_local_day S \<ge> 24 * 60 \<or> i16_abs (utc_offset_minutes S) > MAX_UTC_OFFSET_MINUTES \<or> now_ms < 0)"
      using valid assms(2,4) by (simp add: MAX_UTC_OFFSET_MINUTES_def)
    moreover have "now_ms + utc_offset_minutes S * MILLIS_PER_MINUTE = b" by (simp add: b_def MILLIS_PER_MINUTE_def)
    moreover have "b div MILLIS_PER_DAY = q" "b mod MILLIS_PER_DAY div MILLIS_PER_MINUTE = r div 60000"
      by (simp_all add: q_def r_def MILLIS_PER_DAY_def MILLIS_PER_MINUTE_def)
    ultimately show ?thesis
      unfolding time_review_schedule_state_def
      by (cases "r div 60000 \<ge> m") (simp_all add: Let_def L_def m_def [symmetric] due_at_def split: option.split)
  qed
  have "i64_saturating_sub L d > 1 \<longleftrightarrow> d \<noteq> L - 1" "clamp_u32 (i64_saturating_sub L d) = (if L - d \<le> int u32_max then L - d else int u32_max)"
    if "d < L" for d
    using that by (auto simp: i64_saturating_sub_def clamp_u32_def u32_try_from_def i64_max_def u32_max_def split: option.split)
  note sub = this
  have utc: "- 840 \<le> utc_offset_minutes S" "utc_offset_minutes S \<le> 840" using assms(3) by auto
  have "86400000 * q > 86400000 * - 2" using b(2,3) now utc assms(4) by linarith
  then have "q \<ge> - 1" by linarith
  moreover have "q - 1 \<le> L" "L \<le> q" by (simp_all add: L_def)
  ultimately have "0 \<le> L * 86400000 + 86400000 * 2" "L * 86400000 \<le> now_ms + 60000 * 840"
    using b(2,3) now utc by linarith+
  then have "\<bar>due_at S L\<bar> \<le> i64_max" "due_at S (L + 1) \<le> i64_max"
    using between assms unfolding due m_def by (auto simp: i64_max_def draft_limits abs_le_iff)
  with between show ?thesis
    unfolding state by (intro exI [of _ L]) (auto simp: sub split: option.split)
qed

lemma least_offset_passes:
  "time_review_schedule_state \<lparr>minute_of_local_day = 0, utc_offset_minutes = -32768\<rparr> 0 None = Inr (Due (-23) (-21120000))"
  by code_simp

subsection \<open>An example\<close>

text \<open>Two intervals of one workspace that overlap from 5 to 10 and disagree there.\<close>

definition sample_intervals :: "SanitizedAttentionInterval list" where
  "sample_intervals =
     [\<lparr>ai_schema_version = 1, ai_started = 0, ai_ended = 10, ai_workspace_id = Some 1, ai_attribution = ExistingJira (lit ''AB-1'')\<rparr>,
      \<lparr>ai_schema_version = 1, ai_started = 5, ai_ended = 15, ai_workspace_id = Some 1, ai_attribution = ExistingJira (lit ''AB-2'')\<rparr>]"

definition sample_draft :: TimeReviewDraft where
  "sample_draft = (case build_time_review_draft sample_intervals of
     Inr d \<Rightarrow> d | Inl _ \<Rightarrow> \<lparr>td_schema_version = 0, td_total_attention_ms = 0, td_unassigned_attention_ms = 0, td_groups = []\<rparr>)"

lemma sample_draft: "build_time_review_draft sample_intervals = Inr sample_draft"
  by code_simp

theorem draft_credits_every_instant_witness:
  "(\<exists>g \<in> set (td_groups sample_draft). tg_workspace_id g = Some 1 \<and> tg_attribution g = Unassigned
      \<and> (\<exists>s \<in> set (tg_segments g). 7 \<in> instants s))
   \<and> \<not> (\<exists>g \<in> set (td_groups sample_draft). tg_workspace_id g = Some 1 \<and> tg_attribution g = ExistingJira (lit ''AB-1'')
      \<and> (\<exists>s \<in> set (tg_segments g). 7 \<in> instants s))"
  unfolding draft_credits_every_instant [OF sample_draft] by code_simp

theorem draft_well_formed_witness:
  "sorted_wrt (<) (map (\<lambda>g. (tg_workspace_id g, tg_attribution g)) (td_groups sample_draft))"
  using draft_well_formed [OF sample_draft] by blast

theorem draft_totals_witness:
  "td_total_attention_ms sample_draft = int (card {x. (0::int) \<le> x \<and> x < 15})"
proof -
  have "\<forall>i \<in> set sample_intervals. ai_ended i \<le> i64_max" by (simp add: sample_intervals_def i64_max_def)
  moreover have "{x. \<exists>i \<in> set sample_intervals. ai_started i \<le> x \<and> x < ai_ended i} = {x. 0 \<le> x \<and> x < 15}"
    by (auto simp: sample_intervals_def)
  ultimately show ?thesis using draft_totals [OF sample_draft] by simp
qed

theorem schedule_follows_due_days_witness:
  "time_review_schedule_state \<lparr>minute_of_local_day = 60, utc_offset_minutes = 120\<rparr> (10 * 86400000) (Some 7)
     = Inr (CatchUp 8 10 3)"
proof -
  let ?S = "\<lparr>minute_of_local_day = 60, utc_offset_minutes = 120\<rparr>"
  obtain L where L: "due_at ?S L \<le> 10 * 86400000" "10 * 86400000 < due_at ?S (L + 1)"
    "time_review_schedule_state ?S (10 * 86400000) (Some 7) = Inr (if 7 \<ge> L then NotDue (due_at ?S (L + 1))
          else if 7 = L - 1 then Due L (due_at ?S L)
          else CatchUp (7 + 1) L (if L - 7 \<le> int u32_max then L - 7 else int u32_max))"
    using schedule_follows_due_days [of ?S "10 * 86400000" "Some 7"] by (auto simp: draft_limits i64_max_def)
  have "L = 10" using L(1,2) by (simp add: due_at_def draft_limits)
  with L(3) show ?thesis by (simp add: u32_max_def)
qed

end
