(* ===== verification/Rust_Text.thy ===== *)
theory Rust_Text
  imports Rust_Prelude
begin

text \<open>
  The operations on text that only some components use: lines, trimming by a predicate, patterns
  that are strings, decimal numbers with a sign, byte offsets that are character boundaries, and the
  strict UTF-8 decoder.
\<close>

subsection \<open>Lines\<close>

text \<open>\<open>str::lines\<close>: a line feed ends a line, with the carriage return before it.\<close>

definition strip_cr :: "str \<Rightarrow> str" where
  "strip_cr l = (if l \<noteq> [] \<and> last l = 13 then butlast l else l)"

fun lines_from :: "str \<Rightarrow> str \<Rightarrow> str list" where
  "lines_from l [] = (if l = [] then [] else [rev l])"
| "lines_from l (c # cs) = (if c = 10 then strip_cr (rev l) # lines_from [] cs else lines_from (c # l) cs)"

definition str_lines :: "str \<Rightarrow> str list" where
  "str_lines s = lines_from [] s"

text \<open>A text whose lines all end.\<close>

definition unlines :: "str list \<Rightarrow> str" where
  "unlines ls = concat (map (\<lambda>l. l @ [10]) ls)"

lemma unlines_simps [simp]:
  "unlines [] = []"
  "unlines (l # ls) = l @ 10 # unlines ls"
  by (simp_all add: unlines_def)

lemma lines_from_line: "10 \<notin> set l \<Longrightarrow> lines_from k (l @ 10 # s) = strip_cr (rev k @ l) # lines_from [] s"
  by (induction l arbitrary: k) simp_all

lemma str_lines_line: "10 \<notin> set l \<Longrightarrow> str_lines (l @ 10 # s) = strip_cr l # str_lines s"
  by (simp add: str_lines_def lines_from_line)

lemma str_lines_unlines: "list_all (\<lambda>l. 10 \<notin> set l) ls \<Longrightarrow> str_lines (unlines ls) = map strip_cr ls"
  by (induction ls) (simp_all add: str_lines_line str_lines_def [of "[]"])

lemma strip_cr_id [simp]: "13 \<notin> set l \<Longrightarrow> strip_cr l = l"
  unfolding strip_cr_def by (metis last_in_set)

lemma strip_cr_append: "x \<noteq> [] \<Longrightarrow> last x \<noteq> 13 \<Longrightarrow> strip_cr (x @ y) = x @ strip_cr y"
  by (cases "y = []") (simp_all add: strip_cr_def butlast_append)

lemma strip_cr_prefix: "\<exists>r. l = strip_cr l @ r"
  using append_butlast_last_id [of l] by (cases "l \<noteq> [] \<and> last l = 13") (auto simp: strip_cr_def intro: exI [of _ "[13]"])

lemma strip_cr_Cons: "c \<noteq> 13 \<Longrightarrow> strip_cr (c # cs) = c # strip_cr cs"
  by (simp add: strip_cr_def)

lemma set_str_lines: "l \<in> set (str_lines s) \<Longrightarrow> set l \<subseteq> set s"
proof -
  have "set l \<subseteq> set k \<union> set s" if "l \<in> set (lines_from k s)" for k
    using that
  proof (induction k s rule: lines_from.induct)
    case (2 k c cs)
    have "set (strip_cr (rev k)) \<subseteq> set k" using strip_cr_prefix [of "rev k"] by (metis Un_upper1 set_append set_rev)
    with 2 show ?case by (auto split: if_splits)
  qed (auto split: if_splits)
  then show "l \<in> set (str_lines s) \<Longrightarrow> set l \<subseteq> set s" by (fastforce simp: str_lines_def)
qed

subsection \<open>Options\<close>

definition or_else :: "'a option \<Rightarrow> 'a option \<Rightarrow> 'a option" where
  "or_else m n = (case m of None \<Rightarrow> n | Some x \<Rightarrow> Some x)"

definition unwrap_or :: "'a option \<Rightarrow> 'a \<Rightarrow> 'a" where
  "unwrap_or m x = (case m of None \<Rightarrow> x | Some y \<Rightarrow> y)"

subsection \<open>Patterns\<close>

text \<open>\<open>trim_matches\<close> and \<open>trim_start_matches\<close> on a predicate, and the latter on a string.\<close>

definition trim_matches :: "(rchar \<Rightarrow> bool) \<Rightarrow> str \<Rightarrow> str" where
  "trim_matches p s = rev (dropWhile p (rev (dropWhile p s)))"

lemma set_trim_matches: "set (trim_matches p s) \<subseteq> set s"
  by (auto simp: trim_matches_def dest!: set_dropWhileD)

text \<open>\<open>split\<close> on a predicate.\<close>

fun split_where :: "(rchar \<Rightarrow> bool) \<Rightarrow> str \<Rightarrow> str list" where
  "split_where p [] = [[]]"
| "split_where p (c # cs) =
     (if p c then [] # split_where p cs
      else (case split_where p cs of [] \<Rightarrow> [[c]] | w # ws \<Rightarrow> (c # w) # ws))"

function trim_start_str :: "str \<Rightarrow> str \<Rightarrow> str" where
  "trim_start_str p s = (if p \<noteq> [] \<and> starts_with p s \<and> s \<noteq> [] then trim_start_str p (drop (length p) s) else s)"
  by auto
termination by (relation "measure (length \<circ> snd)") auto

declare trim_start_str.simps [simp del]

definition strip_suffix :: "str \<Rightarrow> str \<Rightarrow> str option" where
  "strip_suffix p s = map_option rev (strip_prefix (rev p) (rev s))"

lemma starts_with_append [simp]: "starts_with p (p @ s)"
  by (simp add: starts_with_def)

lemma strip_prefix_append [simp]: "strip_prefix p (p @ s) = Some s"
  by (simp add: strip_prefix_def)

lemma strip_suffix_append [simp]: "strip_suffix p (s @ p) = Some s"
  by (simp add: strip_suffix_def)

lemma starts_with_Cons [simp]: "starts_with (x # p) (y # s) \<longleftrightarrow> x = y \<and> starts_with p s"
  by (auto simp: starts_with_def)

lemma starts_with_Nil [simp]: "starts_with [] s" "starts_with p [] \<longleftrightarrow> p = []"
  by (auto simp: starts_with_def)

text \<open>\<open>split_once\<close> on a non-empty string, at its first occurrence.\<close>

fun split_once_str :: "str \<Rightarrow> str \<Rightarrow> (str \<times> str) option" where
  "split_once_str p [] = None"
| "split_once_str p (c # cs) =
     (if starts_with p (c # cs) then Some ([], drop (length p) (c # cs))
      else map_option (\<lambda>(a, b). (c # a, b)) (split_once_str p cs))"

text \<open>The first piece of \<open>rsplit\<close>: what follows the last occurrence, or all of the text.\<close>

definition after_last :: "str \<Rightarrow> str \<Rightarrow> str" where
  "after_last p s = (case split_once_str (rev p) (rev s) of None \<Rightarrow> s | Some (piece, _) \<Rightarrow> rev piece)"

lemma split_once_str_append:
  "hd p \<notin> set a \<Longrightarrow> p \<noteq> [] \<Longrightarrow> split_once_str p (a @ p @ b) = Some (a, b)"
proof (induction a)
  case Nil
  then show ?case by (cases p) simp_all
next
  case (Cons x a)
  then show ?case by (cases p) simp_all
qed

subsection \<open>Numbers\<close>

text \<open>\<open>str::parse\<close> of an unsigned integer: one plus sign may come first.\<close>

definition parse_unsigned :: "nat \<Rightarrow> str \<Rightarrow> nat option" where
  "parse_unsigned maximum s =
     (let ds = (case s of c # rest \<Rightarrow> if c = chr CHR ''+'' then rest else s | [] \<Rightarrow> []) in
      if ds \<noteq> [] \<and> list_all is_ascii_digit ds \<and> digits_value ds \<le> maximum then Some (digits_value ds) else None)"

definition parse_u32 :: "str \<Rightarrow> nat option" where
  "parse_u32 = parse_unsigned u32_max"

lemma show_nat_is_digits: "show_nat n \<noteq> [] \<and> list_all is_ascii_digit (show_nat n)"
proof (induction n rule: show_nat.induct)
  case (1 n)
  then show ?case by (subst (1 2) show_nat.simps) (cases "n < 10", simp_all add: is_ascii_digit_def [of "48 + _"])
qed

lemma length_show_nat_le: "n < 10 ^ k \<Longrightarrow> 0 < k \<Longrightarrow> length (show_nat n) \<le> k"
proof (induction n arbitrary: k rule: show_nat.induct)
  case (1 n)
  show ?case
  proof (cases "n < 10")
    case True
    then show ?thesis using 1(3) by (subst show_nat.simps) (simp add: less_Suc_eq_le)
  next
    case False
    then obtain j where k: "k = Suc j" "0 < j" 
    proof (cases k)
      case (Suc j)
      then show ?thesis using 1(2) False that by (cases j) auto
    qed (use 1(3) in simp)
    then have "n div 10 < 10 ^ j" using 1(2) by (simp add: less_mult_imp_div_less mult.commute)
    then have "length (show_nat (n div 10)) \<le> j" using 1(1) False k(2) by simp
    then show ?thesis using False k(1) by (subst show_nat.simps) simp
  qed
qed

lemma parse_u32_show: "n \<le> u32_max \<Longrightarrow> parse_u32 (show_nat n) = Some n"
proof -
  assume n: "n \<le> u32_max"
  obtain d ds where "show_nat n = d # ds" "is_ascii_digit d" using show_nat_is_digits [of n]
    by (cases "show_nat n") auto
  then have "(case show_nat n of c # rest \<Rightarrow> if c = chr CHR ''+'' then rest else show_nat n | [] \<Rightarrow> []) = show_nat n"
    by (simp add: is_ascii_digit_def chr_def)
  with n show ?thesis using show_nat_is_digits [of n] by (simp add: parse_u32_def parse_unsigned_def)
qed

text \<open>\<open>u32::try_from\<close> of an unsigned integer.\<close>

definition u32_of_nat :: "nat \<Rightarrow> nat option" where
  "u32_of_nat n = (if n \<le> u32_max then Some n else None)"

lemma parse_unsigned_le: "parse_unsigned maximum s = Some n \<Longrightarrow> n \<le> maximum"
  by (simp add: parse_unsigned_def Let_def split: if_splits)

text \<open>A result that must fit \<open>i64\<close>, and the decimal form of a signed integer.\<close>

definition i64_checked :: "int \<Rightarrow> int option" where
  "i64_checked i = (if - i64_max - 1 \<le> i \<and> i \<le> i64_max then Some i else None)"

definition show_int :: "int \<Rightarrow> str" where
  "show_int i = (if i < 0 then lit ''-'' @ show_nat (nat (- i)) else show_nat (nat i))"

definition u32_saturating_add :: "nat \<Rightarrow> nat \<Rightarrow> nat" where
  "u32_saturating_add m n = min u32_max (m + n)"

subsection \<open>Byte offsets\<close>

lemma utf8_len_pos: "0 < utf8_len c" by (simp add: utf8_len_def)

text \<open>The number of characters before a byte offset, if it is a boundary.\<close>

fun chars_before :: "str \<Rightarrow> nat \<Rightarrow> nat option" where
  "chars_before [] i = (if i = 0 then Some 0 else None)"
| "chars_before (c # cs) i =
     (if i = 0 then Some 0
      else if utf8_len c \<le> i then map_option Suc (chars_before cs (i - utf8_len c)) else None)"

text \<open>The slice up to an offset that is moved back to a boundary, one byte at a time.\<close>

fun slice_to :: "str \<Rightarrow> nat \<Rightarrow> str" where
  "slice_to s i =
     (if i = 0 then [] else case chars_before s i of Some n \<Rightarrow> take n s | None \<Rightarrow> slice_to s (i - 1))"

declare slice_to.simps [simp del]

lemma chars_before_len: "chars_before s i = Some n \<Longrightarrow> str_len (take n s) = i"
  by (induction s i arbitrary: n rule: chars_before.induct) (auto split: if_splits)

lemma slice_to_len: "str_len (slice_to s i) \<le> i"
proof (induction i)
  case (Suc i)
  then show ?case by (subst slice_to.simps) (auto split: option.split dest: chars_before_len)
qed (simp add: slice_to.simps)

lemma slice_to_prefix: "\<exists>rest. s = slice_to s i @ rest"
proof (induction i)
  case (Suc i)
  then show ?case by (subst slice_to.simps) (auto split: option.split intro: append_take_drop_id [symmetric])
qed (simp add: slice_to.simps)

lemma chars_before_all: "chars_before s (str_len s) = Some (length s)"
  by (induction s) (simp_all add: utf8_len_pos)

lemma slice_to_all: "slice_to s (str_len s) = s"
  using length_le_str_len [of s] by (subst slice_to.simps) (auto simp: chars_before_all)

subsection \<open>UTF-8\<close>

definition is_scalar :: "rchar \<Rightarrow> bool" where
  "is_scalar c \<longleftrightarrow> c < 55296 \<or> 57344 \<le> c \<and> c < 1114112"

text \<open>The character that the first bytes of a text stand for, if they are the bytes of one.\<close>

definition decode_char :: "nat list \<Rightarrow> rchar option" where
  "decode_char bs =
     (let byte = (\<lambda>i. if i < length bs then bs ! i else 0) in
      List.find (\<lambda>c. is_scalar c \<and> utf8_char c = take (utf8_len c) bs)
        [byte 0,
         (byte 0 - 192) * 64 + (byte 1 - 128),
         (byte 0 - 224) * 4096 + (byte 1 - 128) * 64 + (byte 2 - 128),
         (byte 0 - 240) * 262144 + (byte 1 - 128) * 4096 + (byte 2 - 128) * 64 + (byte 3 - 128)])"

text \<open>\<open>String::from_utf8\<close>.\<close>

function from_utf8 :: "nat list \<Rightarrow> str option" where
  "from_utf8 [] = Some []"
| "from_utf8 (b # bs) =
     (case decode_char (b # bs) of
        None \<Rightarrow> None
      | Some c \<Rightarrow> map_option (Cons c) (from_utf8 (drop (utf8_len c) (b # bs))))"
  by pat_completeness auto
termination by (relation "measure length") (auto simp: utf8_len_pos)

lemma decode_char_found: "decode_char bs = Some c \<Longrightarrow> is_scalar c \<and> utf8_char c = take (utf8_len c) bs"
  by (auto simp: decode_char_def Let_def find_Some_iff simp del: find.simps)

lemma digits3: "c div 4096 * 4096 + c div 64 mod 64 * 64 + c mod 64 = (c::nat)"
proof -
  have "c div 4096 * 4096 + c div 64 mod 64 * 64 = (c div 64 div 64 * 64 + c div 64 mod 64) * 64"
    by (simp add: div_mult2_eq [symmetric])
  also have "\<dots> = c div 64 * 64" by (simp only: div_mult_mod_eq)
  finally show ?thesis by (simp only: div_mult_mod_eq)
qed

lemma digits4: "c div 262144 * 262144 + c div 4096 mod 64 * 4096 + c div 64 mod 64 * 64 + c mod 64 = (c::nat)"
proof -
  have "c div 262144 * 262144 + c div 4096 mod 64 * 4096 = (c div 4096 div 64 * 64 + c div 4096 mod 64) * 4096"
    by (simp add: div_mult2_eq [symmetric])
  also have "\<dots> = c div 4096 * 4096" by (simp only: div_mult_mod_eq)
  finally show ?thesis by (simp only: digits3)
qed

lemma decode_utf8_char: "is_scalar c \<Longrightarrow> decode_char (utf8_char c @ bs) = Some c"
proof -
  assume c: "is_scalar c"
  let ?bs = "utf8_char c @ bs"
  let ?ok = "\<lambda>d. is_scalar d \<and> utf8_char d = take (utf8_len d) ?bs"
  have "d = c" if "?ok d" for d
  proof -
    have "?bs = utf8_char d @ drop (utf8_len d) ?bs" using that by (metis append_take_drop_id)
    then show ?thesis using utf8_char_eq by metis
  qed
  moreover have "?ok c" using c by simp
  moreover have "decode_char ?bs \<noteq> None"
  proof -
    let ?byte = "\<lambda>i. if i < length ?bs then ?bs ! i else 0"
    let ?cs = "[?byte 0, (?byte 0 - 192) * 64 + (?byte 1 - 128),
      (?byte 0 - 224) * 4096 + (?byte 1 - 128) * 64 + (?byte 2 - 128),
      (?byte 0 - 240) * 262144 + (?byte 1 - 128) * 4096 + (?byte 2 - 128) * 64 + (?byte 3 - 128)]"
    have "c \<in> set ?cs"
      using digits3 [of c] digits4 [of c] by (cases "c < 128"; cases "c < 2048"; cases "c < 65536") (simp_all add: utf8_char_def)
    then have "\<not> (\<not> (\<exists>x. x \<in> set ?cs \<and> ?ok x))" using \<open>?ok c\<close> by blast
    then show ?thesis unfolding decode_char_def Let_def find_None_iff .
  qed
  ultimately show ?thesis using decode_char_found by blast
qed

lemma from_utf8_as_bytes: "list_all is_scalar s \<Longrightarrow> from_utf8 (as_bytes s) = Some s"
proof (induction s)
  case (Cons c s)
  obtain b bs where b: "utf8_char c @ as_bytes s = b # bs"
    by (cases "utf8_char c @ as_bytes s") (auto simp: utf8_char_def split: if_splits)
  have "decode_char (b # bs) = Some c" using Cons.prems decode_utf8_char b by (metis list.pred_inject(2))
  moreover have "drop (utf8_len c) (b # bs) = as_bytes s" by (simp flip: b)
  ultimately show ?case using Cons b by (simp only: as_bytes_simps b from_utf8.simps option.case) (simp add: Cons)
qed simp

end
