(* ===== verification/Activity_Time.thy ===== *)
theory Activity_Time
  imports Contracts Rust_Text
begin

text \<open>
  The time stamps of \<open>wts-integrations/src/activity_watch.rs\<close>: \<open>unix_milliseconds_to_rfc3339\<close>,
  which writes the bounds of a request, \<open>parse_rfc3339_milliseconds\<close>, which reads the time of an
  event, and the civil calendar both use. The divisions of the source have operands that are not
  negative, or are \<open>div_euclid\<close>, so both are \<open>div\<close>.
\<close>

subsection \<open>The civil calendar\<close>

definition year_of_era :: "int \<Rightarrow> int" where
  "year_of_era day_of_era =
     (day_of_era - day_of_era div 1460 + day_of_era div 36524 - day_of_era div 146096) div 365"

definition civil_from_days :: "int \<Rightarrow> int \<times> int \<times> int" where
  "civil_from_days days =
     (let shifted = days + 719468;
          era = shifted div 146097;
          day_of_era = shifted - era * 146097;
          yoe = year_of_era day_of_era;
          year = yoe + era * 400;
          day_of_year = day_of_era - (365 * yoe + yoe div 4 - yoe div 100);
          month_prime = (5 * day_of_year + 2) div 153;
          day = day_of_year - (153 * month_prime + 2) div 5 + 1;
          month = month_prime + (if month_prime < 10 then 3 else - 9);
          year = year + (if month \<le> 2 then 1 else 0) in
      (year, month, day))"

definition days_from_civil :: "int \<Rightarrow> int \<Rightarrow> int \<Rightarrow> int" where
  "days_from_civil year month day =
     (let adjusted_year = year - (if month \<le> 2 then 1 else 0);
          era = adjusted_year div 400;
          yoe = adjusted_year - era * 400;
          adjusted_month = month + (if month > 2 then - 3 else 9);
          day_of_year = (153 * adjusted_month + 2) div 5 + day - 1;
          day_of_era = yoe * 365 + yoe div 4 - yoe div 100 + day_of_year in
      era * 146097 + day_of_era - 719468)"

definition days_in_month :: "int \<Rightarrow> int \<Rightarrow> int" where
  "days_in_month year month =
     (if month = 2 then (if year mod 4 = 0 \<and> (year mod 100 \<noteq> 0 \<or> year mod 400 = 0) then 29 else 28)
      else if month = 4 \<or> month = 6 \<or> month = 9 \<or> month = 11 then 30 else 31)"

subsection \<open>Writing\<close>

text \<open>The format \<open>{:0w}\<close> of a number that is not negative.\<close>

definition pad0 :: "nat \<Rightarrow> int \<Rightarrow> str" where
  "pad0 w i = (let digits = show_nat (nat i) in replicate (w - length digits) (chr CHR ''0'') @ digits)"

definition unix_milliseconds_to_rfc3339 :: "int \<Rightarrow> str option" where
  "unix_milliseconds_to_rfc3339 value =
     (if value < 0 then None else
      let seconds = value div 1000;
          milliseconds = value mod 1000;
          days = seconds div 86400;
          seconds_in_day = seconds mod 86400 in
      case civil_from_days days of (year, month, day) \<Rightarrow>
      let hour = seconds_in_day div 3600;
          minute = seconds_in_day mod 3600 div 60;
          second = seconds_in_day mod 60 in
      Some (pad0 4 year @ lit ''-'' @ pad0 2 month @ lit ''-'' @ pad0 2 day @ lit ''T'' @ pad0 2 hour @ lit '':''
        @ pad0 2 minute @ lit '':'' @ pad0 2 second @ lit ''.'' @ pad0 3 milliseconds @ lit ''Z''))"

subsection \<open>Reading\<close>

text \<open>\<open>slice::get\<close> with an index and with a range, and checked arithmetic.\<close>

definition byte_at :: "nat list \<Rightarrow> nat \<Rightarrow> nat option" where
  "byte_at bytes i = (if i < length bytes then Some (bytes ! i) else None)"

definition byte_range :: "nat list \<Rightarrow> nat \<Rightarrow> nat \<Rightarrow> nat list option" where
  "byte_range bytes a b = (if b \<le> length bytes then Some (take (b - a) (drop a bytes)) else None)"

definition u32_checked :: "nat \<Rightarrow> nat option" where
  "u32_checked n = (if n \<le> u32_max then Some n else None)"

fun digits_fold :: "nat \<Rightarrow> nat list \<Rightarrow> nat option" where
  "digits_fold v [] = Some v"
| "digits_fold v (b # bs) =
     Option.bind (u32_checked (v * 10)) (\<lambda>m. Option.bind (u32_checked (m + (b - 48))) (\<lambda>v. digits_fold v bs))"

definition parse_digits :: "nat list \<Rightarrow> nat option" where
  "parse_digits bytes =
     (if bytes = [] \<or> \<not> (\<forall>b \<in> set bytes. is_ascii_digit b) then None else digits_fold 0 bytes)"

definition digits_at :: "nat list \<Rightarrow> nat \<Rightarrow> nat \<Rightarrow> int option" where
  "digits_at bytes a b = map_option int (Option.bind (byte_range bytes a b) parse_digits)"

text \<open>The optional fraction at \<open>cursor\<close>: where it ends, and its milliseconds.\<close>

definition parse_fraction :: "nat list \<Rightarrow> nat \<Rightarrow> (nat \<times> int) option" where
  "parse_fraction bytes cursor =
     (if byte_at bytes cursor \<noteq> Some (chr CHR ''.'') then Some (cursor, 0) else
      let fraction = takeWhile is_ascii_digit (drop (cursor + 1) bytes) in
      if fraction = [] then None
      else Some (cursor + 1 + length fraction,
        int (fraction ! 0 - 48) * 100 + (if length fraction > 1 then int (fraction ! 1 - 48) * 10 else 0)
          + (if length fraction > 2 then int (fraction ! 2 - 48) else 0)))"

definition parse_offset :: "nat list \<Rightarrow> nat \<Rightarrow> int option" where
  "parse_offset bytes cursor =
     (case byte_at bytes cursor of
        None \<Rightarrow> None
      | Some c \<Rightarrow>
          if (c = chr CHR ''Z'' \<or> c = chr CHR ''z'') \<and> cursor + 1 = length bytes then Some 0
          else if (c = chr CHR ''+'' \<or> c = chr CHR ''-'') \<and> cursor + 6 = length bytes
              \<and> byte_at bytes (cursor + 3) = Some (chr CHR '':'')
          then Option.bind (digits_at bytes (cursor + 1) (cursor + 3)) (\<lambda>offset_hour.
               Option.bind (digits_at bytes (cursor + 4) (cursor + 6)) (\<lambda>offset_minute.
               if offset_hour > 23 \<or> offset_minute > 59 then None
               else let offset = offset_hour * 3600 + offset_minute * 60 in
                 Some (if c = chr CHR ''+'' then offset else - offset)))
          else None)"

definition parse_rfc3339_milliseconds :: "str \<Rightarrow> int option" where
  "parse_rfc3339_milliseconds value =
     (let bytes = as_bytes value in
      if length bytes < 20 \<or> byte_at bytes 4 \<noteq> Some (chr CHR ''-'') \<or> byte_at bytes 7 \<noteq> Some (chr CHR ''-'')
         \<or> byte_at bytes 10 \<notin> {Some (chr CHR ''T''), Some (chr CHR ''t''), Some (chr CHR '' '')}
         \<or> byte_at bytes 13 \<noteq> Some (chr CHR '':'') \<or> byte_at bytes 16 \<noteq> Some (chr CHR '':'')
      then None else
      Option.bind (digits_at bytes 0 4) (\<lambda>year.
      Option.bind (digits_at bytes 5 7) (\<lambda>month.
      Option.bind (digits_at bytes 8 10) (\<lambda>day.
      Option.bind (digits_at bytes 11 13) (\<lambda>hour.
      Option.bind (digits_at bytes 14 16) (\<lambda>minute.
      Option.bind (digits_at bytes 17 19) (\<lambda>second.
      if \<not> (1 \<le> month \<and> month \<le> 12) \<or> \<not> (1 \<le> day \<and> day \<le> days_in_month year month)
         \<or> hour > 23 \<or> minute > 59 \<or> second > 59
      then None else
      Option.bind (parse_fraction bytes 19) (\<lambda>(cursor, milliseconds).
      Option.bind (parse_offset bytes cursor) (\<lambda>offset_seconds.
      Option.bind (i64_checked (days_from_civil year month day * 86400)) (\<lambda>seconds.
      Option.bind (i64_checked (seconds + (hour * 3600 + minute * 60 + second))) (\<lambda>seconds.
      Option.bind (i64_checked (seconds - offset_seconds)) (\<lambda>seconds.
      Option.bind (i64_checked (seconds * 1000)) (\<lambda>ms.
      i64_checked (ms + milliseconds))))))))))))))"

subsection \<open>The calendar is a bijection\<close>

text \<open>The days of an era before its year \<open>y\<close>, which starts in March.\<close>

definition days_before :: "int \<Rightarrow> int" where
  "days_before y = 365 * y + y div 4 - y div 100"

text \<open>The numerator of \<open>year_of_era\<close> never decreases.\<close>

lemma div_Suc:
  fixes x d :: int
  assumes "0 < d"
  shows "(x + 1) div d = x div d + (if d dvd x + 1 then 1 else 0)"
proof -
  have x: "x = d * (x div d) + x mod d" by simp
  have r: "0 \<le> x mod d" "x mod d < d" using assms by simp_all
  show ?thesis
  proof (cases "x mod d + 1 = d")
    case True
    have "x + 1 = d * (x div d) + (x mod d + 1)" using x by linarith
    then have eq: "x + 1 = d * (x div d + 1)" unfolding True by (simp add: distrib_left)
    then have "(x + 1) div d = x div d + 1" using assms by simp
    moreover have "d dvd x + 1" using eq by simp
    ultimately show ?thesis by simp
  next
    case False
    then have "x + 1 = d * (x div d) + (x mod d + 1)" "0 \<le> x mod d + 1" "x mod d + 1 < d" using x r by auto
    then have "(x + 1) div d = x div d" "(x + 1) mod d = x mod d + 1"
      by (blast intro: int_div_pos_eq, blast intro: int_mod_pos_eq)
    then show ?thesis using r by (simp add: dvd_eq_mod_eq_0)
  qed
qed

lemma year_of_era_mono: "x \<le> y \<Longrightarrow> year_of_era x \<le> year_of_era y"
proof (induction y rule: int_ge_induct)
  case (step y)
  have "y - y div 1460 + y div 36524 - y div 146096
      \<le> (y + 1) - (y + 1) div 1460 + (y + 1) div 36524 - (y + 1) div 146096"
  proof -
    have "(146096 :: int) dvd z \<Longrightarrow> 36524 dvd z" for z by (rule dvd_trans [of 36524 146096]) simp_all
    then show ?thesis by (simp add: div_Suc)
  qed
  then have "year_of_era y \<le> year_of_era (y + 1)" unfolding year_of_era_def by (rule zdiv_mono1) simp
  then show ?case using step by linarith
qed simp

text \<open>
  At the first and the last day of each of the 400 years the formula gives that year, so it does on
  every day between; the year has a 366th day only when the next calendar year is a leap year.
\<close>

lemma year_ends: "list_all (\<lambda>y. year_of_era (days_before y) = y \<and> year_of_era (days_before (y + 1) - 1) = y
    \<and> days_before (y + 1) - days_before y \<le> 366
    \<and> (days_before (y + 1) - days_before y = 366 \<longrightarrow> (y + 1) mod 4 = 0 \<and> ((y + 1) mod 100 \<noteq> 0 \<or> (y + 1) mod 400 = 0)))
  [0..398]"
  by code_simp

lemma last_year_ends: "year_of_era (days_before 399) = 399" "year_of_era 146096 = 399"
  by code_simp+

lemma year_exists:
  "0 \<le> doe \<Longrightarrow> doe < days_before (int n) \<Longrightarrow> \<exists>y. 0 \<le> y \<and> y < int n \<and> days_before y \<le> doe \<and> doe < days_before (y + 1)"
proof (induction n)
  case (Suc n)
  show ?case
  proof (cases "doe < days_before (int n)")
    case True
    then show ?thesis using Suc by fastforce
  next
    case False
    then show ?thesis using Suc.prems by (intro exI [of _ "int n"]) (simp add: add.commute)
  qed
qed (simp add: days_before_def)

lemma year_of_era_spec:
  assumes "0 \<le> doe" and "doe < 146097"
  shows "0 \<le> year_of_era doe \<and> year_of_era doe \<le> 399
    \<and> 0 \<le> doe - days_before (year_of_era doe) \<and> doe - days_before (year_of_era doe) \<le> 365
    \<and> (doe - days_before (year_of_era doe) = 365 \<longrightarrow>
        (year_of_era doe + 1) mod 4 = 0 \<and> ((year_of_era doe + 1) mod 100 \<noteq> 0 \<or> (year_of_era doe + 1) mod 400 = 0))"
proof (cases "doe < days_before 399")
  case True
  then obtain y where y: "0 \<le> y" "y < 399" "days_before y \<le> doe" "doe < days_before (y + 1)"
    using year_exists [of doe 399] assms(1) by auto
  have ends: "year_of_era (days_before y) = y" "year_of_era (days_before (y + 1) - 1) = y"
    and size: "days_before (y + 1) - days_before y \<le> 366"
    and leap: "days_before (y + 1) - days_before y = 366 \<longrightarrow> (y + 1) mod 4 = 0 \<and> ((y + 1) mod 100 \<noteq> 0 \<or> (y + 1) mod 400 = 0)"
    using year_ends y(1,2) by (simp_all add: list_all_iff)
  have "y \<le> year_of_era doe" "year_of_era doe \<le> y"
    using year_of_era_mono [of "days_before y" doe] year_of_era_mono [of doe "days_before (y + 1) - 1"] y ends by auto
  then have eq: "year_of_era doe = y" by simp
  show ?thesis unfolding eq using y size leap by auto
next
  case False
  have "399 \<le> year_of_era doe" "year_of_era doe \<le> 399"
    using year_of_era_mono [of "days_before 399" doe] year_of_era_mono [of doe 146096] last_year_ends False assms by auto
  then have eq: "year_of_era doe = 399" by simp
  show ?thesis unfolding eq using False assms by (auto simp: days_before_def)
qed

text \<open>The months of a year that starts in March.\<close>

definition month_of :: "int \<Rightarrow> int" where
  "month_of doy = (let mp = (5 * doy + 2) div 153 in mp + (if mp < 10 then 3 else - 9))"

definition day_of :: "int \<Rightarrow> int" where
  "day_of doy = doy - (153 * ((5 * doy + 2) div 153) + 2) div 5 + 1"

lemma months: "list_all (\<lambda>doy. 1 \<le> month_of doy \<and> month_of doy \<le> 12 \<and> 1 \<le> day_of doy
    \<and> day_of doy \<le> (if doy = 365 then 29 else days_in_month 2023 (month_of doy)) \<and> (doy = 365 \<longrightarrow> month_of doy = 2)
    \<and> (month_of doy \<le> 2 \<longleftrightarrow> 306 \<le> doy)
    \<and> month_of doy + (if month_of doy > 2 then - 3 else 9) = (5 * doy + 2) div 153) [0..365]"
  by code_simp

lemma civil_from_days_eq:
  assumes "era = (days + 719468) div 146097" and "doe = (days + 719468) mod 146097" and "yoe = year_of_era doe"
    and "doy = doe - days_before yoe"
  shows "civil_from_days days = (yoe + era * 400 + (if month_of doy \<le> 2 then 1 else 0), month_of doy, day_of doy)"
proof -
  have "days + 719468 - (days + 719468) div 146097 * 146097 = doe"
    using assms(2) by (simp add: minus_div_mult_eq_mod)
  then show ?thesis
    unfolding civil_from_days_def Let_def assms(1) [symmetric] month_of_def day_of_def
    by (simp add: assms(3,4) days_before_def)
qed

lemma civil_from_days_spec:
  assumes "civil_from_days days = (year, month, day)"
  shows "1 \<le> month \<and> month \<le> 12 \<and> 1 \<le> day \<and> day \<le> days_in_month year month \<and> days_from_civil year month day = days"
    and "0 \<le> days \<Longrightarrow> days \<le> 2932896 \<Longrightarrow> 0 \<le> year \<and> year \<le> 9999"
proof -
  define era where "era = (days + 719468) div 146097"
  define doe where "doe = (days + 719468) mod 146097"
  define yoe where "yoe = year_of_era doe"
  define doy where "doy = doe - days_before yoe"
  have doe: "0 \<le> doe" "doe < 146097" and days: "days + 719468 = era * 146097 + doe" by (simp_all add: doe_def era_def)
  note y = year_of_era_spec [OF doe, folded yoe_def, folded doy_def]
  have m: "1 \<le> month_of doy \<and> month_of doy \<le> 12 \<and> 1 \<le> day_of doy
    \<and> day_of doy \<le> (if doy = 365 then 29 else days_in_month 2023 (month_of doy)) \<and> (doy = 365 \<longrightarrow> month_of doy = 2)
    \<and> (month_of doy \<le> 2 \<longleftrightarrow> 306 \<le> doy)
    \<and> month_of doy + (if month_of doy > 2 then - 3 else 9) = (5 * doy + 2) div 153"
    by (rule bspec [OF months [unfolded list_all_iff]]) (use y in simp)
  have "(year, month, day) = (yoe + era * 400 + (if month_of doy \<le> 2 then 1 else 0), month_of doy, day_of doy)"
    by (rule trans [OF sym [OF assms] civil_from_days_eq [OF era_def doe_def yoe_def doy_def]])
  then have parts: "year = yoe + era * 400 + (if month_of doy \<le> 2 then 1 else 0)" "month = month_of doy" "day = day_of doy"
    by (simp_all only: prod.inject)
  have adjusted: "year - (if month \<le> 2 then 1 else 0) = yoe + era * 400" by (simp add: parts)
  have "(yoe + era * 400) div 400 = era" using y by (intro int_div_pos_eq [of _ _ _ yoe]) auto
  then have "days_from_civil year month day = era * 146097 + (days_before yoe + doy) - 719468"
    unfolding days_from_civil_def Let_def adjusted
    using m by (simp add: parts days_before_def day_of_def)
  then have inverse: "days_from_civil year month day = days" using days by (simp add: doy_def)
  have leap: "(yoe + 1 + era * 400) mod k = (yoe + 1) mod k" if "k dvd 400" for k
    using that by (metis dvd_mult mod_mult_self1_is_0 dvd_eq_mod_eq_0 mod_add_right_eq add_0_right)
  have "day \<le> days_in_month year month"
  proof (cases "doy = 365")
    case True
    then have "year = yoe + 1 + era * 400" "month = 2" using m by (simp_all add: parts)
    then show ?thesis using y m True parts(3) leap [of 4] leap [of 100] leap [of 400] by (simp add: days_in_month_def)
  next
    case False
    have "days_in_month 2023 month \<le> days_in_month year month" by (simp add: days_in_month_def)
    then show ?thesis using m False parts by auto
  qed
  then show "1 \<le> month \<and> month \<le> 12 \<and> 1 \<le> day \<and> day \<le> days_in_month year month \<and> days_from_civil year month day = days"
    using m parts inverse by simp
  show "0 \<le> year \<and> year \<le> 9999" if "0 \<le> days" "days \<le> 2932896"
  proof -
    have "146097 * era \<le> 3652364" "146097 * era > 0" using days doe that by linarith+
    then have era: "0 < era" "era \<le> 24" by linarith+
    have "yoe \<le> 398" if "era = 24" "month \<le> 2"
    proof (rule ccontr)
      assume "\<not> yoe \<le> 398"
      then have "yoe = 399" using y by linarith
      moreover have "306 \<le> doy" using m that(2) parts(2) by simp
      ultimately have "146037 \<le> doe" by (simp add: doy_def days_before_def)
      then show False using days that(1) \<open>days \<le> 2932896\<close> by linarith
    qed
    then show ?thesis using era y by (cases "era = 24"; cases "month \<le> 2") (auto simp: parts)
  qed
qed

subsection \<open>Reading what was written\<close>

lemma show_nat_small [simp]: "n < 10 \<Longrightarrow> show_nat n = [48 + n]"
  by (subst show_nat.simps) simp

lemma show_nat_step: "10 \<le> n \<Longrightarrow> show_nat n = show_nat (n div 10) @ [48 + n mod 10]"
  by (subst show_nat.simps) simp

text \<open>A padded number as its digits.\<close>

definition digit_list :: "nat \<Rightarrow> nat list \<Rightarrow> bool" where
  "digit_list n ds \<longleftrightarrow> (\<forall>d \<in> set ds. d < 10) \<and> foldl (\<lambda>a d. 10 * a + d) 0 ds = n"

lemma show_nat_length: "n < 10 ^ w \<Longrightarrow> 0 < w \<Longrightarrow> length (show_nat n) \<le> w"
proof (induction w arbitrary: n)
  case (Suc w)
  show ?case
  proof (cases "n < 10")
    case False
    then have "n div 10 < 10 ^ w" "0 < w" using Suc.prems by (auto simp: div_less_iff_less_mult mult.commute intro: Nat.gr0I)
    then show ?thesis using Suc.IH [of "n div 10"] False by (simp add: show_nat_step)
  qed simp
qed simp

lemma pad0_digits:
  assumes "0 \<le> i" and "i < 10 ^ w" and "0 < w"
  shows "\<exists>ds. length ds = w \<and> digit_list (nat i) ds \<and> pad0 w i = map (\<lambda>d. 48 + d) ds"
proof -
  have digits: "\<exists>ds. digit_list n ds \<and> show_nat n = map (\<lambda>d. 48 + d) ds" for n
  proof (induction n rule: show_nat.induct)
    case (1 n)
    show ?case
    proof (cases "n < 10")
      case True
      then show ?thesis by (intro exI [of _ "[n]"]) (simp add: digit_list_def)
    next
      case False
      then obtain ds where "digit_list (n div 10) ds" "show_nat (n div 10) = map (\<lambda>d. 48 + d) ds" using 1 by blast
      then show ?thesis using False by (intro exI [of _ "ds @ [n mod 10]"]) (auto simp: digit_list_def show_nat_step)
    qed
  qed
  obtain ds where ds: "digit_list (nat i) ds" "show_nat (nat i) = map (\<lambda>d. 48 + d) ds" using digits by blast
  have "nat i < 10 ^ w" using assms by (simp add: nat_less_iff)
  then have "length ds \<le> w" using show_nat_length [of "nat i" w] ds(2) assms(3) by simp
  moreover have "foldl (\<lambda>a d. 10 * a + d) 0 (replicate k 0 @ ds) = foldl (\<lambda>a d. 10 * a + d) (0 :: nat) ds" for k
    by (induction k) simp_all
  ultimately show ?thesis using ds
    by (intro exI [of _ "replicate (w - length ds) 0 @ ds"])
      (auto simp: digit_list_def pad0_def chr_def Let_def)
qed

lemma pad0_2:
  assumes "0 \<le> i" and "i < 100"
  shows "\<exists>a b. a < 10 \<and> b < 10 \<and> i = int (10 * a + b) \<and> pad0 2 i = [48 + a, 48 + b]"
  using pad0_digits [of i 2] assms by (fastforce simp: digit_list_def numeral_2_eq_2 length_Suc_conv)

lemma pad0_3:
  assumes "0 \<le> i" and "i < 1000"
  shows "\<exists>a b c. a < 10 \<and> b < 10 \<and> c < 10 \<and> i = int (100 * a + 10 * b + c) \<and> pad0 3 i = [48 + a, 48 + b, 48 + c]"
  using pad0_digits [of i 3] assms by (fastforce simp: digit_list_def numeral_3_eq_3 length_Suc_conv)

lemma pad0_4:
  assumes "0 \<le> i" and "i < 10000"
  shows "\<exists>a b c d. a < 10 \<and> b < 10 \<and> c < 10 \<and> d < 10 \<and> i = int (1000 * a + 100 * b + 10 * c + d)
    \<and> pad0 4 i = [48 + a, 48 + b, 48 + c, 48 + d]"
  using pad0_digits [of i 4] assms by (fastforce simp: digit_list_def numeral_eq_Suc length_Suc_conv)

lemma digits_fold_2: "a < 10 \<Longrightarrow> b < 10 \<Longrightarrow> digits_fold 0 [48 + a, 48 + b] = Some (10 * a + b)"
  by (simp add: u32_checked_def u32_max_def)

lemma digits_fold_4: "a < 10 \<Longrightarrow> b < 10 \<Longrightarrow> c < 10 \<Longrightarrow> d < 10
    \<Longrightarrow> digits_fold 0 [48 + a, 48 + b, 48 + c, 48 + d] = Some (1000 * a + 100 * b + 10 * c + d)"
  by (simp add: u32_checked_def u32_max_def)

lemma digit_48 [simp]: "d < 10 \<Longrightarrow> is_ascii_digit (48 + d)"
  by (simp add: is_ascii_digit_def)

lemma byte_range_append: "length xs = n \<Longrightarrow> length ys = k \<Longrightarrow> byte_range (xs @ ys @ zs) n (n + k) = Some ys"
  by (simp add: byte_range_def)

lemma read_stamp:
  assumes Y: "0 \<le> Y" "Y \<le> 9999" and M: "1 \<le> M" "M \<le> 12" and D: "1 \<le> D" "D \<le> days_in_month Y M"
    and h: "0 \<le> h" "h < 24" and m: "0 \<le> m" "m < 60" and s: "0 \<le> s" "s < 60" and f: "0 \<le> f" "f < 1000"
    and bound: "\<bar>days_from_civil Y M D\<bar> \<le> 10 ^ 8"
  shows "parse_rfc3339_milliseconds (pad0 4 Y @ lit ''-'' @ pad0 2 M @ lit ''-'' @ pad0 2 D @ lit ''T'' @ pad0 2 h @ lit '':''
        @ pad0 2 m @ lit '':'' @ pad0 2 s @ lit ''.'' @ pad0 3 f @ lit ''Z'')
    = Some ((days_from_civil Y M D * 86400 + (h * 3600 + m * 60 + s)) * 1000 + f)"
proof -
  have "days_in_month Y M \<le> 31" by (simp add: days_in_month_def)
  then have D': "D < 100" using D by simp
  obtain Y1 Y2 Y3 Y4 where Y': "Y1 < 10" "Y2 < 10" "Y3 < 10" "Y4 < 10" "Y = int (1000 * Y1 + 100 * Y2 + 10 * Y3 + Y4)"
    "pad0 4 Y = [48 + Y1, 48 + Y2, 48 + Y3, 48 + Y4]" using pad0_4 [of Y] Y by auto
  obtain M1 M2 where M': "M1 < 10" "M2 < 10" "M = int (10 * M1 + M2)" "pad0 2 M = [48 + M1, 48 + M2]"
    using pad0_2 [of M] M by auto
  obtain D1 D2 where D'': "D1 < 10" "D2 < 10" "D = int (10 * D1 + D2)" "pad0 2 D = [48 + D1, 48 + D2]"
    using pad0_2 [of D] D D' by auto
  obtain h1 h2 where h': "h1 < 10" "h2 < 10" "h = int (10 * h1 + h2)" "pad0 2 h = [48 + h1, 48 + h2]"
    using pad0_2 [of h] h by auto
  obtain m1 m2 where m': "m1 < 10" "m2 < 10" "m = int (10 * m1 + m2)" "pad0 2 m = [48 + m1, 48 + m2]"
    using pad0_2 [of m] m by auto
  obtain s1 s2 where s': "s1 < 10" "s2 < 10" "s = int (10 * s1 + s2)" "pad0 2 s = [48 + s1, 48 + s2]"
    using pad0_2 [of s] s by auto
  obtain f1 f2 f3 where f': "f1 < 10" "f2 < 10" "f3 < 10" "f = int (100 * f1 + 10 * f2 + f3)" "pad0 3 f = [48 + f1, 48 + f2, 48 + f3]"
    using pad0_3 [of f] f by auto
  define bs where "bs = [48 + Y1, 48 + Y2, 48 + Y3, 48 + Y4, 45, 48 + M1, 48 + M2, 45, 48 + D1, 48 + D2, 84,
    48 + h1, 48 + h2, 58, 48 + m1, 48 + m2, 58, 48 + s1, 48 + s2, 46, 48 + f1, 48 + f2, 48 + f3, 90]"
  have stamp: "pad0 4 Y @ lit ''-'' @ pad0 2 M @ lit ''-'' @ pad0 2 D @ lit ''T'' @ pad0 2 h @ lit '':''
        @ pad0 2 m @ lit '':'' @ pad0 2 s @ lit ''.'' @ pad0 3 f @ lit ''Z'' = bs"
    unfolding Y'(6) M'(4) D''(4) h'(4) m'(4) s'(4) f'(5) bs_def by (simp add: lit_def)
  have bytes: "as_bytes bs = bs"
    using Y' M' D'' h' m' s' f' by (intro as_bytes_ascii) (auto simp: bs_def)
  have len: "length bs = 24" by (simp add: bs_def)
  have fields: "digits_at bs 0 4 = Some Y" "digits_at bs 5 7 = Some M" "digits_at bs 8 10 = Some D"
      "digits_at bs 11 13 = Some h" "digits_at bs 14 16 = Some m" "digits_at bs 17 19 = Some s"
    unfolding digits_at_def byte_range_def parse_digits_def len
    using Y'(1-5) M'(1-3) D''(1-3) h'(1-3) m'(1-3) s'(1-3)
    by (simp_all add: bs_def digits_fold_2 digits_fold_4 del: digits_fold.simps)
  have seps: "byte_at bs 4 = Some 45" "byte_at bs 7 = Some 45" "byte_at bs 10 = Some 84" "byte_at bs 13 = Some 58"
      "byte_at bs 16 = Some 58" "byte_at bs 23 = Some 90"
    unfolding byte_at_def len by (simp_all add: bs_def)
  have "takeWhile is_ascii_digit (drop 20 bs) = [48 + f1, 48 + f2, 48 + f3]"
    using f'(1-3) by (simp add: bs_def is_ascii_digit_def [of 90])
  then have fraction: "parse_fraction bs 19 = Some (23, f)"
    using f'(4) by (simp add: parse_fraction_def byte_at_def len chr_def) (simp add: bs_def)
  have offset: "parse_offset bs 23 = Some 0" by (simp add: parse_offset_def seps len chr_def)
  have checked: "i64_checked x = Some x" if "\<bar>x\<bar> \<le> 9 * 10 ^ 18" for x
    using that by (auto simp: i64_checked_def i64_max_def)
  have chars: "chr CHR ''-'' = 45" "chr CHR ''T'' = 84" "chr CHR '':'' = 58" by (simp_all add: chr_def)
  have limits: "\<bar>days_from_civil Y M D * 86400\<bar> \<le> 9 * 10 ^ 18" "\<bar>days_from_civil Y M D * 86400 + (h * 3600 + m * 60 + s)\<bar> \<le> 9 * 10 ^ 18"
      "\<bar>(days_from_civil Y M D * 86400 + (h * 3600 + m * 60 + s)) * 1000\<bar> \<le> 9 * 10 ^ 18"
      "\<bar>(days_from_civil Y M D * 86400 + (h * 3600 + m * 60 + s)) * 1000 + f\<bar> \<le> 9 * 10 ^ 18"
    using bound h m s f by simp_all
  have guard: "\<not> (\<not> (1 \<le> M \<and> M \<le> 12) \<or> \<not> (1 \<le> D \<and> D \<le> days_in_month Y M) \<or> h > 23 \<or> m > 59 \<or> s > 59)"
    using M D h m s by simp
  show ?thesis
    unfolding stamp parse_rfc3339_milliseconds_def Let_def bytes len seps chars fields bind.bind_lunit if_not_P [OF guard]
      fraction prod.case offset diff_0_right checked [OF limits(1)] checked [OF limits(2)] checked [OF limits(3)]
      checked [OF limits(4)]
    by simp
qed

text \<open>
  C33: a time of the years 1970 to 9999 survives the round trip: the text that a request carries for
  it is read back as the same millisecond.
\<close>

theorem rfc3339_roundtrip:
  assumes "0 \<le> v" and "v < 253402300800000"
  shows "\<exists>s. unix_milliseconds_to_rfc3339 v = Some s \<and> parse_rfc3339_milliseconds s = Some v"
proof -
  define sec where "sec = v div 1000"
  define day where "day = sec div 86400"
  define rest where "rest = sec mod 86400"
  obtain Y M D where civil: "civil_from_days day = (Y, M, D)" by (cases "civil_from_days day") auto
  have v: "v = sec * 1000 + v mod 1000" "sec = day * 86400 + rest" by (simp_all add: sec_def day_def rest_def)
  have rest: "0 \<le> rest" "rest < 86400" by (simp_all add: rest_def)
  have "0 \<le> v mod 1000" "v mod 1000 < 1000" by simp_all
  then have "0 \<le> sec" "sec < 253402300800" using v(1) assms by linarith+
  then have day: "0 \<le> day" "day \<le> 2932896" using v(2) rest by linarith+
  note spec = civil_from_days_spec(1) [OF civil] civil_from_days_spec(2) [OF civil day]
  have hms: "rest = rest div 3600 * 3600 + rest mod 3600 div 60 * 60 + rest mod 60"
  proof -
    have "rest mod 60 = rest mod 3600 mod 60" by (simp add: mod_mod_cancel)
    then show ?thesis using div_mult_mod_eq [of rest 3600] div_mult_mod_eq [of "rest mod 3600" 60] by linarith
  qed
  have ranges: "0 \<le> rest div 3600" "rest div 3600 < 24" "0 \<le> rest mod 3600 div 60" "rest mod 3600 div 60 < 60"
    using rest by (simp_all add: div_less_iff_less_mult pos_imp_zdiv_nonneg_iff)
  have civil_date: "0 \<le> Y" "Y \<le> 9999" "1 \<le> M" "M \<le> 12" "1 \<le> D" "D \<le> days_in_month Y M"
    and inverse: "days_from_civil Y M D = day" using spec by blast+
  have bound: "\<bar>days_from_civil Y M D\<bar> \<le> 10 ^ 8" using inverse day by simp
  have small: "0 \<le> rest mod 60" "rest mod 60 < 60" "0 \<le> v mod 1000" "v mod 1000 < 1000" by simp_all
  define stamp where "stamp = pad0 4 Y @ lit ''-'' @ pad0 2 M @ lit ''-'' @ pad0 2 D @ lit ''T'' @ pad0 2 (rest div 3600) @ lit '':''
        @ pad0 2 (rest mod 3600 div 60) @ lit '':'' @ pad0 2 (rest mod 60) @ lit ''.'' @ pad0 3 (v mod 1000) @ lit ''Z''"
  have written: "unix_milliseconds_to_rfc3339 v = Some stamp"
    unfolding unix_milliseconds_to_rfc3339_def Let_def sec_def [symmetric] day_def [symmetric] rest_def [symmetric] civil
      prod.case stamp_def
    by (rule if_not_P) (use assms(1) in simp)
  have "parse_rfc3339_milliseconds stamp
      = Some ((day * 86400 + (rest div 3600 * 3600 + rest mod 3600 div 60 * 60 + rest mod 60)) * 1000 + v mod 1000)"
    by (rule read_stamp [OF civil_date ranges small bound, folded stamp_def, unfolded inverse])
  also have "\<dots> = Some v" unfolding hms [symmetric] v(2) [symmetric] v(1) [symmetric] ..
  finally show ?thesis using written by blast
qed

theorem rfc3339_roundtrip_witness:
  "\<exists>s. unix_milliseconds_to_rfc3339 951782399999 = Some s \<and> parse_rfc3339_milliseconds s = Some 951782399999"
  by (rule rfc3339_roundtrip) simp_all

end
