(* ===== verification/Activity_Sessions.thy ===== *)
theory Activity_Sessions
  imports Activity_Time Complex_Main
begin

text \<open>
  The daily review of \<open>wts-integrations/src/activity_watch.rs\<close>: the derivation of an activity
  from an event (sanitised evidence, Jira key, suggestion, kind), the sessions made from
  activities and away intervals, and \<open>daily_review_with_jira_issues\<close> over the two HTTP requests
  it makes, which are parameters. Times are \<open>i64\<close> milliseconds, kept as \<open>int\<close>.
\<close>

subsection \<open>Types\<close>

definition MAX_REVIEW_BUCKETS :: nat where "MAX_REVIEW_BUCKETS = 64"
definition MAX_REVIEW_EVENTS :: nat where "MAX_REVIEW_EVENTS = 10000"
definition MAX_REVIEW_WINDOW_MILLISECONDS :: int where "MAX_REVIEW_WINDOW_MILLISECONDS = 48 * 60 * 60 * 1000"
definition TRANSIENT_SESSION_SECONDS :: int where "TRANSIENT_SESSION_SECONDS = 30"
definition MAX_REVIEW_SESSION_SPAN_MILLISECONDS :: int where "MAX_REVIEW_SESSION_SPAN_MILLISECONDS = 30 * 60 * 1000"
definition MAX_REVIEW_SESSION_IDLE_GAP_MILLISECONDS :: int where "MAX_REVIEW_SESSION_IDLE_GAP_MILLISECONDS = 5 * 60 * 1000"
definition MAX_APPLICATION_EVIDENCE_CHARACTERS :: nat where "MAX_APPLICATION_EVIDENCE_CHARACTERS = 48"
definition MAX_CONTEXT_EVIDENCE_CHARACTERS :: nat where "MAX_CONTEXT_EVIDENCE_CHARACTERS = 120"

datatype ActivityWatchReviewError =
    InvalidTimeRange | ConnectionFailed | RequestTimedOut | ResponseTooLarge | ResponseInvalid
  | EndpointRedirected | ServerRejected

datatype ActivityWatchSessionKind = Coding | Agent | Browser | Communication | Terminal | Other

record JiraActiveIssue =
  ji_issue_key :: str
  ji_summary :: str
  ji_status :: str

record ActivityWatchSessionCandidate =
  sc_id :: str
  sc_kind :: ActivityWatchSessionKind
  sc_started :: int
  sc_ended :: int
  sc_duration :: int
  sc_description :: str
  sc_application :: "str option"
  sc_evidence :: "str option"
  sc_jira :: "str option"
  sc_suggested :: "str option"
  sc_confidence :: "nat option"
  sc_reason :: "str option"
  sc_events :: nat

record ActivityWatchDailyReview =
  dr_schema_version :: nat
  dr_started :: int
  dr_ended :: int
  dr_total_active_seconds :: int
  dr_sessions :: "ActivityWatchSessionCandidate list"
  dr_detail :: str

record ActivityWatchBucket =
  bucket_id :: str
  bucket_type :: str

text \<open>
  The decoded JSON of an event: the duration in seconds as the \<open>f64\<close> it is, and \<open>data\<close> as far as
  the code reads it, the entries whose value is a string.
\<close>

datatype F64 = NotFinite | Finite rat

record ActivityWatchEvent =
  ev_timestamp :: str
  ev_duration :: F64
  ev_data :: "str \<Rightarrow> str option"

datatype ActivitySource = SourceWindow | SourceBrowser | SourceEditor | SourceAfk

record DerivedActivity =
  da_start :: int
  da_end :: int
  da_kind :: ActivityWatchSessionKind
  da_description :: str
  da_application :: "str option"
  da_evidence :: "str option"
  da_jira :: "str option"
  da_suggested :: "str option"
  da_confidence :: "nat option"
  da_reason :: "str option"
  da_priority :: nat

subsection \<open>Events\<close>

text \<open>
  \<open>ActivityWatchEvent::bounds\<close>. \<open>times_1000\<close> is the \<open>f64\<close> product by 1000; \<open>round\<close> takes halves up for
  a number that is not negative, and the cast to \<open>i64\<close> saturates, as does the addition.
\<close>

definition i64_clamp :: "int \<Rightarrow> int" where
  "i64_clamp i = max (- i64_max - 1) (min i64_max i)"

definition event_bounds :: "(rat \<Rightarrow> F64) \<Rightarrow> ActivityWatchEvent \<Rightarrow> (int \<times> int) option" where
  "event_bounds times_1000 e =
     (case ev_duration e of
        NotFinite \<Rightarrow> None
      | Finite d \<Rightarrow>
          if d \<le> 0 then None else
          Option.bind (parse_rfc3339_milliseconds (ev_timestamp e)) (\<lambda>start.
          let duration_ms = (case times_1000 d of NotFinite \<Rightarrow> i64_max | Finite p \<Rightarrow> i64_clamp \<lfloor>p + 1 / 2\<rfloor>) in
          Some (start, i64_clamp (start + duration_ms))))"

definition source_from_bucket_type :: "str \<Rightarrow> ActivitySource option" where
  "source_from_bucket_type type_name =
     (let normalized = to_ascii_lowercase type_name in
      if contains_str (lit ''afkstatus'') normalized then Some SourceAfk
      else if contains_str (lit ''currentwindow'') normalized then Some SourceWindow
      else if contains_str (lit ''web.tab'') normalized then Some SourceBrowser
      else if contains_str (lit ''editor'') normalized then Some SourceEditor
      else None)"

subsection \<open>Evidence\<close>

definition is_ascii_punctuation :: "rchar \<Rightarrow> bool" where
  "is_ascii_punctuation c \<longleftrightarrow>
     (33 \<le> c \<and> c \<le> 47) \<or> (58 \<le> c \<and> c \<le> 64) \<or> (91 \<le> c \<and> c \<le> 96) \<or> (123 \<le> c \<and> c \<le> 126)"

definition is_ascii_alphabetic :: "rchar \<Rightarrow> bool" where
  "is_ascii_alphabetic c \<longleftrightarrow> is_ascii_uppercase c \<or> is_ascii_lowercase c"

text \<open>\<open>split_whitespace\<close>.\<close>

definition split_whitespace :: "str \<Rightarrow> str list" where
  "split_whitespace s = filter (\<lambda>w. w \<noteq> []) (split_where is_whitespace s)"

definition contains_any :: "str \<Rightarrow> str list \<Rightarrow> bool" where
  "contains_any v needles \<longleftrightarrow> (\<exists>needle \<in> set needles. contains_str needle v)"

definition truncate_characters :: "str \<Rightarrow> nat \<Rightarrow> str" where
  "truncate_characters v maximum_characters = take maximum_characters v"

definition looks_like_windows_path :: "str \<Rightarrow> bool" where
  "looks_like_windows_path v \<longleftrightarrow>
     (let bytes = as_bytes v in
      3 \<le> length bytes \<and> is_ascii_alphabetic (bytes ! 0) \<and> bytes ! 1 = chr CHR '':''
      \<and> (bytes ! 2 = chr (CHR 0x5C) \<or> bytes ! 2 = chr CHR ''/''))"

definition looks_like_secret_assignment :: "str \<Rightarrow> bool" where
  "looks_like_secret_assignment v \<longleftrightarrow>
     (\<exists>prefix \<in> set [lit ''token='', lit ''password='', lit ''passwd='', lit ''secret='', lit ''authorization='',
        lit ''api_key='', lit ''apikey='']. starts_with prefix v)"

definition looks_like_file_name :: "str \<Rightarrow> bool" where
  "looks_like_file_name v \<longleftrightarrow>
     (case rsplit_once (chr CHR ''.'') (trim_matches (\<lambda>c. c \<in> set (lit ''()[]{},;:'')) v) of
        None \<Rightarrow> False
      | Some (stem, extension) \<Rightarrow>
          stem \<noteq> [] \<and> 1 \<le> str_len extension \<and> str_len extension \<le> 8 \<and> (\<forall>c \<in> set extension. is_ascii_alphanumeric c))"

definition unsafe_token :: "str \<Rightarrow> bool" where
  "unsafe_token raw \<longleftrightarrow>
     (let lowered = to_ascii_lowercase raw in
      chr CHR ''@'' \<in> set raw \<or> starts_with (lit ''http://'') lowered \<or> starts_with (lit ''https://'') lowered
      \<or> starts_with (lit ''www.'') lowered \<or> starts_with (lit ''file://'') lowered \<or> starts_with (lit ''/'') lowered
      \<or> starts_with (lit ''~/'') lowered \<or> looks_like_windows_path raw \<or> looks_like_secret_assignment lowered)"

definition secret_words :: "str list" where
  "secret_words = [lit ''token'', lit ''password'', lit ''passwd'', lit ''secret'', lit ''authorization'', lit ''api_key'',
     lit ''apikey'']"

fun keep_tokens :: "bool \<Rightarrow> str list \<Rightarrow> str list" where
  "keep_tokens redact_next [] = []"
| "keep_tokens redact_next (raw # raws) =
     (if unsafe_token raw then keep_tokens redact_next raws else
      let token = trim_matches (\<lambda>c. is_ascii_punctuation c \<and> c \<notin> set (lit ''-_.'')) raw in
      if token = [] then keep_tokens redact_next raws
      else if redact_next then keep_tokens False raws
      else if to_ascii_lowercase token \<in> set secret_words then keep_tokens True raws
      else if looks_like_file_name token then keep_tokens False raws
      else let clean = filter (\<lambda>c. \<not> is_control c) token in
        if clean = [] then keep_tokens False raws else clean # keep_tokens False raws)"

definition sanitize_evidence :: "str \<Rightarrow> nat \<Rightarrow> str" where
  "sanitize_evidence v maximum_characters =
     truncate_characters (join_with (lit '' '') (keep_tokens False (split_whitespace v))) maximum_characters"

definition sanitize_context_evidence :: "str \<Rightarrow> str \<Rightarrow> str option" where
  "sanitize_context_evidence title project =
     (let t = sanitize_evidence title MAX_CONTEXT_EVIDENCE_CHARACTERS;
          p = sanitize_evidence project MAX_CONTEXT_EVIDENCE_CHARACTERS;
          parts = (if t = [] then [] else [t]);
          parts = (if p = [] \<or> p \<in> set parts then parts else parts @ [p]);
          joined = truncate_characters (join_with [32, 183, 32] parts) MAX_CONTEXT_EVIDENCE_CHARACTERS in
      if joined = [] then None else Some joined)"

definition canonical_applications :: "(str \<times> str) list" where
  "canonical_applications =
     [(lit ''visual studio code'', lit ''Visual Studio Code''), (lit ''google chrome'', lit ''Google Chrome''),
      (lit ''microsoft edge'', lit ''Microsoft Edge''), (lit ''brave browser'', lit ''Brave Browser''),
      (lit ''intellij'', lit ''IntelliJ''), (lit ''pycharm'', lit ''PyCharm''), (lit ''firefox'', lit ''Firefox''),
      (lit ''safari'', lit ''Safari''), (lit ''slack'', lit ''Slack''), (lit ''teams'', lit ''Microsoft Teams''),
      (lit ''zoom'', lit ''Zoom''), (lit ''warp'', lit ''Warp''), (lit ''iterm'', lit ''iTerm''),
      (lit ''terminal'', lit ''Terminal''), (lit ''opencode'', lit ''OpenCode''), (lit ''hermes'', lit ''Hermes''),
      (lit ''codex'', lit ''Codex'')]"

definition sanitize_application :: "str \<Rightarrow> ActivityWatchSessionKind \<Rightarrow> str option" where
  "sanitize_application v kind =
     (let lowered = to_ascii_lowercase v in
      case find (\<lambda>(needle, label). contains_str needle lowered) canonical_applications of
        Some (needle, label) \<Rightarrow> Some label
      | None \<Rightarrow>
          let sanitized = sanitize_evidence v MAX_APPLICATION_EVIDENCE_CHARACTERS in
          if sanitized \<noteq> [] then Some sanitized
          else (case kind of
              Coding \<Rightarrow> Some (lit ''Code editor'')
            | Agent \<Rightarrow> Some (lit ''Agent'')
            | Browser \<Rightarrow> Some (lit ''Browser'')
            | Communication \<Rightarrow> Some (lit ''Communication app'')
            | Terminal \<Rightarrow> Some (lit ''Terminal'')
            | Other \<Rightarrow> None))"

subsection \<open>Jira issues\<close>

definition jira_token :: "str \<Rightarrow> bool" where
  "jira_token token \<longleftrightarrow>
     (case rsplit_once (chr CHR ''-'') token of
        None \<Rightarrow> False
      | Some (project, number) \<Rightarrow>
          2 \<le> str_len project \<and> (\<forall>c \<in> set project. is_ascii_uppercase c \<or> is_ascii_digit c \<or> c = chr CHR ''_'')
          \<and> number \<noteq> [] \<and> (\<forall>c \<in> set number. is_ascii_digit c))"

definition find_jira_issue_key :: "str \<Rightarrow> str option" where
  "find_jira_issue_key v =
     find jira_token (split_where (\<lambda>c. \<not> is_ascii_alphanumeric c \<and> c \<noteq> chr CHR ''-'' \<and> c \<noteq> chr CHR ''_'') v)"

definition common_words :: "str list" where
  "common_words =
     [lit ''active'', lit ''activity'', lit ''application'', lit ''browser'', lit ''chrome'', lit ''coding'', lit ''current'',
      lit ''editor'', lit ''file'', lit ''google'', lit ''https'', lit ''issue'', lit ''jira'', lit ''other'', lit ''project'',
      lit ''slack'', lit ''terminal'', lit ''visual'', lit ''window'', lit ''work'', lit ''workspace'']"

definition matching_terms :: "str \<Rightarrow> str list" where
  "matching_terms v =
     sort_dedup (filter (\<lambda>term. 4 \<le> str_len term \<and> (\<exists>c \<in> set term. is_ascii_alphabetic c) \<and> term \<notin> set common_words)
       (map to_ascii_lowercase (split_where (\<lambda>c. \<not> is_ascii_alphanumeric c) v)))"

definition issue_candidate :: "str list \<Rightarrow> JiraActiveIssue \<Rightarrow> (str \<times> nat \<times> nat) option" where
  "issue_candidate activity_terms issue =
     (let summary_terms = matching_terms (ji_summary issue) in
      if length summary_terms < 2 then None else
      let overlap = length (filter (\<lambda>t. t \<in> set summary_terms) activity_terms) in
      if overlap < 2 then None else
      let coverage = overlap * 100 div length summary_terms;
          confidence = min 95 (60 + overlap * 5 + coverage div 5) in
      Some (ji_issue_key issue, confidence, overlap))"

definition semantic_jira_suggestion :: "str \<Rightarrow> JiraActiveIssue list \<Rightarrow> (str \<times> nat \<times> str) option" where
  "semantic_jira_suggestion activity_context issues =
     (let activity_terms = matching_terms activity_context in
      if length activity_terms < 2 then None else
      let candidates = sort_key (\<lambda>(key, confidence, overlap). (- int confidence, - int overlap, key))
            (List.map_filter (issue_candidate activity_terms) issues) in
      case candidates of
        [] \<Rightarrow> None
      | (key, confidence, overlap) # rest \<Rightarrow>
          if (case rest of [] \<Rightarrow> False | (_, confidence', overlap') # _ \<Rightarrow> confidence' = confidence \<and> overlap' = overlap)
          then None
          else Some (key, confidence, lit ''Activity context matches '' @ show_nat overlap
            @ lit '' distinctive words in the Jira summary''))"

subsection \<open>Activities\<close>

definition data_text :: "(str \<Rightarrow> str option) \<Rightarrow> str \<Rightarrow> str" where
  "data_text data key = (case data key of None \<Rightarrow> [] | Some s \<Rightarrow> s)"

definition kind_of :: "ActivitySource \<Rightarrow> str \<Rightarrow> ActivityWatchSessionKind" where
  "kind_of source lowered =
     (if contains_any lowered [lit ''codex'', lit ''opencode'', lit ''hermes''] then Agent
      else if source = SourceEditor then Coding
      else if source = SourceBrowser then Browser
      else if source = SourceWindow \<and> contains_any lowered [lit ''code'', lit ''visual studio'', lit ''intellij'', lit ''pycharm'', lit ''xcode'']
      then Coding
      else if source = SourceWindow \<and> contains_any lowered [lit ''arc browser'', lit ''brave browser'', lit ''firefox'', lit ''google chrome'',
          lit ''microsoft edge'', lit ''safari''] then Browser
      else if source = SourceWindow \<and> contains_any lowered [lit ''warp'', lit ''terminal'', lit ''iterm''] then Terminal
      else if source = SourceWindow \<and> contains_any lowered [lit ''slack'', lit ''teams'', lit ''zoom''] then Communication
      else Other)"

fun description_of :: "ActivityWatchSessionKind \<Rightarrow> str option \<Rightarrow> str" where
  "description_of Coding (Some key) = lit ''Coding work for '' @ key"
| "description_of Agent (Some key) = lit ''Agent-assisted work for '' @ key"
| "description_of Browser (Some key) = lit ''Browser research for '' @ key"
| "description_of Communication (Some key) = lit ''Communication for '' @ key"
| "description_of Terminal (Some key) = lit ''Terminal work for '' @ key"
| "description_of Other (Some key) = lit ''Work related to '' @ key"
| "description_of Coding None = lit ''Coding work''"
| "description_of Agent None = lit ''Agent-assisted work''"
| "description_of Browser None = lit ''Browser research''"
| "description_of Communication None = lit ''Communication''"
| "description_of Terminal None = lit ''Terminal work''"
| "description_of Other None = lit ''Other active work''"

definition priority_of :: "ActivitySource \<Rightarrow> ActivityWatchSessionKind \<Rightarrow> nat" where
  "priority_of source kind =
     (case kind of
        Agent \<Rightarrow> 70
      | Coding \<Rightarrow> if source = SourceEditor then 60 else 50
      | Terminal \<Rightarrow> 45 | Communication \<Rightarrow> 40 | Browser \<Rightarrow> 30 | Other \<Rightarrow> 20)"

definition activity_from_event ::
    "ActivitySource \<Rightarrow> int \<Rightarrow> int \<Rightarrow> (str \<Rightarrow> str option) \<Rightarrow> JiraActiveIssue list \<Rightarrow> DerivedActivity" where
  "activity_from_event source start end_ms data jira_issues =
     (let app = data_text data (lit ''app'');
          title = data_text data (lit ''title'');
          url = data_text data (lit ''url'');
          project = data_text data (lit ''project'');
          searchable = app @ lit '' '' @ title @ lit '' '' @ url @ lit '' '' @ project;
          jira = find_jira_issue_key searchable;
          suggestion = (if jira = None then semantic_jira_suggestion (title @ lit '' '' @ project) jira_issues else None);
          kind = kind_of source (to_ascii_lowercase searchable) in
      \<lparr>da_start = start, da_end = end_ms, da_kind = kind, da_description = description_of kind jira,
       da_application = sanitize_application app kind, da_evidence = sanitize_context_evidence title project,
       da_jira = jira, da_suggested = map_option fst suggestion,
       da_confidence = map_option (fst \<circ> snd) suggestion, da_reason = map_option (snd \<circ> snd) suggestion,
       da_priority = priority_of source kind\<rparr>)"

subsection \<open>Sessions\<close>

text \<open>\<open>Iterator::max_by_key\<close>: the last of the greatest.\<close>

fun max_by_key :: "('a \<Rightarrow> 'k::linorder) \<Rightarrow> 'a list \<Rightarrow> 'a option" where
  "max_by_key f [] = None"
| "max_by_key f (x # xs) = Some (fold (\<lambda>y best. if f best \<le> f y then y else best) xs x)"

definition clamp_to :: "int \<Rightarrow> int \<Rightarrow> int \<Rightarrow> int" where
  "clamp_to range_start range_end t = min (max t range_start) range_end"

definition session_boundaries :: "DerivedActivity list \<Rightarrow> (int \<times> int) list \<Rightarrow> int \<Rightarrow> int \<Rightarrow> int list" where
  "session_boundaries activities afk_intervals range_start range_end =
     sort_dedup ([range_start, range_end]
       @ concat (map (\<lambda>a. [clamp_to range_start range_end (da_start a), clamp_to range_start range_end (da_end a)]) activities)
       @ concat (map (\<lambda>(s, e). [clamp_to range_start range_end s, clamp_to range_start range_end e]) afk_intervals))"

definition slice_of :: "DerivedActivity list \<Rightarrow> (int \<times> int) list \<Rightarrow> int \<times> int \<Rightarrow> (int \<times> int \<times> DerivedActivity) option" where
  "slice_of activities afk_intervals window =
     (case window of (start, end_ms) \<Rightarrow>
      if end_ms \<le> start then None else
      let midpoint = start + (end_ms - start) div 2 in
      if \<exists>(afk_start, afk_end) \<in> set afk_intervals. afk_start \<le> midpoint \<and> midpoint < afk_end then None
      else map_option (\<lambda>a. (start, end_ms, a))
        (max_by_key da_priority (filter (\<lambda>a. da_start a \<le> midpoint \<and> midpoint < da_end a) activities)))"

definition continues :: "ActivityWatchSessionCandidate \<Rightarrow> int \<Rightarrow> DerivedActivity \<Rightarrow> bool" where
  "continues previous start activity \<longleftrightarrow>
     sc_ended previous = start \<and> sc_kind previous = da_kind activity \<and> sc_jira previous = da_jira activity
     \<and> sc_suggested previous = da_suggested activity \<and> sc_description previous = da_description activity
     \<and> sc_application previous = da_application activity \<and> sc_evidence previous = da_evidence activity"

definition session_of :: "int \<Rightarrow> int \<Rightarrow> DerivedActivity \<Rightarrow> ActivityWatchSessionCandidate" where
  "session_of start end_ms activity =
     \<lparr>sc_id = [], sc_kind = da_kind activity, sc_started = start, sc_ended = end_ms,
      sc_duration = (end_ms - start) div 1000, sc_description = da_description activity,
      sc_application = da_application activity, sc_evidence = da_evidence activity, sc_jira = da_jira activity,
      sc_suggested = da_suggested activity, sc_confidence = da_confidence activity, sc_reason = da_reason activity,
      sc_events = 1\<rparr>"

definition add_slice :: "int \<times> int \<times> DerivedActivity \<Rightarrow> ActivityWatchSessionCandidate list \<Rightarrow> ActivityWatchSessionCandidate list" where
  "add_slice piece sessions =
     (case piece of (start, end_ms, activity) \<Rightarrow>
      if sessions \<noteq> [] \<and> continues (last sessions) start activity
      then butlast sessions @ [(last sessions)\<lparr>sc_ended := end_ms,
             sc_duration := (end_ms - sc_started (last sessions)) div 1000, sc_events := sc_events (last sessions) + 1\<rparr>]
      else sessions @ [session_of start end_ms activity])"

definition interrupts :: "ActivityWatchSessionCandidate \<Rightarrow> ActivityWatchSessionCandidate \<Rightarrow> ActivityWatchSessionCandidate \<Rightarrow> bool" where
  "interrupts previous middle following \<longleftrightarrow>
     sc_duration middle < TRANSIENT_SESSION_SECONDS
     \<and> \<not> (sc_jira middle \<noteq> None \<or> sc_suggested middle \<noteq> None)
     \<and> sc_ended previous = sc_started middle \<and> sc_ended middle = sc_started following
     \<and> sc_kind previous = sc_kind following \<and> sc_jira previous = sc_jira following
     \<and> sc_suggested previous = sc_suggested following \<and> sc_description previous = sc_description following"

definition merged :: "ActivityWatchSessionCandidate \<Rightarrow> ActivityWatchSessionCandidate \<Rightarrow> ActivityWatchSessionCandidate \<Rightarrow> ActivityWatchSessionCandidate" where
  "merged previous middle following =
     previous\<lparr>sc_ended := sc_ended following, sc_duration := (sc_ended following - sc_started previous) div 1000,
       sc_events := min u64_max (min u64_max (sc_events previous + sc_events middle) + sc_events following)\<rparr>"

text \<open>The loop with its index; both removals shorten the list by two.\<close>

function collapse_from :: "nat \<Rightarrow> ActivityWatchSessionCandidate list \<Rightarrow> ActivityWatchSessionCandidate list" where
  "collapse_from index sessions =
     (if \<not> index + 1 < length sessions then sessions
      else if index \<noteq> 0 \<and> interrupts (sessions ! (index - 1)) (sessions ! index) (sessions ! (index + 1))
      then collapse_from (max 1 (index - 1))
        (take (index - 1) sessions
          @ merged (sessions ! (index - 1)) (sessions ! index) (sessions ! (index + 1)) # drop (index + 2) sessions)
      else collapse_from (index + 1) sessions)"
  by pat_completeness auto
termination
  by (relation "measure (\<lambda>(index, sessions). 2 * length sessions - index)") auto

declare collapse_from.simps [simp del]

definition collapse_transient_interruptions :: "ActivityWatchSessionCandidate list \<Rightarrow> ActivityWatchSessionCandidate list" where
  "collapse_transient_interruptions sessions = collapse_from 1 sessions"

definition jira_partition :: "ActivityWatchSessionCandidate \<Rightarrow> str option \<times> str option" where
  "jira_partition s = (sc_jira s, sc_suggested s)"

definition aggregate_session_chunk :: "ActivityWatchSessionCandidate list \<Rightarrow> ActivityWatchSessionCandidate" where
  "aggregate_session_chunk sessions =
     (let representative = the (max_by_key sc_duration sessions);
          first = hd sessions;
          final = last sessions in
      \<lparr>sc_id = [], sc_kind = sc_kind representative, sc_started = sc_started first, sc_ended = sc_ended final,
       sc_duration = sum_list (map sc_duration sessions), sc_description = sc_description representative,
       sc_application = sc_application representative, sc_evidence = sc_evidence representative,
       sc_jira = sc_jira first, sc_suggested = sc_suggested first,
       sc_confidence = max_by_key id (List.map_filter sc_confidence sessions),
       sc_reason = (case List.map_filter sc_reason sessions of [] \<Rightarrow> None | r # _ \<Rightarrow> Some r),
       sc_events = sum_list (map sc_events sessions)\<rparr>)"

definition should_flush :: "ActivityWatchSessionCandidate list \<Rightarrow> ActivityWatchSessionCandidate \<Rightarrow> bool" where
  "should_flush chunk session \<longleftrightarrow>
     chunk \<noteq> []
     \<and> (i64_saturating_sub (sc_started session) (sc_ended (last chunk)) > MAX_REVIEW_SESSION_IDLE_GAP_MILLISECONDS
        \<or> i64_saturating_sub (sc_ended session) (sc_started (hd chunk)) > MAX_REVIEW_SESSION_SPAN_MILLISECONDS
        \<or> jira_partition (hd chunk) \<noteq> jira_partition session)"

fun aggregate_chunks :: "ActivityWatchSessionCandidate list \<Rightarrow> ActivityWatchSessionCandidate list \<Rightarrow> ActivityWatchSessionCandidate list" where
  "aggregate_chunks chunk [] = (if chunk = [] then [] else [aggregate_session_chunk chunk])"
| "aggregate_chunks chunk (session # sessions) =
     (if should_flush chunk session then aggregate_session_chunk chunk # aggregate_chunks [session] sessions
      else aggregate_chunks (chunk @ [session]) sessions)"

definition aggregate_review_sessions :: "ActivityWatchSessionCandidate list \<Rightarrow> ActivityWatchSessionCandidate list" where
  "aggregate_review_sessions sessions = aggregate_chunks [] sessions"

definition number_sessions :: "ActivityWatchSessionCandidate list \<Rightarrow> ActivityWatchSessionCandidate list" where
  "number_sessions sessions =
     map (\<lambda>(index, s). s\<lparr>sc_id := lit ''aw-'' @ pad0 4 (int index + 1)\<rparr>) (List.enumerate 0 sessions)"

definition sessionize :: "DerivedActivity list \<Rightarrow> (int \<times> int) list \<Rightarrow> int \<Rightarrow> int \<Rightarrow> ActivityWatchSessionCandidate list" where
  "sessionize activities afk_intervals range_start range_end =
     (let slices = List.map_filter (slice_of activities afk_intervals)
            (windows2 (session_boundaries activities afk_intervals range_start range_end));
          sessions = fold add_slice slices [];
          sessions = filter (\<lambda>s. sc_duration s > 0) sessions;
          sessions = collapse_transient_interruptions sessions in
      number_sessions (aggregate_review_sessions sessions))"

subsection \<open>The review\<close>

text \<open>The events of one bucket, and the loop over the buckets with its running count.\<close>

fun collect_events ::
    "(rat \<Rightarrow> F64) \<Rightarrow> ActivitySource \<Rightarrow> JiraActiveIssue list \<Rightarrow> ActivityWatchEvent list
     \<Rightarrow> DerivedActivity list \<times> (int \<times> int) list \<Rightarrow> DerivedActivity list \<times> (int \<times> int) list" where
  "collect_events times_1000 source issues [] acc = acc"
| "collect_events times_1000 source issues (event # events) (activities, afk) =
     collect_events times_1000 source issues events
       (case event_bounds times_1000 event of
          None \<Rightarrow> (activities, afk)
        | Some (event_start, event_end) \<Rightarrow>
            if source = SourceAfk then
              (activities, case ev_data event (lit ''status'') of
                 None \<Rightarrow> afk
               | Some status \<Rightarrow> if to_ascii_lowercase status = lit ''afk'' then afk @ [(event_start, event_end)] else afk)
            else (activities @ [activity_from_event source event_start event_end (ev_data event) issues], afk))"

fun collect_buckets ::
    "(rat \<Rightarrow> F64) \<Rightarrow> (str \<Rightarrow> ActivityWatchReviewError + ActivityWatchEvent list) \<Rightarrow> JiraActiveIssue list
     \<Rightarrow> ActivityWatchBucket list \<Rightarrow> nat \<Rightarrow> DerivedActivity list \<times> (int \<times> int) list
     \<Rightarrow> ActivityWatchReviewError + DerivedActivity list \<times> (int \<times> int) list" where
  "collect_buckets times_1000 fetch_events issues [] event_count acc = Inr acc"
| "collect_buckets times_1000 fetch_events issues (bucket # buckets) event_count acc =
     (case source_from_bucket_type (bucket_type bucket) of
        None \<Rightarrow> collect_buckets times_1000 fetch_events issues buckets event_count acc
      | Some source \<Rightarrow>
          rbind (fetch_events (bucket_id bucket)) (\<lambda>events.
          let event_count = min u64_max (event_count + length events) in
          rbind (ensure (\<not> event_count > MAX_REVIEW_EVENTS) ResponseTooLarge) (\<lambda>_.
          collect_buckets times_1000 fetch_events issues buckets event_count
            (collect_events times_1000 source issues events acc))))"

text \<open>
  \<open>buckets\<close> is the answer of the first request, the values of the map in its order, and
  \<open>fetch_events start end id\<close> that of the request for the events of a bucket.
\<close>

definition daily_review_with_jira_issues ::
    "(rat \<Rightarrow> F64) \<Rightarrow> ActivityWatchReviewError + ActivityWatchBucket list
     \<Rightarrow> (str \<Rightarrow> str \<Rightarrow> str \<Rightarrow> ActivityWatchReviewError + ActivityWatchEvent list)
     \<Rightarrow> int \<Rightarrow> int \<Rightarrow> JiraActiveIssue list \<Rightarrow> ActivityWatchReviewError + ActivityWatchDailyReview" where
  "daily_review_with_jira_issues times_1000 buckets fetch_events started ended issues =
     rbind (ensure (\<not> (started < 0 \<or> ended \<le> started
        \<or> i64_saturating_sub ended started > MAX_REVIEW_WINDOW_MILLISECONDS)) InvalidTimeRange) (\<lambda>_.
     rbind (ok_or (unix_milliseconds_to_rfc3339 started) InvalidTimeRange) (\<lambda>start.
     rbind (ok_or (unix_milliseconds_to_rfc3339 ended) InvalidTimeRange) (\<lambda>end_text.
     rbind buckets (\<lambda>bs.
     rbind (ensure (\<not> length bs > MAX_REVIEW_BUCKETS) ResponseTooLarge) (\<lambda>_.
     rbind (collect_buckets times_1000 (fetch_events start end_text) issues (sort_key bucket_id bs) 0 ([], []))
       (\<lambda>(activities, afk).
     let sessions = sessionize activities afk started ended in
     Inr \<lparr>dr_schema_version = 1, dr_started = started, dr_ended = ended,
          dr_total_active_seconds = sum_list (map sc_duration sessions), dr_sessions = sessions,
          dr_detail = lit ''Derived locally for review. Raw ActivityWatch titles, URLs, paths, and event payloads were not retained.''\<rparr>))))))"

subsection \<open>Sessions are made of active time\<close>

text \<open>The time a review may count: inside the range, under an activity, and not away.\<close>

definition active_time :: "DerivedActivity list \<Rightarrow> (int \<times> int) list \<Rightarrow> int \<Rightarrow> int \<Rightarrow> int set" where
  "active_time activities afk_intervals range_start range_end =
     {x. range_start \<le> x \<and> x < range_end \<and> (\<exists>a \<in> set activities. da_start a \<le> x \<and> x < da_end a)
       \<and> \<not> (\<exists>(s, e) \<in> set afk_intervals. s \<le> x \<and> x < e)}"

text \<open>Sessions in order whose spans are stretches of \<open>A\<close>, measured in whole seconds.\<close>

definition stretches :: "int set \<Rightarrow> ActivityWatchSessionCandidate list \<Rightarrow> bool" where
  "stretches A ss \<longleftrightarrow>
     sorted_wrt (\<lambda>s t. sc_ended s \<le> sc_started t) ss
     \<and> (\<forall>s \<in> set ss. sc_started s < sc_ended s \<and> {sc_started s ..< sc_ended s} \<subseteq> A
          \<and> sc_duration s = (sc_ended s - sc_started s) div 1000)"

lemma stretches_measure:
  assumes "stretches A ss" and "finite A"
  shows "1000 * sum_list (map sc_duration ss) \<le> int (card A)"
proof -
  have "1000 * sc_duration s \<le> sc_ended s - sc_started s" if "s \<in> set ss" for s
    using assms(1) that by (auto simp: stretches_def)
  then have "sum_list (map (\<lambda>s. 1000 * sc_duration s) ss) \<le> sum_list (map (\<lambda>s. sc_ended s - sc_started s) ss)"
    by (intro sum_list_mono) auto
  also have "\<dots> = int (card (\<Union>s \<in> set ss. {sc_started s ..< sc_ended s}))"
    using assms(1) by (intro sum_spans) (auto simp: stretches_def)
  also have "\<dots> \<le> int (card A)"
    using assms by (intro of_nat_mono card_mono) (auto simp: stretches_def)
  finally show ?thesis by (simp add: sum_list_const_mult)
qed

lemma add_slice_stretches:
  assumes "stretches A ss" and "\<forall>s \<in> set ss. sc_ended s \<le> start" and "start < end_ms" and "{start ..< end_ms} \<subseteq> A"
  shows "stretches A (add_slice (start, end_ms, a) ss) \<and> (\<forall>s \<in> set (add_slice (start, end_ms, a) ss). sc_ended s \<le> end_ms)"
proof (cases "ss \<noteq> [] \<and> continues (last ss) start a")
  case True
  then obtain m s where ss: "ss = m @ [s]" and ended: "sc_ended s = start"
    by (metis append_butlast_last_id continues_def)
  have added: "add_slice (start, end_ms, a) ss
      = m @ [s\<lparr>sc_ended := end_ms, sc_duration := (end_ms - sc_started s) div 1000, sc_events := sc_events s + 1\<rparr>]"
    using True ss by (simp add: add_slice_def)
  have "{sc_started s ..< end_ms} \<subseteq> {sc_started s ..< start} \<union> {start ..< end_ms}" by auto
  moreover have "{sc_started s ..< start} \<subseteq> A" using assms(1) ss ended by (simp add: stretches_def)
  ultimately have "{sc_started s ..< end_ms} \<subseteq> A" using assms(4) by blast
  then show ?thesis
    unfolding added using assms ss ended by (auto simp: stretches_def sorted_wrt_append)
next
  case False
  then have "add_slice (start, end_ms, a) ss = ss @ [session_of start end_ms a]" by (auto simp: add_slice_def)
  then show ?thesis using assms by (auto simp: stretches_def sorted_wrt_append session_of_def)
qed

lemma add_slices_stretches:
  assumes "sorted_wrt (\<lambda>(s, e, a) (s', e', a'). e \<le> s') slices" and "\<forall>(s, e, a) \<in> set slices. s < e \<and> {s ..< e} \<subseteq> A"
    and "stretches A ss" and "\<forall>(s, e, a) \<in> set slices. \<forall>t \<in> set ss. sc_ended t \<le> s"
  shows "stretches A (fold add_slice slices ss)"
  using assms
proof (induction slices arbitrary: ss)
  case (Cons piece slices)
  obtain s e a where piece: "piece = (s, e, a)" by (cases piece)
  have step: "stretches A (add_slice piece ss)" "\<forall>t \<in> set (add_slice piece ss). sc_ended t \<le> e"
    using add_slice_stretches [of A ss s e a] Cons.prems unfolding piece by auto
  have "\<forall>(s', e', a') \<in> set slices. \<forall>t \<in> set (add_slice piece ss). sc_ended t \<le> s'"
    using step(2) Cons.prems(1) unfolding piece by fastforce
  then show ?case using Cons.IH [OF _ _ step(1)] Cons.prems(1,2) by (simp add: case_prod_beta)
qed simp

lemma max_by_key_Some: "max_by_key f xs = Some x \<Longrightarrow> x \<in> set xs"
proof (cases xs)
  case (Cons y ys)
  have "fold (\<lambda>y best. if f best \<le> f y then y else best) ys y \<in> insert y (set ys)" for y
    by (induction ys arbitrary: y) auto
  then show "max_by_key f xs = Some x \<Longrightarrow> x \<in> set xs" using Cons by auto
qed simp

lemma max_by_key_None [simp]: "max_by_key f xs = None \<longleftrightarrow> xs = []"
  by (cases xs) simp_all

text \<open>No end of an interval lies strictly inside a window of the boundaries.\<close>

lemma window_sides:
  assumes "sorted_wrt (<) bs" and "(s, e) \<in> set (windows2 bs)" and "clamp_to rs re t \<in> set bs"
    and "rs \<le> s" and "e \<le> re" and "s \<le> x" and "x < e" and "s \<le> y" and "y < e"
  shows "t \<le> x \<longleftrightarrow> t \<le> y"
  using windows2_gap [OF assms(1-3)] assms(4-9) by (auto simp: clamp_to_def min_def max_def split: if_splits)

lemma windows2_ends: "(s, e) \<in> set (windows2 bs) \<Longrightarrow> s \<in> set bs \<and> e \<in> set bs"
  by (induction bs rule: windows2.induct) auto

lemma windows2_sorted:
  fixes bs :: "int list"
  shows "sorted_wrt (<) bs \<Longrightarrow> sorted_wrt (\<lambda>(s, e) (s', e'). e \<le> s') (windows2 bs)"
proof (induction bs rule: windows2.induct)
  case (1 x y zs)
  have "y \<le> s" if "(s, e) \<in> set (windows2 (y # zs))" for s e
    using windows2_start [OF _ that] 1(2) by simp
  then show ?case using 1 by auto
qed simp_all

lemma session_boundaries_spec:
  assumes "rs \<le> re" and "bs = session_boundaries activities afk rs re"
  shows "sorted_wrt (<) bs" and "b \<in> set bs \<Longrightarrow> rs \<le> b \<and> b \<le> re"
    and "a \<in> set activities \<Longrightarrow> clamp_to rs re (da_start a) \<in> set bs \<and> clamp_to rs re (da_end a) \<in> set bs"
    and "(s, e) \<in> set afk \<Longrightarrow> clamp_to rs re s \<in> set bs \<and> clamp_to rs re e \<in> set bs"
proof -
  show "sorted_wrt (<) bs" unfolding assms(2) session_boundaries_def by (simp add: sort_dedup_eq)
  have bs: "set bs = {rs, re} \<union> (\<Union>a \<in> set activities. {clamp_to rs re (da_start a), clamp_to rs re (da_end a)})
      \<union> (\<Union>(s, e) \<in> set afk. {clamp_to rs re s, clamp_to rs re e})"
    unfolding assms(2) session_boundaries_def by auto
  have clamp: "rs \<le> clamp_to rs re t \<and> clamp_to rs re t \<le> re" for t using assms(1) by (simp add: clamp_to_def)
  show "b \<in> set bs \<Longrightarrow> rs \<le> b \<and> b \<le> re" unfolding bs using assms(1) clamp by auto
  show "a \<in> set activities \<Longrightarrow> clamp_to rs re (da_start a) \<in> set bs \<and> clamp_to rs re (da_end a) \<in> set bs"
    unfolding bs by blast
  show "(s, e) \<in> set afk \<Longrightarrow> clamp_to rs re s \<in> set bs \<and> clamp_to rs re e \<in> set bs"
    unfolding bs by blast
qed

text \<open>A slice is a stretch of active time: what holds at its midpoint holds throughout.\<close>

lemma slice_active:
  assumes "rs \<le> re" and "bs = session_boundaries activities afk rs re" and "(s, e) \<in> set (windows2 bs)"
    and "slice_of activities afk (s, e) = Some (s', e', a)"
  shows "s' = s \<and> e' = e \<and> s < e \<and> {s ..< e} \<subseteq> active_time activities afk rs re"
proof -
  define mid where "mid = s + (e - s) div 2"
  note bs = session_boundaries_spec [OF assms(1,2)]
  have "max_by_key da_priority (filter (\<lambda>a. da_start a \<le> mid \<and> mid < da_end a) activities) = Some a"
    and lt: "s < e" and eqs: "s' = s" "e' = e"
    and away: "\<not> (\<exists>(s, e) \<in> set afk. s \<le> mid \<and> mid < e)"
    using assms(4) by (auto simp: slice_of_def Let_def mid_def split: if_splits)
  then have a: "a \<in> set activities" "da_start a \<le> mid" "mid < da_end a"
    using max_by_key_Some by fastforce+
  have mid: "s \<le> mid" "mid < e" using lt by (auto simp: mid_def)
  have range: "rs \<le> s" "e \<le> re" using windows2_ends [OF assms(3)] bs(2) by blast+
  have side: "t \<le> x \<longleftrightarrow> t \<le> mid" if "clamp_to rs re t \<in> set bs" "s \<le> x" "x < e" for t x
    using window_sides [OF bs(1) assms(3) that(1) range that(2,3) mid] .
  have "x \<in> active_time activities afk rs re" if x: "s \<le> x" "x < e" for x
  proof -
    have "da_start a \<le> x" "x < da_end a"
      using side [OF _ x, of "da_start a"] side [OF _ x, of "da_end a"] bs(3) [OF a(1)] a(2,3) by (auto simp: not_le [symmetric])
    moreover have "\<not> (u \<le> x \<and> x < v)" if "(u, v) \<in> set afk" for u v
      using side [OF _ x, of u] side [OF _ x, of v] bs(4) [OF that] away that by (auto simp: not_le [symmetric])
    ultimately show ?thesis using x range a(1) by (auto simp: active_time_def)
  qed
  then show ?thesis using eqs lt by auto
qed

lemma sorted_wrt_map_filter:
  "sorted_wrt P xs \<Longrightarrow> (\<And>x y x' y'. P x y \<Longrightarrow> f x = Some x' \<Longrightarrow> f y = Some y' \<Longrightarrow> Q x' y')
    \<Longrightarrow> sorted_wrt Q (List.map_filter f xs)"
  by (induction xs) (auto simp: List.map_filter_def split: option.splits)

lemma slices_stretches:
  assumes "rs \<le> re" and "bs = session_boundaries activities afk rs re"
    and "slices = List.map_filter (slice_of activities afk) (windows2 bs)"
  shows "stretches (active_time activities afk rs re) (fold add_slice slices [])"
proof (rule add_slices_stretches)
  have window: "slice_of activities afk w = Some (s', e', a) \<Longrightarrow> w = (s', e')" for w s' e' a
    by (cases w) (auto simp: slice_of_def Let_def split: if_splits)
  show "sorted_wrt (\<lambda>(s, e, a) (s', e', a'). e \<le> s') slices"
    unfolding assms(3)
    by (rule sorted_wrt_map_filter [OF windows2_sorted [OF session_boundaries_spec(1) [OF assms(1,2)]]])
      (auto dest!: window)
  show "\<forall>(s, e, a) \<in> set slices. s < e \<and> {s ..< e} \<subseteq> active_time activities afk rs re"
  proof clarify
    fix s e a assume "(s, e, a) \<in> set slices"
    then obtain w where w: "w \<in> set (windows2 bs)" "slice_of activities afk w = Some (s, e, a)"
      unfolding assms(3) by (auto simp: List.map_filter_def)
    then have "w = (s, e)" using window by blast
    with w show "s < e \<and> {s ..< e} \<subseteq> active_time activities afk rs re" using slice_active [OF assms(1,2)] by blast
  qed
qed (simp_all add: stretches_def)

subsection \<open>Collapsing and aggregating\<close>

lemma stretches_filter: "stretches A ss \<Longrightarrow> stretches A (filter P ss)"
  by (auto simp: stretches_def sorted_wrt_filter)

lemma merged_stretches:
  assumes "stretches A (xs @ p # m # f # ys)" and "sc_ended p = sc_started m" and "sc_ended m = sc_started f"
  shows "stretches A (xs @ merged p m f # ys)"
proof -
  have "{sc_started p ..< sc_ended f}
      \<subseteq> {sc_started p ..< sc_ended p} \<union> {sc_started m ..< sc_ended m} \<union> {sc_started f ..< sc_ended f}"
    using assms(2,3) by auto
  also have "\<dots> \<subseteq> A" using assms(1) by (auto simp: stretches_def)
  finally show ?thesis using assms by (fastforce simp: stretches_def sorted_wrt_append merged_def)
qed

lemma three_at:
  assumes "i + 1 < length xs" and "i \<noteq> 0"
  shows "xs = take (i - 1) xs @ xs ! (i - 1) # xs ! i # xs ! (i + 1) # drop (i + 2) xs"
proof -
  have "drop (i - 1) xs = xs ! (i - 1) # drop i xs" using assms by (metis Cons_nth_drop_Suc Suc_diff_1 Suc_lessD add_lessD1 gr0I less_imp_diff_less)
  moreover have "drop i xs = xs ! i # drop (i + 1) xs" using assms by (simp add: Cons_nth_drop_Suc)
  moreover have "drop (i + 1) xs = xs ! (i + 1) # drop (i + 2) xs" using assms by (simp add: Cons_nth_drop_Suc)
  ultimately show ?thesis by (metis append_take_drop_id)
qed

lemma collapse_stretches:
  "stretches A ss \<Longrightarrow> \<forall>s \<in> set ss. 0 < sc_duration s
    \<Longrightarrow> stretches A (collapse_from i ss) \<and> (\<forall>s \<in> set (collapse_from i ss). 0 < sc_duration s)"
proof (induction i ss rule: collapse_from.induct)
  case (1 i ss)
  consider (stop) "\<not> i + 1 < length ss"
    | (merge) "i + 1 < length ss" "i \<noteq> 0" "interrupts (ss ! (i - 1)) (ss ! i) (ss ! (i + 1))"
    | (skip) "i + 1 < length ss" "\<not> (i \<noteq> 0 \<and> interrupts (ss ! (i - 1)) (ss ! i) (ss ! (i + 1)))" by blast
  then show ?case
  proof cases
    case stop
    then show ?thesis using 1 by (simp add: collapse_from.simps [of i])
  next
    case skip
    have "\<not> \<not> i + 1 < length ss" using skip(1) by simp
    moreover have "collapse_from i ss = collapse_from (i + 1) ss"
      by (subst collapse_from.simps) (simp only: skip(1) if_not_P [OF skip(2)] not_True_eq_False if_False)
    ultimately show ?thesis using 1(2) [OF _ skip(2) 1(3,4)] by simp
  next
    case merge
    let ?p = "ss ! (i - 1)" and ?m = "ss ! i" and ?f = "ss ! (i + 1)"
    let ?new = "take (i - 1) ss @ merged ?p ?m ?f # drop (i + 2) ss"
    note three = three_at [OF merge(1,2)]
    have meet: "sc_ended ?p = sc_started ?m" "sc_ended ?m = sc_started ?f" using merge(3) by (simp_all add: interrupts_def)
    have new: "stretches A ?new" using 1(3) meet by (subst (asm) three) (rule merged_stretches)
    have members: "?p \<in> set ss" "?m \<in> set ss" "?f \<in> set ss" using merge(1) by simp_all
    have "sc_started ?m < sc_ended ?m" "sc_started ?f < sc_ended ?f" using 1(3) members by (simp_all add: stretches_def)
    then have "sc_ended ?p \<le> sc_ended ?f" using meet by linarith
    moreover have "sc_duration ?p = (sc_ended ?p - sc_started ?p) div 1000" "0 < sc_duration ?p"
      using 1(3,4) members by (simp_all add: stretches_def)
    ultimately have "0 < sc_duration (merged ?p ?m ?f)"
      using zdiv_mono1 [of "sc_ended ?p - sc_started ?p" "sc_ended ?f - sc_started ?p" 1000] by (simp add: merged_def)
    then have "\<forall>s \<in> set ?new. 0 < sc_duration s" using 1(4) by (auto dest: in_set_takeD in_set_dropD)
    then show ?thesis
      using 1(1) [OF _ _ new] merge by (simp add: collapse_from.simps [of i])
  qed
qed

text \<open>Sessions between two times, in order and apart, none longer than its span.\<close>

fun apart :: "int \<Rightarrow> int \<Rightarrow> ActivityWatchSessionCandidate list \<Rightarrow> bool" where
  "apart lo hi [] \<longleftrightarrow> lo \<le> hi"
| "apart lo hi (s # ss) \<longleftrightarrow>
     lo \<le> sc_started s \<and> sc_started s < sc_ended s \<and> 0 < sc_duration s
     \<and> 1000 * sc_duration s \<le> sc_ended s - sc_started s \<and> apart (sc_ended s) hi ss"

lemma apart_le: "apart lo hi ss \<Longrightarrow> lo \<le> hi"
  by (induction ss arbitrary: lo) fastforce+

lemma apart_append:
  "xs \<noteq> [] \<Longrightarrow> apart lo hi (xs @ ys) \<longleftrightarrow> apart lo (sc_ended (last xs)) xs \<and> apart (sc_ended (last xs)) hi ys"
proof (induction xs arbitrary: lo)
  case (Cons x xs)
  then show ?case by (cases "xs = []") (auto dest: apart_le)
qed simp

lemma apart_bounds:
  "apart lo hi ss \<Longrightarrow> sorted_wrt (\<lambda>s t. sc_ended s \<le> sc_started t) ss
    \<and> (\<forall>s \<in> set ss. lo \<le> sc_started s \<and> sc_started s < sc_ended s \<and> sc_ended s \<le> hi \<and> 0 < sc_duration s
        \<and> 1000 * sc_duration s \<le> sc_ended s - sc_started s)"
proof (induction ss arbitrary: lo)
  case (Cons s ss)
  then show ?case using apart_le [of "sc_ended s" hi ss] by fastforce
qed simp

lemma apart_measure:
  "apart lo hi ss \<Longrightarrow> ss \<noteq> [] \<Longrightarrow> 0 < sum_list (map sc_duration ss)
    \<and> 1000 * sum_list (map sc_duration ss) \<le> hi - sc_started (hd ss)"
proof (induction ss arbitrary: lo)
  case (Cons s ss)
  show ?case
  proof (cases "ss = []")
    case False
    then have "0 < sum_list (map sc_duration ss)" "1000 * sum_list (map sc_duration ss) \<le> hi - sc_started (hd ss)"
      "sc_ended s \<le> sc_started (hd ss)"
      using Cons by (auto simp: neq_Nil_conv)
    then show ?thesis using Cons.prems by simp
  qed (use Cons.prems in auto)
qed simp

lemma stretches_apart:
  "stretches A ss \<Longrightarrow> \<forall>s \<in> set ss. 0 < sc_duration s \<Longrightarrow> A \<subseteq> {lo ..< hi} \<Longrightarrow> lo \<le> hi \<Longrightarrow> apart lo hi ss"
proof (induction ss arbitrary: lo A)
  case (Cons s ss)
  have s: "sc_started s < sc_ended s" "{sc_started s ..< sc_ended s} \<subseteq> A" "0 < sc_duration s"
    "sc_duration s = (sc_ended s - sc_started s) div 1000"
    using Cons.prems by (auto simp: stretches_def)
  have "sc_started s \<in> A" "sc_ended s - 1 \<in> A" using s(1,2) by (auto simp: subset_iff)
  then have "sc_started s \<in> {lo ..< hi}" "sc_ended s - 1 \<in> {lo ..< hi}" using Cons.prems(3) by blast+
  moreover have "apart (sc_ended s) hi ss"
  proof (rule Cons.IH)
    show "stretches (A \<inter> {sc_ended s ..< hi}) ss"
      unfolding stretches_def
    proof (intro conjI ballI)
      show "sorted_wrt (\<lambda>s t. sc_ended s \<le> sc_started t) ss" using Cons.prems(1) by (simp add: stretches_def)
      fix t assume t: "t \<in> set ss"
      then have le: "sc_ended s \<le> sc_started t" and sub: "{sc_started t ..< sc_ended t} \<subseteq> A"
        using Cons.prems(1) by (simp_all add: stretches_def)
      show "sc_started t < sc_ended t" "sc_duration t = (sc_ended t - sc_started t) div 1000"
        using Cons.prems(1) t by (simp_all add: stretches_def)
      have "A \<subseteq> {..< hi}" using Cons.prems(3) by auto
      then show "{sc_started t ..< sc_ended t} \<subseteq> A \<inter> {sc_ended s ..< hi}" using le sub by fastforce
    qed
    show "sc_ended s \<le> hi" using calculation by simp
  qed (use Cons.prems(2) in auto)
  ultimately show ?case using s by auto
qed simp

lemma aggregate_chunk_simps:
  "sc_started (aggregate_session_chunk c) = sc_started (hd c)"
  "sc_ended (aggregate_session_chunk c) = sc_ended (last c)"
  "sc_duration (aggregate_session_chunk c) = sum_list (map sc_duration c)"
  by (simp_all add: aggregate_session_chunk_def Let_def)

lemma aggregate_chunk_apart:
  assumes "c \<noteq> []" and "apart lo (sc_ended (last c)) c" and "apart (sc_ended (last c)) hi ss"
  shows "apart lo hi (aggregate_session_chunk c # ss)"
proof -
  have "lo \<le> sc_started (hd c)" using assms(1,2) by (cases c) auto
  then show ?thesis using apart_measure [OF assms(2,1)] assms(3) by (auto simp: aggregate_chunk_simps)
qed

lemma aggregate_chunks_apart:
  "apart lo hi (c @ ss) \<Longrightarrow> apart lo hi (aggregate_chunks c ss)
    \<and> sum_list (map sc_duration (aggregate_chunks c ss)) = sum_list (map sc_duration (c @ ss))"
proof (induction c ss arbitrary: lo rule: aggregate_chunks.induct)
  case (1 c)
  then show ?case
    using aggregate_chunk_apart [of c lo hi "[]"] apart_append [of c lo hi "[]"]
    by (auto simp: aggregate_chunk_simps)
next
  case (2 c s ss)
  show ?case
  proof (cases "should_flush c s")
    case True
    then have c: "c \<noteq> []" by (simp add: should_flush_def)
    with 2(3) have parts: "apart lo (sc_ended (last c)) c" "apart (sc_ended (last c)) hi ([s] @ ss)"
      by (simp_all add: apart_append del: apart.simps)
    have rest: "apart (sc_ended (last c)) hi (aggregate_chunks [s] ss)"
      "sum_list (map sc_duration (aggregate_chunks [s] ss)) = sum_list (map sc_duration ([s] @ ss))"
      using 2(1) [OF True parts(2)] by blast+
    show ?thesis
      using aggregate_chunk_apart [OF c parts(1) rest(1)] rest(2) True by (simp add: aggregate_chunk_simps del: apart.simps)
  next
    case False
    then show ?thesis using 2(2) [OF False, of lo] 2(3) by simp
  qed
qed

lemma number_sessions_simps:
  "map sc_id (number_sessions ss) = map (\<lambda>i. lit ''aw-'' @ pad0 4 (int i + 1)) [0..<length ss]"
  "map sc_duration (number_sessions ss) = map sc_duration ss"
  "apart lo hi (number_sessions ss) = apart lo hi ss"
proof -
  have "apart lo hi (map (\<lambda>(index, s). s\<lparr>sc_id := lit ''aw-'' @ pad0 4 (int index + 1)\<rparr>) (List.enumerate n ss)) = apart lo hi ss" for n
    by (induction ss arbitrary: lo n) simp_all
  then show "apart lo hi (number_sessions ss) = apart lo hi ss" by (simp add: number_sessions_def)
  have "map (sc_duration \<circ> (\<lambda>(index, s). s\<lparr>sc_id := lit ''aw-'' @ pad0 4 (int index + 1)\<rparr>)) (List.enumerate n ss)
      = map sc_duration ss" for n
    by (induction ss arbitrary: n) simp_all
  then show "map sc_duration (number_sessions ss) = map sc_duration ss" by (simp add: number_sessions_def)
  show "map sc_id (number_sessions ss) = map (\<lambda>i. lit ''aw-'' @ pad0 4 (int i + 1)) [0..<length ss]"
    by (rule nth_equalityI) (simp_all add: number_sessions_def nth_enumerate_eq)
qed

text \<open>
  C31: the sessions of a review are numbered in time order, lie inside the range, do not overlap and
  are longer than a second, and the seconds counted in all of them are at most the time that was
  under an activity and not away, so nothing is counted twice and no absence is counted.
\<close>

theorem sessions_count_active_time:
  assumes "range_start \<le> range_end" and "ss = sessionize activities afk range_start range_end"
  shows "map sc_id ss = map (\<lambda>i. lit ''aw-'' @ pad0 4 (int i + 1)) [0..<length ss]
    \<and> sorted_wrt (\<lambda>s t. sc_ended s \<le> sc_started t) ss
    \<and> (\<forall>s \<in> set ss. range_start \<le> sc_started s \<and> sc_ended s \<le> range_end \<and> 0 < sc_duration s
        \<and> 1000 * sc_duration s \<le> sc_ended s - sc_started s)
    \<and> 1000 * sum_list (map sc_duration ss) \<le> int (card {x. range_start \<le> x \<and> x < range_end
        \<and> (\<exists>a \<in> set activities. da_start a \<le> x \<and> x < da_end a) \<and> \<not> (\<exists>(s, e) \<in> set afk. s \<le> x \<and> x < e)})"
proof -
  let ?A = "active_time activities afk range_start range_end"
  define raw where "raw = fold add_slice (List.map_filter (slice_of activities afk)
    (windows2 (session_boundaries activities afk range_start range_end))) []"
  define kept where "kept = collapse_transient_interruptions (filter (\<lambda>s. sc_duration s > 0) raw)"
  have ss: "ss = number_sessions (aggregate_chunks [] kept)"
    unfolding assms(2) sessionize_def Let_def kept_def raw_def aggregate_review_sessions_def ..
  have raw: "stretches ?A raw" unfolding raw_def by (rule slices_stretches [OF assms(1) refl refl])
  have "\<forall>s \<in> set (filter (\<lambda>s. sc_duration s > 0) raw). 0 < sc_duration s" by simp
  from collapse_stretches [OF stretches_filter [OF raw] this, of 1]
  have kept: "stretches ?A kept" "\<forall>s \<in> set kept. 0 < sc_duration s"
    unfolding kept_def collapse_transient_interruptions_def by blast+
  have range: "?A \<subseteq> {range_start ..< range_end}" by (auto simp: active_time_def)
  have "apart range_start range_end ([] @ kept)" using stretches_apart [OF kept range assms(1)] by simp
  then have agg: "apart range_start range_end (aggregate_chunks [] kept)"
    "sum_list (map sc_duration (aggregate_chunks [] kept)) = sum_list (map sc_duration kept)"
    using aggregate_chunks_apart [of range_start range_end "[]" kept] by simp_all
  have "1000 * sum_list (map sc_duration ss) \<le> int (card ?A)"
    unfolding ss number_sessions_simps(2) agg(2)
    using kept(1) finite_subset [OF range] by (intro stretches_measure) simp_all
  note measure = this [unfolded active_time_def]
  have apart: "apart range_start range_end ss" unfolding ss number_sessions_simps(3) by (rule agg(1))
  have ids: "map sc_id ss = map (\<lambda>i. lit ''aw-'' @ pad0 4 (int i + 1)) [0..<length ss]"
    unfolding ss number_sessions_simps(1) by (simp add: number_sessions_def)
  from apart_bounds [OF apart] have "sorted_wrt (\<lambda>s t. sc_ended s \<le> sc_started t) ss"
    "\<forall>s \<in> set ss. range_start \<le> sc_started s \<and> sc_ended s \<le> range_end \<and> 0 < sc_duration s
        \<and> 1000 * sc_duration s \<le> sc_ended s - sc_started s" by blast+
  with ids measure show ?thesis by (intro conjI)
qed

subsection \<open>What evidence keeps\<close>

lemma split_where_pieces: "w \<in> set (split_where p s) \<Longrightarrow> set w \<subseteq> set s"
proof (induction s arbitrary: w)
  case (Cons c s)
  then show ?case by (cases "split_where p s") (fastforce split: if_splits)+
qed simp


























text \<open>A link or a path inside brackets or quotes passes the checks, which look at the raw word, and is shown.\<close>

lemma bracketed_link_shown:
  "sanitize_evidence (lit ''Docs (https://intranet/secret/page)'') 120 = lit ''Docs https://intranet/secret/page''"
  by code_simp

subsection \<open>An example\<close>

definition sample_activity :: DerivedActivity where
  "sample_activity = activity_from_event SourceEditor 0 60000 (Map.empty (lit ''project'' \<mapsto> lit ''wts'')) []"

theorem sessions_count_active_time_witness:
  "map sc_duration (sessionize [sample_activity] [(30000, 40000)] 0 100000) = [50]
   \<and> 1000 * sum_list (map sc_duration (sessionize [sample_activity] [(30000, 40000)] 0 100000))
     \<le> int (card {x. 0 \<le> x \<and> x < 100000 \<and> (\<exists>a \<in> set [sample_activity]. da_start a \<le> x \<and> x < da_end a)
        \<and> \<not> (\<exists>(s, e) \<in> set [(30000, 40000)]. s \<le> x \<and> x < e)})"
proof
  show "map sc_duration (sessionize [sample_activity] [(30000, 40000)] 0 100000) = [50]" by code_simp
  show "1000 * sum_list (map sc_duration (sessionize [sample_activity] [(30000, 40000)] 0 100000))
     \<le> int (card {x. 0 \<le> x \<and> x < 100000 \<and> (\<exists>a \<in> set [sample_activity]. da_start a \<le> x \<and> x < da_end a)
        \<and> \<not> (\<exists>(s, e) \<in> set [(30000, 40000)]. s \<le> x \<and> x < e)})"
    using sessions_count_active_time [of 0 100000, OF _ refl, where activities = "[sample_activity]" and afk = "[(30000, 40000)]"]
    by linarith
qed

end
