(* ===== verification/Json_Value.thy ===== *)
theory Json_Value
  imports Rust_Text
begin

text \<open>
  The values of \<open>serde_json\<close> with the accessors the sources use. A number is an integer or not; the
  parser that makes a value of a text is a parameter where it is used.
\<close>

datatype json = JNull | JBool bool | JInt int | JFloat | JString str | JArray "json list" | JObject "(str \<times> json) list"

text \<open>Access by a key: \<open>get\<close>, and indexing, which is null for what is not there.\<close>

fun json_get :: "json \<Rightarrow> str \<Rightarrow> json option" where
  "json_get (JObject entries) key = map_of entries key"
| "json_get _ key = None"

definition json_at :: "json \<Rightarrow> str \<Rightarrow> json" where
  "json_at v key = unwrap_or (json_get v key) JNull"

fun is_object :: "json \<Rightarrow> bool" where
  "is_object (JObject entries) = True"
| "is_object _ = False"

fun as_str :: "json \<Rightarrow> str option" where
  "as_str (JString s) = Some s"
| "as_str _ = None"

fun as_bool :: "json \<Rightarrow> bool option" where
  "as_bool (JBool b) = Some b"
| "as_bool _ = None"

fun as_array :: "json \<Rightarrow> json list option" where
  "as_array (JArray vs) = Some vs"
| "as_array _ = None"

fun as_u64 :: "json \<Rightarrow> nat option" where
  "as_u64 (JInt i) = u64_try_from i"
| "as_u64 _ = None"

fun as_i64 :: "json \<Rightarrow> int option" where
  "as_i64 (JInt i) = i64_checked i"
| "as_i64 _ = None"

definition str_or :: "json \<Rightarrow> str \<Rightarrow> str" where
  "str_or v fallback = unwrap_or (as_str v) fallback"

text \<open>The items of an array that may be missing.\<close>

definition array_items :: "json option \<Rightarrow> json list" where
  "array_items v = unwrap_or (Option.bind v as_array) []"

end
