(* ===== verification/Review_Patch.thy ===== *)
theory Review_Patch
  imports Rust_Text
begin

text \<open>
  How code reviews read a Git patch: the functions of \<open>wts-app/src/service.rs\<close> that find a changed
  line and the path in a header, and those of \<open>code_review.rs\<close> that count changed lines and choose the
  strictness. The theorems are about patches as Git writes them.
\<close>

subsection \<open>Paths in headers\<close>

text \<open>At most the given number of further octal digits, at the width of a byte.\<close>

fun octal_digits :: "nat \<Rightarrow> nat \<Rightarrow> nat list \<Rightarrow> nat \<times> nat list" where
  "octal_digits n v [] = (v, [])"
| "octal_digits n v (d # bs) =
     (if 0 < n \<and> 48 \<le> d \<and> d \<le> 55 then octal_digits (n - 1) (min 255 (min 255 (v * 8) + (d - 48))) bs else (v, d # bs))"

lemma octal_digits_length: "length (snd (octal_digits n v bs)) \<le> length bs"
  by (induction n v bs rule: octal_digits.induct) auto

function unquote_bytes :: "nat list \<Rightarrow> nat list option" where
  "unquote_bytes [] = Some []"
| "unquote_bytes (b # bs) =
     (if b \<noteq> 92 then map_option (Cons b) (unquote_bytes bs) else
      case bs of
        [] \<Rightarrow> None
      | e # rest \<Rightarrow>
          if e = 34 \<or> e = 92 then map_option (Cons e) (unquote_bytes rest)
          else if e = chr CHR ''a'' then map_option (Cons 7) (unquote_bytes rest)
          else if e = chr CHR ''b'' then map_option (Cons 8) (unquote_bytes rest)
          else if e = chr CHR ''t'' then map_option (Cons 9) (unquote_bytes rest)
          else if e = chr CHR ''n'' then map_option (Cons 10) (unquote_bytes rest)
          else if e = chr CHR ''v'' then map_option (Cons 11) (unquote_bytes rest)
          else if e = chr CHR ''f'' then map_option (Cons 12) (unquote_bytes rest)
          else if e = chr CHR ''r'' then map_option (Cons 13) (unquote_bytes rest)
          else if 48 \<le> e \<and> e \<le> 55 then
            map_option (Cons (fst (octal_digits 2 (e - 48) rest))) (unquote_bytes (snd (octal_digits 2 (e - 48) rest)))
          else None)"
  by pat_completeness auto
termination
  by (relation "measure length") (auto intro!: le_imp_less_Suc le_SucI octal_digits_length)

definition parse_git_quoted_path :: "str \<Rightarrow> str option" where
  "parse_git_quoted_path v =
     Option.bind (strip_prefix [34] v) (\<lambda>v.
     Option.bind (strip_suffix [34] v) (\<lambda>v.
     Option.bind (unquote_bytes (as_bytes v)) from_utf8))"

definition git_patch_header_path :: "str \<Rightarrow> str \<Rightarrow> str option" where
  "git_patch_header_path line marker =
     Option.bind (strip_prefix marker line) (\<lambda>v.
     let v = (case split_once 9 v of None \<Rightarrow> v | Some (path, _) \<Rightarrow> path) in
     if v = lit ''/dev/null'' then None else
     Option.bind (if starts_with [34] v then parse_git_quoted_path v else Some v) (\<lambda>v.
     Some (unwrap_or (or_else (strip_prefix (lit ''a/'') v) (strip_prefix (lit ''b/'') v)) v)))"

subsection \<open>Changed lines\<close>

datatype ReviewCodeSide = Additions | Deletions

definition parse_patch_hunk_start :: "str \<Rightarrow> (nat \<times> nat) option" where
  "parse_patch_hunk_start header =
     Option.bind (strip_prefix (lit ''@@ -'') header) (\<lambda>header.
     Option.bind (split_once_str (lit '' +'') header) (\<lambda>(old, new_and_tail).
     Option.bind (split_once_str (lit '' @@'') new_and_tail) (\<lambda>(new, _).
     Option.bind (parse_u32 (hd (split_on 44 old))) (\<lambda>old.
     Option.bind (parse_u32 (hd (split_on 44 new))) (\<lambda>new. Some (old, new))))))"

record HunkScan =
  old_path_matches :: bool
  new_path_matches :: bool
  in_hunk :: bool
  old_line :: nat
  new_line :: nat

definition scan_start :: HunkScan where
  "scan_start = \<lparr>old_path_matches = False, new_path_matches = False, in_hunk = False, old_line = 0, new_line = 0\<rparr>"

definition header_names :: "str \<Rightarrow> str \<Rightarrow> str \<Rightarrow> bool" where
  "header_names line marker path \<longleftrightarrow> git_patch_header_path line marker = Some path"

text \<open>One iteration of the loop: true if it returns, or the state of the next iteration.\<close>

definition scan_hunk_line :: "ReviewCodeSide \<Rightarrow> nat \<Rightarrow> HunkScan \<Rightarrow> str \<Rightarrow> bool \<times> HunkScan" where
  "scan_hunk_line side target_line st line =
     (case line of
        [] \<Rightarrow> (False, st)
      | c # _ \<Rightarrow>
          if c = chr CHR ''+'' then
            (side = Additions \<and> new_line st = target_line, st\<lparr>new_line := u32_saturating_add (new_line st) 1\<rparr>)
          else if c = chr CHR ''-'' then
            (side = Deletions \<and> old_line st = target_line, st\<lparr>old_line := u32_saturating_add (old_line st) 1\<rparr>)
          else if c = 32 then
            (False, st\<lparr>old_line := u32_saturating_add (old_line st) 1, new_line := u32_saturating_add (new_line st) 1\<rparr>)
          else if c = 92 then (False, st)
          else (False, st\<lparr>in_hunk := False\<rparr>))"

definition scan_line :: "str \<Rightarrow> ReviewCodeSide \<Rightarrow> nat \<Rightarrow> HunkScan \<Rightarrow> str \<Rightarrow> bool \<times> HunkScan" where
  "scan_line file_path side target_line st line =
     (if starts_with (lit ''diff --git '') line then
        (False, st\<lparr>old_path_matches := False, new_path_matches := False, in_hunk := False\<rparr>)
      else if starts_with (lit ''@@ '') line then
        (case parse_patch_hunk_start line of
           None \<Rightarrow> (False, st\<lparr>in_hunk := False\<rparr>)
         | Some (old, new) \<Rightarrow>
             (False, st\<lparr>old_line := old, new_line := new, in_hunk := old_path_matches st \<or> new_path_matches st\<rparr>))
      else if in_hunk st then scan_hunk_line side target_line st line
      else if starts_with (lit ''--- '') line then
        (False, st\<lparr>old_path_matches := header_names line (lit ''--- '') file_path\<rparr>)
      else if starts_with (lit ''+++ '') line then
        (False, st\<lparr>new_path_matches := header_names line (lit ''+++ '') file_path\<rparr>)
      else (False, st))"

fun scan_lines :: "str \<Rightarrow> ReviewCodeSide \<Rightarrow> nat \<Rightarrow> HunkScan \<Rightarrow> str list \<Rightarrow> bool" where
  "scan_lines file_path side target_line st [] = False"
| "scan_lines file_path side target_line st (line # rest) =
     (let (found, st) = scan_line file_path side target_line st line in
      found \<or> scan_lines file_path side target_line st rest)"

definition patch_contains_changed_line :: "str \<Rightarrow> str \<Rightarrow> ReviewCodeSide \<Rightarrow> nat \<Rightarrow> bool" where
  "patch_contains_changed_line patch file_path side target_line =
     scan_lines file_path side target_line scan_start (str_lines patch)"

definition patch_names_file :: "str \<Rightarrow> str \<Rightarrow> bool" where
  "patch_names_file patch path \<longleftrightarrow>
     list_ex (\<lambda>line. starts_with (lit ''+++ '') line \<and> header_names line (lit ''+++ '') path
       \<or> starts_with (lit ''--- '') line \<and> header_names line (lit ''--- '') path) (str_lines patch)"

subsection \<open>The size of a change and its strictness\<close>

definition is_excluded_from_size_gate :: "str \<Rightarrow> bool" where
  "is_excluded_from_size_gate raw \<longleftrightarrow>
     (let path = trim_matches (\<lambda>c. c = 34) raw;
          leaf = after_last [chr CHR ''/''] path in
      ends_with (lit ''.lock'') leaf
      \<or> leaf \<in> set [lit ''package-lock.json'', lit ''pnpm-lock.yaml'', lit ''yarn.lock'', lit ''go.sum'', lit ''Cargo.lock'',
          lit ''poetry.lock'']
      \<or> contains_str (lit ''.generated.'') leaf
      \<or> ends_with (lit ''.pb.go'') leaf
      \<or> ends_with (lit ''.min.js'') leaf
      \<or> starts_with (lit ''vendor/'') path
      \<or> contains_str (lit ''/vendor/'') path
      \<or> starts_with (lit ''node_modules/'') path)"

fun count_changed :: "nat \<Rightarrow> bool \<Rightarrow> str list \<Rightarrow> nat" where
  "count_changed n counted_file [] = n"
| "count_changed n counted_file (line # rest) =
     (case strip_prefix (lit ''diff --git '') line of
        Some names \<Rightarrow> count_changed n (\<not> is_excluded_from_size_gate (after_last (lit '' b/'') names)) rest
      | None \<Rightarrow>
          if starts_with (lit ''+++ '') line \<or> starts_with (lit ''--- '') line then count_changed n counted_file rest
          else if counted_file \<and> (starts_with (lit ''+'') line \<or> starts_with (lit ''-'') line)
          then count_changed (u32_saturating_add n 1) counted_file rest
          else count_changed n counted_file rest)"

definition count_reviewable_changed_lines :: "str \<Rightarrow> nat" where
  "count_reviewable_changed_lines patch = count_changed 0 True (str_lines patch)"

datatype CodeReviewStrictness = StrictReview | NormalReview

definition review_strictness :: "str \<Rightarrow> str \<Rightarrow> str list \<Rightarrow> CodeReviewStrictness" where
  "review_strictness repository_label patch strict_repositories =
     (let label = filter (\<lambda>c. c \<noteq> chr CHR ''-'' \<and> c \<noteq> chr CHR ''_'') (to_ascii_lowercase repository_label) in
      if list_ex (\<lambda>name. name \<noteq> [] \<and> contains_str name label) strict_repositories then StrictReview
      else if list_ex (\<lambda>path. list_ex (\<lambda>extension. ends_with extension path)
          [lit ''.go'', lit ''.py'', lit ''.rs'', lit ''.java'', lit ''.kt'', lit ''.sql''])
        (List.map_filter (strip_prefix (lit ''+++ b/'')) (str_lines patch))
      then StrictReview else NormalReview)"

definition STRICT_REPOSITORIES :: "str list" where
  "STRICT_REPOSITORIES = [lit ''beacon'', lit ''harbor'', lit ''netdhcp'']"

definition raptik_strictness :: "str \<Rightarrow> str \<Rightarrow> CodeReviewStrictness" where
  "raptik_strictness repository_label patch = review_strictness repository_label patch STRICT_REPOSITORIES"

subsection \<open>Patches as Git writes them\<close>

datatype PatchLine = Context str | Added str | Removed str | NoNewline

record PatchHunk =
  ph_old :: nat
  ph_new :: nat
  ph_tail :: str
  ph_lines :: "PatchLine list"

record PatchFile =
  pf_names :: str
  pf_extra :: "str list"
  pf_old :: "str option"
  pf_new :: "str option"
  pf_hunks :: "PatchHunk list"

fun render_line :: "PatchLine \<Rightarrow> str" where
  "render_line (Context t) = 32 # t"
| "render_line (Added t) = 43 # t"
| "render_line (Removed t) = 45 # t"
| "render_line NoNewline = 92 # lit '' No newline at end of file''"

fun on_side :: "ReviewCodeSide \<Rightarrow> PatchLine \<Rightarrow> bool" where
  "on_side side (Context t) = True"
| "on_side side (Added t) = (side = Additions)"
| "on_side side (Removed t) = (side = Deletions)"
| "on_side side NoNewline = False"

fun is_change :: "ReviewCodeSide \<Rightarrow> PatchLine \<Rightarrow> bool" where
  "is_change side (Added t) = (side = Additions)"
| "is_change side (Removed t) = (side = Deletions)"
| "is_change side _ = False"

definition side_count :: "ReviewCodeSide \<Rightarrow> PatchLine list \<Rightarrow> nat" where
  "side_count side ls = length (filter (on_side side) ls)"

definition range_text :: "nat \<Rightarrow> nat \<Rightarrow> str" where
  "range_text start n = show_nat start @ (if n = 1 then [] else 44 # show_nat n)"

definition hunk_header :: "PatchHunk \<Rightarrow> str" where
  "hunk_header h = lit ''@@ -'' @ range_text (ph_old h) (side_count Deletions (ph_lines h)) @ lit '' +''
     @ range_text (ph_new h) (side_count Additions (ph_lines h)) @ lit '' @@'' @ ph_tail h"

text \<open>The name in a header: quoted in the style of C unless every character is plain.\<close>

definition git_quote_byte :: "nat \<Rightarrow> nat list" where
  "git_quote_byte b =
     (if b = 34 \<or> b = 92 then [92, b]
      else if b = 7 then [92, chr CHR ''a''] else if b = 8 then [92, chr CHR ''b''] else if b = 9 then [92, chr CHR ''t'']
      else if b = 10 then [92, chr CHR ''n''] else if b = 11 then [92, chr CHR ''v'']
      else if b = 12 then [92, chr CHR ''f''] else if b = 13 then [92, chr CHR ''r'']
      else if b < 32 \<or> 127 \<le> b then [92, 48 + b div 64, 48 + b div 8 mod 8, 48 + b mod 8]
      else [b])"

definition plain_char :: "rchar \<Rightarrow> bool" where
  "plain_char c \<longleftrightarrow> 32 \<le> c \<and> c < 127 \<and> c \<noteq> 34 \<and> c \<noteq> 92"

definition git_name :: "str \<Rightarrow> str option \<Rightarrow> str" where
  "git_name prefix name =
     (case name of
        None \<Rightarrow> lit ''/dev/null''
      | Some path \<Rightarrow>
          (if list_all plain_char path then prefix @ path
           else [34] @ prefix @ concat (map git_quote_byte (as_bytes path)) @ [34])
          @ (if 32 \<in> set path then [9] else []))"

definition hunk_lines :: "PatchHunk \<Rightarrow> str list" where
  "hunk_lines h = hunk_header h # map render_line (ph_lines h)"

definition file_lines :: "PatchFile \<Rightarrow> str list" where
  "file_lines f =
     (lit ''diff --git '' @ pf_names f) # pf_extra f
     @ (if pf_hunks f = [] then []
        else [lit ''--- '' @ git_name (lit ''a/'') (pf_old f), lit ''+++ '' @ git_name (lit ''b/'') (pf_new f)])
     @ concat (map hunk_lines (pf_hunks f))"

definition patch_text :: "PatchFile list \<Rightarrow> str" where
  "patch_text fs = unlines (concat (map file_lines fs))"

definition hunk_ok :: "PatchHunk \<Rightarrow> bool" where
  "hunk_ok h \<longleftrightarrow>
     ph_old h + length (ph_lines h) \<le> u32_max \<and> ph_new h + length (ph_lines h) \<le> u32_max
     \<and> 10 \<notin> set (ph_tail h) \<and> list_all (\<lambda>l. 10 \<notin> set (render_line l)) (ph_lines h)"

definition extra_ok :: "str \<Rightarrow> bool" where
  "extra_ok l \<longleftrightarrow>
     10 \<notin> set l \<and> list_all (\<lambda>p. \<not> starts_with p l) [lit ''diff --git '', lit ''@@ '', lit ''-'', lit ''+'']"

definition name_ok :: "str option \<Rightarrow> bool" where
  "name_ok name = (case name of None \<Rightarrow> True | Some path \<Rightarrow> list_all is_scalar path)"

definition file_ok :: "PatchFile \<Rightarrow> bool" where
  "file_ok f \<longleftrightarrow>
     10 \<notin> set (pf_names f) \<and> 13 \<notin> set (pf_names f) \<and> list_all extra_ok (pf_extra f) \<and> name_ok (pf_old f) \<and> name_ok (pf_new f)
     \<and> list_all hunk_ok (pf_hunks f)"

text \<open>The line of a file that a hunk changes, on either side.\<close>

definition start_of :: "ReviewCodeSide \<Rightarrow> PatchHunk \<Rightarrow> nat" where
  "start_of side h = (case side of Additions \<Rightarrow> ph_new h | Deletions \<Rightarrow> ph_old h)"

definition changes_line :: "ReviewCodeSide \<Rightarrow> nat \<Rightarrow> PatchHunk \<Rightarrow> bool" where
  "changes_line side n h \<longleftrightarrow>
     (\<exists>i<length (ph_lines h). is_change side (ph_lines h ! i) \<and> n = start_of side h + side_count side (take i (ph_lines h)))"

definition is_named :: "str \<Rightarrow> PatchFile \<Rightarrow> bool" where
  "is_named path f \<longleftrightarrow> pf_old f = Some path \<or> pf_new f = Some path"

text \<open>A removed line that starts with two hyphens, or an added one with two plus signs, may read as a header.\<close>

definition reads_as_header :: "str \<Rightarrow> PatchLine \<Rightarrow> bool" where
  "reads_as_header path l \<longleftrightarrow>
     header_names (strip_cr (render_line l)) (lit ''--- '') path \<or> header_names (strip_cr (render_line l)) (lit ''+++ '') path"

definition no_impostor :: "str \<Rightarrow> PatchFile \<Rightarrow> bool" where
  "no_impostor path f \<longleftrightarrow> list_all (\<lambda>h. list_all (\<lambda>l. \<not> reads_as_header path l) (ph_lines h)) (pf_hunks f)"

subsection \<open>Names are read back\<close>

lemma octal_value: "(b div 64 * 8 + b div 8 mod 8) * 8 + b mod 8 = (b::nat)"
proof -
  have "b div 64 * 8 + b div 8 mod 8 = b div 8 div 8 * 8 + b div 8 mod 8" by (simp add: div_mult2_eq [symmetric])
  also have "\<dots> = b div 8" by (rule div_mult_mod_eq)
  finally show ?thesis by (simp only: div_mult_mod_eq)
qed

lemma octal_digits_byte:
  assumes "b < 256"
  shows "octal_digits 2 (b div 64) ((48 + b div 8 mod 8) # (48 + b mod 8) # bs) = (b, bs)"
proof -
  let ?v = "b div 64 * 8 + b div 8 mod 8"
  have "?v \<le> b" using octal_value [of b] by linarith
  then have v: "min 255 (min 255 (b div 64 * 8) + b div 8 mod 8) = ?v" using assms by simp
  have "?v * 8 \<le> b" using octal_value [of b] by linarith
  then have w: "min 255 (min 255 (?v * 8) + b mod 8) = b" using assms octal_value [of b] by simp
  have digits: "48 + b div 8 mod 8 \<le> 55" "48 + b mod 8 \<le> 55"
    using mod_less_divisor [of 8 "b div 8"] mod_less_divisor [of 8 b] by linarith+
  have "octal_digits 2 (b div 64) ((48 + b div 8 mod 8) # (48 + b mod 8) # bs) = octal_digits 1 ?v ((48 + b mod 8) # bs)"
    unfolding octal_digits.simps(2) [of 2] v [symmetric] using digits(1) by simp
  also have "\<dots> = octal_digits 0 b bs"
    unfolding octal_digits.simps(2) [of 1] using digits(2) w by simp
  also have "\<dots> = (b, bs)" by (cases bs) simp_all
  finally show ?thesis .
qed

lemma unquote_git_quote_byte: "b < 256 \<Longrightarrow> unquote_bytes (git_quote_byte b @ bs) = map_option (Cons b) (unquote_bytes bs)"
proof -
  assume b: "b < 256"
  consider "b = 34" | "b = 92" | "b = 7" | "b = 8" | "b = 9" | "b = 10" | "b = 11" | "b = 12" | "b = 13"
    | (plain) "b \<noteq> 34" "b \<noteq> 92" "32 \<le> b" "b < 127"
    | (octal) "b \<noteq> 7" "b \<noteq> 8" "b \<noteq> 9" "b \<noteq> 10" "b \<noteq> 11" "b \<noteq> 12" "b \<noteq> 13" "b < 32 \<or> 127 \<le> b"
    by linarith
  then show ?thesis
  proof cases
    case plain
    then show ?thesis by (simp add: git_quote_byte_def)
  next
    case octal
    have "48 + b div 64 \<le> 55" using b by linarith
    moreover from octal have "git_quote_byte b = [92, 48 + b div 64, 48 + b div 8 mod 8, 48 + b mod 8]"
      by (auto simp: git_quote_byte_def)
    ultimately show ?thesis using octal_digits_byte [OF b, of bs] by (simp add: chr_def)
  qed (simp_all add: git_quote_byte_def chr_def)
qed

lemma unquote_git_quote: "list_all (\<lambda>b. b < 256) bs \<Longrightarrow> unquote_bytes (concat (map git_quote_byte bs)) = Some bs"
  by (induction bs) (simp_all add: unquote_git_quote_byte)

lemma unquote_plain: "92 \<notin> set bs \<Longrightarrow> unquote_bytes (bs @ cs) = map_option ((@) bs) (unquote_bytes cs)"
  by (induction bs) (cases "unquote_bytes cs"; simp)+

lemma git_quote_chars: "b < 256 \<Longrightarrow> list_all (\<lambda>c. 32 \<le> c \<and> c < 127) (git_quote_byte b)"
proof -
  assume b: "b < 256"
  have "48 + b div 64 \<le> 55" "48 + b div 8 mod 8 \<le> 55" "48 + b mod 8 \<le> 55"
    using b mod_less_divisor [of 8 "b div 8"] mod_less_divisor [of 8 b] by linarith+
  then have "list_all (\<lambda>c. 32 \<le> c \<and> c < 127) [92, 48 + b div 64, 48 + b div 8 mod 8, 48 + b mod 8]" by simp
  then show ?thesis unfolding git_quote_byte_def by (simp add: chr_def)
qed

lemma as_bytes_byte: "list_all is_scalar s \<Longrightarrow> list_all (\<lambda>b. b < 256) (as_bytes s)"
  by (induction s) (auto simp: utf8_char_def is_scalar_def less_mult_imp_div_less)

text \<open>The value of a header that carries a name.\<close>

lemma header_value:
  assumes "starts_with [34] v \<Longrightarrow> parse_git_quoted_path v = Some (prefix @ path)"
    and "\<not> starts_with [34] v \<Longrightarrow> v = prefix @ path"
    and "9 \<notin> set v" "prefix = lit ''a/'' \<or> prefix = lit ''b/''"
  shows "git_patch_header_path (marker @ v @ (if q then [9] else [])) marker = Some path"
proof -
  have tab: "takeWhile (\<lambda>c. c \<noteq> 9) (v @ [9]) = v" using assms(3) by (subst takeWhile_append2) auto
  have "v \<noteq> lit ''/dev/null''" using assms by (auto simp: lit_def)
  moreover have "(case split_once 9 (v @ (if q then [9] else [])) of None \<Rightarrow> v @ (if q then [9] else []) | Some (path, _) \<Rightarrow> path) = v"
    using assms(3) tab by (auto simp: split_once_def)
  moreover have "(if starts_with [34] v then parse_git_quoted_path v else Some v) = Some (prefix @ path)"
    using assms(1,2) by simp
  ultimately have "git_patch_header_path (marker @ v @ (if q then [9] else [])) marker
      = Some (unwrap_or (or_else (strip_prefix (lit ''a/'') (prefix @ path)) (strip_prefix (lit ''b/'') (prefix @ path))) (prefix @ path))"
    unfolding git_patch_header_path_def strip_prefix_append Option.bind.bind_lunit Let_def by (simp only: if_False Option.bind.bind_lunit)
  moreover have "strip_prefix (lit ''a/'') (lit ''b/'' @ path) = None"
    by (simp add: strip_prefix_def lit_def)
  ultimately show ?thesis using assms(4) by (auto simp: unwrap_or_def or_else_def)
qed

definition quoted :: "str \<Rightarrow> str" where
  "quoted path = concat (map git_quote_byte (as_bytes path))"

lemma quoted_chars: "list_all is_scalar path \<Longrightarrow> c \<in> set (quoted path) \<Longrightarrow> 32 \<le> c \<and> c < 127"
  using as_bytes_byte [of path] git_quote_chars unfolding quoted_def list_all_iff set_concat set_map by blast

lemma quoted_no: "list_all is_scalar path \<Longrightarrow> c < 32 \<Longrightarrow> c \<notin> set (quoted path)"
  using quoted_chars by fastforce

lemma header_name:
  assumes "name_ok name" and "prefix = lit ''a/'' \<or> prefix = lit ''b/''"
  shows "git_patch_header_path (marker @ git_name prefix name) marker = name"
proof (cases name)
  case None
  then show ?thesis
    by (simp add: git_name_def git_patch_header_path_def split_once_def lit_def)
next
  case (Some path)
  then have scalars: "list_all is_scalar path" using assms(1) by (simp add: name_ok_def)
  have prefix: "list_all (\<lambda>c. 32 \<le> c \<and> c < 127 \<and> c \<noteq> 34 \<and> c \<noteq> 92) prefix" "prefix \<noteq> []" "hd prefix \<noteq> 34"
    using assms(2) by (auto simp: lit_def)
  show ?thesis
  proof (cases "list_all plain_char path")
    case True
    have "9 \<notin> set (prefix @ path)" using True prefix(1) by (auto simp: list_all_iff plain_char_def)
    moreover have "\<not> starts_with [34] (prefix @ path)" using prefix by (cases prefix) auto
    ultimately show ?thesis
      using header_value [of "prefix @ path" prefix path marker "32 \<in> set path"] assms(2) Some True
      by (simp add: git_name_def)
  next
    case False
    let ?q = "quoted path"
    have bytes: "list_all (\<lambda>b. b < 256) (as_bytes path)" using scalars by (rule as_bytes_byte)
    have "as_bytes (prefix @ ?q) = prefix @ ?q"
      using quoted_chars [OF scalars] prefix(1) by (intro as_bytes_ascii) (fastforce simp: list_all_iff)
    moreover have "unquote_bytes (prefix @ ?q) = Some (prefix @ as_bytes path)"
      using prefix(1) unquote_git_quote [OF bytes] unfolding quoted_def by (subst unquote_plain) (auto simp: list_all_iff)
    moreover have "as_bytes prefix = prefix" using prefix(1) by (intro as_bytes_ascii) (auto simp: list_all_iff)
    then have "prefix @ as_bytes path = as_bytes (prefix @ path)" by (simp add: as_bytes_def)
    moreover have "list_all is_scalar (prefix @ path)"
      using prefix(1) scalars by (auto simp: list_all_iff is_scalar_def)
    moreover have "strip_suffix [34] (prefix @ ?q @ [34]) = Some (prefix @ ?q)"
      using strip_suffix_append [of "[34]" "prefix @ ?q"] by simp
    ultimately have "parse_git_quoted_path (34 # prefix @ ?q @ [34]) = Some (prefix @ path)"
      using from_utf8_as_bytes [of "prefix @ path"]
      by (simp add: parse_git_quoted_path_def strip_prefix_def [of "[34]" "34 # _"])
    moreover have "9 \<notin> set (34 # prefix @ ?q @ [34])"
      using quoted_no [OF scalars, of 9] prefix(1) by (fastforce simp: list_all_iff)
    ultimately show ?thesis
      using header_value [of "34 # prefix @ ?q @ [34]" prefix path marker "32 \<in> set path"] assms(2) Some False
      by (simp add: git_name_def quoted_def)
  qed
qed

lemma git_name_plain: "name_ok name \<Longrightarrow> prefix = lit ''a/'' \<or> prefix = lit ''b/'' \<Longrightarrow> 10 \<notin> set (git_name prefix name) \<and> 13 \<notin> set (git_name prefix name)"
proof (cases name)
  case (Some path)
  assume "name_ok name" "prefix = lit ''a/'' \<or> prefix = lit ''b/''"
  moreover from this Some have "10 \<notin> set (quoted path)" "13 \<notin> set (quoted path)"
    by (simp_all add: name_ok_def quoted_no)
  moreover have "10 \<notin> set path \<and> 13 \<notin> set path" if "list_all plain_char path"
    using that by (auto simp: list_all_iff plain_char_def)
  ultimately show ?thesis using Some unfolding git_name_def quoted_def [symmetric] by (auto simp: lit_def)
qed (auto simp: git_name_def lit_def)

subsection \<open>Hunks are read back\<close>

lemma hd_split_on: "d \<notin> set w \<Longrightarrow> hd (split_on d (w @ (if b then [] else d # v))) = w"
proof (induction w)
  case (Cons c w)
  then show ?case by (auto split: list.split)
qed simp

lemma show_nat_no: "c < 48 \<Longrightarrow> c \<notin> set (show_nat n)"
  using show_nat_is_digits [of n] by (auto simp: list_all_iff is_ascii_digit_def)

lemma range_text_start: "n \<le> u32_max \<Longrightarrow> parse_u32 (hd (split_on 44 (range_text n k))) = Some n"
  unfolding range_text_def by (subst hd_split_on) (simp_all add: show_nat_no parse_u32_show)

lemma range_text_no: "c < 44 \<Longrightarrow> c \<notin> set (range_text n k)"
  by (simp add: range_text_def show_nat_no)

lemma hunk_header_read:
  assumes "ph_old h \<le> u32_max" "ph_new h \<le> u32_max"
  shows "parse_patch_hunk_start (lit ''@@ -'' @ range_text (ph_old h) a @ lit '' +'' @ range_text (ph_new h) b @ lit '' @@'' @ tail)
    = Some (ph_old h, ph_new h)"
proof -
  have "split_once_str (lit '' +'') (range_text (ph_old h) a @ lit '' +'' @ range_text (ph_new h) b @ lit '' @@'' @ tail)
      = Some (range_text (ph_old h) a, range_text (ph_new h) b @ lit '' @@'' @ tail)"
    by (rule split_once_str_append) (simp_all add: lit_def range_text_no)
  moreover have "split_once_str (lit '' @@'') (range_text (ph_new h) b @ lit '' @@'' @ tail) = Some (range_text (ph_new h) b, tail)"
    by (rule split_once_str_append) (simp_all add: lit_def range_text_no)
  ultimately show ?thesis using assms
    by (simp add: parse_patch_hunk_start_def range_text_start)
qed

subsection \<open>Changed lines are found\<close>

definition line_of :: "ReviewCodeSide \<Rightarrow> HunkScan \<Rightarrow> nat" where
  "line_of side st = (case side of Additions \<Rightarrow> new_line st | Deletions \<Rightarrow> old_line st)"

definition after_lines :: "PatchLine list \<Rightarrow> HunkScan \<Rightarrow> HunkScan" where
  "after_lines ls st = st\<lparr>old_line := old_line st + side_count Deletions ls, new_line := new_line st + side_count Additions ls\<rparr>"

lemma line_prefixes:
  "starts_with (lit ''diff --git '') (c # cs) \<Longrightarrow> c = 100"
  "starts_with (lit ''@@ '') (c # cs) \<Longrightarrow> c = 64"
  "starts_with (lit ''--- '') (c # cs) \<Longrightarrow> c = 45"
  "starts_with (lit ''+++ '') (c # cs) \<Longrightarrow> c = 43"
  by (simp_all add: lit_def)

fun line_mark :: "PatchLine \<Rightarrow> rchar" where
  "line_mark (Context t) = 32"
| "line_mark (Added t) = 43"
| "line_mark (Removed t) = 45"
| "line_mark NoNewline = 92"

lemma render_mark: "\<exists>t. strip_cr (render_line l) = line_mark l # t \<and> line_mark l \<in> {32, 43, 45, 92}"
  by (cases l) (simp_all add: strip_cr_Cons)

lemma scan_body_line:
  assumes "in_hunk st" "old_line st < u32_max" "new_line st < u32_max"
  shows "scan_line path side n st (strip_cr (render_line l)) = (is_change side l \<and> n = line_of side st, after_lines [l] st)"
proof -
  obtain t where t: "strip_cr (render_line l) = line_mark l # t" "line_mark l \<in> {32, 43, 45, 92}" using render_mark by blast
  then have "\<not> starts_with (lit ''diff --git '') (line_mark l # t)" "\<not> starts_with (lit ''@@ '') (line_mark l # t)"
    using line_prefixes(1,2) by fastforce+
  then have "scan_line path side n st (strip_cr (render_line l)) = scan_hunk_line side n st (line_mark l # t)"
    using assms(1) t by (simp add: scan_line_def)
  also have "\<dots> = (is_change side l \<and> n = line_of side st, after_lines [l] st)"
    using assms(2,3)
    by (cases l; cases side) (auto simp: scan_hunk_line_def after_lines_def side_count_def line_of_def chr_def u32_saturating_add_def)
  finally show ?thesis .
qed

lemma side_count_Nil: "side_count side [] = 0"
  by (simp add: side_count_def)

lemma after_lines_Cons: "after_lines (l # ls) st = after_lines ls (after_lines [l] st)"
  by (simp add: after_lines_def side_count_def)

lemma scan_body:
  assumes "in_hunk st" "old_line st + length ls \<le> u32_max" "new_line st + length ls \<le> u32_max"
  shows "scan_lines path side n st (map (strip_cr \<circ> render_line) ls @ rest) \<longleftrightarrow>
    (\<exists>i<length ls. is_change side (ls ! i) \<and> n = line_of side st + side_count side (take i ls))
    \<or> scan_lines path side n (after_lines ls st) rest"
  using assms
proof (induction ls arbitrary: st)
  case Nil
  then show ?case by (simp add: after_lines_def side_count_def)
next
  case (Cons l ls)
  let ?st = "after_lines [l] st"
  have st: "in_hunk ?st" "old_line ?st + length ls \<le> u32_max" "new_line ?st + length ls \<le> u32_max"
    using Cons.prems by (cases l; simp add: after_lines_def side_count_def)+
  have count: "line_of side st + side_count side (take (Suc i) (l # ls)) = line_of side ?st + side_count side (take i ls)" for i
    by (cases side; cases l) (simp_all add: line_of_def after_lines_def side_count_def)
  have "scan_lines path side n st (map (strip_cr \<circ> render_line) (l # ls) @ rest) \<longleftrightarrow>
      (is_change side l \<and> n = line_of side st) \<or> scan_lines path side n ?st (map (strip_cr \<circ> render_line) ls @ rest)"
    using Cons.prems scan_body_line [of st path side n l] by simp
  also have "\<dots> \<longleftrightarrow> (is_change side l \<and> n = line_of side st)
      \<or> (\<exists>i<length ls. is_change side (ls ! i) \<and> n = line_of side ?st + side_count side (take i ls))
      \<or> scan_lines path side n (after_lines ls ?st) rest"
    unfolding Cons.IH [OF st] ..
  finally show ?case
    unfolding length_Cons Ex_less_Suc2 nth_Cons_0 nth_Cons_Suc count after_lines_Cons [of l ls] take_0 side_count_Nil
      add_0_right disj_assoc .
qed

lemma scan_skip:
  assumes "\<not> in_hunk st" "\<not> old_path_matches st" "\<not> new_path_matches st" "\<not> starts_with (lit ''diff --git '') l"
    "\<not> starts_with (lit ''@@ '') l" "\<not> header_names l (lit ''--- '') path" "\<not> header_names l (lit ''+++ '') path"
  shows "scan_line path side n st l = (False, st)"
  using assms by (simp add: scan_line_def)

lemma scan_skip_body:
  assumes "\<not> in_hunk st" "\<not> old_path_matches st" "\<not> new_path_matches st" "list_all (\<lambda>l. \<not> reads_as_header path l) ls"
  shows "scan_lines path side n st (map (strip_cr \<circ> render_line) ls @ rest) \<longleftrightarrow> scan_lines path side n st rest"
  using assms
proof (induction ls)
  case (Cons l ls)
  obtain t where t: "strip_cr (render_line l) = line_mark l # t" "line_mark l \<in> {32, 43, 45, 92}" using render_mark by blast
  have "scan_line path side n st (strip_cr (render_line l)) = (False, st)"
    using Cons.prems t line_prefixes(1,2) by (intro scan_skip) (fastforce simp: reads_as_header_def)+
  then show ?case using Cons by simp
qed simp

lemma scan_hunks:
  assumes "list_all hunk_ok hs"
    and "old_path_matches st \<or> new_path_matches st
      \<or> \<not> in_hunk st \<and> list_all (\<lambda>h. list_all (\<lambda>l. \<not> reads_as_header path l) (ph_lines h)) hs"
  shows "scan_lines path side n st (map strip_cr (concat (map hunk_lines hs))) \<longleftrightarrow>
    (old_path_matches st \<or> new_path_matches st) \<and> (\<exists>h\<in>set hs. changes_line side n h)"
  using assms
proof (induction hs arbitrary: st)
  case (Cons h hs)
  let ?m = "old_path_matches st \<or> new_path_matches st"
  let ?st = "st\<lparr>old_line := ph_old h, new_line := ph_new h, in_hunk := ?m\<rparr>"
  let ?rest = "map strip_cr (concat (map hunk_lines hs))"
  have h: "ph_old h + length (ph_lines h) \<le> u32_max" "ph_new h + length (ph_lines h) \<le> u32_max"
    using Cons.prems(1) by (simp_all add: hunk_ok_def)
  have "strip_cr (hunk_header h) = lit ''@@ -'' @ range_text (ph_old h) (side_count Deletions (ph_lines h)) @ lit '' +''
     @ range_text (ph_new h) (side_count Additions (ph_lines h)) @ lit '' @@'' @ strip_cr (ph_tail h)"
    unfolding hunk_header_def append_assoc [symmetric] by (rule strip_cr_append) (simp_all add: lit_def)
  moreover from this have "scan_line path side n st (strip_cr (hunk_header h)) = (False, ?st)"
    using hunk_header_read [of h _ _ "strip_cr (ph_tail h)"] h by (simp add: scan_line_def lit_def)
  ultimately have header: "scan_lines path side n st (map strip_cr (concat (map hunk_lines (h # hs)))) \<longleftrightarrow>
      scan_lines path side n ?st (map (strip_cr \<circ> render_line) (ph_lines h) @ ?rest)"
    by (simp add: hunk_lines_def del: o_apply)
  show ?case
  proof (cases ?m)
    case True
    have "scan_lines path side n ?st (map (strip_cr \<circ> render_line) (ph_lines h) @ ?rest) \<longleftrightarrow>
        (\<exists>i<length (ph_lines h). is_change side (ph_lines h ! i) \<and> n = line_of side ?st + side_count side (take i (ph_lines h)))
        \<or> scan_lines path side n (after_lines (ph_lines h) ?st) ?rest"
      using True h by (intro scan_body) simp_all
    moreover have "line_of side ?st = start_of side h" by (cases side) (simp_all add: line_of_def start_of_def)
    moreover have "scan_lines path side n (after_lines (ph_lines h) ?st) ?rest \<longleftrightarrow> ?m \<and> (\<exists>h\<in>set hs. changes_line side n h)"
      using Cons.IH [of "after_lines (ph_lines h) ?st"] Cons.prems(1) True by (simp add: after_lines_def)
    ultimately show ?thesis using header True by (simp add: changes_line_def)
  next
    case False
    then have "scan_lines path side n ?st (map (strip_cr \<circ> render_line) (ph_lines h) @ ?rest) \<longleftrightarrow> scan_lines path side n ?st ?rest"
      using Cons.prems by (intro scan_skip_body) simp_all
    then show ?thesis using header Cons.IH [of ?st] Cons.prems False by simp
  qed
qed simp

lemma header_names_marker: "\<not> starts_with marker l \<Longrightarrow> \<not> header_names l marker path"
  by (simp add: header_names_def git_patch_header_path_def strip_prefix_def)

lemma starts_with_strip_cr: "starts_with p (strip_cr l) \<Longrightarrow> starts_with p l"
  using strip_cr_prefix [of l] starts_with_append by (metis append.assoc append_take_drop_id starts_with_def)

lemma extra_no:
  "extra_ok l \<Longrightarrow> p \<in> {lit ''diff --git '', lit ''@@ '', lit ''--- '', lit ''+++ '', lit ''-'', lit ''+''}
    \<Longrightarrow> \<not> starts_with p (strip_cr l)"
proof
  assume l: "extra_ok l" and p: "p \<in> {lit ''diff --git '', lit ''@@ '', lit ''--- '', lit ''+++ '', lit ''-'', lit ''+''}"
    and "starts_with p (strip_cr l)"
  then have "starts_with p l" using starts_with_strip_cr by blast
  with p have "starts_with p l \<and> p = lit ''diff --git '' \<or> starts_with p l \<and> p = lit ''@@ ''
      \<or> starts_with (lit ''-'') l \<or> starts_with (lit ''+'') l"
    by (cases l) (auto simp: lit_def)
  with l show False by (auto simp: extra_ok_def)
qed

lemma scan_extra:
  assumes "\<not> in_hunk st" "\<not> old_path_matches st" "\<not> new_path_matches st" "list_all extra_ok ls"
  shows "scan_lines path side n st (map strip_cr ls @ rest) \<longleftrightarrow> scan_lines path side n st rest"
  using assms
proof (induction ls)
  case (Cons l ls)
  then have "extra_ok l" by simp
  note no = extra_no [OF this]
  have "scan_line path side n st (strip_cr l) = (False, st)"
    by (rule scan_skip) (use Cons.prems in \<open>simp_all add: no header_names_marker\<close>)
  then show ?case using Cons by simp
qed simp

lemma strip_cr_name: "name_ok name \<Longrightarrow> prefix = lit ''a/'' \<or> prefix = lit ''b/'' \<Longrightarrow> 13 \<notin> set marker
    \<Longrightarrow> strip_cr (marker @ git_name prefix name) = marker @ git_name prefix name"
  using git_name_plain by (intro strip_cr_id) simp

lemma scan_file:
  assumes "file_ok f" and "is_named path f \<or> no_impostor path f"
  shows "scan_lines path side n st (map strip_cr (file_lines f)) \<longleftrightarrow> is_named path f \<and> (\<exists>h\<in>set (pf_hunks f). changes_line side n h)"
proof -
  let ?reset = "st\<lparr>old_path_matches := False, new_path_matches := False, in_hunk := False\<rparr>"
  let ?hunks = "map strip_cr (concat (map hunk_lines (pf_hunks f)))"
  let ?old = "lit ''--- '' @ git_name (lit ''a/'') (pf_old f)" and ?new = "lit ''+++ '' @ git_name (lit ''b/'') (pf_new f)"
  have ok: "list_all extra_ok (pf_extra f)" "name_ok (pf_old f)" "name_ok (pf_new f)" "list_all hunk_ok (pf_hunks f)"
    using assms(1) by (simp_all add: file_ok_def)
  have "strip_cr (lit ''diff --git '' @ pf_names f) = lit ''diff --git '' @ strip_cr (pf_names f)"
    by (rule strip_cr_append) (simp_all add: lit_def)
  then have "scan_line path side n st (strip_cr (lit ''diff --git '' @ pf_names f)) = (False, ?reset)"
    by (simp add: scan_line_def)
  then have start: "scan_lines path side n st (map strip_cr (file_lines f)) \<longleftrightarrow>
      scan_lines path side n ?reset (map strip_cr (if pf_hunks f = [] then [] else [?old, ?new]) @ ?hunks)"
    using scan_extra [OF _ _ _ ok(1), of ?reset path side n] by (simp add: file_lines_def)
  show ?thesis
  proof (cases "pf_hunks f = []")
    case True
    then show ?thesis using start by simp
  next
    case False
    let ?st1 = "?reset\<lparr>old_path_matches := (pf_old f = Some path)\<rparr>"
    let ?st2 = "?st1\<lparr>new_path_matches := (pf_new f = Some path)\<rparr>"
    have "strip_cr ?old = ?old" "strip_cr ?new = ?new"
      using strip_cr_name [OF ok(2), of "lit ''a/''" "lit ''--- ''"] strip_cr_name [OF ok(3), of "lit ''b/''" "lit ''+++ ''"]
      by (simp_all add: lit_def)
    moreover have "scan_line path side n ?reset ?old = (False, ?st1)"
      using header_name [OF ok(2), of "lit ''a/''" "lit ''--- ''"]
      by (simp add: scan_line_def header_names_def starts_with_append) (simp add: lit_def)
    moreover have "scan_line path side n ?st1 ?new = (False, ?st2)"
      using header_name [OF ok(3), of "lit ''b/''" "lit ''+++ ''"]
      by (simp add: scan_line_def header_names_def starts_with_append) (simp add: lit_def)
    ultimately have "scan_lines path side n st (map strip_cr (file_lines f)) \<longleftrightarrow> scan_lines path side n ?st2 ?hunks"
      using start False by simp
    also have "\<dots> \<longleftrightarrow> (old_path_matches ?st2 \<or> new_path_matches ?st2) \<and> (\<exists>h\<in>set (pf_hunks f). changes_line side n h)"
      using assms(2) by (intro scan_hunks ok(4)) (simp add: is_named_def no_impostor_def)
    finally show ?thesis by (simp add: is_named_def)
  qed
qed

lemma scan_append:
  "scan_lines path side n st (xs @ ys) \<longleftrightarrow>
     scan_lines path side n st xs \<or> scan_lines path side n (fold (\<lambda>l st. snd (scan_line path side n st l)) xs st) ys"
  by (induction xs arbitrary: st) (auto split: prod.split)

lemma patch_lines_clean:
  assumes "list_all file_ok fs"
  shows "list_all (\<lambda>l. 10 \<notin> set l) (concat (map file_lines fs))"
proof -
  have name: "10 \<notin> set (lit ''--- '' @ git_name (lit ''a/'') (pf_old f))" "10 \<notin> set (lit ''+++ '' @ git_name (lit ''b/'') (pf_new f))"
    if "file_ok f" for f
    using that git_name_plain [of "pf_old f" "lit ''a/''"] git_name_plain [of "pf_new f" "lit ''b/''"]
    by (simp_all add: file_ok_def lit_def)
  have hunk: "list_all (\<lambda>l. 10 \<notin> set l) (hunk_lines h)" if "hunk_ok h" for h
    using that range_text_no [of 10] by (simp add: hunk_ok_def hunk_lines_def hunk_header_def list.pred_map comp_def lit_def)
  have "list_all (\<lambda>l. 10 \<notin> set l) (file_lines f)" if "file_ok f" for f
  proof -
    have "list_all (\<lambda>l. 10 \<notin> set l) (concat (map hunk_lines (pf_hunks f)))"
      using that hunk unfolding file_ok_def list_all_iff set_concat set_map by blast
    moreover have "list_all (\<lambda>l. 10 \<notin> set l) (pf_extra f)" using that by (auto simp: file_ok_def list_all_iff extra_ok_def)
    ultimately show ?thesis using name [OF that] that by (simp add: file_lines_def file_ok_def lit_def)
  qed
  then show ?thesis using assms unfolding list_all_iff set_concat set_map by blast
qed

lemma lines_of_patch:
  assumes "list_all file_ok fs"
  shows "str_lines (patch_text fs) = concat (map (\<lambda>f. map strip_cr (file_lines f)) fs)"
  unfolding patch_text_def using patch_lines_clean [OF assms] by (simp add: str_lines_unlines map_concat comp_def)

lemma scan_files:
  assumes "list_all file_ok fs" and "\<And>f. f \<in> set fs \<Longrightarrow> is_named path f \<or> no_impostor path f"
  shows "scan_lines path side n st (concat (map (\<lambda>f. map strip_cr (file_lines f)) fs)) \<longleftrightarrow>
    (\<exists>f \<in> set fs. is_named path f \<and> (\<exists>h \<in> set (pf_hunks f). changes_line side n h))"
  using assms
proof (induction fs arbitrary: st)
  case (Cons f fs)
  then have "scan_lines path side n st (map strip_cr (file_lines f)) \<longleftrightarrow> is_named path f \<and> (\<exists>h\<in>set (pf_hunks f). changes_line side n h)"
    by (intro scan_file) simp_all
  moreover have "scan_lines path side n st' (concat (map (\<lambda>f. map strip_cr (file_lines f)) fs)) \<longleftrightarrow>
    (\<exists>f \<in> set fs. is_named path f \<and> (\<exists>h \<in> set (pf_hunks f). changes_line side n h))" for st'
    using Cons.prems by (intro Cons.IH) simp_all
  ultimately show ?case by (simp add: scan_append)
qed simp

subsection \<open>A patch that was cut short\<close>

text \<open>
  What is left of a patch when its bytes are cut at a limit and read leniently: a start of its text,
  with a replacement character where a character was cut.
\<close>

definition cut_patch :: "PatchFile list \<Rightarrow> str \<Rightarrow> bool" where
  "cut_patch fs patch \<longleftrightarrow> (\<exists>k rest. patch = take k (patch_text fs) @ rest \<and> (rest = [] \<or> rest = [65533]))"

lemma take_unlines:
  "\<exists>j p. take k (unlines ls) = unlines (take j ls) @ p \<and> (p = [] \<or> j < length ls \<and> (\<exists>q. ls ! j = p @ q))"
proof (induction ls arbitrary: k)
  case (Cons l ls)
  show ?case
  proof (cases "k \<le> length l")
    case True
    then have "take k (unlines (l # ls)) = unlines (take 0 (l # ls)) @ take k l" by simp
    moreover have "(l # ls) ! 0 = take k l @ drop k l" "0 < length (l # ls)" by simp_all
    ultimately show ?thesis by blast
  next
    case False
    obtain j p where IH: "take (k - length l - 1) (unlines ls) = unlines (take j ls) @ p"
        "p = [] \<or> j < length ls \<and> (\<exists>q. ls ! j = p @ q)" using Cons.IH by blast
    have "take k (unlines (l # ls)) = l @ 10 # take (k - length l - 1) (unlines ls)"
      using False by (simp add: take_Cons' )
    then have "take k (unlines (l # ls)) = unlines (take (Suc j) (l # ls)) @ p" using IH(1) by simp
    moreover have "p = [] \<or> Suc j < length (l # ls) \<and> (\<exists>q. (l # ls) ! Suc j = p @ q)" using IH(2) by simp
    ultimately show ?thesis by blast
  qed
qed simp

lemma str_lines_open: "list_all (\<lambda>l. 10 \<notin> set l) ls \<Longrightarrow> 10 \<notin> set q
    \<Longrightarrow> str_lines (unlines ls @ q) = map strip_cr ls @ (if q = [] then [] else [q])"
proof (induction ls)
  case Nil
  have "lines_from k q = (if k = [] \<and> q = [] then [] else [rev k @ q])" if "10 \<notin> set q" for k
    using that by (induction q arbitrary: k) auto
  with Nil show ?case by (simp add: str_lines_def)
qed (simp add: str_lines_line)

text \<open>Whether a line is found depends on its first character only.\<close>

lemma found_first_char:
  "fst (scan_line path side n st (c # xs)) \<Longrightarrow> c \<in> {43, 45} \<and> fst (scan_line path side n st (c # ys))"
proof -
  assume found: "fst (scan_line path side n st (c # xs))"
  then have hunk: "in_hunk st" "fst (scan_hunk_line side n st (c # xs))"
    by (auto simp: scan_line_def split: if_splits option.splits)
  then have "c \<in> {43, 45}" by (auto simp: scan_hunk_line_def chr_def split: if_splits)
  then have "\<not> starts_with (lit ''diff --git '') (c # ys)" "\<not> starts_with (lit ''@@ '') (c # ys)"
    using line_prefixes(1,2) by fastforce+
  then have "fst (scan_line path side n st (c # ys))" using hunk by (simp add: scan_line_def scan_hunk_line_def)
  with \<open>c \<in> {43, 45}\<close> show ?thesis by blast
qed

lemma cut_patch_found:
  assumes "list_all file_ok fs" and "cut_patch fs patch" and "patch_contains_changed_line patch path side n"
  shows "patch_contains_changed_line (patch_text fs) path side n"
proof -
  let ?ls = "concat (map file_lines fs)"
  note ok = patch_lines_clean [OF assms(1)]
  obtain k rest where patch: "patch = take k (unlines ?ls) @ rest" "rest = [] \<or> rest = [65533]"
    using assms(2) by (auto simp: cut_patch_def patch_text_def)
  obtain j p where cut: "take k (unlines ?ls) = unlines (take j ?ls) @ p" "p = [] \<or> j < length ?ls \<and> (\<exists>q. ?ls ! j = p @ q)"
    using take_unlines by blast
  let ?q = "p @ rest" and ?st = "fold (\<lambda>l st. snd (scan_line path side n st l)) (map strip_cr (take j ?ls)) scan_start"
  have whole: "str_lines (patch_text fs) = map strip_cr ?ls" unfolding patch_text_def by (rule str_lines_unlines [OF ok])
  have "10 \<notin> set p" using cut(2) ok nth_mem by (fastforce simp: list_all_iff)
  then have clean: "10 \<notin> set ?q" using patch(2) by auto
  have "list_all (\<lambda>l. 10 \<notin> set l) (take j ?ls)" using ok set_take_subset [of j ?ls] unfolding list_all_iff by blast
  then have "str_lines patch = map strip_cr (take j ?ls) @ (if ?q = [] then [] else [?q])"
    using str_lines_open [OF _ clean] patch(1) cut(1) by simp
  then have found: "scan_lines path side n scan_start (map strip_cr (take j ?ls)) \<or> ?q \<noteq> [] \<and> fst (scan_line path side n ?st ?q)"
    using assms(3) by (auto simp: patch_contains_changed_line_def scan_append split: if_splits prod.splits)
  have split: "map strip_cr ?ls = map strip_cr (take j ?ls) @ map strip_cr (drop j ?ls)" by (simp flip: map_append)
  from found show ?thesis
  proof
    assume "scan_lines path side n scan_start (map strip_cr (take j ?ls))"
    then show ?thesis unfolding patch_contains_changed_line_def whole by (subst split) (simp only: scan_append simp_thms)
  next
    assume last: "?q \<noteq> [] \<and> fst (scan_line path side n ?st ?q)"
    then obtain c q' where q: "?q = c # q'" by (cases ?q) auto
    then have c: "c \<in> {43, 45}" using last found_first_char by fastforce
    then have "p \<noteq> []" using q patch(2) by auto
    then obtain p' where p: "p = c # p'" using q by (cases p) auto
    with cut(2) obtain r where line: "j < length ?ls" "?ls ! j = c # r" by auto
    then have "drop j ?ls = (c # r) # drop (Suc j) ?ls" by (metis Cons_nth_drop_Suc)
    moreover have "strip_cr (c # r) = c # strip_cr r" using c by (intro strip_cr_Cons) auto
    moreover have "fst (scan_line path side n ?st (c # strip_cr r))" using found_first_char last q by fastforce
    ultimately have "scan_lines path side n ?st (map strip_cr (drop j ?ls))" by (auto split: prod.split)
    then show ?thesis unfolding patch_contains_changed_line_def whole by (subst split) (simp only: scan_append simp_thms)
  qed
qed

subsection \<open>Changed lines are counted\<close>

definition shown :: "PatchLine \<Rightarrow> bool" where
  "shown l \<longleftrightarrow> (case l of Added t \<Rightarrow> \<not> starts_with (lit ''++ '') t | Removed t \<Rightarrow> \<not> starts_with (lit ''-- '') t | _ \<Rightarrow> False)"

definition shown_lines :: "PatchFile \<Rightarrow> nat" where
  "shown_lines f =
     (if is_excluded_from_size_gate (after_last (lit '' b/'') (pf_names f)) then 0
      else sum_list (map (\<lambda>h. length (filter shown (ph_lines h))) (pf_hunks f)))"

lemma saturating_sum: "u32_saturating_add (u32_saturating_add n a) b = u32_saturating_add n (a + b)"
  by (simp add: u32_saturating_add_def)

lemma strip_cr_starts: "p \<noteq> [] \<Longrightarrow> last p \<noteq> 13 \<Longrightarrow> starts_with p (strip_cr l) \<longleftrightarrow> starts_with p l"
proof
  assume p: "p \<noteq> []" "last p \<noteq> 13" and "starts_with p l"
  then obtain r where "l = p @ r" unfolding starts_with_def by (metis append_take_drop_id)
  then show "starts_with p (strip_cr l)" using p by (simp add: strip_cr_append)
qed (rule starts_with_strip_cr)

lemma count_body_line:
  "count_changed n c (strip_cr (render_line l) # rest) =
    count_changed (if c \<and> shown l then u32_saturating_add n 1 else n) c rest"
  using strip_cr_starts [of "lit ''++ ''"] strip_cr_starts [of "lit ''-- ''"]
  by (cases l) (simp_all add: strip_cr_Cons strip_prefix_def shown_def lit_def)

lemma count_body:
  "n \<le> u32_max \<Longrightarrow> count_changed n c (map (strip_cr \<circ> render_line) ls @ rest) =
    count_changed (u32_saturating_add n (if c then length (filter shown ls) else 0)) c rest"
proof (induction ls arbitrary: n)
  case (Cons l ls)
  have le: "u32_saturating_add n 1 \<le> u32_max" by (simp add: u32_saturating_add_def)
  have "count_changed n c (map (strip_cr \<circ> render_line) (l # ls) @ rest) =
      count_changed (if c \<and> shown l then u32_saturating_add n 1 else n) c (map (strip_cr \<circ> render_line) ls @ rest)"
    unfolding list.map append_Cons o_apply count_body_line ..
  also have "\<dots> = count_changed (u32_saturating_add n (if c then length (filter shown (l # ls)) else 0)) c rest"
    using Cons.IH [OF le] Cons.IH [OF Cons.prems] by (cases "c \<and> shown l") (auto simp: saturating_sum comp_def)
  finally show ?case .
qed (simp add: u32_saturating_add_def)

lemma count_hunks:
  "n \<le> u32_max \<Longrightarrow> count_changed n c (map strip_cr (concat (map hunk_lines hs)) @ rest) =
    count_changed (u32_saturating_add n (if c then sum_list (map (\<lambda>h. length (filter shown (ph_lines h))) hs) else 0)) c rest"
proof (induction hs arbitrary: n)
  case (Cons h hs)
  let ?n = "u32_saturating_add n (if c then length (filter shown (ph_lines h)) else 0)"
  have "strip_cr (hunk_header h) = 64 # strip_cr (tl (hunk_header h))"
    unfolding hunk_header_def by (simp add: lit_def strip_cr_Cons)
  then have "count_changed n c (map strip_cr (concat (map hunk_lines (h # hs))) @ rest)
      = count_changed n c (map (strip_cr \<circ> render_line) (ph_lines h) @ map strip_cr (concat (map hunk_lines hs)) @ rest)"
    by (simp add: hunk_lines_def strip_prefix_def lit_def)
  also have "\<dots> = count_changed ?n c (map strip_cr (concat (map hunk_lines hs)) @ rest)"
    by (rule count_body [OF Cons.prems])
  also have "\<dots> = count_changed (u32_saturating_add ?n
      (if c then sum_list (map (\<lambda>h. length (filter shown (ph_lines h))) hs) else 0)) c rest"
    by (rule Cons.IH) (simp add: u32_saturating_add_def)
  finally show ?case by (simp add: saturating_sum)
qed (simp add: u32_saturating_add_def)

lemma count_extra: "list_all extra_ok ls \<Longrightarrow> count_changed n c (map strip_cr ls @ rest) = count_changed n c rest"
proof (induction ls)
  case (Cons l ls)
  then have "extra_ok l" by simp
  note no = extra_no [OF this]
  have "count_changed n c (strip_cr l # map strip_cr ls @ rest) = count_changed n c (map strip_cr ls @ rest)"
    by (simp add: strip_prefix_def no)
  then show ?case using Cons by (simp del: count_changed.simps)
qed simp

lemma count_file:
  assumes "file_ok f" "n \<le> u32_max"
  shows "count_changed n c (map strip_cr (file_lines f) @ rest) =
    count_changed (u32_saturating_add n (shown_lines f)) (\<not> is_excluded_from_size_gate (after_last (lit '' b/'') (pf_names f))) rest"
proof -
  let ?c = "\<not> is_excluded_from_size_gate (after_last (lit '' b/'') (pf_names f))"
  let ?hunks = "map strip_cr (concat (map hunk_lines (pf_hunks f)))"
  let ?old = "lit ''--- '' @ git_name (lit ''a/'') (pf_old f)" and ?new = "lit ''+++ '' @ git_name (lit ''b/'') (pf_new f)"
  have ok: "list_all extra_ok (pf_extra f)" "13 \<notin> set (pf_names f)" using assms(1) by (simp_all add: file_ok_def)
  have "strip_cr (lit ''diff --git '' @ pf_names f) = lit ''diff --git '' @ pf_names f" using ok(2) by (intro strip_cr_id) (simp add: lit_def)
  then have "count_changed n c (map strip_cr (file_lines f) @ rest)
      = count_changed n ?c (map strip_cr (if pf_hunks f = [] then [] else [?old, ?new]) @ ?hunks @ rest)"
    using count_extra [OF ok(1)] by (simp add: file_lines_def)
  also have "\<dots> = count_changed n ?c (?hunks @ rest)"
  proof -
    have "starts_with (lit ''--- '') (strip_cr ?old)" "starts_with (lit ''+++ '') (strip_cr ?new)"
      by (subst strip_cr_starts; simp add: lit_def)+
    moreover from this have "\<not> starts_with (lit ''diff --git '') (strip_cr ?old)" "\<not> starts_with (lit ''diff --git '') (strip_cr ?new)"
      by (cases "strip_cr ?old"; cases "strip_cr ?new"; simp add: lit_def)+
    ultimately show ?thesis by (simp add: strip_prefix_def)
  qed
  also have "\<dots> = count_changed (u32_saturating_add n (shown_lines f)) ?c rest"
    unfolding count_hunks [OF assms(2)] shown_lines_def by simp
  finally show ?thesis .
qed

lemma count_files:
  "list_all file_ok fs \<Longrightarrow> n \<le> u32_max \<Longrightarrow> count_changed n c (concat (map (\<lambda>f. map strip_cr (file_lines f)) fs)) =
    u32_saturating_add n (sum_list (map shown_lines fs))"
proof (induction fs arbitrary: n c)
  case (Cons f fs)
  have le: "u32_saturating_add n (shown_lines f) \<le> u32_max" by (simp add: u32_saturating_add_def)
  show ?case using Cons by (simp add: count_file Cons.IH [OF _ le] saturating_sum)
qed (simp add: u32_saturating_add_def)

subsection \<open>Theorems on patches\<close>

text \<open>
  C38: a path of any characters that Git writes in the header of a file, quoted where it has to be, is
  read back as it was, and a missing file is read as none.
\<close>

theorem header_names_read_back:
  assumes "file_ok f"
  shows "git_patch_header_path (lit ''--- '' @ git_name (lit ''a/'') (pf_old f)) (lit ''--- '') = pf_old f
    \<and> git_patch_header_path (lit ''+++ '' @ git_name (lit ''b/'') (pf_new f)) (lit ''+++ '') = pf_new f"
  using assms by (simp add: header_name file_ok_def)

text \<open>
  C37: in a patch as Git writes it, a line of a side is found for a path exactly if a hunk of a file
  of that name, old or new, adds or removes it, unless a changed line of another file reads as a
  header with that path.
\<close>

theorem changed_lines_found:
  assumes "list_all file_ok fs" and "list_all (\<lambda>f. is_named path f \<or> no_impostor path f) fs"
  shows "patch_contains_changed_line (patch_text fs) path side n \<longleftrightarrow>
    (\<exists>f \<in> set fs. is_named path f \<and> (\<exists>h \<in> set (pf_hunks f). changes_line side n h))"
  unfolding patch_contains_changed_line_def lines_of_patch [OF assms(1)]
  using assms by (intro scan_files) (auto simp: list_all_iff)

text \<open>
  The size of a change that the gate sees is the number of changed lines of the files that are
  not excluded, without the lines that read as headers and at most the largest 32-bit number.
\<close>

theorem size_gate_counts:
  assumes "list_all file_ok fs"
  shows "count_reviewable_changed_lines (patch_text fs) = min u32_max (sum_list (map shown_lines fs))"
  unfolding count_reviewable_changed_lines_def lines_of_patch [OF assms]
  by (simp add: count_files [OF assms] u32_saturating_add_def)

subsection \<open>Examples\<close>

definition sample_hunk :: PatchHunk where
  "sample_hunk = \<lparr>ph_old = 1, ph_new = 1, ph_tail = lit '' fn main()'',
     ph_lines = [Context (lit ''context''), Removed (lit ''old''), Added (lit ''new''), Added (lit ''++ b/x.rs''), NoNewline]\<rparr>"

definition sample_file :: PatchFile where
  "sample_file = \<lparr>pf_names = lit ''a/src/a b.rs b/src/a b.rs'', pf_extra = [lit ''index 1..2''],
     pf_old = Some (lit ''src/a b.rs''), pf_new = Some (lit ''src/'' @ [233, 10, 9] @ lit ''.rs''), pf_hunks = [sample_hunk]\<rparr>"

lemma sample_file_ok: "file_ok sample_file"
  by code_simp

theorem header_names_read_back_witness:
  "git_patch_header_path (lit ''+++ '' @ git_name (lit ''b/'') (pf_new sample_file)) (lit ''+++ '') = pf_new sample_file"
  using header_names_read_back [OF sample_file_ok] by blast

theorem changed_lines_found_witness:
  "patch_contains_changed_line (patch_text [sample_file]) (lit ''src/a b.rs'') Additions 3"
proof -
  have "changes_line Additions 3 sample_hunk"
    unfolding changes_line_def by (rule exI [of _ 3]) code_simp
  moreover have "pf_hunks sample_file = [sample_hunk]" "is_named (lit ''src/a b.rs'') sample_file"
    by (simp_all add: sample_file_def is_named_def)
  ultimately show ?thesis
    using changed_lines_found [of "[sample_file]" "lit ''src/a b.rs''" Additions 3] sample_file_ok by simp
qed

theorem size_gate_counts_witness: "count_reviewable_changed_lines (patch_text [sample_file]) = 2"
proof -
  have "sum_list (map shown_lines [sample_file]) = 2" by code_simp
  then show ?thesis using size_gate_counts [of "[sample_file]"] sample_file_ok by (simp add: u32_max_def)
qed

text \<open>
  The loops take a changed line whose text starts with two hyphens or plus signs and a space for a
  header. The size of a change leaves it out; and when the file is not the one asked for, the path
  it names is taken for that of the file from the next hunk on.
\<close>

definition impostor_file :: PatchFile where
  "impostor_file = \<lparr>pf_names = lit ''a/q.sql b/q.sql'', pf_extra = [], pf_old = Some (lit ''q.sql''), pf_new = Some (lit ''q.sql''),
     pf_hunks = [\<lparr>ph_old = 1, ph_new = 1, ph_tail = [], ph_lines = [Removed (lit ''-- a/x.rs'')]\<rparr>,
       \<lparr>ph_old = 9, ph_new = 8, ph_tail = [], ph_lines = [Added (lit ''y'')]\<rparr>]\<rparr>"

lemma comment_taken_for_header:
  "file_ok impostor_file
   \<and> count_reviewable_changed_lines (patch_text [impostor_file]) = 1
   \<and> patch_contains_changed_line (patch_text [impostor_file]) (lit ''x.rs'') Additions 8"
  by code_simp

end
