(* ===== verification/Code_Review.thy ===== *)
theory Code_Review
  imports Json_Value Review_Patch Collaboration_Plan
begin

text \<open>
  \<open>wts-app/src/code_review.rs\<close>: the types of a code review, the prompts, and the tolerant reading of
  what an agent answers. How a patch is read is in \<open>Review_Patch\<close>; the JSON parser is a parameter.
\<close>

subsection \<open>Types\<close>

definition CODE_REVIEW_SCHEMA_VERSION :: nat where "CODE_REVIEW_SCHEMA_VERSION = 2"
definition MAX_FINDINGS :: nat where "MAX_FINDINGS = 200"
definition MAX_TITLE_CHARS :: nat where "MAX_TITLE_CHARS = 240"
definition MAX_TEXT_CHARS :: nat where "MAX_TEXT_CHARS = 4000"
definition MAX_CODE_CHARS :: nat where "MAX_CODE_CHARS = 2000"
definition MAX_SUMMARY_CHARS :: nat where "MAX_SUMMARY_CHARS = 4000"

datatype CodeReviewScope = RecentChanges | TotalCode

datatype CodeReviewFindingSeverity = SeverityCritical | SeverityWarning | SeveritySuggestion

datatype CodeReviewLabel = LabelBlocking | LabelIssue | LabelQuestion | LabelSuggestion | LabelNit | LabelPraise

definition label_parse :: "str \<Rightarrow> CodeReviewLabel option" where
  "label_parse v =
     (let name = to_ascii_lowercase (dropWhile (\<lambda>c. c = chr CHR ''/'') (trim v)) in
      if name = lit ''blocking'' \<or> name = lit ''blocker'' \<or> name = lit ''critical'' then Some LabelBlocking
      else if name = lit ''issue'' \<or> name = lit ''warning'' \<or> name = lit ''major'' then Some LabelIssue
      else if name = lit ''question'' then Some LabelQuestion
      else if name = lit ''suggestion'' \<or> name = lit ''minor'' then Some LabelSuggestion
      else if name = lit ''nit'' \<or> name = lit ''nitpick'' \<or> name = lit ''style'' then Some LabelNit
      else if name = lit ''praise'' then Some LabelPraise
      else None)"

fun label_severity :: "CodeReviewLabel \<Rightarrow> CodeReviewFindingSeverity" where
  "label_severity LabelBlocking = SeverityCritical"
| "label_severity LabelIssue = SeverityWarning"
| "label_severity _ = SeveritySuggestion"

fun label_prefix :: "CodeReviewLabel \<Rightarrow> str" where
  "label_prefix LabelBlocking = lit ''Blocking''"
| "label_prefix LabelIssue = lit ''Issue''"
| "label_prefix LabelQuestion = lit ''Question''"
| "label_prefix LabelSuggestion = lit ''Suggestion''"
| "label_prefix LabelNit = lit ''Nit''"
| "label_prefix LabelPraise = lit ''/praise''"

text \<open>A past comment of the reviewer; the score is the bits of the floating-point number.\<close>

record CodeReviewPrecedent =
  cp_body :: str
  cp_url :: "str option"
  cp_file_path :: "str option"
  cp_score :: "64 word"

record CodeReviewFinding =
  cf_finding_id :: str
  cf_severity :: CodeReviewFindingSeverity
  cf_label :: CodeReviewLabel
  cf_repository_id :: "str option"
  cf_file_path :: str
  cf_line :: "nat option"
  cf_side :: "ReviewCodeSide option"
  cf_anchored :: bool
  cf_title :: str
  cf_explanation :: str
  cf_code :: "str option"
  cf_suggested_comment :: "str option"
  cf_suggested_patch :: "str option"
  cf_also_lines :: "nat list"
  cf_precedent :: "CodeReviewPrecedent option"

record CodeReviewActionableStep =
  as_step_number :: nat
  as_instruction :: str

datatype CodeReviewMode = ModeRaptik | ModeSkill | ModeStandard

record CodeReviewSkillRef =
  sr_id :: str
  sr_label :: str
  sr_reviewer :: "str option"

record CodeReviewMergeRequest =
  mr_iid :: nat
  mr_base_commit_oid :: str
  mr_start_commit_oid :: str
  mr_head_commit_oid :: str

record CodeReviewRepository =
  rr_repository_id :: str
  rr_repository_label :: str
  rr_base_commit_oid :: str
  rr_head_commit_oid :: str
  rr_patch_sha256 :: str
  rr_changed_lines :: nat
  rr_size_gate_exceeded :: bool
  rr_strictness :: CodeReviewStrictness
  rr_patch_truncated :: bool
  rr_merge_request :: "CodeReviewMergeRequest option"

datatype CodeReviewOutcome = Reviewed | SizeGateStopped | Unstructured | NoChanges

record WorkspaceCodeReviewResult =
  cr_schema_version :: nat
  cr_workspace_id :: uuid
  cr_provider :: AgentProvider
  cr_scope :: CodeReviewScope
  cr_model :: "str option"
  cr_agent :: "str option"
  cr_mode :: CodeReviewMode
  cr_skill :: "CodeReviewSkillRef option"
  cr_outcome :: CodeReviewOutcome
  cr_intent :: "str option"
  cr_summary :: str
  cr_findings :: "CodeReviewFinding list"
  cr_actionable_steps :: "CodeReviewActionableStep list"
  cr_suggested_tests :: "str list"
  cr_not_checked :: "str list"
  cr_repositories :: "CodeReviewRepository list"
  cr_raw_output :: "str option"
  cr_reviewed_at :: int

record RunWorkspaceCodeReviewRequest =
  rq_provider :: AgentProvider
  rq_scope :: CodeReviewScope
  rq_model :: "str option"
  rq_agent :: "str option"
  rq_repository_id :: "str option"
  rq_ignore_size_gate :: bool
  rq_skill :: "str option"
  rq_merge_request_iid :: "nat option"

record CodeReviewOptions =
  co_model :: "str option"
  co_repository_id :: "str option"
  co_ignore_size_gate :: bool
  co_skill :: "str option"
  co_merge_request_iid :: "nat option"

definition review_options :: "RunWorkspaceCodeReviewRequest \<Rightarrow> CodeReviewOptions" where
  "review_options r =
     \<lparr>co_model = or_else (rq_model r) (rq_agent r), co_repository_id = rq_repository_id r,
      co_ignore_size_gate = rq_ignore_size_gate r, co_skill = rq_skill r, co_merge_request_iid = rq_merge_request_iid r\<rparr>"

subsection \<open>Prompts\<close>

record SkillPromptInput =
  sp_skill_id :: str
  sp_reviewer :: "str option"
  sp_rules :: str
  sp_references :: "(str \<times> str) list"
  sp_precedents_available :: bool
  sp_size_gate_lines :: "nat option"
  sp_intent :: str
  sp_repositories :: "(CodeReviewRepository \<times> str) list"
  sp_scope :: CodeReviewScope
  sp_patch_budget :: nat

text \<open>The first twelve bytes, unless they end inside a character.\<close>

definition short_oid :: "str \<Rightarrow> str" where
  "short_oid oid = (case chars_before oid 12 of Some n \<Rightarrow> take n oid | None \<Rightarrow> oid)"

definition bounded_str :: "str \<Rightarrow> nat \<Rightarrow> str" where
  "bounded_str s maximum = (if str_len s \<le> maximum then s else slice_to s maximum)"

definition bounded_string :: "str \<Rightarrow> nat \<Rightarrow> str" where
  "bounded_string raw maximum =
     (let trimmed = trim raw in
      if length trimmed \<le> maximum then trimmed else take maximum trimmed @ [8230])"

fun strictness_text :: "CodeReviewStrictness \<Rightarrow> str" where
  "strictness_text StrictReview = lit ''strict''"
| "strictness_text NormalReview = lit ''normal''"

definition merge_request_source :: "CodeReviewRepository \<Rightarrow> str" where
  "merge_request_source repository =
     (case rr_merge_request repository of
        None \<Rightarrow> []
      | Some mr \<Rightarrow> lit '' mergeRequest='' @ [34] @ lit ''!'' @ show_nat (mr_iid mr) @ [34] @ lit '' head='' @ [34]
          @ short_oid (mr_head_commit_oid mr) @ [34])"

definition repository_header :: "CodeReviewRepository \<Rightarrow> str" where
  "repository_header r =
     lit ''<repository label='' @ [34] @ rr_repository_label r @ [34] @ lit '' base='' @ [34] @ short_oid (rr_base_commit_oid r)
     @ [34] @ lit '' mode='' @ [34] @ strictness_text (rr_strictness r) @ [34] @ lit '' changedLines='' @ [34]
     @ show_nat (rr_changed_lines r) @ [34] @ merge_request_source r @ lit ''>'' @ [10]"

text \<open>What is shown of one patch under the bytes that remain, and how much of it.\<close>

definition patch_part :: "nat \<Rightarrow> str \<Rightarrow> str \<times> nat" where
  "patch_part remaining patch =
     (if patch = [] then (lit ''No changes.'' @ [10], 0)
      else if remaining = 0 then
        (lit ''[WTS omitted this patch to fit the prompt limit. Read the files in the working directory.]'' @ [10], 0)
      else
        let part = bounded_str patch remaining in
        (part @ (if str_len part < str_len patch
           then [10] @ lit ''[WTS truncated this patch at '' @ show_nat (str_len part) @ lit '' of '' @ show_nat (str_len patch)
             @ lit '' bytes. List the rest under notChecked.]'' @ [10]
           else []), str_len part))"

fun push_repositories :: "nat \<Rightarrow> (CodeReviewRepository \<times> str) list \<Rightarrow> str" where
  "push_repositories remaining [] = []"
| "push_repositories remaining ((repository, patch) # rest) =
     (let (shown_text, used) = patch_part remaining patch in
      repository_header repository @ shown_text @ lit ''</repository>'' @ [10, 10]
      @ push_repositories (remaining - used) rest)"

definition scope_text :: "CodeReviewScope \<Rightarrow> str" where
  "scope_text scope =
     (if scope = TotalCode
      then lit ''Scope: review the complete repositories. Read files in the working directory. Use the patches below to find recent work first.''
      else lit ''Scope: review only the changed lines below. You may read the working directory for callers and context.'') @ [10, 10]"

definition push_patches :: "(CodeReviewRepository \<times> str) list \<Rightarrow> CodeReviewScope \<Rightarrow> nat \<Rightarrow> str" where
  "push_patches repositories scope patch_budget = scope_text scope @ push_repositories patch_budget repositories"

text \<open>The output contract of every review, line by line.\<close>

definition REVIEW_OUTPUT_CONTRACT :: str where
  \<open>REVIEW_OUTPUT_CONTRACT = join_with [10]
     [lit ''Respond with one JSON object and no other text. Use this shape:'',
      lit ''{'',
      lit ''  "intent": "2 to 3 lines about what the change is meant to do",'',
      lit ''  "scope": "matches ticket | mismatch: <reason>",'',
      lit ''  "summary": "one short paragraph. Say plainly if there are no Blocking items.",'',
      lit ''  "findings": ['',
      lit ''    {'',
      lit ''      "label": "blocking | issue | question | suggestion | nit | praise",'',
      lit ''      "repository": "<repository label from the patch header>",'',
      lit ''      "filePath": "<path inside the repository, as in the patch>",'',
      lit ''      "line": 42,'',
      lit ''      "side": "additions | deletions",'',
      lit ''      "alsoLines": [55, 90],'',
      lit ''      "title": "short title",'',
      lit ''      "why": "<trigger> -> <what fails: panic, hang, corrupt data, silent error>",'',
      lit ''      "code": "<the offending line>",'',
      lit ''      "suggestedComment": "<ready-to-post MR comment with the label prefix>",'',
      lit ''      "fix": "<optional minimal fix snippet>"'',
      lit ''    }'',
      lit ''  ],'',
      lit ''  "suggestedTests": ["optional edge-case test"],'',
      lit ''  "notChecked": ["anything you skipped, for example the Jira ticket"]'',
      lit ''}'',
      lit ''Rules for the JSON:'',
      lit ''- Use a line number of a changed line in the patch. Use side "deletions" only for removed lines.'',
      lit ''- One finding per line or pattern. Put repeats in alsoLines.'',
      lit ''- Use label "question" when you cannot confirm a suspicion from the code. Write the question for the reviewer, then put the question to the author in suggestedComment. The reviewer answers it or posts it to the MR.'',
      lit ''- Order findings by label: blocking, issue, question, suggestion, nit, praise.'',
      lit ''- Do not give a merge verdict. Do not post to GitLab. Do not edit files.'']\<close>

definition reference_text :: "str \<times> str \<Rightarrow> str" where
  "reference_text r =
     (case r of (name, body) \<Rightarrow>
        if trim body = [] then []
        else lit ''<reference file='' @ [34] @ name @ [34] @ lit ''>'' @ [10] @ trim body @ [10] @ lit ''</reference>'' @ [10, 10])"

definition build_skill_review_prompt :: "SkillPromptInput \<Rightarrow> str" where
  "build_skill_review_prompt input =
     lit ''You run the '' @ sp_skill_id input
     @ lit '' review skill inside WTS. Follow the skill rules below. WTS shows your findings inline in its diff viewer, and the reviewer can post each suggested comment to the merge request.'' @ [10]
     @ lit ''WTS runs you in a read-only sandbox. Ignore any skill step that posts comments, edits files, or runs the skill scripts. WTS gives you the output shape at the end of this prompt. Use it in place of the report format in the skill.'' @ [10]
     @ (case sp_size_gate_lines input of
          None \<Rightarrow> []
        | Some lines \<Rightarrow> lit ''WTS already ran the size gate ('' @ show_nat lines
            @ lit '' lines) and picked the strictness for each repository.'' @ [10])
     @ (if sp_precedents_available input
        then lit ''WTS finds the closest past comments from '' @ unwrap_or (sp_reviewer input) (lit ''the reviewer'')
          @ lit '' for each finding. Do not search for them yourself.'' @ [10]
        else [])
     @ [10] @ lit ''<skill>'' @ [10] @ trim (sp_rules input) @ [10] @ lit ''</skill>'' @ [10, 10]
     @ concat (map reference_text (sp_references input))
     @ lit ''<task>'' @ [10] @ trim (sp_intent input) @ [10] @ lit ''</task>'' @ [10, 10]
     @ push_patches (sp_repositories input) (sp_scope input) (sp_patch_budget input)
     @ REVIEW_OUTPUT_CONTRACT"

definition scope_instructions :: "CodeReviewScope \<Rightarrow> str" where
  "scope_instructions scope =
     (case scope of
        RecentChanges \<Rightarrow> lit ''Focus specifically on recent modifications, uncommitted changes, and new commits against the base branch. Examine correctness, edge cases, test coverage, and regressions introduced by these changes.''
      | TotalCode \<Rightarrow> lit ''Review the codebase architecture, integration patterns, structural risks, security boundaries, and overall health across all files.'')"

definition build_code_review_prompt :: "CodeReviewScope \<Rightarrow> str \<Rightarrow> str option \<Rightarrow> str" where
  "build_code_review_prompt scope context_summary model =
     lit ''You are an expert AI code reviewer.'' @ [10] @ lit ''Scope: '' @ scope_instructions scope @ [10]
     @ (case model of
          None \<Rightarrow> []
        | Some m \<Rightarrow> if trim m = [] then [] else [10] @ lit ''Configured model: '' @ m @ [10])
     @ lit ''Workspace context:'' @ [10] @ context_summary @ [10, 10] @ REVIEW_OUTPUT_CONTRACT"

subsection \<open>What an agent answers\<close>

text \<open>The events are the lines that the JSON parser reads.\<close>

definition line_events :: "(str \<Rightarrow> json option) \<Rightarrow> str \<Rightarrow> json list" where
  "line_events from_json raw = List.map_filter (\<lambda>line. from_json (trim line)) (str_lines raw)"

definition agent_message :: "json \<Rightarrow> str option" where
  "agent_message event =
     (if json_at event (lit ''type'') = JString (lit ''item.completed'')
         \<and> json_at (json_at event (lit ''item'')) (lit ''type'') = JString (lit ''agent_message'')
      then as_str (json_at (json_at event (lit ''item'')) (lit ''text'')) else None)"

definition text_part :: "json \<Rightarrow> str option" where
  "text_part event =
     (if json_at event (lit ''type'') = JString (lit ''text'')
      then as_str (json_at (json_at event (lit ''part'')) (lit ''text'')) else None)"

definition extract_agent_text :: "(str \<Rightarrow> json option) \<Rightarrow> AgentProvider \<Rightarrow> str \<Rightarrow> str" where
  "extract_agent_text from_json provider raw =
     (case provider of
        AgentCodex \<Rightarrow>
          (let messages = List.map_filter agent_message (line_events from_json raw) in
           if messages = [] then raw else last messages)
      | AgentOpenCode \<Rightarrow>
          (let parts = List.map_filter text_part (line_events from_json raw) in
           if parts = [] then raw else concat parts)
      | _ \<Rightarrow> raw)"

definition fence :: str where "fence = [96, 96, 96]"

lemma split_once_str_length: "split_once_str p s = Some (a, b) \<Longrightarrow> p \<noteq> [] \<Longrightarrow> length b < length s"
  by (induction p s arbitrary: a rule: split_once_str.induct) (auto split: if_splits)

lemma block_shorter:
  assumes "split_once_str fence s = Some (a, after)"
    and "split_once_str fence (case split_once 10 after of None \<Rightarrow> after | Some (_, b) \<Rightarrow> b) = Some (block, rest)"
  shows "length rest < length s"
proof -
  have "length after < length s" using split_once_str_length [OF assms(1)] by (simp add: fence_def)
  moreover have "length rest < length (case split_once 10 after of None \<Rightarrow> after | Some (_, b) \<Rightarrow> b)"
    using split_once_str_length [OF assms(2)] by (simp add: fence_def)
  moreover have "length (case split_once 10 after of None \<Rightarrow> after | Some (_, b) \<Rightarrow> b) \<le> length after"
    using length_dropWhile_le [of "\<lambda>c. c \<noteq> 10" after] by (auto simp: split_once_def)
  ultimately show ?thesis by simp
qed

function fenced_blocks :: "str \<Rightarrow> str list" where
  "fenced_blocks rest =
     (case split_once_str fence rest of
        None \<Rightarrow> []
      | Some (_, after) \<Rightarrow>
          let body = (case split_once 10 after of None \<Rightarrow> after | Some (_, b) \<Rightarrow> b) in
          (case split_once_str fence body of
             None \<Rightarrow> []
           | Some (block, rest) \<Rightarrow> block # fenced_blocks rest))"
  by auto
termination by (relation "measure length") (auto intro: block_shorter)

declare fenced_blocks.simps [simp del]

definition outermost_braces :: "str \<Rightarrow> str option" where
  "outermost_braces s =
     (let tail = dropWhile (\<lambda>c. c \<noteq> 123) s in
      if 125 \<in> set tail then Some (rev (dropWhile (\<lambda>c. c \<noteq> 125) (rev tail))) else None)"

definition is_review :: "json \<Rightarrow> bool" where
  "is_review v \<longleftrightarrow> is_object v \<and> (json_get v (lit ''findings'') \<noteq> None \<or> json_get v (lit ''summary'') \<noteq> None)"

definition review_json :: "(str \<Rightarrow> json option) \<Rightarrow> str \<Rightarrow> json option" where
  "review_json from_json s =
     List.find is_review (List.map_filter (\<lambda>candidate. from_json (trim candidate))
       (fenced_blocks s @ (case outermost_braces s of None \<Rightarrow> [] | Some b \<Rightarrow> [b])))"

definition text_field :: "json \<Rightarrow> str list \<Rightarrow> str option" where
  "text_field v keys =
     (case List.map_filter (\<lambda>key. Option.bind (json_get v key) as_str) keys of
        [] \<Rightarrow> None
      | s # _ \<Rightarrow> if trim s = [] then None else Some (trim s))"

definition line_field :: "json \<Rightarrow> nat option" where
  "line_field v =
     Option.bind (or_else (json_get v (lit ''line'')) (json_get v (lit ''lineNumber''))) (\<lambda>line.
     Option.bind (or_else (as_u64 line) (Option.bind (as_str line) (\<lambda>s. parse_unsigned u64_max (trim s)))) (\<lambda>line.
     Option.bind (u32_of_nat line) (\<lambda>line. if line > 0 then Some line else None)))"

record ParsedFinding =
  pg_label :: CodeReviewLabel
  pg_repository :: "str option"
  pg_file_path :: str
  pg_line :: "nat option"
  pg_side :: "ReviewCodeSide option"
  pg_also_lines :: "nat list"
  pg_title :: str
  pg_why :: str
  pg_code :: "str option"
  pg_suggested_comment :: "str option"
  pg_fix :: "str option"

record ParsedReview =
  pv_structured :: bool
  pv_intent :: "str option"
  pv_summary :: str
  pv_findings :: "ParsedFinding list"
  pv_steps :: "CodeReviewActionableStep list"
  pv_suggested_tests :: "str list"
  pv_not_checked :: "str list"

definition string_list :: "json option \<Rightarrow> str list" where
  "string_list v =
     take 64 (filter (\<lambda>s. s \<noteq> []) (map (\<lambda>s. bounded_string s MAX_TEXT_CHARS)
       (List.map_filter (\<lambda>item. or_else (as_str item) (text_field item [lit ''instruction'', lit ''text'', lit ''description'']))
         (array_items v))))"

definition split_file_line :: "str \<Rightarrow> str \<times> nat option" where
  "split_file_line path =
     (case rsplit_once (chr CHR '':'') path of
        None \<Rightarrow> (path, None)
      | Some (file, line) \<Rightarrow> (case parse_u32 (trim line) of None \<Rightarrow> (path, None) | Some n \<Rightarrow> (file, Some n)))"

definition side_field :: "json \<Rightarrow> ReviewCodeSide option" where
  "side_field finding =
     map_option (\<lambda>s. if s \<in> set [lit ''deletions'', lit ''deleted'', lit ''old'', lit ''left''] then Deletions else Additions)
       (text_field finding [lit ''side''])"

definition parse_finding :: "json \<Rightarrow> ParsedFinding option" where
  "parse_finding finding =
     (let label = unwrap_or (Option.bind (text_field finding [lit ''label'', lit ''severity'', lit ''type'']) label_parse) LabelSuggestion in
      Option.bind (text_field finding [lit ''filePath'', lit ''file'', lit ''path'']) (\<lambda>raw_path.
      let (file_path, embedded_line) = split_file_line raw_path;
          why = unwrap_or (text_field finding [lit ''why'', lit ''explanation'', lit ''description'', lit ''detail'']) [];
          title = (case text_field finding [lit ''title'', lit ''summary''] of
            Some t \<Rightarrow> t
          | None \<Rightarrow> (case str_lines why of [] \<Rightarrow> lit ''Review finding'' | l # _ \<Rightarrow> l)) in
      Some \<lparr>pg_label = label,
        pg_repository = text_field finding [lit ''repository'', lit ''repositoryLabel'', lit ''repo''],
        pg_file_path = bounded_string (trim_start_str (lit ''./'') file_path) 1024,
        pg_line = or_else (line_field finding) embedded_line,
        pg_side = side_field finding,
        pg_also_lines = take 64 (List.map_filter (\<lambda>v. Option.bind (as_u64 v) u32_of_nat) (array_items (json_get finding (lit ''alsoLines'')))),
        pg_title = bounded_string title MAX_TITLE_CHARS,
        pg_why = bounded_string why MAX_TEXT_CHARS,
        pg_code = map_option (\<lambda>s. bounded_string s MAX_CODE_CHARS) (text_field finding [lit ''code'', lit ''offendingCode'']),
        pg_suggested_comment = map_option (\<lambda>s. bounded_string s MAX_TEXT_CHARS) (text_field finding [lit ''suggestedComment'', lit ''comment'']),
        pg_fix = map_option (\<lambda>s. bounded_string s MAX_CODE_CHARS)
          (text_field finding [lit ''fix'', lit ''suggestedPatch'', lit ''suggestedFix''])\<rparr>))"

definition parse_step :: "nat \<times> json \<Rightarrow> CodeReviewActionableStep option" where
  "parse_step entry =
     (case entry of (index, step) \<Rightarrow>
        map_option (\<lambda>instruction.
            \<lparr>as_step_number = unwrap_or (Option.bind (Option.bind (json_get step (lit ''stepNumber'')) as_u64) u32_of_nat) (index + 1),
             as_instruction = bounded_string instruction MAX_TEXT_CHARS\<rparr>)
          (or_else (as_str step) (text_field step [lit ''instruction'', lit ''text''])))"

definition unstructured_review :: "str \<Rightarrow> ParsedReview" where
  "unstructured_review s =
     \<lparr>pv_structured = False, pv_intent = None,
      pv_summary = (if trim s = [] then lit ''The agent returned no review text.'' else bounded_string (trim s) MAX_SUMMARY_CHARS),
      pv_findings = [], pv_steps = [], pv_suggested_tests = [], pv_not_checked = []\<rparr>"

definition structured_review :: "json \<Rightarrow> ParsedReview" where
  "structured_review v =
     (let findings = take MAX_FINDINGS (List.map_filter parse_finding (array_items (json_get v (lit ''findings''))));
          steps = take 64 (List.map_filter parse_step (List.enumerate 0 (array_items (json_get v (lit ''actionableSteps'')))));
          summary = (case text_field v [lit ''summary''] of
            Some s \<Rightarrow> s
          | None \<Rightarrow> if findings = [] then lit ''The review found no issues.''
              else lit ''The review found '' @ show_nat (length findings) @ lit '' items.'');
          not_checked = string_list (json_get v (lit ''notChecked'')) in
      \<lparr>pv_structured = True,
       pv_intent = map_option (\<lambda>s. bounded_string s MAX_TEXT_CHARS) (text_field v [lit ''intent'']),
       pv_summary = bounded_string summary MAX_SUMMARY_CHARS,
       pv_findings = findings,
       pv_steps = steps,
       pv_suggested_tests = string_list (json_get v (lit ''suggestedTests'')),
       pv_not_checked = (case text_field v [lit ''scope''] of
           None \<Rightarrow> not_checked
         | Some scope \<Rightarrow> if starts_with (lit ''mismatch'') (to_ascii_lowercase scope)
             then bounded_string (lit ''Scope '' @ scope) MAX_TEXT_CHARS # not_checked else not_checked)\<rparr>)"

definition parse_review_text :: "(str \<Rightarrow> json option) \<Rightarrow> str \<Rightarrow> ParsedReview" where
  "parse_review_text from_json s =
     (case review_json from_json s of None \<Rightarrow> unstructured_review s | Some v \<Rightarrow> structured_review v)"

subsection \<open>Findings\<close>

definition prefixed_comment :: "CodeReviewLabel \<Rightarrow> str \<Rightarrow> str" where
  "prefixed_comment label comment =
     (if starts_with (to_ascii_lowercase (label_prefix label)) (to_ascii_lowercase comment) then comment
      else label_prefix label @ lit '': '' @ comment)"

definition into_finding ::
    "nat \<Rightarrow> str option \<Rightarrow> (nat \<times> ReviewCodeSide) option \<Rightarrow> CodeReviewPrecedent option \<Rightarrow> ParsedFinding \<Rightarrow> CodeReviewFinding" where
  "into_finding index repository_id anchor precedent p =
     \<lparr>cf_finding_id = lit ''finding-'' @ show_nat (index + 1), cf_severity = label_severity (pg_label p), cf_label = pg_label p,
      cf_repository_id = repository_id, cf_file_path = pg_file_path p, cf_line = or_else (map_option fst anchor) (pg_line p),
      cf_side = or_else (map_option snd anchor) (pg_side p), cf_anchored = (anchor \<noteq> None), cf_title = pg_title p,
      cf_explanation = pg_why p, cf_code = pg_code p,
      cf_suggested_comment = map_option (prefixed_comment (pg_label p)) (pg_suggested_comment p),
      cf_suggested_patch = pg_fix p, cf_also_lines = pg_also_lines p, cf_precedent = precedent\<rparr>"

definition parse_code_review_outcome ::
    "(str \<Rightarrow> json option) \<Rightarrow> uuid \<Rightarrow> AgentProvider \<Rightarrow> CodeReviewScope \<Rightarrow> str option \<Rightarrow> str \<Rightarrow> int \<Rightarrow> WorkspaceCodeReviewResult" where
  "parse_code_review_outcome from_json workspace_id provider scope model raw_output timestamp_ms =
     (let answer = extract_agent_text from_json provider raw_output;
          parsed = parse_review_text from_json answer in
      \<lparr>cr_schema_version = CODE_REVIEW_SCHEMA_VERSION, cr_workspace_id = workspace_id, cr_provider = provider, cr_scope = scope,
       cr_model = model, cr_agent = model, cr_mode = ModeStandard, cr_skill = None,
       cr_outcome = (if pv_structured parsed then Reviewed else Unstructured),
       cr_intent = pv_intent parsed, cr_summary = pv_summary parsed,
       cr_findings = map (\<lambda>(index, p). into_finding index None None None p) (List.enumerate 0 (pv_findings parsed)),
       cr_actionable_steps = pv_steps parsed, cr_suggested_tests = pv_suggested_tests parsed,
       cr_not_checked = pv_not_checked parsed, cr_repositories = [],
       cr_raw_output = (if pv_structured parsed then None else Some (bounded_string answer MAX_SUMMARY_CHARS)),
       cr_reviewed_at = timestamp_ms\<rparr>)"

subsection \<open>Bounds on what is read\<close>

lemma length_bounded_string: "length (bounded_string s n) \<le> n + 1"
  by (simp add: bounded_string_def Let_def)

definition finding_bounded :: "ParsedFinding \<Rightarrow> bool" where
  "finding_bounded p \<longleftrightarrow>
     length (pg_file_path p) \<le> 1025 \<and> length (pg_title p) \<le> 241 \<and> length (pg_why p) \<le> 4001
     \<and> list_all (\<lambda>s. length s \<le> 2001) (List.map_filter (\<lambda>m. m) [pg_code p, pg_fix p])
     \<and> (case pg_suggested_comment p of None \<Rightarrow> True | Some s \<Rightarrow> length s \<le> 4001)
     \<and> (case pg_line p of None \<Rightarrow> True | Some n \<Rightarrow> n \<le> u32_max)
     \<and> length (pg_also_lines p) \<le> 64 \<and> list_all (\<lambda>n. n \<le> u32_max) (pg_also_lines p)"

lemma line_field_le: "line_field v = Some n \<Longrightarrow> 0 < n \<and> n \<le> u32_max"
  by (auto simp: line_field_def u32_of_nat_def bind_eq_Some_conv split: if_splits)

lemma split_file_line_le: "split_file_line path = (name, Some n) \<Longrightarrow> n \<le> u32_max"
  using parse_unsigned_le by (auto simp: split_file_line_def parse_u32_def split: option.splits)

lemma map_filter_all: "(\<And>x y. f x = Some y \<Longrightarrow> P y) \<Longrightarrow> list_all P (List.map_filter f xs)"
  by (auto simp: list_all_iff List.map_filter_def)

lemma list_all_take: "list_all P xs \<Longrightarrow> list_all P (take n xs)"
  by (auto simp: list_all_iff dest: in_set_takeD)

lemma parse_finding_bounded: "parse_finding v = Some p \<Longrightarrow> finding_bounded p"
proof -
  assume p: "parse_finding v = Some p"
  from p obtain raw_path where raw: "text_field v [lit ''filePath'', lit ''file'', lit ''path''] = Some raw_path"
    by (auto simp: parse_finding_def Let_def bind_eq_Some_conv)
  obtain name embedded where path: "split_file_line raw_path = (name, embedded)" by force
  have line: "pg_line p = or_else (line_field v) embedded"
    and also_lines: "pg_also_lines p = take 64 (List.map_filter (\<lambda>v. Option.bind (as_u64 v) u32_of_nat) (array_items (json_get v (lit ''alsoLines''))))"
    using p raw path by (auto simp: parse_finding_def Let_def)
  have "case pg_line p of None \<Rightarrow> True | Some n \<Rightarrow> n \<le> u32_max"
    unfolding line or_else_def using line_field_le split_file_line_le path by (auto split: option.split)
  moreover have "list_all (\<lambda>n. n \<le> u32_max) (pg_also_lines p)" "length (pg_also_lines p) \<le> 64"
    unfolding also_lines
    by (auto intro!: list_all_take map_filter_all simp: u32_of_nat_def bind_eq_Some_conv split: if_splits)
  moreover have "length (pg_file_path p) \<le> 1025" "length (pg_title p) \<le> 241" "length (pg_why p) \<le> 4001"
    "list_all (\<lambda>s. length s \<le> 2001) (List.map_filter (\<lambda>m. m) [pg_code p, pg_fix p])"
    "case pg_suggested_comment p of None \<Rightarrow> True | Some s \<Rightarrow> length s \<le> 4001"
    using p raw path length_bounded_string [of _ 1024] length_bounded_string [of _ 240] length_bounded_string [of _ 2000] length_bounded_string [of _ 4000]
    by (auto simp: parse_finding_def Let_def MAX_TITLE_CHARS_def MAX_TEXT_CHARS_def MAX_CODE_CHARS_def
        List.map_filter_simps split: option.splits)
  ultimately show ?thesis unfolding finding_bounded_def by blast
qed

lemma string_list_bounded: "length (string_list v) \<le> 64 \<and> list_all (\<lambda>s. s \<noteq> [] \<and> length s \<le> 4001) (string_list v)"
  using length_bounded_string [of _ 4000]
  by (auto simp: string_list_def list_all_iff MAX_TEXT_CHARS_def dest!: in_set_takeD)

lemma answers_bounded:
  "length (pv_findings (parse_review_text from_json s)) \<le> 200 \<and> list_all finding_bounded (pv_findings (parse_review_text from_json s))
   \<and> length (pv_summary (parse_review_text from_json s)) \<le> 4001 \<and> length (pv_steps (parse_review_text from_json s)) \<le> 64
   \<and> length (pv_suggested_tests (parse_review_text from_json s)) \<le> 64 \<and> length (pv_not_checked (parse_review_text from_json s)) \<le> 65"
proof (cases "review_json from_json s")
  case None
  then show ?thesis using length_bounded_string [of _ 4000]
    by (auto simp: parse_review_text_def unstructured_review_def MAX_SUMMARY_CHARS_def lit_def)
next
  case (Some v)
  have "list_all finding_bounded (take MAX_FINDINGS (List.map_filter parse_finding (array_items (json_get v (lit ''findings'')))))"
    by (intro list_all_take map_filter_all parse_finding_bounded)
  moreover have "length (string_list w) \<le> 65" "length (string_list w) \<le> 64" for w using string_list_bounded [of w] by simp_all
  ultimately show ?thesis using Some length_bounded_string [of _ 4000]
    by (auto simp: parse_review_text_def structured_review_def Let_def MAX_FINDINGS_def MAX_SUMMARY_CHARS_def le_SucI split: option.split)
qed

text \<open>A fenced object is found when no fence is before it.\<close>

lemma fenced_answer_read:
  assumes "96 \<notin> set pre" "96 \<notin> set tag" "10 \<notin> set tag" "96 \<notin> set body"
    and "from_json (trim body) = Some v" "is_review v"
  shows "review_json from_json (pre @ fence @ tag @ [10] @ body @ fence @ post) = Some v"
proof -
  have "split_once_str fence (pre @ fence @ tag @ [10] @ body @ fence @ post) = Some (pre, tag @ [10] @ body @ fence @ post)"
    using assms(1) by (intro split_once_str_append) (simp_all add: fence_def)
  moreover have "split_once 10 (tag @ [10] @ body @ fence @ post) = Some (tag, body @ fence @ post)"
  proof -
    have "takeWhile (\<lambda>c. c \<noteq> 10) (tag @ [10] @ body @ fence @ post) = tag @ takeWhile (\<lambda>c. c \<noteq> 10) ([10] @ body @ fence @ post)"
      "dropWhile (\<lambda>c. c \<noteq> 10) (tag @ [10] @ body @ fence @ post) = dropWhile (\<lambda>c. c \<noteq> 10) ([10] @ body @ fence @ post)"
      using assms(3) by (intro takeWhile_append2 dropWhile_append2; auto)+
    then show ?thesis by (simp add: split_once_def)
  qed
  moreover have "split_once_str fence (body @ fence @ post) = Some (body, post)"
    using assms(4) by (intro split_once_str_append) (simp_all add: fence_def)
  ultimately have "fenced_blocks (pre @ fence @ tag @ [10] @ body @ fence @ post) = body # fenced_blocks post"
    by (subst fenced_blocks.simps) simp
  then show ?thesis using assms(5,6) by (simp add: review_json_def List.map_filter_simps)
qed

end
