(* ===== verification/Review_Skill.thy ===== *)
theory Review_Skill
  imports Code_Review
begin

text \<open>
  \<open>wts-app/src/review_skill.rs\<close>: how a review skill is read from a directory, which skills there are and
  which one a request gets. The files of a directory, the TOML parser, the list of past comments and
  Unicode upper-casing are parameters.
\<close>

subsection \<open>Types\<close>

definition PREFERRED_SKILL_ID :: str where "PREFERRED_SKILL_ID = lit ''raptik-review''"
definition MANIFEST_SCHEMA :: nat where "MANIFEST_SCHEMA = 1"
definition MAX_SKILL_FILE_BYTES :: nat where "MAX_SKILL_FILE_BYTES = 16 * 1024"
definition MAX_REFERENCE_BYTES :: nat where "MAX_REFERENCE_BYTES = 16 * 1024"
definition MAX_REFERENCE_FILES :: nat where "MAX_REFERENCE_FILES = 4"
definition MAX_SKILLS :: nat where "MAX_SKILLS = 40"
definition MAX_LABEL_CHARS :: nat where "MAX_LABEL_CHARS = 60"
definition MAX_DESCRIPTION_CHARS :: nat where "MAX_DESCRIPTION_CHARS = 400"

record ReviewSkillManifest =
  rm_schema :: "nat option"
  rm_label :: "str option"
  rm_reviewer :: "str option"
  rm_references :: "str list option"
  rm_precedents :: "str option"
  rm_size_gate_lines :: "nat option"
  rm_strict_repositories :: "str list option"

definition default_manifest :: ReviewSkillManifest where
  "default_manifest = \<lparr>rm_schema = None, rm_label = None, rm_reviewer = None, rm_references = None, rm_precedents = None,
     rm_size_gate_lines = None, rm_strict_repositories = None\<rparr>"

record PrecedentComment =
  pc_body :: str
  pc_file :: "str option"
  pc_url :: "str option"

record ReviewSkill =
  sk_id :: str
  sk_label :: str
  sk_description :: "str option"
  sk_reviewer :: "str option"
  sk_directory :: PathBuf
  sk_has_manifest :: bool
  sk_rules :: str
  sk_references :: "(str \<times> str) list"
  sk_precedents :: "PrecedentComment list"
  sk_size_gate_lines :: "nat option"
  sk_strict_repositories :: "str list"

text \<open>
  A directory: the text of a regular file under a relative path, links followed or not, the text of
  \<open>SKILL.md\<close>, the manifest that was parsed, and the comments in a file.
\<close>

record SkillFiles =
  fs_name :: "str option"
  fs_skill :: "str option"
  fs_manifest :: "ReviewSkillManifest option"
  fs_regular :: "PathBuf \<Rightarrow> bool"
  fs_text :: "PathBuf \<Rightarrow> str option"
  fs_comments :: "PathBuf \<Rightarrow> PrecedentComment list"

definition builtin_manifest :: "str \<Rightarrow> ReviewSkillManifest option" where
  "builtin_manifest i =
     (if i = PREFERRED_SKILL_ID
      then Some \<lparr>rm_schema = Some MANIFEST_SCHEMA, rm_label = Some (lit ''Raptik rules''), rm_reviewer = Some (lit ''Pratik''),
        rm_references = Some [lit ''references/playbook.md''], rm_precedents = Some (lit ''references/pratik_comments.jsonl''),
        rm_size_gate_lines = Some 500, rm_strict_repositories = Some [lit ''beacon'', lit ''harbor'', lit ''netdhcp'']\<rparr>
      else None)"

subsection \<open>Texts\<close>

definition valid_skill_id :: "str \<Rightarrow> bool" where
  "valid_skill_id i \<longleftrightarrow> i \<noteq> [] \<and> str_len i \<le> 80 \<and> \<not> starts_with (lit ''.'') i
     \<and> list_all (\<lambda>c. is_ascii_alphanumeric c \<or> c \<in> set (lit ''-_.'')) i"

text \<open>The components of a Unix path: empty names and inner single dots are dropped.\<close>

definition component_of :: "str \<Rightarrow> Component" where
  "component_of name = (if name = lit ''..'' then ParentDir else if name = lit ''.'' then CurDir else Normal name)"

definition path_components :: "str \<Rightarrow> PathBuf" where
  "path_components s =
     (let names = split_on (chr CHR ''/'') s;
          parts = map component_of (filter (\<lambda>n. n \<noteq> [] \<and> n \<noteq> lit ''.'') names) in
      if starts_with (lit ''/'') s then RootDir # parts
      else if hd names = lit ''.'' then CurDir # parts
      else parts)"

definition skill_file :: "SkillFiles \<Rightarrow> str \<Rightarrow> PathBuf option" where
  "skill_file files relative =
     (let path = path_components relative in
      if list_ex (\<lambda>c. case c of Normal _ \<Rightarrow> False | _ \<Rightarrow> True) path then None
      else if fs_regular files path then Some path else None)"

text \<open>\<open>find\<close> gives the text before the first occurrence.\<close>

definition front_matter :: "str \<Rightarrow> str option" where
  "front_matter s =
     Option.bind (strip_prefix (lit ''---'' @ [10]) s) (\<lambda>rest. map_option fst (split_once_str ([10] @ lit ''---'') rest))"

definition field_value :: "str \<Rightarrow> str \<Rightarrow> str option" where
  "field_value key line =
     (case split_once (chr CHR '':'') line of
        None \<Rightarrow> None
      | Some (name, v) \<Rightarrow> if trim name = key then Some (trim_matches (\<lambda>c. c = 39) (trim_matches (\<lambda>c. c = 34) (trim v))) else None)"

definition front_field :: "str \<Rightarrow> str \<Rightarrow> str option" where
  "front_field front key =
     (case List.map_filter (field_value key) (str_lines front) of
        [] \<Rightarrow> None
      | v # _ \<Rightarrow> if v = [] then None else Some v)"

definition strip_front_matter :: "str \<Rightarrow> str" where
  "strip_front_matter s =
     (case strip_prefix (lit ''---'' @ [10]) s of
        None \<Rightarrow> trim s
      | Some rest \<Rightarrow> (case split_once_str ([10] @ lit ''---'' @ [10]) rest of None \<Rightarrow> trim s | Some (_, after) \<Rightarrow> trim after))"

text \<open>The first \<open>maximum\<close> bytes, back to a boundary.\<close>

definition bounded_file :: "nat \<Rightarrow> str \<Rightarrow> str" where
  "bounded_file maximum s = (if str_len s \<le> maximum then s else slice_to s maximum)"

definition title_word :: "(rchar \<Rightarrow> str) \<Rightarrow> str \<Rightarrow> str" where
  "title_word upper word = (case word of [] \<Rightarrow> [] | c # cs \<Rightarrow> upper c @ cs)"

definition title_case :: "(rchar \<Rightarrow> str) \<Rightarrow> str \<Rightarrow> str" where
  "title_case upper name =
     bounded_string (join_with [32] (map (title_word upper)
       (filter (\<lambda>w. w \<noteq> []) (split_where (\<lambda>c. c \<in> set (lit ''-_ '')) name)))) MAX_LABEL_CHARS"

definition compact_name :: "str \<Rightarrow> str" where
  "compact_name name = filter (\<lambda>c. c \<noteq> chr CHR ''-'' \<and> c \<noteq> chr CHR ''_'') (to_ascii_lowercase name)"

definition non_empty :: "str \<Rightarrow> str option" where
  "non_empty s = (if s = [] then None else Some s)"

subsection \<open>Loading, discovering and selecting\<close>

definition skill_reference :: "SkillFiles \<Rightarrow> str \<Rightarrow> (str \<times> str) option" where
  "skill_reference files relative =
     Option.bind (skill_file files relative) (\<lambda>path.
     Option.bind (fs_text files path) (\<lambda>raw.
     let body = bounded_file MAX_REFERENCE_BYTES raw in
     if trim body = [] then None else Some (relative, body)))"

definition load_review_skill :: "(rchar \<Rightarrow> str) \<Rightarrow> PathBuf \<Rightarrow> SkillFiles \<Rightarrow> ReviewSkill option" where
  "load_review_skill upper directory files =
     Option.bind (fs_name files) (\<lambda>i.
     if \<not> valid_skill_id i then None else
     Option.bind (fs_skill files) (\<lambda>raw.
     let body = bounded_file MAX_SKILL_FILE_BYTES raw;
         front = front_matter body;
         name = Option.bind front (\<lambda>front. front_field front (lit ''name''));
         description = Option.bind front (\<lambda>front. front_field front (lit ''description''));
         manifest = or_else (fs_manifest files) (builtin_manifest i);
         names_review = list_ex (\<lambda>v. contains_str (lit ''review'') (to_ascii_lowercase v))
           (List.map_filter (\<lambda>v. v) [Some i, name, description]) in
     if manifest = None \<and> \<not> names_review then None else
     let manifest = unwrap_or manifest default_manifest in
     if rm_schema manifest \<noteq> None \<and> rm_schema manifest \<noteq> Some MANIFEST_SCHEMA then None else
     let rules = strip_front_matter body in
     if rules = [] then None else
     Some \<lparr>sk_id = i,
       sk_label = unwrap_or (Option.bind (rm_label manifest) (\<lambda>l. non_empty (bounded_string l MAX_LABEL_CHARS)))
         (title_case upper (unwrap_or name i)),
       sk_description = map_option (\<lambda>d. bounded_string d MAX_DESCRIPTION_CHARS) description,
       sk_reviewer = Option.bind (rm_reviewer manifest) (\<lambda>r. non_empty (bounded_string r MAX_LABEL_CHARS)),
       sk_directory = directory,
       sk_has_manifest = (fs_manifest files \<noteq> None),
       sk_rules = rules,
       sk_references = List.map_filter (skill_reference files) (take MAX_REFERENCE_FILES (unwrap_or (rm_references manifest) [])),
       sk_precedents = (case Option.bind (rm_precedents manifest) (skill_file files) of None \<Rightarrow> [] | Some path \<Rightarrow> fs_comments files path),
       sk_size_gate_lines = Option.bind (rm_size_gate_lines manifest) (\<lambda>n. if n > 0 then Some n else None),
       sk_strict_repositories = filter (\<lambda>n. n \<noteq> []) (map compact_name (unwrap_or (rm_strict_repositories manifest) []))\<rparr>))"

text \<open>The candidates of all roots in turn; the loop ends for good when enough skills are known.\<close>

fun discover_from :: "(rchar \<Rightarrow> str) \<Rightarrow> ReviewSkill list \<Rightarrow> (PathBuf \<times> SkillFiles) list \<Rightarrow> ReviewSkill list" where
  "discover_from upper skills [] = skills"
| "discover_from upper skills ((directory, files) # rest) =
     (if length skills \<ge> MAX_SKILLS then skills else
      case load_review_skill upper directory files of
        None \<Rightarrow> discover_from upper skills rest
      | Some skill \<Rightarrow>
          if list_ex (\<lambda>known. sk_id known = sk_id skill) skills then discover_from upper skills rest
          else discover_from upper (skills @ [skill]) rest)"

text \<open>A root that is a skill itself, or the skills among its children by path.\<close>

definition root_candidates :: "(PathBuf \<Rightarrow> SkillFiles option) \<Rightarrow> (PathBuf \<Rightarrow> PathBuf list) \<Rightarrow> PathBuf \<Rightarrow> (PathBuf \<times> SkillFiles) list" where
  "root_candidates skill_at children root =
     (case skill_at root of
        Some files \<Rightarrow> [(root, files)]
      | None \<Rightarrow> List.map_filter (\<lambda>path. map_option (Pair path) (skill_at path))
          (sort (filter (\<lambda>path. skill_at path \<noteq> None) (children root))))"

definition discover_review_skills ::
    "(rchar \<Rightarrow> str) \<Rightarrow> (PathBuf \<Rightarrow> SkillFiles option) \<Rightarrow> (PathBuf \<Rightarrow> PathBuf list) \<Rightarrow> PathBuf list \<Rightarrow> ReviewSkill list" where
  "discover_review_skills upper skill_at children roots =
     discover_from upper [] (concat (map (root_candidates skill_at children) roots))"

definition select_review_skill :: "ReviewSkill list \<Rightarrow> str option \<Rightarrow> unit + ReviewSkill option" where
  "select_review_skill skills requested =
     (case Option.bind requested (\<lambda>r. non_empty (trim r)) of
        Some i \<Rightarrow>
          if i = lit ''none'' then Inr None
          else (case List.find (\<lambda>s. sk_id s = i) skills of None \<Rightarrow> Inl () | Some s \<Rightarrow> Inr (Some s))
      | None \<Rightarrow>
          (case List.find (\<lambda>s. sk_id s = PREFERRED_SKILL_ID) skills of
             Some s \<Rightarrow> Inr (Some s)
           | None \<Rightarrow> Inr (List.find sk_has_manifest skills)))"

definition unique_roots :: "PathBuf list \<Rightarrow> PathBuf list" where
  "unique_roots roots = rev (fold (\<lambda>root unique. if root \<in> set unique then unique else root # unique) roots [])"

definition review_skill_roots :: "PathBuf list option \<Rightarrow> PathBuf option \<Rightarrow> PathBuf option \<Rightarrow> PathBuf option \<Rightarrow> PathBuf list" where
  "review_skill_roots override_dirs legacy_dir codex_home home =
     unique_roots ((case override_dirs of None \<Rightarrow> [] | Some paths \<Rightarrow> filter (\<lambda>path. path \<noteq> []) paths)
       @ (case legacy_dir of None \<Rightarrow> [] | Some d \<Rightarrow> [d])
       @ (case codex_home of None \<Rightarrow> [] | Some d \<Rightarrow> [d @ [Normal (lit ''skills'')]])
       @ (case home of None \<Rightarrow> [] | Some h \<Rightarrow>
           map (\<lambda>d. h @ [Normal d, Normal (lit ''skills'')]) [lit ''.codex'', lit ''.agents'', lit ''.claude'', lit ''.copilot'']))"

subsection \<open>What is loaded\<close>

definition skill_ok :: "ReviewSkill \<Rightarrow> bool" where
  "skill_ok s \<longleftrightarrow> valid_skill_id (sk_id s) \<and> sk_rules s \<noteq> [] \<and> str_len (sk_rules s) \<le> 16384
     \<and> length (sk_references s) \<le> 4 \<and> list_all (\<lambda>(_, body). str_len body \<le> 16384) (sk_references s)
     \<and> sk_size_gate_lines s \<noteq> Some 0 \<and> list_all (\<lambda>n. n \<noteq> []) (sk_strict_repositories s)"

lemma bounded_file_len: "str_len (bounded_file n s) \<le> n"
  by (simp add: bounded_file_def slice_to_len)

lemma split_once_str_len: "split_once_str p s = Some (a, b) \<Longrightarrow> str_len b \<le> str_len s"
proof (induction p s arbitrary: a rule: split_once_str.induct)
  case (2 p c cs)
  have "str_len (drop k xs) \<le> str_len xs" for k xs by (metis append_take_drop_id le_add2 str_len_simps(3))
  then have "str_len (drop (length p) (c # cs)) \<le> str_len (c # cs)" .
  with 2 show ?case by (auto split: if_splits intro: le_trans)
qed simp

lemma trim_len: "str_len (trim s) \<le> str_len s"
proof -
  obtain a where "trim_start s = trim s @ a" using trim_end_prefix [of "trim_start s"] by (auto simp: trim_def)
  moreover obtain b where "s = b @ trim_start s" unfolding trim_start_def by (metis takeWhile_dropWhile_id)
  ultimately show ?thesis by (metis str_len_simps(3) le_add1 le_add2 le_trans)
qed

lemma strip_front_matter_len: "str_len (strip_front_matter s) \<le> str_len s"
proof (cases "strip_prefix (lit ''---'' @ [10]) s")
  case (Some rest)
  then have "str_len rest \<le> str_len s"
    unfolding strip_prefix_def by (auto split: if_splits) (metis append_take_drop_id le_add2 str_len_simps(3))
  have after_len: "str_len (trim after) \<le> str_len rest" if "split_once_str p rest = Some (x, after)" for p x after
    using split_once_str_len [OF that] trim_len [of after] by (rule le_trans [rotated])
  have eq: "strip_front_matter s =
      (case split_once_str ([10] @ lit ''---'' @ [10]) rest of None \<Rightarrow> trim s | Some (_, after) \<Rightarrow> trim after)"
    unfolding strip_front_matter_def Some option.case ..
  show ?thesis
  proof (cases "split_once_str ([10] @ lit ''---'' @ [10]) rest")
    case None
    show ?thesis unfolding eq None option.case by (rule trim_len)
  next
    case found: (Some found)
    obtain x after where "found = (x, after)" by (cases found)
    then show ?thesis unfolding eq found using after_len [of "[10] @ lit ''---'' @ [10]" x after] found \<open>str_len rest \<le> str_len s\<close>
      by (simp del: append_Cons)
  qed
qed (simp add: strip_front_matter_def trim_len)

lemma load_review_skill_ok: "load_review_skill upper directory files = Some s \<Longrightarrow> skill_ok s"
proof -
  assume s: "load_review_skill upper directory files = Some s"
  then obtain i raw where names: "fs_name files = Some i" "fs_skill files = Some raw"
    by (auto simp: load_review_skill_def bind_eq_Some_conv split: if_splits)
  define manifest where "manifest = unwrap_or (or_else (fs_manifest files) (builtin_manifest i)) default_manifest"
  have i: "valid_skill_id i" "sk_id s = i"
    and rules: "sk_rules s = strip_front_matter (bounded_file MAX_SKILL_FILE_BYTES raw)" "sk_rules s \<noteq> []"
    and refs: "sk_references s = List.map_filter (skill_reference files) (take MAX_REFERENCE_FILES (unwrap_or (rm_references manifest) []))"
    and gate: "sk_size_gate_lines s = Option.bind (rm_size_gate_lines manifest) (\<lambda>n. if n > 0 then Some n else None)"
    and strict: "sk_strict_repositories s = filter (\<lambda>n. n \<noteq> []) (map compact_name (unwrap_or (rm_strict_repositories manifest) []))"
    using s names by (auto simp: load_review_skill_def Let_def manifest_def split: if_splits)
  have "length (sk_references s) \<le> 4"
  proof -
    have "length (filter p (take 4 xs)) \<le> 4" for p and xs :: "str list"
      using length_filter_le [of p "take 4 xs"] by simp
    then show ?thesis unfolding refs List.map_filter_def by (simp add: MAX_REFERENCE_FILES_def)
  qed
  moreover have "list_all (\<lambda>(_, body). str_len body \<le> 16384) (sk_references s)"
    unfolding refs using bounded_file_len [of MAX_REFERENCE_BYTES]
    by (auto simp: list_all_iff List.map_filter_def skill_reference_def Let_def bind_eq_Some_conv MAX_REFERENCE_BYTES_def split: if_splits)
  moreover have "str_len (sk_rules s) \<le> 16384"
    using strip_front_matter_len [of "bounded_file MAX_SKILL_FILE_BYTES raw"] bounded_file_len [of MAX_SKILL_FILE_BYTES raw]
    unfolding rules(1) by (simp add: MAX_SKILL_FILE_BYTES_def)
  moreover have "sk_size_gate_lines s \<noteq> Some 0" unfolding gate by (auto simp: bind_eq_Some_conv split: if_splits)
  moreover have "list_all (\<lambda>n. n \<noteq> []) (sk_strict_repositories s)" unfolding strict by (simp add: list_all_iff)
  ultimately show ?thesis using i rules(2) unfolding skill_ok_def by blast
qed

lemma discover_from_ok:
  "length skills \<le> MAX_SKILLS \<Longrightarrow> distinct (map sk_id skills) \<Longrightarrow> list_all skill_ok skills \<Longrightarrow>
     length (discover_from upper skills cs) \<le> MAX_SKILLS \<and> distinct (map sk_id (discover_from upper skills cs))
     \<and> list_all skill_ok (discover_from upper skills cs)"
proof (induction upper skills cs rule: discover_from.induct)
  case (2 upper skills directory files rest)
  show ?case
  proof (cases "length skills \<ge> MAX_SKILLS")
    case False
    show ?thesis
    proof (cases "load_review_skill upper directory files")
      case (Some s)
      show ?thesis
      proof (cases "list_ex (\<lambda>known. sk_id known = sk_id s) skills")
        case True
        then show ?thesis using 2 False Some by simp
      next
        case new: False
        have "sk_id s \<notin> sk_id ` set skills" using new by (auto simp: list_ex_iff)
        then show ?thesis using 2(3) [OF False Some new] 2(4-6) False Some new load_review_skill_ok [OF Some] by simp
      qed
    qed (use 2 False in simp)
  qed (use 2 in simp)
qed simp

text \<open>The skills that are found have distinct identifiers and stay within all limits; a request gets one of them.\<close>

lemma discovered_skills:
  "length (discover_review_skills upper skill_at children roots) \<le> 40"
  "distinct (map sk_id (discover_review_skills upper skill_at children roots))"
  "list_all skill_ok (discover_review_skills upper skill_at children roots)"
  using discover_from_ok [of "[]" upper "concat (map (root_candidates skill_at children) roots)"]
  by (simp_all add: discover_review_skills_def MAX_SKILLS_def)

lemma select_member: "select_review_skill skills requested = Inr (Some s) \<Longrightarrow> s \<in> set skills"
  by (auto simp: select_review_skill_def find_Some_iff split: option.splits if_splits)

end
