(* ===== verification/Review_Trace.thy ===== *)
theory Review_Trace
  imports Json_Value Collaboration_Plan
begin

text \<open>
  \<open>wts-app/src/review_trace.rs\<close>: the readable steps that are made of the output lines of a code
  review agent, and the store that keeps the steps of the newest run of each workspace. The JSON
  parser of \<open>serde_json\<close> and the lossy UTF-8 decoder are parameters; a poisoned lock, which makes
  every operation of the store do nothing, is not modelled.
\<close>

subsection \<open>Steps\<close>

definition MAX_STEPS :: nat where "MAX_STEPS = 400"
definition MAX_STEP_TEXT_CHARS :: nat where "MAX_STEP_TEXT_CHARS = 600"
definition MAX_STEP_DETAIL_CHARS :: nat where "MAX_STEP_DETAIL_CHARS = 2000"

datatype CodeReviewTraceKind = KindStatus | KindThinking | KindMessage | KindCommand | KindTool | KindSearch | KindError

record CodeReviewTraceStep =
  rs_sequence :: "32 word"
  rs_kind :: CodeReviewTraceKind
  rs_text :: str
  rs_detail :: "str option"
  rs_item_id :: "str option"
  rs_running :: bool
  rs_at :: int

datatype CodeReviewRunState = RunRunning | RunFinished | RunFailed

record CodeReviewTrace =
  rt_workspace_id :: uuid
  rt_run_id :: uuid
  rt_provider :: AgentProvider
  rt_model :: "str option"
  rt_state :: CodeReviewRunState
  rt_started_at :: int
  rt_steps :: "CodeReviewTraceStep list"
  rt_dropped :: "32 word"

record ParsedStep =
  ps_kind :: CodeReviewTraceKind
  ps_text :: str
  ps_detail :: "str option"
  ps_item_id :: "str option"
  ps_running :: bool

definition clip :: "str \<Rightarrow> nat \<Rightarrow> str" where
  "clip raw maximum =
     (let cleaned = filter (\<lambda>c. \<not> is_control c \<or> c = 10 \<or> c = 9) raw;
          trimmed = trim cleaned in
      if length trimmed \<le> maximum then trimmed else take maximum trimmed @ [8230])"

definition parsed_step :: "CodeReviewTraceKind \<Rightarrow> str \<Rightarrow> ParsedStep" where
  "parsed_step kind raw =
     \<lparr>ps_kind = kind, ps_text = clip raw MAX_STEP_TEXT_CHARS, ps_detail = None, ps_item_id = None, ps_running = False\<rparr>"

definition unquoted :: "str \<Rightarrow> str option" where
  "unquoted rest =
     or_else (Option.bind (strip_prefix [39] rest) (strip_suffix [39]))
       (Option.bind (strip_prefix [34] rest) (strip_suffix [34]))"

fun strip_wrappers :: "str list \<Rightarrow> str \<Rightarrow> str" where
  "strip_wrappers [] trimmed = trimmed"
| "strip_wrappers (prefix # prefixes) trimmed =
     (case strip_prefix prefix trimmed of
        None \<Rightarrow> strip_wrappers prefixes trimmed
      | Some rest \<Rightarrow> let rest = trim rest in (case unquoted rest of None \<Rightarrow> rest | Some u \<Rightarrow> u))"

definition readable_command :: "str \<Rightarrow> str" where
  "readable_command command =
     strip_wrappers [lit ''/bin/bash -lc '', lit ''/bin/zsh -lc '', lit ''bash -lc '', lit ''zsh -lc '', lit ''/bin/sh -c '',
       lit ''sh -c ''] (trim command)"

definition is_review_payload :: "str \<Rightarrow> bool" where
  "is_review_payload raw \<longleftrightarrow>
     (let trimmed = trim raw in
      (starts_with (lit ''{'') trimmed \<or> starts_with (lit ''```'') trimmed)
      \<and> contains_str ([34] @ lit ''findings'' @ [34]) trimmed)"

text \<open>\<open>lines().count()\<close>.\<close>

definition line_count :: "str \<Rightarrow> nat" where
  "line_count s = length (str_lines s)"

subsection \<open>The lines of Codex\<close>

definition dot :: str where "dot = [32, 183, 32]"

definition turn_completed :: "json \<Rightarrow> ParsedStep" where
  "turn_completed event =
     (let finished = parsed_step KindStatus (lit ''Codex finished the review.'');
          usage = json_at event (lit ''usage'') in
      case (as_u64 (json_at usage (lit ''input_tokens'')), as_u64 (json_at usage (lit ''output_tokens''))) of
        (Some input_tokens, Some output_tokens) \<Rightarrow>
          finished\<lparr>ps_detail := Some (show_nat input_tokens @ lit '' input tokens'' @ dot @ show_nat output_tokens @ lit '' output tokens'')\<rparr>
      | _ \<Rightarrow> finished)"

definition command_step :: "json \<Rightarrow> bool \<Rightarrow> ParsedStep" where
  "command_step item completed =
     (let parsed = (parsed_step KindCommand (readable_command (str_or (json_at item (lit ''command'')) [])))
            \<lparr>ps_running := \<not> completed\<rparr> in
      if \<not> completed then parsed else
      let lines = show_nat (line_count (str_or (json_at item (lit ''aggregated_output'')) [])) @ lit '' lines of output'' in
      parsed\<lparr>ps_detail := Some (case as_i64 (json_at item (lit ''exit_code'')) of
          None \<Rightarrow> lines
        | Some code \<Rightarrow> if code = 0 then lines else lit ''Exit code '' @ show_int code @ dot @ lines)\<rparr>)"

definition todo_entry :: "json \<Rightarrow> str option" where
  "todo_entry entry =
     map_option (\<lambda>t. (if as_bool (json_at entry (lit ''completed'')) = Some True then [10003] else [9675]) @ [32] @ t)
       (as_str (json_at entry (lit ''text'')))"

definition todo_items :: "json \<Rightarrow> str" where
  "todo_items item =
     (case as_array (json_at item (lit ''items'')) of
        None \<Rightarrow> []
      | Some entries \<Rightarrow> join_with [10] (List.map_filter todo_entry entries))"

definition codex_item :: "json \<Rightarrow> bool \<Rightarrow> ParsedStep option" where
  "codex_item item completed =
     (let item_type = str_or (json_at item (lit ''type'')) [] in
      if item_type = lit ''agent_message'' \<and> completed then
        (let t = str_or (json_at item (lit ''text'')) [] in
         if trim t = [] then None
         else Some (if is_review_payload t then parsed_step KindStatus (lit ''Codex wrote the findings.'')
           else parsed_step KindMessage t))
      else if item_type = lit ''reasoning'' \<and> completed then
        (let t = (case or_else (as_str (json_at item (lit ''text''))) (as_str (json_at item (lit ''summary''))) of
              None \<Rightarrow> [] | Some t \<Rightarrow> t) in
         Some (if trim t = [] then parsed_step KindThinking (lit ''Codex thinks about the change.'')
           else parsed_step KindThinking (trim_matches (\<lambda>c. c = chr CHR ''*'') t)))
      else if item_type = lit ''command_execution'' then Some (command_step item completed)
      else if item_type = lit ''web_search'' then
        Some ((parsed_step KindSearch (lit ''Search: '' @ str_or (json_at item (lit ''query'')) (lit ''the web'')))
          \<lparr>ps_running := \<not> completed\<rparr>)
      else if item_type = lit ''mcp_tool_call'' \<or> item_type = lit ''tool_call'' then
        (let server = str_or (json_at item (lit ''server'')) [];
             tool = (case or_else (as_str (json_at item (lit ''tool''))) (as_str (json_at item (lit ''name''))) of
               None \<Rightarrow> lit ''a tool'' | Some t \<Rightarrow> t) in
         Some ((parsed_step KindTool (if server = [] then tool else server @ dot @ tool))\<lparr>ps_running := \<not> completed\<rparr>))
      else if item_type = lit ''todo_list'' then
        (let items = todo_items item in
         if items = [] then None
         else Some ((parsed_step KindStatus (lit ''Plan''))\<lparr>ps_detail := Some (clip items MAX_STEP_DETAIL_CHARS)\<rparr>))
      else if item_type = lit ''error'' then
        Some (parsed_step KindError (str_or (json_at item (lit ''message'')) (lit ''Codex reported an error.'')))
      else None)"

definition parse_codex :: "json \<Rightarrow> ParsedStep list" where
  "parse_codex event =
     (let event_type = str_or (json_at event (lit ''type'')) [] in
      if event_type = lit ''thread.started'' then [parsed_step KindStatus (lit ''Codex started.'')]
      else if event_type = lit ''turn.started'' then [parsed_step KindStatus (lit ''Codex reads the review request.'')]
      else if event_type = lit ''turn.completed'' then [turn_completed event]
      else if event_type = lit ''turn.failed'' \<or> event_type = lit ''error'' then
        [parsed_step KindError (case or_else (as_str (json_at (json_at event (lit ''error'')) (lit ''message'')))
            (as_str (json_at event (lit ''message''))) of
          None \<Rightarrow> lit ''Codex reported an error.'' | Some m \<Rightarrow> m)]
      else if event_type = lit ''item.started'' \<or> event_type = lit ''item.updated'' \<or> event_type = lit ''item.completed'' then
        (let item = json_at event (lit ''item'') in
         case codex_item item (event_type = lit ''item.completed'') of
           None \<Rightarrow> []
         | Some parsed \<Rightarrow> [parsed\<lparr>ps_item_id := as_str (json_at item (lit ''id''))\<rparr>])
      else [])"

subsection \<open>The lines of OpenCode and of the other agents\<close>

definition parse_open_code :: "json \<Rightarrow> ParsedStep list" where
  "parse_open_code event =
     (let part = json_at event (lit ''part'');
          event_type = str_or (json_at event (lit ''type'')) [] in
      if event_type = lit ''step_start'' then [parsed_step KindStatus (lit ''OpenCode starts a step.'')]
      else if event_type = lit ''text'' then
        (let t = str_or (json_at part (lit ''text'')) [] in
         if trim t = [] \<or> is_review_payload t then [] else [parsed_step KindMessage t])
      else if event_type = lit ''reasoning'' then
        [parsed_step KindThinking (str_or (json_at part (lit ''text'')) (lit ''OpenCode thinks about the change.''))]
      else if event_type = lit ''tool_use'' then
        (let tool = str_or (json_at part (lit ''tool'')) (lit ''a tool'');
             state = json_at part (lit ''state'');
             title = str_or (json_at state (lit ''title'')) [] in
         [(parsed_step KindTool (if title = [] then tool else tool @ dot @ title))
           \<lparr>ps_running := (case as_str (json_at state (lit ''status'')) of
               None \<Rightarrow> False | Some status \<Rightarrow> status \<noteq> lit ''completed'' \<and> status \<noteq> lit ''error''),
            ps_item_id := or_else (as_str (json_at part (lit ''callID''))) (as_str (json_at part (lit ''id'')))\<rparr>])
      else if event_type = lit ''error'' then
        (let error = json_at event (lit ''error'') in
         [parsed_step KindError (case or_else (as_str (json_at (json_at error (lit ''data'')) (lit ''message'')))
             (as_str (json_at error (lit ''message''))) of
           None \<Rightarrow> lit ''OpenCode reported an error.'' | Some m \<Rightarrow> m)])
      else [])"

definition parse_review_line ::
    "(nat list \<Rightarrow> str) \<Rightarrow> (str \<Rightarrow> json option) \<Rightarrow> AgentProvider \<Rightarrow> nat list \<Rightarrow> ParsedStep list" where
  "parse_review_line from_utf8_lossy from_json provider line =
     (let trimmed = trim (from_utf8_lossy line) in
      if trimmed = [] then [] else
      case provider of
        AgentCodex \<Rightarrow> (case from_json trimmed of None \<Rightarrow> [] | Some event \<Rightarrow> parse_codex event)
      | AgentOpenCode \<Rightarrow> (case from_json trimmed of None \<Rightarrow> [] | Some event \<Rightarrow> parse_open_code event)
      | _ \<Rightarrow>
          if is_review_payload trimmed \<or> starts_with (lit ''{'') trimmed \<or> starts_with [34] trimmed then []
          else [parsed_step KindMessage trimmed])"

subsection \<open>The store\<close>

type_synonym CodeReviewTraceStore = "uuid \<rightharpoonup> CodeReviewTrace"

definition trace_begin ::
    "uuid \<Rightarrow> uuid \<Rightarrow> AgentProvider \<Rightarrow> str option \<Rightarrow> int \<Rightarrow> CodeReviewTraceStore \<Rightarrow> CodeReviewTraceStore" where
  "trace_begin run_id workspace_id provider model now traces =
     traces(workspace_id \<mapsto> \<lparr>rt_workspace_id = workspace_id, rt_run_id = run_id, rt_provider = provider, rt_model = model,
       rt_state = RunRunning, rt_started_at = now, rt_steps = [], rt_dropped = 0\<rparr>)"

text \<open>The last step of the same item and kind, from the end of the list.\<close>

definition same_item :: "ParsedStep \<Rightarrow> CodeReviewTraceStep \<Rightarrow> bool" where
  "same_item parsed existing \<longleftrightarrow> rs_item_id existing = ps_item_id parsed \<and> rs_kind existing = ps_kind parsed"

definition updated_step :: "ParsedStep \<Rightarrow> CodeReviewTraceStep \<Rightarrow> CodeReviewTraceStep" where
  "updated_step parsed existing =
     existing\<lparr>rs_text := ps_text parsed, rs_detail := or_else (ps_detail parsed) (rs_detail existing), rs_running := ps_running parsed\<rparr>"

text \<open>The steps in reverse with the first that matches updated.\<close>

fun update_first :: "ParsedStep \<Rightarrow> CodeReviewTraceStep list \<Rightarrow> CodeReviewTraceStep list" where
  "update_first parsed [] = []"
| "update_first parsed (s # ss) = (if same_item parsed s then updated_step parsed s # ss else s # update_first parsed ss)"

text \<open>The loop that removes old steps; the counter wraps at its width.\<close>

fun drop_old :: "CodeReviewTraceStep list \<Rightarrow> 32 word \<Rightarrow> CodeReviewTraceStep list \<times> 32 word" where
  "drop_old [] dropped = ([], dropped)"
| "drop_old (s # ss) dropped = (if length (s # ss) > MAX_STEPS then drop_old ss (dropped + 1) else (s # ss, dropped))"

definition push_step :: "int \<Rightarrow> ParsedStep \<Rightarrow> CodeReviewTrace \<Rightarrow> CodeReviewTrace" where
  "push_step now parsed t =
     (if ps_item_id parsed \<noteq> None \<and> (\<exists>s \<in> set (rt_steps t). same_item parsed s)
      then t\<lparr>rt_steps := rev (update_first parsed (rev (rt_steps t)))\<rparr>
      else
        let sequence = rt_dropped t + word_of_nat (length (rt_steps t)) + 1;
            (steps, dropped) = drop_old (rt_steps t @ [\<lparr>rs_sequence = sequence, rs_kind = ps_kind parsed, rs_text = ps_text parsed,
              rs_detail = ps_detail parsed, rs_item_id = ps_item_id parsed, rs_running = ps_running parsed, rs_at = now\<rparr>])
              (rt_dropped t) in
        t\<lparr>rt_steps := steps, rt_dropped := dropped\<rparr>)"

definition update_run ::
    "uuid \<Rightarrow> uuid \<Rightarrow> (CodeReviewTrace \<Rightarrow> CodeReviewTrace) \<Rightarrow> CodeReviewTraceStore \<Rightarrow> CodeReviewTraceStore" where
  "update_run workspace_id run_id f traces =
     (case traces workspace_id of
        None \<Rightarrow> traces
      | Some t \<Rightarrow> if rt_run_id t = run_id then traces(workspace_id \<mapsto> f t) else traces)"

definition trace_push :: "int \<Rightarrow> uuid \<Rightarrow> uuid \<Rightarrow> ParsedStep \<Rightarrow> CodeReviewTraceStore \<Rightarrow> CodeReviewTraceStore" where
  "trace_push now workspace_id run_id parsed = update_run workspace_id run_id (push_step now parsed)"

definition finish_run :: "bool \<Rightarrow> CodeReviewTrace \<Rightarrow> CodeReviewTrace" where
  "finish_run succeeded t =
     t\<lparr>rt_state := (if succeeded then RunFinished else RunFailed), rt_steps := map (\<lambda>s. s\<lparr>rs_running := False\<rparr>) (rt_steps t)\<rparr>"

definition trace_finish :: "uuid \<Rightarrow> uuid \<Rightarrow> bool \<Rightarrow> CodeReviewTraceStore \<Rightarrow> CodeReviewTraceStore" where
  "trace_finish workspace_id run_id succeeded = update_run workspace_id run_id (finish_run succeeded)"

definition trace_get :: "CodeReviewTraceStore \<Rightarrow> uuid \<Rightarrow> 32 word option \<Rightarrow> CodeReviewTrace option" where
  "trace_get traces workspace_id after =
     map_option (\<lambda>t. case after of
        None \<Rightarrow> t
      | Some n \<Rightarrow> t\<lparr>rt_steps := filter (\<lambda>s. rs_sequence s > n \<or> rs_running s) (rt_steps t)\<rparr>)
       (traces workspace_id)"

text \<open>
  What reaches the store: a run begins, a line of output of the agent is read and its steps are
  pushed in turn, a run finishes.
\<close>

datatype TraceOp =
    TraceBegin uuid uuid AgentProvider "str option" int
  | TraceLine int uuid uuid AgentProvider "nat list"
  | TraceFinish uuid uuid bool

fun trace_op :: "(nat list \<Rightarrow> str) \<Rightarrow> (str \<Rightarrow> json option) \<Rightarrow> TraceOp \<Rightarrow> CodeReviewTraceStore \<Rightarrow> CodeReviewTraceStore option" where
  "trace_op lossy from_json (TraceBegin run_id workspace_id provider model now) traces =
     Some (trace_begin run_id workspace_id provider model now traces)"
| "trace_op lossy from_json (TraceLine now workspace_id run_id provider line) traces =
     Some (fold (trace_push now workspace_id run_id) (parse_review_line lossy from_json provider line) traces)"
| "trace_op lossy from_json (TraceFinish workspace_id run_id succeeded) traces =
     Some (trace_finish workspace_id run_id succeeded traces)"

subsection \<open>Bounds on the texts\<close>

definition readable :: "nat \<Rightarrow> str \<Rightarrow> bool" where
  "readable n s \<longleftrightarrow> length s \<le> n + 1 \<and> (\<forall>c \<in> set s. \<not> is_control c \<or> c = 10 \<or> c = 9)"

lemma set_clipped: "set (if length s \<le> n then s else take n s @ [x]) \<subseteq> insert x (set s)"
  by (auto dest: in_set_takeD)

lemma clip_readable: "readable n (clip raw n)"
proof -
  let ?t = "trim (filter (\<lambda>c. \<not> is_control c \<or> c = 10 \<or> c = 9) raw)"
  have "\<forall>c \<in> set ?t. \<not> is_control c \<or> c = 10 \<or> c = 9" using set_trim by fastforce
  moreover have "set (clip raw n) \<subseteq> insert 8230 (set ?t)"
    unfolding clip_def Let_def by (rule set_clipped)
  moreover have "\<not> is_control 8230" by (simp add: is_control_def)
  moreover have "length (clip raw n) \<le> n + 1" by (simp add: clip_def Let_def)
  ultimately show ?thesis unfolding readable_def by blast
qed

text \<open>The one detail that is not clipped counts the lines of the output of a command.\<close>

definition output_lines :: "str \<Rightarrow> bool" where
  "output_lines d \<longleftrightarrow> (\<exists>exit k. d = exit @ show_nat k @ lit '' lines of output''
     \<and> (exit = [] \<or> (\<exists>code. exit = lit ''Exit code '' @ show_int code @ dot)))"

definition no_controls :: "str \<Rightarrow> bool" where
  "no_controls s \<longleftrightarrow> (\<forall>c \<in> set s. \<not> is_control c \<or> c = 10 \<or> c = 9)"

definition detail_readable :: "CodeReviewTraceKind \<Rightarrow> str option \<Rightarrow> bool" where
  "detail_readable kind detail \<longleftrightarrow>
     (\<forall>d. detail = Some d \<longrightarrow> readable MAX_STEP_DETAIL_CHARS d \<or> kind = KindCommand \<and> output_lines d \<and> no_controls d)"

definition step_readable :: "ParsedStep \<Rightarrow> bool" where
  "step_readable p \<longleftrightarrow> readable MAX_STEP_TEXT_CHARS (ps_text p) \<and> detail_readable (ps_kind p) (ps_detail p)"

lemma no_controls_append [simp]: "no_controls (s @ t) \<longleftrightarrow> no_controls s \<and> no_controls t"
  by (auto simp: no_controls_def)

lemma no_controls_show_nat [simp]: "no_controls (show_nat n)"
  using show_nat_is_digits [of n] by (auto simp: no_controls_def list_all_iff is_ascii_digit_def is_control_def)

lemma no_controls_show_int [simp]: "no_controls (show_int i)"
  by (simp add: show_int_def) (simp add: no_controls_def is_control_def lit_def)

lemma readable_no_controls: "readable n s \<longleftrightarrow> length s \<le> n + 1 \<and> no_controls s"
  by (simp add: readable_def no_controls_def)

lemma parsed_step_readable:
  "step_readable (parsed_step kind raw)"
  "step_readable (p\<lparr>ps_running := r\<rparr>) = step_readable p"
  "step_readable (p\<lparr>ps_item_id := i\<rparr>) = step_readable p"
  "step_readable (p\<lparr>ps_detail := Some d\<rparr>) \<longleftrightarrow> readable MAX_STEP_TEXT_CHARS (ps_text p) \<and> detail_readable (ps_kind p) (Some d)"
  by (simp_all add: step_readable_def parsed_step_def clip_readable detail_readable_def)

lemma no_controls_lits [simp]: "no_controls (lit '' lines of output'')" "no_controls (lit ''Exit code '')" "no_controls dot"
    "no_controls (lit '' input tokens'')" "no_controls (lit '' output tokens'')"
  by (simp_all add: no_controls_def lit_def dot_def is_control_def)

lemma command_step_readable: "step_readable (command_step item completed)"
proof -
  have out: "output_lines (lit ''Exit code '' @ show_int code @ dot @ show_nat k @ lit '' lines of output'')"
    "output_lines (show_nat k @ lit '' lines of output'')" for code k
    unfolding output_lines_def by (intro exI [of _ "lit ''Exit code '' @ show_int code @ dot"] exI [of _ k]; simp; blast)
      (intro exI [of _ "[]"] exI [of _ k]; simp)
  have kind: "ps_kind (parsed_step KindCommand raw) = KindCommand" "readable MAX_STEP_TEXT_CHARS (ps_text (parsed_step KindCommand raw))" for raw
    by (simp_all add: parsed_step_def clip_readable)
  show ?thesis
    by (simp add: command_step_def Let_def parsed_step_readable kind detail_readable_def out split: option.split)
qed

lemma turn_completed_readable: "step_readable (turn_completed event)"
proof -
  have short: "length (show_nat n) \<le> 20" if "as_u64 v = Some n" for v n
    using that by (cases v) (auto simp: u64_try_from_def u64_max_def split: if_splits intro!: length_show_nat_le)
  have "readable MAX_STEP_DETAIL_CHARS (show_nat i @ lit '' input tokens'' @ dot @ show_nat j @ lit '' output tokens'')"
    if "as_u64 u = Some i" "as_u64 v = Some j" for u v i j
    unfolding readable_no_controls MAX_STEP_DETAIL_CHARS_def
    using short [OF that(1)] short [OF that(2)] by (intro conjI) (simp add: lit_def dot_def, simp)
  moreover have "readable MAX_STEP_TEXT_CHARS (ps_text (parsed_step kind raw))" for kind raw
    by (simp add: parsed_step_def clip_readable)
  ultimately show ?thesis
    by (auto simp: turn_completed_def Let_def parsed_step_readable detail_readable_def split: option.split)
qed

lemma codex_item_readable: "codex_item item completed = Some p \<Longrightarrow> step_readable p"
  using clip_readable [of MAX_STEP_DETAIL_CHARS] clip_readable [of MAX_STEP_TEXT_CHARS]
  by (auto simp: codex_item_def Let_def parsed_step_readable command_step_readable detail_readable_def split: if_splits)
     (auto simp: parsed_step_def)

lemma list_all_if: "list_all P (if c then xs else ys) \<longleftrightarrow> (c \<longrightarrow> list_all P xs) \<and> (\<not> c \<longrightarrow> list_all P ys)"
  by simp

lemma item_steps_readable:
  "list_all step_readable (case codex_item item completed of None \<Rightarrow> [] | Some p \<Rightarrow> [p\<lparr>ps_item_id := i\<rparr>])"
  using codex_item_readable [of item completed] by (auto simp: parsed_step_readable split: option.split)

lemma parse_codex_readable: "list_all step_readable (parse_codex event)"
  unfolding parse_codex_def Let_def list_all_if
  by (intro conjI impI item_steps_readable) (simp_all only: list.pred_inject parsed_step_readable turn_completed_readable simp_thms)

lemma parse_open_code_readable: "list_all step_readable (parse_open_code event)"
  by (simp add: parse_open_code_def Let_def parsed_step_readable)

lemma parse_review_line_readable: "list_all step_readable (parse_review_line lossy from_json provider line)"
  by (auto simp: parse_review_line_def Let_def parse_codex_readable parse_open_code_readable parsed_step_readable
      split: AgentProvider.split option.split)

subsection \<open>The steps of a trace\<close>

definition numbers :: "32 word \<Rightarrow> nat \<Rightarrow> 32 word list" where
  "numbers dropped n = map (\<lambda>i. dropped + word_of_nat i + 1) [0..<n]"

definition step_ok :: "CodeReviewTraceStep \<Rightarrow> bool" where
  "step_ok s \<longleftrightarrow> readable MAX_STEP_TEXT_CHARS (rs_text s) \<and> detail_readable (rs_kind s) (rs_detail s)"

definition trace_ok :: "CodeReviewTrace \<Rightarrow> bool" where
  "trace_ok t \<longleftrightarrow>
     length (rt_steps t) \<le> MAX_STEPS \<and> map rs_sequence (rt_steps t) = numbers (rt_dropped t) (length (rt_steps t))
     \<and> list_all step_ok (rt_steps t)"

lemma updated_step_ok: "step_readable p \<Longrightarrow> same_item p s \<Longrightarrow> step_ok s \<Longrightarrow> step_ok (updated_step p s)"
  by (cases "ps_detail p") (simp_all add: step_ok_def step_readable_def same_item_def updated_step_def or_else_def)

lemma numbers_Suc: "numbers d (Suc n) = (d + 1) # numbers (d + 1) n"
  by (simp add: numbers_def upt_rec [of 0] map_Suc_upt [symmetric] comp_def add.commute add.left_commute del: upt_Suc)

lemma drop_old_ok:
  "map rs_sequence ss = numbers d (length ss) \<Longrightarrow> drop_old ss d = (ss', d') \<Longrightarrow>
     length ss' \<le> MAX_STEPS \<and> map rs_sequence ss' = numbers d' (length ss') \<and> set ss' \<subseteq> set ss"
proof (induction ss d rule: drop_old.induct)
  case (2 s ss d)
  then show ?case by (auto simp: numbers_Suc split: if_splits)
qed simp

lemma update_first_shape:
  "map rs_sequence (update_first p ss) = map rs_sequence ss"
  "set (update_first p ss) \<subseteq> set ss \<union> updated_step p ` {s \<in> set ss. same_item p s}"
  by (induction ss) (auto simp: updated_step_def)

lemma push_step_ok:
  assumes "trace_ok t" and "step_readable p"
  shows "trace_ok (push_step now p t)"
proof (cases "ps_item_id p \<noteq> None \<and> (\<exists>s \<in> set (rt_steps t). same_item p s)")
  case True
  let ?ss = "rev (update_first p (rev (rt_steps t)))"
  have "map rs_sequence ?ss = map rs_sequence (rt_steps t)" by (simp add: update_first_shape rev_map [symmetric])
  moreover from arg_cong [OF this, of length] have "length ?ss = length (rt_steps t)" by simp
  moreover have "list_all step_ok ?ss"
    using update_first_shape(2) [of p "rev (rt_steps t)"] assms
    by (auto simp: list_all_iff trace_ok_def intro!: updated_step_ok dest!: subsetD)
  ultimately show ?thesis using True assms(1) by (simp add: push_step_def trace_ok_def)
next
  case False
  define new where "new = \<lparr>rs_sequence = rt_dropped t + word_of_nat (length (rt_steps t)) + 1, rs_kind = ps_kind p,
    rs_text = ps_text p, rs_detail = ps_detail p, rs_item_id = ps_item_id p, rs_running = ps_running p, rs_at = now\<rparr>"
  obtain ss d where old: "drop_old (rt_steps t @ [new]) (rt_dropped t) = (ss, d)" by force
  have "map rs_sequence (rt_steps t @ [new]) = numbers (rt_dropped t) (length (rt_steps t @ [new]))"
    using assms(1) by (simp add: trace_ok_def numbers_def new_def)
  note dropped = drop_old_ok [OF this old]
  have "push_step now p t = t\<lparr>rt_steps := ss, rt_dropped := d\<rparr>"
    unfolding push_step_def if_not_P [OF False] Let_def new_def [symmetric] old prod.case ..
  moreover have "list_all step_ok (rt_steps t @ [new])"
    using assms by (simp add: trace_ok_def new_def step_readable_def step_ok_def)
  ultimately show ?thesis using dropped by (auto simp: trace_ok_def list_all_iff)
qed

definition traces_ok :: "CodeReviewTraceStore \<Rightarrow> bool" where
  "traces_ok traces \<longleftrightarrow> (\<forall>w t. traces w = Some t \<longrightarrow> trace_ok t \<and> rt_workspace_id t = w)"

lemma update_run_ok:
  "traces_ok traces \<Longrightarrow> (\<And>t. trace_ok t \<Longrightarrow> trace_ok (f t) \<and> rt_workspace_id (f t) = rt_workspace_id t)
    \<Longrightarrow> traces_ok (update_run w r f traces)"
  by (auto simp: traces_ok_def update_run_def split: option.split)

lemma push_step_workspace: "rt_workspace_id (push_step now p t) = rt_workspace_id t"
  by (auto simp: push_step_def Let_def split: prod.split)

lemma push_all_ok:
  "list_all step_readable ps \<Longrightarrow> traces_ok traces \<Longrightarrow> traces_ok (fold (trace_push now w r) ps traces)"
  by (induction ps arbitrary: traces) (simp_all add: trace_push_def update_run_ok push_step_ok push_step_workspace)

lemma finish_run_ok: "trace_ok t \<Longrightarrow> trace_ok (finish_run b t)"
  by (auto simp: trace_ok_def finish_run_def list_all_iff comp_def step_ok_def)

lemma trace_op_ok: "traces_ok traces \<Longrightarrow> trace_op lossy from_json e traces = Some traces' \<Longrightarrow> traces_ok traces'"
proof (cases e)
  case (TraceBegin r w p m now)
  then show "traces_ok traces \<Longrightarrow> trace_op lossy from_json e traces = Some traces' \<Longrightarrow> traces_ok traces'"
    by (auto simp: traces_ok_def trace_begin_def trace_ok_def numbers_def split: if_splits)
next
  case (TraceLine now w r p line)
  then show "traces_ok traces \<Longrightarrow> trace_op lossy from_json e traces = Some traces' \<Longrightarrow> traces_ok traces'"
    using push_all_ok [OF parse_review_line_readable] by auto
next
  case (TraceFinish w r b)
  then show "traces_ok traces \<Longrightarrow> trace_op lossy from_json e traces = Some traces' \<Longrightarrow> traces_ok traces'"
    by (auto simp: trace_finish_def intro!: update_run_ok finish_run_ok) (simp add: finish_run_def)
qed

interpretation trace_invariant: step_invariant "trace_op lossy from_json" traces_ok for lossy from_json
  by unfold_locales (rule trace_op_ok)

text \<open>
  C36: whatever runs begin and finish and whatever the agents write, every trace in the store keeps at
  most 400 steps, numbered without a gap after the number of the steps dropped. The text and the
  detail of a step have no control character other than line feeds and tabs, the text has at most 601
  characters, and the detail has at most 2001 unless it tells the exit code of a command and the
  number of lines of its output.
\<close>

theorem traces_bounded:
  assumes "run_steps (trace_op lossy from_json) ops Map.empty = Some traces" and "traces workspace_id = Some t"
  shows "rt_workspace_id t = workspace_id \<and> length (rt_steps t) \<le> 400
    \<and> map rs_sequence (rt_steps t) = map (\<lambda>i. rt_dropped t + word_of_nat i + 1) [0..<length (rt_steps t)]
    \<and> (\<forall>s. s \<in> set (rt_steps t) \<longrightarrow>
        length (rs_text s) \<le> 601 \<and> set (rs_text s) \<inter> {c. is_control c \<and> c \<noteq> 10 \<and> c \<noteq> 9} = {}
        \<and> (\<forall>d. rs_detail s = Some d \<longrightarrow>
            set d \<inter> {c. is_control c \<and> c \<noteq> 10 \<and> c \<noteq> 9} = {}
            \<and> (length d \<le> 2001
              \<or> rs_kind s = KindCommand
                \<and> (\<exists>exit k. d = exit @ show_nat k @ lit '' lines of output''
                    \<and> (exit = [] \<or> (\<exists>code. exit = lit ''Exit code '' @ show_int code @ dot))))))"
proof -
  have "traces_ok traces"
    by (rule trace_invariant.run [OF _ assms(1)]) (simp add: traces_ok_def)
  then have "trace_ok t" "rt_workspace_id t = workspace_id" using assms(2) by (simp_all add: traces_ok_def)
  moreover have "step_ok s" if "s \<in> set (rt_steps t)" for s
    using that calculation by (simp add: trace_ok_def list_all_iff)
  moreover have "set d \<inter> {c. is_control c \<and> c \<noteq> 10 \<and> c \<noteq> 9} = {} \<longleftrightarrow> no_controls d" for d
    by (auto simp: no_controls_def)
  ultimately show ?thesis
    by (fastforce simp: trace_ok_def numbers_def step_ok_def detail_readable_def output_lines_def readable_no_controls MAX_STEPS_def
        MAX_STEP_TEXT_CHARS_def MAX_STEP_DETAIL_CHARS_def)
qed

subsection \<open>Examples\<close>

definition sample_ops :: "TraceOp list" where
  "sample_ops = [TraceBegin 1 2 AgentHermes None 0, TraceLine 5 2 1 AgentHermes [104, 105]]"

definition sample_traces :: CodeReviewTraceStore where
  "sample_traces = the (run_steps (trace_op (\<lambda>bytes. bytes) (\<lambda>_. None)) sample_ops Map.empty)"

lemma sample_traces: "run_steps (trace_op (\<lambda>bytes. bytes) (\<lambda>_. None)) sample_ops Map.empty = Some sample_traces"
  by (simp add: sample_traces_def sample_ops_def)

theorem traces_bounded_witness:
  "map_option (map rs_sequence \<circ> rt_steps) (sample_traces 2) = Some [1]
   \<and> map rs_sequence (rt_steps (the (sample_traces 2)))
       = map (\<lambda>i. rt_dropped (the (sample_traces 2)) + word_of_nat i + 1) [0..<length (rt_steps (the (sample_traces 2)))]"
proof -
  have one: "map_option (map rs_sequence \<circ> rt_steps) (sample_traces 2) = Some [1]" by code_simp
  then have "sample_traces 2 = Some (the (sample_traces 2))" by auto
  from traces_bounded [OF sample_traces this] one show ?thesis by blast
qed

text \<open>
  A client that asks for the steps after the last settled one it has seen never learns that an
  earlier step has ended: the update leaves its number as it was, and it runs no more.
\<close>

definition sample_command :: "bool \<Rightarrow> ParsedStep" where
  "sample_command running = (parsed_step KindCommand (lit ''ls''))\<lparr>ps_item_id := Some (lit ''i1''), ps_running := running\<rparr>"

definition interleaved :: "ParsedStep list" where
  "interleaved = [sample_command True, parsed_step KindMessage (lit ''hi'')]"

lemma poll_misses_completion:
  "(let seen = fold (trace_push 0 2 1) interleaved (trace_begin 1 2 AgentCodex None 0 Map.empty);
        ended = trace_push 0 2 1 (sample_command False) seen in
    map_option (map (\<lambda>s. (rs_sequence s, rs_running s)) \<circ> rt_steps) (trace_get seen 2 None) = Some [(1, True), (2, False)]
    \<and> map_option (map (\<lambda>s. (rs_sequence s, rs_running s)) \<circ> rt_steps) (trace_get ended 2 None) = Some [(1, False), (2, False)]
    \<and> map_option rt_steps (trace_get ended 2 (Some 2)) = Some [])"
  by code_simp

end
