(* ===== verification/Workspace_Review.thy ===== *)
theory Workspace_Review
  imports Review_Skill Review_Trace Store_Model
begin

text \<open>
  \<open>wts-app/src/workspace_code_review.rs\<close>: one run of a code review in a workspace, from the patches of the
  selected repositories over the prompt and the live trace to the review that is saved. Git, the
  registry, the agent process and the file system are a record of parameters.
\<close>

subsection \<open>Types\<close>

definition MAX_CODE_REVIEW_FILE_BYTES :: nat where "MAX_CODE_REVIEW_FILE_BYTES = 256 * 1024"
definition PROMPT_OVERHEAD_BYTES :: nat where "PROMPT_OVERHEAD_BYTES = 6 * 1024"
definition MAX_AGENT_PROMPT_BYTES :: nat where "MAX_AGENT_PROMPT_BYTES = 64 * 1024"
definition MAX_MODEL_NAME_CHARS :: nat where "MAX_MODEL_NAME_CHARS = 200"

text \<open>The errors this component makes or tells apart, and the others that its calls may return.\<close>

datatype LocalWtsError =
    InvalidAgentPrompt | RepositoryNotFound | WorkspaceNotFound | NotMaterialized | EvidenceUnavailable
  | InvalidWorkspaceEvidence | AdapterUnavailable | AdapterRejected | AdapterTimedOut | AdapterOutputTooLarge
  | GraphIndexFailed | OtherLocalError nat

datatype AdapterFailure = Unavailable | SpawnFailed | TimedOut | OutputTooLarge | GraphFailed | Cancelled

record ReviewWorktree =
  wk_repository_id :: str
  wk_target_display_path :: str

record WorkspaceMaterialization =
  wm_workspace_display_path :: str
  wm_worktrees :: "ReviewWorktree list"

record RepositoryDiff =
  rd_repository_label :: str
  rd_base_commit_oid :: str
  rd_head_commit_oid :: str
  rd_patch :: str
  rd_patch_sha256 :: str
  rd_patch_truncated :: bool

record PublishedComparison =
  pp_repository_label :: str
  pp_base_commit_oid :: str
  pp_start_commit_oid :: str
  pp_head_commit_oid :: str
  pp_patch :: str
  pp_patch_truncated :: bool

record AgentRunResult =
  ar_succeeded :: bool
  ar_output :: str

record ReviewEnv =
  re_materialization :: "uuid \<Rightarrow> LocalWtsError + WorkspaceMaterialization"
  re_skills :: "ReviewSkill list"
  re_diff :: "uuid \<Rightarrow> str \<Rightarrow> LocalWtsError + RepositoryDiff"
  re_comparison :: "uuid \<Rightarrow> str \<Rightarrow> nat \<Rightarrow> LocalWtsError + PublishedComparison"
  re_sha256 :: "str \<Rightarrow> str"
  re_view :: "uuid \<Rightarrow> LocalWtsError + WorkspaceView option"
  re_lease :: "uuid \<Rightarrow> LocalWtsError + unit"
  re_run_id :: uuid
  re_now :: int
  re_agent :: "AgentProvider \<Rightarrow> str \<Rightarrow> str \<Rightarrow> str option \<Rightarrow> (int \<times> ParsedStep) list \<times> (AdapterFailure + AgentRunResult)"
  re_from_json :: "str \<Rightarrow> json option"
  re_precedent :: "ReviewSkill option \<Rightarrow> ParsedFinding \<Rightarrow> CodeReviewPrecedent option"
  re_evidence_directory :: "str \<Rightarrow> bool option"
  re_json_bytes :: "WorkspaceCodeReviewResult \<Rightarrow> nat option"
  re_write :: "str \<Rightarrow> LocalWtsError + unit"

text \<open>The traces, and the review in the file of the workspace.\<close>

record ReviewState =
  rs_traces :: CodeReviewTraceStore
  rs_saved :: "WorkspaceCodeReviewResult option"

subsection \<open>Small functions\<close>

definition valid_model_name :: "str \<Rightarrow> bool" where
  "valid_model_name model \<longleftrightarrow> model \<noteq> [] \<and> length model \<le> MAX_MODEL_NAME_CHARS
     \<and> list_all (\<lambda>c. is_ascii_alphanumeric c \<or> c \<in> set (lit ''-_./:@+'')) model \<and> \<not> starts_with (lit ''-'') model"

fun adapter_failure_text :: "AdapterFailure \<Rightarrow> str" where
  "adapter_failure_text Unavailable = lit ''Could not find the agent CLI.''"
| "adapter_failure_text SpawnFailed = lit ''The agent did not start.''"
| "adapter_failure_text TimedOut = lit ''The agent did not finish in 15 minutes. It was stopped.''"
| "adapter_failure_text OutputTooLarge = lit ''The agent output was too large for WTS.''"
| "adapter_failure_text GraphFailed = lit ''The agent stopped with an error.''"
| "adapter_failure_text Cancelled = lit ''The review was stopped.''"

fun map_adapter_failure :: "AdapterFailure \<Rightarrow> LocalWtsError" where
  "map_adapter_failure Unavailable = AdapterUnavailable"
| "map_adapter_failure SpawnFailed = AdapterRejected"
| "map_adapter_failure TimedOut = AdapterTimedOut"
| "map_adapter_failure OutputTooLarge = AdapterOutputTooLarge"
| "map_adapter_failure GraphFailed = GraphIndexFailed"
| "map_adapter_failure Cancelled = AdapterRejected"

definition review_intent :: "WorkspaceView \<Rightarrow> str" where
  "review_intent view =
     lit ''Workspace title: '' @ wr_title view @ [10]
     @ (case wr_intent view of
          Jira key \<Rightarrow> lit ''Jira: '' @ key
        | OpenProject _ shown_id \<Rightarrow> lit ''OpenProject: '' @ shown_id
        | RepositorySet set_name \<Rightarrow> lit ''Jira: not read (repository set '' @ set_name @ lit '')'')"

definition bounded_text :: "str \<Rightarrow> nat \<Rightarrow> str" where
  "bounded_text s maximum = slice_to s (min maximum (str_len s))"

definition validate_agent_prompt :: "str \<Rightarrow> LocalWtsError + str" where
  "validate_agent_prompt raw =
     (let prompt = trim raw in
      if prompt = [] \<or> str_len prompt > MAX_AGENT_PROMPT_BYTES \<or> 0 \<in> set prompt then Inl InvalidAgentPrompt else Inr prompt)"

subsection \<open>Anchors\<close>

definition anchor_sides :: "ReviewCodeSide option \<Rightarrow> ReviewCodeSide list" where
  "anchor_sides wanted = (if wanted = Some Deletions then [Deletions, Additions] else [Additions, Deletions])"

definition anchor_candidates :: "ParsedFinding \<Rightarrow> (CodeReviewRepository \<times> str) list \<Rightarrow> (CodeReviewRepository \<times> str) list" where
  "anchor_candidates finding reviewed =
     (let named = map_option to_ascii_lowercase (pg_repository finding);
          candidates = filter (\<lambda>(r, _). case named of
              None \<Rightarrow> True
            | Some name \<Rightarrow> to_ascii_lowercase (rr_repository_label r) = to_ascii_lowercase name
                \<or> to_ascii_lowercase (rr_repository_id r) = to_ascii_lowercase name) reviewed in
      if candidates = [] then reviewed else candidates)"

definition anchor_paths :: "ParsedFinding \<Rightarrow> (CodeReviewRepository \<times> str) list \<Rightarrow> str list" where
  "anchor_paths finding candidates =
     pg_file_path finding # List.map_filter (\<lambda>(r, _). strip_prefix (rr_repository_label r @ lit ''/'') (pg_file_path finding)) candidates"

text \<open>The nested loops over candidates and paths; the first file that is named owns the finding.\<close>

fun anchor_from ::
    "nat option \<Rightarrow> ReviewCodeSide list \<Rightarrow> str option \<Rightarrow> (CodeReviewRepository \<times> str \<times> str) list \<Rightarrow> str option \<times> (nat \<times> ReviewCodeSide) option" where
  "anchor_from line sides file_owner [] = (file_owner, None)"
| "anchor_from line sides file_owner ((r, patch, path) # rest) =
     (if \<not> patch_names_file patch path then anchor_from line sides file_owner rest else
      case Option.bind line (\<lambda>n. map_option (Pair n) (List.find (\<lambda>side. patch_contains_changed_line patch path side n) sides)) of
        Some anchor \<Rightarrow> (Some (rr_repository_id r), Some anchor)
      | None \<Rightarrow> anchor_from line sides (or_else file_owner (Some (rr_repository_id r))) rest)"

definition anchor_finding :: "ParsedFinding \<Rightarrow> (CodeReviewRepository \<times> str) list \<Rightarrow> str option \<times> (nat \<times> ReviewCodeSide) option" where
  "anchor_finding finding reviewed =
     (let candidates = anchor_candidates finding reviewed;
          paths = anchor_paths finding candidates;
          (owner, anchor) = anchor_from (pg_line finding) (anchor_sides (pg_side finding)) None
            (concat (map (\<lambda>(r, patch). map (\<lambda>path. (r, patch, path)) paths) candidates)) in
      (if anchor = None then or_else owner (case candidates of [(r, _)] \<Rightarrow> Some (rr_repository_id r) | _ \<Rightarrow> None) else owner,
       anchor))"

definition anchored_finding ::
    "(ParsedFinding \<Rightarrow> CodeReviewPrecedent option) \<Rightarrow> (CodeReviewRepository \<times> str) list \<Rightarrow> nat \<times> ParsedFinding \<Rightarrow> CodeReviewFinding" where
  "anchored_finding precedent_for reviewed entry =
     (case entry of (position, finding) \<Rightarrow>
        let (repository_id, anchor) = anchor_finding finding reviewed in
        into_finding position repository_id anchor (precedent_for finding) finding)"

subsection \<open>Saving\<close>

function fit_review ::
    "(WorkspaceCodeReviewResult \<Rightarrow> nat option) \<Rightarrow> WorkspaceCodeReviewResult \<Rightarrow> LocalWtsError + WorkspaceCodeReviewResult" where
  "fit_review json_bytes saved =
     (case json_bytes saved of
        None \<Rightarrow> Inl InvalidWorkspaceEvidence
      | Some bytes \<Rightarrow>
          if bytes \<le> MAX_CODE_REVIEW_FILE_BYTES then Inr saved
          else if cr_findings saved = [] then Inl InvalidWorkspaceEvidence
          else fit_review json_bytes (saved\<lparr>cr_raw_output := None, cr_findings := butlast (cr_findings saved)\<rparr>))"
  by auto
termination by (relation "measure (\<lambda>(_, saved). length (cr_findings saved))") auto

declare fit_review.simps [simp del]

definition save_workspace_code_review ::
    "ReviewEnv \<Rightarrow> WorkspaceMaterialization \<Rightarrow> WorkspaceCodeReviewResult \<Rightarrow> ReviewState \<Rightarrow> (LocalWtsError + unit) \<times> ReviewState" where
  "save_workspace_code_review env m result st =
     (case rbind (ok_or (re_evidence_directory env (wm_workspace_display_path m)) EvidenceUnavailable) (\<lambda>plain.
           rbind (ensure plain InvalidWorkspaceEvidence) (\<lambda>_.
           rbind (fit_review (re_json_bytes env) result) (\<lambda>saved.
           rbind (re_write env (wm_workspace_display_path m)) (\<lambda>_. Inr saved)))) of
        Inl e \<Rightarrow> (Inl e, st)
      | Inr saved \<Rightarrow> (Inr (), st\<lparr>rs_saved := Some saved\<rparr>))"

definition get_workspace_code_review ::
    "(LocalWtsError + str) \<Rightarrow> (str \<Rightarrow> (bool \<times> nat) option) \<Rightarrow> (str \<Rightarrow> WorkspaceCodeReviewResult option) \<Rightarrow> uuid
      \<Rightarrow> LocalWtsError + WorkspaceCodeReviewResult option" where
  "get_workspace_code_review receipt metadata read_review workspace_id =
     (case receipt of
        Inl e \<Rightarrow> if e = NotMaterialized then Inr None else Inl e
      | Inr path \<Rightarrow> Inr (case metadata path of
            None \<Rightarrow> None
          | Some (plain_file, bytes) \<Rightarrow>
              if \<not> plain_file \<or> bytes > MAX_CODE_REVIEW_FILE_BYTES then None
              else (case read_review path of
                  None \<Rightarrow> None
                | Some review \<Rightarrow> if cr_workspace_id review = workspace_id then Some review else None)))"

subsection \<open>One run\<close>

definition selected_model :: "CodeReviewOptions \<Rightarrow> str option" where
  "selected_model options =
     Option.bind (co_model options) (\<lambda>m. let m = trim m in if m = [] \<or> m = lit ''default'' then None else Some m)"

definition reviewed_patch :: "ReviewEnv \<Rightarrow> uuid \<Rightarrow> CodeReviewOptions \<Rightarrow> ReviewSkill option \<Rightarrow> ReviewWorktree \<Rightarrow> LocalWtsError + CodeReviewRepository \<times> str" where
  "reviewed_patch env workspace_id options skill worktree =
     rbind (case co_merge_request_iid options of
         Some iid \<Rightarrow>
           rbind (re_comparison env workspace_id (wk_repository_id worktree) iid) (\<lambda>c.
           Inr (pp_repository_label c, pp_base_commit_oid c, pp_head_commit_oid c, pp_patch c, re_sha256 env (pp_patch c),
             pp_patch_truncated c, Some \<lparr>mr_iid = iid, mr_base_commit_oid = pp_base_commit_oid c,
               mr_start_commit_oid = pp_start_commit_oid c, mr_head_commit_oid = pp_head_commit_oid c\<rparr>))
       | None \<Rightarrow>
           rbind (re_diff env workspace_id (wk_repository_id worktree)) (\<lambda>d.
           Inr (rd_repository_label d, rd_base_commit_oid d, rd_head_commit_oid d, rd_patch d, rd_patch_sha256 d,
             rd_patch_truncated d, None)))
       (\<lambda>(repository_label, base, head, patch, patch_sha256, patch_truncated, merge_request).
     let changed_lines = count_reviewable_changed_lines patch;
         size_gate = Option.bind skill sk_size_gate_lines in
     Inr (\<lparr>rr_repository_id = wk_repository_id worktree, rr_repository_label = repository_label, rr_base_commit_oid = base,
           rr_head_commit_oid = head, rr_patch_sha256 = patch_sha256, rr_changed_lines = changed_lines,
           rr_size_gate_exceeded = (case size_gate of None \<Rightarrow> False | Some gate \<Rightarrow> changed_lines > gate),
           rr_strictness = (case skill of None \<Rightarrow> NormalReview
             | Some s \<Rightarrow> review_strictness repository_label patch (sk_strict_repositories s)),
           rr_patch_truncated = patch_truncated, rr_merge_request = merge_request\<rparr>, patch))"

definition review_mode :: "ReviewSkill option \<Rightarrow> CodeReviewMode" where
  "review_mode skill =
     (case skill of None \<Rightarrow> ModeStandard | Some s \<Rightarrow> if sk_id s = PREFERRED_SKILL_ID then ModeRaptik else ModeSkill)"

definition skill_ref :: "ReviewSkill \<Rightarrow> CodeReviewSkillRef" where
  "skill_ref s = \<lparr>sr_id = sk_id s, sr_label = sk_label s, sr_reviewer = sk_reviewer s\<rparr>"

definition base_result ::
    "ReviewEnv \<Rightarrow> uuid \<Rightarrow> AgentProvider \<Rightarrow> CodeReviewScope \<Rightarrow> str option \<Rightarrow> ReviewSkill option \<Rightarrow> CodeReviewRepository list
      \<Rightarrow> CodeReviewOutcome \<Rightarrow> str \<Rightarrow> WorkspaceCodeReviewResult" where
  "base_result env workspace_id provider scope model skill repos outcome summary =
     \<lparr>cr_schema_version = CODE_REVIEW_SCHEMA_VERSION, cr_workspace_id = workspace_id, cr_provider = provider, cr_scope = scope,
      cr_model = model, cr_agent = model, cr_mode = review_mode skill, cr_skill = map_option skill_ref skill,
      cr_outcome = outcome, cr_intent = None, cr_summary = summary, cr_findings = [], cr_actionable_steps = [],
      cr_suggested_tests = [], cr_not_checked = [], cr_repositories = repos, cr_raw_output = None,
      cr_reviewed_at = re_now env\<rparr>"

definition total_changed_lines :: "CodeReviewRepository list \<Rightarrow> nat" where
  "total_changed_lines repos = fold (\<lambda>r n. u32_saturating_add n (rr_changed_lines r)) repos 0"

definition stop_summary :: "nat \<Rightarrow> nat \<Rightarrow> str option \<Rightarrow> str" where
  "stop_summary total_lines gate reviewer =
     lit ''This change has '' @ show_nat total_lines @ lit '' changed lines. ''
     @ (case reviewer of
          Some name \<Rightarrow> name @ lit '' stops at '' @ show_nat gate @ lit ''.''
        | None \<Rightarrow> lit ''The review skill stops at '' @ show_nat gate @ lit ''.'')
     @ lit '' Split it into merge requests of '' @ show_nat gate @ lit '' lines or fewer, by concern or layer.''"

definition split_steps :: "CodeReviewRepository list \<Rightarrow> CodeReviewActionableStep list" where
  "split_steps repos =
     map (\<lambda>(index, r). \<lparr>as_step_number = index + 1, as_instruction = rr_repository_label r @ lit '' has ''
         @ show_nat (rr_changed_lines r) @ lit '' changed lines. Split it by concern or layer.''\<rparr>)
       (List.enumerate 0 (filter (\<lambda>r. rr_changed_lines r > 0) repos))"

definition patch_budget :: "ReviewSkill \<Rightarrow> str \<Rightarrow> nat" where
  "patch_budget s task =
     MAX_AGENT_PROMPT_BYTES - PROMPT_OVERHEAD_BYTES - str_len (sk_rules s)
       - sum_list (map (\<lambda>(name, body). str_len name + str_len body + 40) (sk_references s)) - str_len task"

definition skill_input :: "ReviewSkill \<Rightarrow> str \<Rightarrow> (CodeReviewRepository \<times> str) list \<Rightarrow> CodeReviewScope \<Rightarrow> SkillPromptInput" where
  "skill_input s task reviewed scope =
     \<lparr>sp_skill_id = sk_id s, sp_reviewer = sk_reviewer s, sp_rules = sk_rules s, sp_references = sk_references s,
      sp_precedents_available = (sk_precedents s \<noteq> []), sp_size_gate_lines = sk_size_gate_lines s, sp_intent = task,
      sp_repositories = reviewed, sp_scope = scope, sp_patch_budget = patch_budget s task\<rparr>"

text \<open>Without a skill the patches share 24 kilobytes.\<close>

fun patch_context :: "nat \<Rightarrow> (CodeReviewRepository \<times> str) list \<Rightarrow> str" where
  "patch_context remaining [] = []"
| "patch_context remaining ((r, patch) # rest) =
     (let part = slice_to patch (min remaining (str_len patch)) in
      lit ''--- Repository: '' @ rr_repository_label r @ lit '' ---'' @ [10] @ part @ [10]
      @ patch_context (remaining - str_len part) rest)"

definition review_prompt :: "ReviewSkill option \<Rightarrow> str \<Rightarrow> (CodeReviewRepository \<times> str) list \<Rightarrow> CodeReviewScope \<Rightarrow> str option \<Rightarrow> str" where
  "review_prompt skill task reviewed scope model =
     (case skill of
        Some s \<Rightarrow> build_skill_review_prompt (skill_input s task reviewed scope)
      | None \<Rightarrow> build_code_review_prompt scope (task @ [10] @ patch_context (24 * 1024) reviewed) model)"

text \<open>The agent runs under a live trace, which is finished whether it returns or fails.\<close>

definition traced_agent ::
    "ReviewEnv \<Rightarrow> uuid \<Rightarrow> AgentProvider \<Rightarrow> str \<Rightarrow> str \<Rightarrow> str option \<Rightarrow> ReviewState \<Rightarrow> (LocalWtsError + AgentRunResult) \<times> ReviewState" where
  "traced_agent env workspace_id provider working_directory prompt model st =
     (let run_id = re_run_id env;
          traces = trace_begin run_id workspace_id provider model (re_now env) (rs_traces st);
          (steps, outcome) = re_agent env provider working_directory prompt model;
          traces = fold (\<lambda>(at, s). trace_push at workspace_id run_id s) steps traces in
      case outcome of
        Inl failure \<Rightarrow>
          let traces = trace_push (re_now env) workspace_id run_id
                \<lparr>ps_kind = KindError, ps_text = adapter_failure_text failure, ps_detail = None, ps_item_id = None, ps_running = False\<rparr> traces in
          (Inl (map_adapter_failure failure), st\<lparr>rs_traces := trace_finish workspace_id run_id False traces\<rparr>)
      | Inr run \<Rightarrow> (Inr run, st\<lparr>rs_traces := trace_finish workspace_id run_id (ar_succeeded run) traces\<rparr>))"

text \<open>The review that an answer of the agent makes.\<close>

definition review_answer ::
    "ReviewEnv \<Rightarrow> ReviewSkill option \<Rightarrow> (CodeReviewRepository \<times> str) list \<Rightarrow> (CodeReviewOutcome \<Rightarrow> str \<Rightarrow> WorkspaceCodeReviewResult)
      \<Rightarrow> str \<Rightarrow> WorkspaceCodeReviewResult" where
  "review_answer env skill reviewed base answer =
     (let parsed = parse_review_text (re_from_json env) answer in
      (base (if pv_structured parsed then Reviewed else Unstructured) (pv_summary parsed))
        \<lparr>cr_intent := pv_intent parsed,
         cr_findings := map (anchored_finding (re_precedent env skill) reviewed) (List.enumerate 0 (pv_findings parsed)),
         cr_actionable_steps := pv_steps parsed,
         cr_suggested_tests := pv_suggested_tests parsed,
         cr_not_checked := pv_not_checked parsed
           @ (if list_ex (\<lambda>(r, _). rr_patch_truncated r) reviewed
              then [lit ''Part of the patch was too large for WTS to read.''] else []),
         cr_raw_output := (if pv_structured parsed then None else Some (bounded_text answer (8 * 1024)))\<rparr>)"

text \<open>What a run starts from: the worktrees, the skill and the patches, or the error that stops it.\<close>

definition review_inputs ::
    "ReviewEnv \<Rightarrow> uuid \<Rightarrow> CodeReviewOptions
      \<Rightarrow> LocalWtsError + WorkspaceMaterialization \<times> ReviewWorktree list \<times> ReviewSkill option \<times> (CodeReviewRepository \<times> str) list" where
  "review_inputs env workspace_id options =
     rbind (ensure (case selected_model options of None \<Rightarrow> True | Some m \<Rightarrow> valid_model_name m) InvalidAgentPrompt) (\<lambda>_.
     rbind (re_materialization env workspace_id) (\<lambda>m.
     let selected = filter (\<lambda>w. case co_repository_id options of None \<Rightarrow> True | Some r \<Rightarrow> wk_repository_id w = r) (wm_worktrees m) in
     rbind (ensure (selected \<noteq> []) RepositoryNotFound) (\<lambda>_.
     rbind (ensure (\<not> (co_merge_request_iid options \<noteq> None \<and> (co_repository_id options = None \<or> length selected \<noteq> 1)))
         RepositoryNotFound) (\<lambda>_.
     rbind (map_err (\<lambda>_. InvalidAgentPrompt) (select_review_skill (re_skills env) (co_skill options))) (\<lambda>skill.
     rbind (traverse (reviewed_patch env workspace_id options skill) selected) (\<lambda>reviewed.
     Inr (m, selected, skill, reviewed)))))))"

text \<open>The prompt and the directory for the agent, after the gates.\<close>

definition review_request ::
    "ReviewEnv \<Rightarrow> uuid \<Rightarrow> WorkspaceMaterialization \<Rightarrow> ReviewWorktree list \<Rightarrow> ReviewSkill option \<Rightarrow> (CodeReviewRepository \<times> str) list
      \<Rightarrow> CodeReviewScope \<Rightarrow> str option \<Rightarrow> LocalWtsError + str \<times> str" where
  "review_request env workspace_id m selected skill reviewed scope model =
     rbind (re_view env workspace_id) (\<lambda>found.
     rbind (ok_or found WorkspaceNotFound) (\<lambda>view.
     rbind (validate_agent_prompt (review_prompt skill (review_intent view) reviewed scope model)) (\<lambda>prompt.
     rbind (re_lease env workspace_id) (\<lambda>_.
     Inr (prompt, case selected of [w] \<Rightarrow> wk_target_display_path w | _ \<Rightarrow> wm_workspace_display_path m)))))"

definition saved_result ::
    "ReviewEnv \<Rightarrow> WorkspaceMaterialization \<Rightarrow> WorkspaceCodeReviewResult \<Rightarrow> ReviewState
      \<Rightarrow> (LocalWtsError + WorkspaceCodeReviewResult) \<times> ReviewState" where
  "saved_result env m result st =
     (case save_workspace_code_review env m result st of
        (Inl e, st) \<Rightarrow> (Inl e, st)
      | (Inr _, st) \<Rightarrow> (Inr result, st))"

definition run_workspace_code_review_with_options ::
    "ReviewEnv \<Rightarrow> uuid \<Rightarrow> AgentProvider \<Rightarrow> CodeReviewScope \<Rightarrow> CodeReviewOptions \<Rightarrow> ReviewState
      \<Rightarrow> (LocalWtsError + WorkspaceCodeReviewResult) \<times> ReviewState" where
  "run_workspace_code_review_with_options env workspace_id provider scope options st =
     (case review_inputs env workspace_id options of
        Inl e \<Rightarrow> (Inl e, st)
      | Inr (m, selected, skill, reviewed) \<Rightarrow>
          let model = selected_model options;
              repos = map fst reviewed;
              total_lines = total_changed_lines repos;
              base = base_result env workspace_id provider scope model skill repos;
              gate = Option.bind skill sk_size_gate_lines in
          if scope = RecentChanges \<and> total_lines = 0 then
            saved_result env m (base NoChanges (lit ''There are no changes to review in this scope.'')) st
          else if scope = RecentChanges \<and> \<not> co_ignore_size_gate options
              \<and> (case gate of None \<Rightarrow> False | Some gate \<Rightarrow> total_lines > gate) then
            saved_result env m ((base SizeGateStopped (stop_summary total_lines (the gate) (Option.bind skill sk_reviewer)))
              \<lparr>cr_actionable_steps := split_steps repos\<rparr>) st
          else
            (case review_request env workspace_id m selected skill reviewed scope model of
               Inl e \<Rightarrow> (Inl e, st)
             | Inr (prompt, working_directory) \<Rightarrow>
                 (case traced_agent env workspace_id provider working_directory prompt model st of
                    (Inl e, st) \<Rightarrow> (Inl e, st)
                  | (Inr run, st) \<Rightarrow>
                      let answer = extract_agent_text (re_from_json env) provider (ar_output run) in
                      if \<not> ar_succeeded run then
                        (Inr ((base Unstructured (lit ''The agent stopped before it finished the review. Check the agent output, then run the review again.''))
                          \<lparr>cr_raw_output := Some (bounded_text answer (8 * 1024))\<rparr>), st)
                      else saved_result env m (review_answer env skill reviewed base answer) st)))"

subsection \<open>Anchored findings\<close>

lemma anchor_from_sound:
  "anchor_from line sides owner ps = (o', Some (n, s)) \<Longrightarrow>
     line = Some n \<and> s \<in> set sides \<and> (\<exists>r patch path. (r, patch, path) \<in> set ps \<and> o' = Some (rr_repository_id r)
       \<and> patch_names_file patch path \<and> patch_contains_changed_line patch path s n)"
proof (induction ps arbitrary: owner)
  case (Cons p ps)
  obtain r patch path where p: "p = (r, patch, path)" by (cases p)
  let ?hit = "Option.bind line (\<lambda>n. map_option (Pair n) (List.find (\<lambda>side. patch_contains_changed_line patch path side n) sides))"
  show ?case
  proof (cases "patch_names_file patch path \<and> ?hit \<noteq> None")
    case True
    then obtain anchor where hit: "?hit = Some anchor" by blast
    then have "anchor = (n, s)" "o' = Some (rr_repository_id r)" using Cons.prems True p by simp_all
    moreover from this hit have "line = Some n" "List.find (\<lambda>side. patch_contains_changed_line patch path side n) sides = Some s"
      by (auto simp: bind_eq_Some_conv)
    ultimately show ?thesis using True p by (auto simp: find_Some_iff)
  next
    case False
    then have "\<exists>owner. anchor_from line sides owner ps = (o', Some (n, s))"
      using Cons.prems p by (cases "patch_names_file patch path") (auto split: option.splits)
    then obtain owner' where "anchor_from line sides owner' ps = (o', Some (n, s))" ..
    from Cons.IH [OF this] show ?thesis unfolding list.set(2) by blast
  qed
qed simp

lemma anchor_candidates_set: "set (anchor_candidates finding reviewed) \<subseteq> set reviewed"
  by (auto simp: anchor_candidates_def Let_def)

definition finding_path :: "str \<Rightarrow> (CodeReviewRepository \<times> str) list \<Rightarrow> str \<Rightarrow> bool" where
  "finding_path named reviewed path \<longleftrightarrow>
     path = named \<or> (\<exists>(r, _) \<in> set reviewed. named = rr_repository_label r @ lit ''/'' @ path)"

lemma strip_prefix_Some: "strip_prefix p s = Some t \<Longrightarrow> s = p @ t"
  by (auto simp: strip_prefix_def starts_with_def split: if_splits) (metis append_take_drop_id)

lemma anchor_paths_sound: "path \<in> set (anchor_paths finding candidates) \<Longrightarrow> set candidates \<subseteq> set reviewed \<Longrightarrow>
    finding_path (pg_file_path finding) reviewed path"
proof -
  assume path: "path \<in> set (anchor_paths finding candidates)" and sub: "set candidates \<subseteq> set reviewed"
  show ?thesis
  proof (cases "path = pg_file_path finding")
    case False
    then obtain r patch where r: "(r, patch) \<in> set candidates" "strip_prefix (rr_repository_label r @ lit ''/'') (pg_file_path finding) = Some path"
      using path by (auto simp: anchor_paths_def List.map_filter_def)
    then have "(r, patch) \<in> set reviewed" using sub by blast
    moreover have "pg_file_path finding = rr_repository_label r @ lit ''/'' @ path" using strip_prefix_Some [OF r(2)] by simp
    ultimately show ?thesis unfolding finding_path_def by blast
  qed (simp add: finding_path_def)
qed

lemma anchor_finding_sound:
  assumes "anchor_finding finding reviewed = (rid, Some (n, s))"
  shows "pg_line finding = Some n \<and> (\<exists>r patch path. (r, patch) \<in> set reviewed \<and> rid = Some (rr_repository_id r)
    \<and> finding_path (pg_file_path finding) reviewed path \<and> patch_contains_changed_line patch path s n)"
proof -
  let ?cs = "anchor_candidates finding reviewed"
  let ?ps = "concat (map (\<lambda>(r, patch). map (\<lambda>path. (r, patch, path)) (anchor_paths finding ?cs)) ?cs)"
  have "anchor_from (pg_line finding) (anchor_sides (pg_side finding)) None ?ps = (rid, Some (n, s))"
    using assms by (auto simp: anchor_finding_def Let_def split: prod.splits if_splits)
  from anchor_from_sound [OF this] obtain r patch path where found: "pg_line finding = Some n" "(r, patch, path) \<in> set ?ps"
    "rid = Some (rr_repository_id r)" "patch_contains_changed_line patch path s n" by blast
  then have "(r, patch) \<in> set ?cs" "path \<in> set (anchor_paths finding ?cs)" by auto
  then have "(r, patch) \<in> set reviewed" "finding_path (pg_file_path finding) reviewed path"
    using anchor_candidates_set [of finding reviewed] anchor_paths_sound by blast+
  then show ?thesis using found(1,3,4) by blast
qed

subsection \<open>Saved reviews\<close>

text \<open>The first findings of a review; without the raw output if any is left out.\<close>

definition cut_review :: "WorkspaceCodeReviewResult \<Rightarrow> nat \<Rightarrow> WorkspaceCodeReviewResult" where
  "cut_review result k =
     (if k = length (cr_findings result) then result
      else result\<lparr>cr_raw_output := None, cr_findings := take k (cr_findings result)\<rparr>)"

lemma fit_review_some:
  "json_bytes saved = Some n \<Longrightarrow> fit_review json_bytes saved =
    (if n \<le> MAX_CODE_REVIEW_FILE_BYTES then Inr saved
     else if cr_findings saved = [] then Inl InvalidWorkspaceEvidence
     else fit_review json_bytes (saved\<lparr>cr_raw_output := None, cr_findings := butlast (cr_findings saved)\<rparr>))"
  by (subst fit_review.simps) simp

lemma fit_review_cut:
  assumes "k \<le> length (cr_findings result)" "fit_review json_bytes (cut_review result k) = Inr saved"
  shows "\<exists>j \<le> k. saved = cut_review result j \<and> (\<exists>n \<le> MAX_CODE_REVIEW_FILE_BYTES. json_bytes saved = Some n)
    \<and> (\<forall>i. j < i \<and> i \<le> k \<longrightarrow> (\<exists>n > MAX_CODE_REVIEW_FILE_BYTES. json_bytes (cut_review result i) = Some n))"
  using assms
proof (induction k)
  case 0
  then show ?case
    by (subst (asm) fit_review.simps) (auto simp: cut_review_def split: option.splits if_splits)
next
  case (Suc k)
  let ?r = "cut_review result (Suc k)"
  from Suc.prems(2) obtain n where n: "json_bytes ?r = Some n"
    by (subst (asm) fit_review.simps) (auto split: option.splits)
  show ?case
  proof (cases "n \<le> MAX_CODE_REVIEW_FILE_BYTES")
    case True
    have "saved = ?r" using True Suc.prems(2) fit_review_some [of json_bytes ?r n, OF n] by simp
    moreover have "\<nexists>i. Suc k < i \<and> i \<le> Suc k" by simp
    ultimately show ?thesis using True n by blast
  next
    case False
    have "cr_findings ?r \<noteq> []" using Suc.prems(1) by (auto simp: cut_review_def)
    moreover have "?r\<lparr>cr_raw_output := None, cr_findings := butlast (cr_findings ?r)\<rparr> = cut_review result k"
    proof -
      have findings: "cr_findings ?r = take (Suc k) (cr_findings result)" by (simp add: cut_review_def)
      have "butlast (take (Suc k) (cr_findings result)) = take k (cr_findings result)"
        using butlast_take [OF Suc.prems(1)] by simp
      moreover have "k \<noteq> length (cr_findings result)" using Suc.prems(1) by simp
      ultimately show ?thesis unfolding findings by (simp add: cut_review_def)
    qed
    ultimately have "fit_review json_bytes ?r = fit_review json_bytes (cut_review result k)"
      using fit_review_some [of json_bytes ?r n, OF n] False by simp
    then have "fit_review json_bytes (cut_review result k) = Inr saved" using Suc.prems(2) by simp
    from Suc.IH [OF _ this] Suc.prems(1) obtain j where j: "j \<le> k" "saved = cut_review result j"
      "\<exists>n \<le> MAX_CODE_REVIEW_FILE_BYTES. json_bytes saved = Some n"
      "\<forall>i. j < i \<and> i \<le> k \<longrightarrow> (\<exists>n > MAX_CODE_REVIEW_FILE_BYTES. json_bytes (cut_review result i) = Some n)" by auto
    have rest: "\<exists>n > MAX_CODE_REVIEW_FILE_BYTES. json_bytes (cut_review result i) = Some n" if "j < i \<and> i \<le> Suc k" for i
    proof (cases "i = Suc k")
      case True
      then show ?thesis using n False by auto
    next
      case False
      with that j(4) show ?thesis by auto
    qed
    have "j \<le> Suc k" using j(1) by simp
    show ?thesis
    proof (rule exI [of _ j], intro conjI)
      show "\<forall>i. j < i \<and> i \<le> Suc k \<longrightarrow> (\<exists>n > MAX_CODE_REVIEW_FILE_BYTES. json_bytes (cut_review result i) = Some n)"
        using rest by blast
    qed (use j \<open>j \<le> Suc k\<close> in blast)+
  qed
qed

lemma cut_review_all: "cut_review result (length (cr_findings result)) = result"
  by (simp add: cut_review_def)

subsection \<open>The parts of a run\<close>

lemma save_ok:
  assumes "save_workspace_code_review env m result st = (Inr u, st')"
  shows "\<exists>saved. fit_review (re_json_bytes env) result = Inr saved \<and> st' = st\<lparr>rs_saved := Some saved\<rparr>"
proof (cases "fit_review (re_json_bytes env) result")
  case (Inl e)
  then have "\<exists>e. fst (save_workspace_code_review env m result st) = Inl e"
    unfolding save_workspace_code_review_def Inl
    by (simp split: sum.split)
  with assms show ?thesis by simp
next
  case (Inr saved)
  then show ?thesis using assms
    unfolding save_workspace_code_review_def Inr rbind_simps
    by (auto split: sum.splits)
qed

lemma saved_result_ok:
  assumes "saved_result env m result st = (Inr result', st')"
  shows "result' = result \<and> rs_traces st' = rs_traces st
    \<and> (\<exists>j \<le> length (cr_findings result). rs_saved st' = Some (cut_review result j)
      \<and> (\<exists>n \<le> MAX_CODE_REVIEW_FILE_BYTES. re_json_bytes env (cut_review result j) = Some n)
      \<and> (\<forall>i. j < i \<and> i \<le> length (cr_findings result)
          \<longrightarrow> (\<exists>n > MAX_CODE_REVIEW_FILE_BYTES. re_json_bytes env (cut_review result i) = Some n)))"
proof -
  obtain u where "save_workspace_code_review env m result st = (Inr u, st')" and same: "result' = result"
    using assms by (auto simp: saved_result_def split: prod.splits sum.splits)
  from save_ok [OF this(1)] same obtain saved where saved: "fit_review (re_json_bytes env) result = Inr saved"
    "st' = st\<lparr>rs_saved := Some saved\<rparr>" "result' = result" by blast
  have "fit_review (re_json_bytes env) (cut_review result (length (cr_findings result))) = Inr saved"
    unfolding cut_review_all by (rule saved(1))
  from fit_review_cut [OF order_refl this] obtain j where j: "j \<le> length (cr_findings result)" "saved = cut_review result j"
    "\<exists>n \<le> MAX_CODE_REVIEW_FILE_BYTES. re_json_bytes env saved = Some n"
    "\<forall>i. j < i \<and> i \<le> length (cr_findings result)
      \<longrightarrow> (\<exists>n > MAX_CODE_REVIEW_FILE_BYTES. re_json_bytes env (cut_review result i) = Some n)" by blast
  have "rs_traces st' = rs_traces st" "rs_saved st' = Some (cut_review result j)" using saved(2) j(2) by simp_all
  with j saved(3) show ?thesis by blast
qed



text \<open>What a run may do: stop without a trace, or run the agent under one.\<close>

lemma update_run_other: "update_run w r f traces = traces(w := map_option (\<lambda>t. if rt_run_id t = r then f t else t) (traces w))"
  by (auto simp: update_run_def fun_eq_iff split: option.split)






subsection \<open>Theorems on runs\<close>






lemma base_result_findings: "cr_findings (base_result env w provider scope model skill repos outcome body) = []"
  by (simp add: base_result_def)

lemma run_findings:
  assumes "run_workspace_code_review_with_options env w provider scope options st = (Inr result, st')"
    and "review_inputs env w options = Inr (m, selected, skill, reviewed)" and "cr_findings result \<noteq> []"
  shows "\<exists>base answer. result = review_answer env skill reviewed base answer"
proof -
  have saved: "result' = result''" if "saved_result env m result'' st1 = (Inr result', st2)" for result' result'' st1 st2
    using saved_result_ok [OF that] by simp
  define request where "request = review_request env w m selected skill reviewed scope (selected_model options)"
  show ?thesis
    using assms(1,3) unfolding run_workspace_code_review_with_options_def assms(2) sum.case prod.case Let_def request_def [symmetric]
    by (auto split: if_splits sum.splits prod.splits dest!: saved simp: base_result_findings)
qed

lemma anchored_finding_sound:
  assumes "f \<in> set (cr_findings (review_answer env skill reviewed base answer))" "cf_anchored f"
  shows "\<exists>r patch path n s. (r, patch) \<in> set reviewed \<and> cf_repository_id f = Some (rr_repository_id r) \<and> cf_line f = Some n
    \<and> cf_side f = Some s \<and> finding_path (cf_file_path f) reviewed path \<and> patch_contains_changed_line patch path s n"
proof -
  obtain position finding where f: "f = anchored_finding (re_precedent env skill) reviewed (position, finding)"
    using assms(1) by (auto simp: review_answer_def Let_def)
  obtain rid anchor where anchor: "anchor_finding finding reviewed = (rid, anchor)" by force
  with f assms(2) obtain n s where "anchor = Some (n, s)"
    by (auto simp: anchored_finding_def into_finding_def)
  with anchor_finding_sound [of finding reviewed rid n s] anchor f show ?thesis
    by (fastforce simp: anchored_finding_def into_finding_def or_else_def)
qed

text \<open>
  C39: a finding of a review that is marked as anchored carries the repository of one of the reviewed
  patches, and the scan of that patch finds its line on its side for its path. If the patch is one
  that Git writes, whole or cut short, and no changed line of a file of another name reads as a header
  with that path, then a hunk of a file of that name changes this line on this side.
\<close>

theorem anchored_findings_name_changes:
  assumes "run_workspace_code_review_with_options env w provider scope options st = (Inr result, st')"
    and "review_inputs env w options = Inr (m, selected, skill, reviewed)"
    and "f \<in> set (cr_findings result)" and "cf_anchored f"
  shows "\<exists>r patch path n s. (r, patch) \<in> set reviewed \<and> cf_repository_id f = Some (rr_repository_id r) \<and> cf_line f = Some n
    \<and> cf_side f = Some s \<and> finding_path (cf_file_path f) reviewed path \<and> patch_contains_changed_line patch path s n
    \<and> (\<forall>fs. cut_patch fs patch \<longrightarrow> list_all file_ok fs \<longrightarrow> list_all (\<lambda>g. is_named path g \<or> no_impostor path g) fs
        \<longrightarrow> (\<exists>g \<in> set fs. is_named path g \<and> (\<exists>h \<in> set (pf_hunks g). changes_line s n h)))"
proof -
  have "cr_findings result \<noteq> []" using assms(3) by auto
  from run_findings [OF assms(1,2) this] obtain base answer where "result = review_answer env skill reviewed base answer" by blast
  with anchored_finding_sound [of f env skill reviewed base answer] assms(3,4)
  obtain r patch path n s where found: "(r, patch) \<in> set reviewed" "cf_repository_id f = Some (rr_repository_id r)" "cf_line f = Some n"
    "cf_side f = Some s" "finding_path (cf_file_path f) reviewed path" "patch_contains_changed_line patch path s n" by blast
  have "\<exists>g \<in> set fs. is_named path g \<and> (\<exists>h \<in> set (pf_hunks g). changes_line s n h)"
    if cut: "cut_patch fs patch" and ok: "list_all file_ok fs" and names: "list_all (\<lambda>g. is_named path g \<or> no_impostor path g) fs" for fs
  proof -
    have "scan_lines path s n scan_start (concat (map (\<lambda>f. map strip_cr (file_lines f)) fs))"
      using cut_patch_found [OF ok cut found(6)] unfolding patch_contains_changed_line_def lines_of_patch [OF ok] .
    moreover have "is_named path g \<or> no_impostor path g" if "g \<in> set fs" for g using names that by (simp add: list_all_iff)
    ultimately show ?thesis using scan_files [OF ok] by blast
  qed
  with found show ?thesis by blast
qed


subsection \<open>Examples\<close>

definition sample_view :: WorkspaceView where
  "sample_view = \<lparr>wr_schema_version = 1, wr_workspace_id = 1, wr_record_version = 1, wr_intent = Jira (lit ''AB-1''),
     wr_title = lit ''Fix'', wr_display_name = None, wr_preferred_provider = Codex, wr_phase = Draft,
     wr_repositories = [], wr_runtime = None, wr_planning = None, wr_workspace_root_id = [], wr_workspace_leaf = [],
     wr_created_at_unix_ms = 0, wr_updated_at_unix_ms = 0, wv_observed_work_items = [], wv_workspace_display_path = [],
     wv_lifecycle = lifecycle_unknown,
     wv_workflow = \<lparr>wf_state = Ready, wf_revision = 0, wf_updated_at_unix_ms = 0,
       wf_placement = \<lparr>placement_mode = Automatic, placement_rank = 0\<rparr>\<rparr>\<rparr>"

definition sample_answer :: json where
  "sample_answer = JObject [(lit ''findings'', JArray [JObject [(lit ''file'', JString (lit ''src/a b.rs'')), (lit ''line'', JInt 3)]])]"

definition sample_review_env :: ReviewEnv where
  "sample_review_env = \<lparr>
     re_materialization = (\<lambda>_. Inr \<lparr>wm_workspace_display_path = lit ''/w'',
       wm_worktrees = [\<lparr>wk_repository_id = lit ''r1'', wk_target_display_path = lit ''/w/r1''\<rparr>]\<rparr>),
     re_skills = [],
     re_diff = (\<lambda>_ _. Inr \<lparr>rd_repository_label = lit ''api'', rd_base_commit_oid = lit ''1'', rd_head_commit_oid = lit ''2'',
       rd_patch = patch_text [sample_file], rd_patch_sha256 = lit ''3'', rd_patch_truncated = False\<rparr>),
     re_comparison = (\<lambda>_ _ _. Inl NotMaterialized),
     re_sha256 = (\<lambda>s. s),
     re_view = (\<lambda>_. Inr (Some sample_view)),
     re_lease = (\<lambda>_. Inr ()),
     re_run_id = 7,
     re_now = 0,
     re_agent = (\<lambda>_ _ _ _. ([(0, parsed_step KindMessage (lit ''hi''))], Inr \<lparr>ar_succeeded = True, ar_output = lit ''{}''\<rparr>)),
     re_from_json = (\<lambda>_. Some sample_answer),
     re_precedent = (\<lambda>_ _. None),
     re_evidence_directory = (\<lambda>_. Some True),
     re_json_bytes = (\<lambda>_. Some 10),
     re_write = (\<lambda>_. Inr ())\<rparr>"

definition sample_options :: CodeReviewOptions where
  "sample_options = \<lparr>co_model = None, co_repository_id = None, co_ignore_size_gate = False, co_skill = None, co_merge_request_iid = None\<rparr>"

definition sample_review :: "(LocalWtsError + WorkspaceCodeReviewResult) \<times> ReviewState" where
  "sample_review = run_workspace_code_review_with_options sample_review_env 1 AgentHermes RecentChanges sample_options
     \<lparr>rs_traces = Map.empty, rs_saved = None\<rparr>"


definition sample_repo :: CodeReviewRepository where
  "sample_repo = \<lparr>rr_repository_id = lit ''r1'', rr_repository_label = lit ''api'', rr_base_commit_oid = lit ''1'',
           rr_head_commit_oid = lit ''2'', rr_patch_sha256 = lit ''3'', rr_changed_lines = 2,
           rr_size_gate_exceeded = False, rr_strictness = NormalReview, rr_patch_truncated = False, rr_merge_request = None\<rparr>"

lemma sample_count: "count_reviewable_changed_lines (patch_text [sample_file]) = 2"
  by code_simp

lemma contract_length: "str_len REVIEW_OUTPUT_CONTRACT < 2000"
  by code_simp

lemma contract_clean: "0 \<notin> set REVIEW_OUTPUT_CONTRACT"
  unfolding REVIEW_OUTPUT_CONTRACT_def lit_def by simp

lemma sample_patch_len: "str_len (patch_text [sample_file]) < 400"
  by code_simp

lemma sample_contains: "patch_contains_changed_line (patch_text [sample_file]) (lit ''src/a b.rs'') Additions 3
  \<and> patch_names_file (patch_text [sample_file]) (lit ''src/a b.rs'')"
  by code_simp

lemma sample_parsed: "map (\<lambda>p. (pg_file_path p, pg_line p, pg_side p, pg_repository p)) (pv_findings (parse_review_text (\<lambda>_. Some sample_answer) (lit ''{}'')))
   = [(lit ''src/a b.rs'', Some 3, None, None)]"
  by code_simp


lemma sample_review_inputs:
  "review_inputs sample_review_env 1 sample_options = Inr (\<lparr>wm_workspace_display_path = lit ''/w'',
       wm_worktrees = [\<lparr>wk_repository_id = lit ''r1'', wk_target_display_path = lit ''/w/r1''\<rparr>]\<rparr>,
     [\<lparr>wk_repository_id = lit ''r1'', wk_target_display_path = lit ''/w/r1''\<rparr>], None, [(sample_repo, patch_text [sample_file])])"
  by (simp add: review_inputs_def sample_review_env_def sample_options_def selected_model_def select_review_skill_def
      reviewed_patch_def sample_count sample_repo_def Let_def)

lemma trim_not_Nil: "\<lbrakk>c \<in> set s; \<not> is_whitespace c\<rbrakk> \<Longrightarrow> trim s \<noteq> []"
proof -
  assume c: "c \<in> set s" "\<not> is_whitespace c"
  have keep: "c \<in> set xs \<Longrightarrow> c \<in> set (dropWhile is_whitespace xs)" for xs
    using c(2) by (induction xs) auto
  have "c \<in> set (trim s)" using keep [of "rev (dropWhile is_whitespace s)"] keep [of s] c(1)
    by (simp add: trim_def trim_end_def trim_start_def)
  then show ?thesis by auto
qed

lemma validate_agent_prompt_ok:
  "str_len s \<le> MAX_AGENT_PROMPT_BYTES \<Longrightarrow> 0 \<notin> set s \<Longrightarrow> c \<in> set s \<Longrightarrow> \<not> is_whitespace c \<Longrightarrow> validate_agent_prompt s = Inr (trim s)"
  using trim_len [of s] set_trim [of s] trim_not_Nil [of c s] by (auto simp: validate_agent_prompt_def Let_def)

lemma sample_pieces:
  "str_len (scope_instructions RecentChanges) < 300" "0 \<notin> set (scope_instructions RecentChanges)"
  "str_len (review_intent sample_view) < 100" "0 \<notin> set (review_intent sample_view)"
  by (simp_all add: scope_instructions_def review_intent_def sample_view_def lit_def utf8_len_def)

lemma sample_patch_clean: "0 \<notin> set (patch_text [sample_file])"
  by code_simp

lemma sample_context:
  "patch_context (24 * 1024) [(sample_repo, patch_text [sample_file])] = lit ''--- Repository: api ---'' @ [10] @ patch_text [sample_file] @ [10]"
  using sample_patch_len by (simp add: slice_to_all sample_repo_def min_absorb2 lit_def)

lemma sample_prompt:
  "\<exists>prompt. validate_agent_prompt (review_prompt None (review_intent sample_view) [(sample_repo, patch_text [sample_file])] RecentChanges None) = Inr prompt"
proof -
  let ?p = "review_prompt None (review_intent sample_view) [(sample_repo, patch_text [sample_file])] RecentChanges None"
  have p: "?p = lit ''You are an expert AI code reviewer.'' @ [10] @ lit ''Scope: '' @ scope_instructions RecentChanges @ [10]
     @ lit ''Workspace context:'' @ [10] @ (review_intent sample_view @ [10] @ lit ''--- Repository: api ---'' @ [10] @ patch_text [sample_file] @ [10])
     @ [10, 10] @ REVIEW_OUTPUT_CONTRACT"
    unfolding review_prompt_def build_code_review_prompt_def option.case sample_context append_Nil ..
  have "str_len ?p \<le> 65536" unfolding p using sample_pieces contract_length sample_patch_len
    by (simp add: lit_def utf8_len_def)
  moreover have "0 \<notin> set ?p" unfolding p using sample_pieces contract_clean sample_patch_clean by (simp add: lit_def)
  moreover have "chr CHR ''Y'' \<in> set ?p" unfolding p by (simp add: lit_def chr_def)
  ultimately show ?thesis
    using validate_agent_prompt_ok [of ?p "chr CHR ''Y''"] by (simp add: MAX_AGENT_PROMPT_BYTES_def is_whitespace_def chr_def)
qed


lemma sample_anchored:
  assumes "pg_file_path p = lit ''src/a b.rs''" "pg_line p = Some 3" "pg_side p = None" "pg_repository p = None"
  shows "anchor_finding p [(sample_repo, patch_text [sample_file])] = (Some (lit ''r1''), Some (3, Additions))"
  using sample_contains assms
  by (simp add: anchor_finding_def anchor_candidates_def anchor_paths_def anchor_sides_def sample_repo_def Let_def)

lemma sample_saved: "saved_result sample_review_env m r st = (Inr r, st\<lparr>rs_saved := Some r\<rparr>)"
proof -
  have "fit_review (\<lambda>_. Some 10) r = Inr r" by (subst fit_review.simps) (simp add: MAX_CODE_REVIEW_FILE_BYTES_def)
  then show ?thesis by (simp add: saved_result_def save_workspace_code_review_def sample_review_env_def)
qed

lemma sample_review_run:
  "\<exists>result st' f. run_workspace_code_review_with_options sample_review_env 1 AgentHermes RecentChanges sample_options
     \<lparr>rs_traces = Map.empty, rs_saved = None\<rparr> = (Inr result, st') \<and> f \<in> set (cr_findings result) \<and> cf_anchored f
     \<and> cf_file_path f = lit ''src/a b.rs''"
proof -
  let ?reviewed = "[(sample_repo, patch_text [sample_file])]"
  obtain prompt where prompt: "validate_agent_prompt (review_prompt None (review_intent sample_view) ?reviewed RecentChanges None) = Inr prompt"
    using sample_prompt by blast
  let ?m = "\<lparr>wm_workspace_display_path = lit ''/w'',
       wm_worktrees = [\<lparr>wk_repository_id = lit ''r1'', wk_target_display_path = lit ''/w/r1''\<rparr>]\<rparr>"
  let ?base = "base_result sample_review_env 1 AgentHermes RecentChanges None None [sample_repo]"
  let ?result = "review_answer sample_review_env None ?reviewed ?base (lit ''{}'')"
  have request: "review_request sample_review_env 1 ?m [\<lparr>wk_repository_id = lit ''r1'', wk_target_display_path = lit ''/w/r1''\<rparr>] None
      ?reviewed RecentChanges None = Inr (prompt, lit ''/w/r1'')"
    using prompt by (simp add: review_request_def sample_review_env_def)
  obtain st where agent: "traced_agent sample_review_env 1 AgentHermes (lit ''/w/r1'') prompt None \<lparr>rs_traces = Map.empty, rs_saved = None\<rparr>
      = (Inr \<lparr>ar_succeeded = True, ar_output = lit ''{}''\<rparr>, st)"
    by (simp add: traced_agent_def sample_review_env_def)
  have saved: "saved_result sample_review_env ?m r st = (Inr r, st\<lparr>rs_saved := Some r\<rparr>)" for r st
    by (rule sample_saved)
  have total: "total_changed_lines [sample_repo] = 2" by (simp add: total_changed_lines_def sample_repo_def u32_saturating_add_def u32_max_def)
  have run: "run_workspace_code_review_with_options sample_review_env 1 AgentHermes RecentChanges sample_options
     \<lparr>rs_traces = Map.empty, rs_saved = None\<rparr> = (Inr ?result, st\<lparr>rs_saved := Some ?result\<rparr>)"
    unfolding run_workspace_code_review_with_options_def sample_review_inputs sum.case prod.case Let_def
    using request agent saved total by (simp add: selected_model_def sample_options_def extract_agent_text_def)
  obtain p where p: "pv_findings (parse_review_text (re_from_json sample_review_env) (lit ''{}'')) = [p]"
    "pg_file_path p = lit ''src/a b.rs''" "pg_line p = Some 3" "pg_side p = None" "pg_repository p = None"
    using sample_parsed by (auto simp: sample_review_env_def)
  let ?f = "anchored_finding (re_precedent sample_review_env None) ?reviewed (0, p)"
  have "?f \<in> set (cr_findings ?result)" using p(1) by (simp add: review_answer_def Let_def)
  moreover have "cf_anchored ?f" "cf_file_path ?f = lit ''src/a b.rs''"
    using sample_anchored [OF p(2-5)] p(2) by (simp_all add: anchored_finding_def into_finding_def)
  ultimately show ?thesis using run by blast
qed

theorem anchored_findings_name_changes_witness:
  "\<exists>n s g h. g \<in> set [sample_file] \<and> is_named (lit ''src/a b.rs'') g \<and> h \<in> set (pf_hunks g) \<and> changes_line s n h"
proof -
  obtain result st' f where run: "run_workspace_code_review_with_options sample_review_env 1 AgentHermes RecentChanges sample_options
     \<lparr>rs_traces = Map.empty, rs_saved = None\<rparr> = (Inr result, st')" and f: "f \<in> set (cr_findings result)" "cf_anchored f"
     "cf_file_path f = lit ''src/a b.rs''" using sample_review_run by blast
  from anchored_findings_name_changes [OF run sample_review_inputs f(1,2)]
  obtain r patch path n s where found: "(r, patch) = (sample_repo, patch_text [sample_file])"
    "finding_path (cf_file_path f) [(sample_repo, patch_text [sample_file])] path"
    and changed: "\<forall>fs. cut_patch fs patch \<longrightarrow> list_all file_ok fs \<longrightarrow> list_all (\<lambda>g. is_named path g \<or> no_impostor path g) fs
        \<longrightarrow> (\<exists>g \<in> set fs. is_named path g \<and> (\<exists>h \<in> set (pf_hunks g). changes_line s n h))" by auto
  have "path = lit ''src/a b.rs''" using found(2) f(3) by (auto simp: finding_path_def sample_repo_def lit_def)
  moreover have "is_named (lit ''src/a b.rs'') sample_file" by (simp add: is_named_def sample_file_def)
  moreover have "cut_patch [sample_file] (patch_text [sample_file])"
    unfolding cut_patch_def by (rule exI [of _ "length (patch_text [sample_file])"], rule exI [of _ "[]"]) simp
  ultimately show ?thesis using changed [rule_format, of "[sample_file]"] found(1) sample_file_ok by auto
qed


text \<open>
  A skill within all limits on its files may still be too large for any prompt: then every review
  with it is refused, because the rules and references are never shortened.
\<close>

lemma trim_id: "s \<noteq> [] \<Longrightarrow> \<not> is_whitespace (hd s) \<Longrightarrow> \<not> is_whitespace (last s) \<Longrightarrow> trim s = s"
proof -
  assume s: "s \<noteq> []" "\<not> is_whitespace (hd s)" "\<not> is_whitespace (last s)"
  have "dropWhile is_whitespace s = s" using s(1,2) by (cases s) auto
  moreover have "dropWhile is_whitespace (rev s) = rev s" using s(1,3) by (cases s rule: rev_cases) auto
  ultimately show ?thesis by (simp add: trim_def trim_end_def trim_start_def)
qed

lemma last_join: "ws \<noteq> [] \<Longrightarrow> last ws \<noteq> [] \<Longrightarrow> join_with sep ws \<noteq> [] \<and> last (join_with sep ws) = last (last ws)"
  by (induction sep ws rule: join_with.induct) auto

lemma last_of_join: "s = join_with sep ws \<Longrightarrow> ws \<noteq> [] \<Longrightarrow> last ws = w \<Longrightarrow> w \<noteq> [] \<Longrightarrow> s \<noteq> [] \<and> last s = last w"
  using last_join [of ws sep] by simp

lemma contract_end: "REVIEW_OUTPUT_CONTRACT \<noteq> [] \<and> last REVIEW_OUTPUT_CONTRACT = 46"
proof -
  let ?w = "lit ''- Do not give a merge verdict. Do not post to GitLab. Do not edit files.''"
  have w: "?w \<noteq> []" "last ?w = 46" by (simp_all add: lit_def)
  have "REVIEW_OUTPUT_CONTRACT \<noteq> [] \<and> last REVIEW_OUTPUT_CONTRACT = last ?w"
    by (rule last_of_join [OF REVIEW_OUTPUT_CONTRACT_def _ _ w(1)]) simp_all
  then show ?thesis using w(2) by simp
qed

lemma reference_text_len: "str_len (trim body) \<le> str_len (reference_text (name, body))"
  by (simp add: reference_text_def)

lemma large_skill_refused:
  assumes "str_len (trim (sp_rules input)) + sum_list (map (\<lambda>(_, body). str_len (trim body)) (sp_references input)) > MAX_AGENT_PROMPT_BYTES"
  shows "validate_agent_prompt (build_skill_review_prompt input) = Inl InvalidAgentPrompt"
proof -
  let ?p = "build_skill_review_prompt input"
  have refs: "sum_list (map (\<lambda>(_, body). str_len (trim body)) rs) \<le> str_len (concat (map reference_text rs))" for rs
  proof (induction rs)
    case (Cons r rs)
    obtain name body where "r = (name, body)" by (cases r)
    then show ?case using Cons reference_text_len [of body name] by simp
  qed simp
  have "str_len (trim (sp_rules input)) + str_len (concat (map reference_text (sp_references input))) \<le> str_len ?p"
    unfolding build_skill_review_prompt_def by simp
  with assms refs [of "sp_references input"] have "str_len ?p > MAX_AGENT_PROMPT_BYTES" by linarith
  moreover have "trim ?p = ?p"
  proof (rule trim_id)
    show "?p \<noteq> []" "\<not> is_whitespace (hd ?p)"
      unfolding build_skill_review_prompt_def by (simp_all add: lit_def is_whitespace_def)
    have "last ?p = 46" unfolding build_skill_review_prompt_def using contract_end by simp
    then show "\<not> is_whitespace (last ?p)" by (simp add: is_whitespace_def)
  qed
  ultimately show ?thesis by (simp add: validate_agent_prompt_def)
qed

end
