(* ===== verification/Spec2Isabelle.thy ===== *)
theory Spec2Isabelle
  imports Boundary Compatibility Store_Creation Collaboration_Execute Time_Review_Draft Time_Review_Contract Workspace_Review
begin

text \<open>
  A verification library for WTS, a supervisor of development workspaces: several Git checkouts
  that belong to one piece of work, with the runtime services, board, links, reviews, agents and
  time records around it.

  \<^bold>\<open>The program.\<close> A client sends a request to create a workspace. \<open>wts-core\<close> normalises it
  (\<open>workspace.rs\<close>), compiles the boundary that agents may act in (\<open>lib.rs\<close>) and searches a set of
  commits that fit together (\<open>compatibility.rs\<close>). \<open>wts-store\<close> keeps workspaces in SQLite
  (\<open>sqlite.rs\<close>, \<open>model.rs\<close>, \<open>migrations/\<close>): append-only events with projections, a lifecycle
  record, a board with ordered lanes, links to work items, review threads and observations.
  \<open>wts-app\<close> runs plans of agent tasks in a workspace (\<open>collaboration.rs\<close>) and drafts the daily time
  review (\<open>time_review.rs\<close>). It also runs code reviews (\<open>workspace_code_review.rs\<close>): it reads the diffs
  of the worktrees, picks a review skill (\<open>review_skill.rs\<close>), stops at the size gate of the skill, sends
  a prompt to an agent, keeps the live steps of the run (\<open>review_trace.rs\<close>), reads the answer
  (\<open>code_review.rs\<close>), anchors each finding at a changed line of a diff (\<open>service.rs\<close>) and saves the review.
  \<open>wts-integrations\<close> reads the activities of a day from ActivityWatch (\<open>activity_watch.rs\<close>) and makes
  of them a brief for an agent that proposes Jira issues (\<open>time_review.rs\<close>). \<open>wts-server\<close>,
  \<open>src-tauri\<close> and the front end forward requests.

  \<^bold>\<open>Theories and sources.\<close>

    \<^item> \<open>Rust_Prelude\<close>: \<open>Result\<close> as a sum with \<open>rbind\<close> for \<open>?\<close>, strings as lists of scalar values with
      the \<open>str\<close> operations used, UTF-8, stable sorting, ordered maps, windows, checked integers.
    \<^item> \<open>Rust_Text\<close>, \<open>Json_Value\<close>: the rest of the standard library that the readers of text use (lines,
      splitting, slices at a character boundary, numbers, the UTF-8 decoder), and the values of
      \<open>serde_json\<close> with their readers.
    \<^item> \<open>Contracts\<close>: the interfaces as locales. \<open>canonicaliser\<close> (a normaliser whose results are its own
      normal forms), \<open>presentation_blind\<close> (answers that ignore the order of a presentation),
      \<open>storage_codec\<close> (text columns that decode to what was encoded) and \<open>step_invariant\<close> (a state
      predicate kept by every enabled step). Each is interpreted on the model where it is provided:
      the normalisers in \<open>Workspace_Contract\<close>, the columns in \<open>Store_Board\<close>, the pool of workers in
      \<open>Collaboration_Run\<close>, the store of traces in \<open>Review_Trace\<close>.
    \<^item> \<open>Workspace_Contract\<close>: \<open>wts-core/src/workspace.rs\<close>. The request types are records and datatypes
      with the names of the source, \<open>normalize\<close> is the whole validation with its errors in order. The
      lemmas say which requests are accepted, in declared forms of each part, that the result is canonical, and that the order in
      which repositories, services and ports are listed does not matter.
    \<^item> \<open>Slug\<close>, \<open>Boundary\<close>: \<open>wts-core/src/lib.rs\<close>. \<open>compile\<close>, \<open>verify\<close>, \<open>detect_scope_drift\<close> and \<open>revise\<close>
      with the port leases and the digest input. The lemmas: leases are free and distinct, every
      service belongs to a pinned repository, the order
      of the input does not matter, what is verified is what was compiled, the hashed bytes
      determine the parts.
    \<^item> \<open>Compatibility\<close>: \<open>wts-core/src/compatibility.rs\<close>. The backtracking search, proved to find the
      best compatible vector and to fail only when there is none.
    \<^item> \<open>Store_Model\<close>, \<open>Store_Schema\<close>: the types of \<open>wts-store/src/model.rs\<close> and the tables of the
      migrations as one record \<open>store\<close> of row lists, with their constraints.
      \<open>Store_Records\<close>, \<open>Store_Board\<close>, \<open>Store_Links\<close>, \<open>Store_Reviews\<close>, \<open>Store_Observations\<close>,
      \<open>Store_Workspaces\<close>: \<open>wts-store/src/sqlite.rs\<close>. One definition per function; an SQL statement
      is the list operation it performs; a function that runs in a transaction answers \<open>Inl\<close> an
      error and leaves the store as it was, or \<open>Inr\<close> the result and the new store.
    \<^item> \<open>Store_Board_Lanes\<close>, \<open>Store_Service\<close>, \<open>Store_Invariant\<close>, \<open>Store_Creation\<close>: the theorems on the store.
      \<open>Store_Board_Lanes\<close> gives the board operations their meaning on lanes as lists.
      \<open>Store_Service\<close> collects the public operations in \<open>StoreOp\<close> and \<open>service\<close>, with the frame of each.
      \<open>Store_Invariant\<close> proves that every store reached from the empty one is well formed, so that
      reading never fails and the board partitions the workspaces. \<open>Store_Creation\<close> is about idempotent
      creation, what each operation answers after a removal, and the names of directories. \<open>Store_Sample\<close> is the example the witnesses use.
    \<^item> \<open>Collaboration_Plan\<close>, \<open>Collaboration_Run\<close>, \<open>Collaboration_Execute\<close>: \<open>wts-app/src/collaboration.rs\<close>.
      The checks of a plan; the pool of worker threads as a step function \<open>pool_step\<close> on events, so
      that every interleaving is a list of events; waves, phases, report and retained evidence. The
      lemmas: mutual exclusion of scopes, no deadlock, every task reported once, prerequisites first.
    \<^item> \<open>Time_Review_Draft\<close>: \<open>wts-app/src/time_review.rs\<close>. The draft implements an instant-by-instant
      specification; the schedule agrees with the declarative last due day.
    \<^item> \<open>Activity_Time\<close>, \<open>Activity_Sessions\<close>: \<open>wts-integrations/src/activity_watch.rs\<close>. Time stamps with the
      civil calendar, proved to be read back as written; the evidence kept of titles and addresses;
      the sessions of a day from the requests for buckets and events to the numbered review. The
      lemmas: sessions are disjoint and count only time that was active; evidence is exactly the words
      that the checks on each word as it was written let through.
    \<^item> \<open>Time_Review_Contract\<close>: \<open>wts-integrations/src/time_review.rs\<close>. The brief with its validation, the CSV
      ledger, the prompt, and the check of a proposal against a declarative contract.
    \<^item> \<open>Review_Trace\<close>: \<open>wts-app/src/review_trace.rs\<close>. The lines of agents read as steps, and the store of
      traces, whose invariant on numbers, texts and details holds after every sequence of begins, lines
      and finishes.
    \<^item> \<open>Review_Patch\<close>: the readers of a Git patch in \<open>wts-app/src/service.rs\<close> and \<open>code_review.rs\<close>, against a
      model of the patches that Git writes: quoted paths are read back, changed lines are found
      exactly where a hunk has them, the size gate counts the changed lines of the files shown.
    \<^item> \<open>Code_Review\<close>: \<open>wts-app/src/code_review.rs\<close>. Prompts, the text of an agent, the tolerant reader of a
      review. The lemmas: every text of an answer is bounded, a fenced answer is read.
    \<^item> \<open>Review_Skill\<close>: \<open>wts-app/src/review_skill.rs\<close>. Loading, discovering and selecting skills; the
      skills found are valid, distinct, bounded in size and number.
    \<^item> \<open>Workspace_Review\<close>: \<open>wts-app/src/workspace_code_review.rs\<close>. One run from the request to the saved
      review, over an environment \<open>ReviewEnv\<close> and a state of traces and saved review. The line of an
      anchored finding is found by the scan of its patch, and is a changed line if no other changed line
      reads as a header; every run settles its trace and what it saves.

  \<^bold>\<open>Bounds.\<close> Loops are structural recursions, or recursions with a measure: \<open>find_port\<close> (the free
  ports left), \<open>resolve\<close> and the phases of a plan (the tasks left), \<open>collapse_from\<close> (the sessions to
  the right of the index), \<open>fenced_blocks\<close> and \<open>unquote_bytes\<close> (the text left), \<open>fit_review\<close> (the findings
  left). Only a run of the worker pool
  takes a list of events and a list of schedules: it answers \<open>None\<close> if they end too early, and
  \<open>accepted_plan_returns\<close> shows that for every accepted plan there are schedules, at most one per
  task, with which it returns. Integers are \<open>nat\<close> or \<open>int\<close> with the checks, saturations and
  conversions of the source written out; the theorems named bounds show that they stay in range.

  \<^bold>\<open>Parameters.\<close> SHA-256, the JSON codecs of records and the length of JSON texts, the text form of a
  UUID, Unicode lower-casing, clocks and fresh identifiers, the file system as far as plans look at
  it, and the adapter that runs a task, the two HTTP requests of
  ActivityWatch, the product with a floating-point number of seconds, the JSON and TOML parsers, the UTF-8 decoder of the live
  trace, the upper case of a character, the contents of skill directories, and of one review run the
  diffs, the published comparison, the agent, the search of past comments, the lease and the evidence
  directory are arguments of the definitions that use them. What the theorems need of them is a hypothesis with a witness.

  \<^bold>\<open>Not modelled.\<close> Opening a database, its pragmas and the statements of migrations that move data;
  the rest of \<open>wts-app/src/service.rs\<close>, the catalogue of agent models, the search of past comments with
  its floating-point scores, and the other files of \<open>wts-app\<close> and \<open>wts-integrations\<close>, \<open>wts-git\<close>,
  \<open>wts-server\<close>, \<open>src-tauri\<close>: they
  sequence calls of Git, of processes, of HTTP and of the desktop shell, whose effects are outside
  the sources. Serialisation derived by \<open>serde\<close>, messages of errors and the TypeScript front end.
\<close>

end
